(* ===== verification/Prelude.thy ===== *)
theory Prelude
  imports Main "HOL-Library.List_Lexorder" "HOL-Library.Char_ord" "HOL-Library.Multiset"
begin

text \<open>
  Shared vocabulary of the development: the Go standard-library string and path functions the
  controller uses (\<^verbatim>\<open>strings.Split\<close>, \<^verbatim>\<open>strings.Join\<close>, \<^verbatim>\<open>strings.Cut\<close>, \<^verbatim>\<open>strings.HasPrefix\<close>,
  \<^verbatim>\<open>filepath.Clean\<close>, \<^verbatim>\<open>sort.Strings\<close>), the sum type for fallible code with its sequencing, and
  list facts used by several components.  A Go string is a byte list; \<^verbatim>\<open>string\<close> here is a list of
  8-bit characters, ordered bytewise and lexicographically as Go orders strings.
\<close>

named_theorems res_simps \<open>rules that evaluate the sequencing of fallible steps\<close>

subsection \<open>Fallible results\<close>

definition bindE :: "'e + 'a \<Rightarrow> ('a \<Rightarrow> 'e + 'b) \<Rightarrow> 'e + 'b" where
  "bindE r f = (case r of Inl e \<Rightarrow> Inl e | Inr a \<Rightarrow> f a)"

definition isOk :: "'e + 'a \<Rightarrow> bool" where
  "isOk r = (case r of Inl _ \<Rightarrow> False | Inr _ \<Rightarrow> True)"

subsection \<open>Strings\<close>

fun splitOn :: "char \<Rightarrow> string \<Rightarrow> string list" where
  "splitOn c [] = [[]]"
| "splitOn c (x # xs) =
     (if x = c then [] # splitOn c xs
      else (case splitOn c xs of [] \<Rightarrow> [[x]] | s # ss \<Rightarrow> (x # s) # ss))"

fun joinWith :: "string \<Rightarrow> string list \<Rightarrow> string" where
  "joinWith sep [] = []"
| "joinWith sep [s] = s"
| "joinWith sep (s # t # ss) = s @ sep @ joinWith sep (t # ss)"

fun cutAt :: "char \<Rightarrow> string \<Rightarrow> (string \<times> string) option" where
  "cutAt c [] = None"
| "cutAt c (x # xs) =
     (if x = c then Some ([], xs)
      else (case cutAt c xs of None \<Rightarrow> None | Some (a, b) \<Rightarrow> Some (x # a, b)))"

fun hasPrefix :: "string \<Rightarrow> string \<Rightarrow> bool" where
  "hasPrefix s [] = True"
| "hasPrefix [] (p # ps) = False"
| "hasPrefix (x # xs) (p # ps) = (x = p \<and> hasPrefix xs ps)"

definition cutPrefix :: "string \<Rightarrow> string \<Rightarrow> string option" where
  "cutPrefix s p = (if hasPrefix s p then Some (drop (length p) s) else None)"

definition hasSuffix :: "string \<Rightarrow> string \<Rightarrow> bool" where
  "hasSuffix s p = hasPrefix (rev s) (rev p)"

definition trimSuffix :: "string \<Rightarrow> string \<Rightarrow> string" where
  "trimSuffix s p = (if hasSuffix s p then take (length s - length p) s else s)"

definition trimRightChar :: "char \<Rightarrow> string \<Rightarrow> string" where
  "trimRightChar c s = rev (dropWhile (\<lambda>x. x = c) (rev s))"

text \<open>\<^verbatim>\<open>strings.Contains\<close>.\<close>

fun contains :: "string \<Rightarrow> string \<Rightarrow> bool" where
  "contains [] p = (p = [])"
| "contains (c # s) p = (hasPrefix (c # s) p \<or> contains s p)"

text \<open>\<^verbatim>\<open>strings.TrimSpace\<close> on ASCII text.\<close>

definition isSpaceChar :: "char \<Rightarrow> bool" where
  "isSpaceChar c \<longleftrightarrow> (let n = of_char c :: nat in n = 32 \<or> 9 \<le> n \<and> n \<le> 13)"

definition trimSpace :: "string \<Rightarrow> string" where
  "trimSpace s = rev (dropWhile isSpaceChar (rev (dropWhile isSpaceChar s)))"

subsection \<open>Slash-separated paths\<close>

text \<open>
  \<open>cleanSegs rooted acc segs\<close> is the lexical processing of \<^verbatim>\<open>filepath.Clean\<close> on the slash-separated
  elements; \<open>acc\<close> is the output so far, reversed.
\<close>

fun cleanSegs :: "bool \<Rightarrow> string list \<Rightarrow> string list \<Rightarrow> string list" where
  "cleanSegs rooted acc [] = rev acc"
| "cleanSegs rooted acc (s # ss) =
     (if s = [] \<or> s = ''.'' then cleanSegs rooted acc ss
      else if s = ''..'' then
        (case acc of
           [] \<Rightarrow> (if rooted then cleanSegs rooted [] ss else cleanSegs rooted [''..''] ss)
         | t # ts \<Rightarrow> (if t = ''..'' then cleanSegs rooted (''..'' # acc) ss
                     else cleanSegs rooted ts ss))
      else cleanSegs rooted (s # acc) ss)"

definition isAbs :: "string \<Rightarrow> bool" where
  "isAbs p = hasPrefix p ''/''"

definition cleanPath :: "string \<Rightarrow> string" where
  "cleanPath p =
     (let segs = cleanSegs (isAbs p) [] (splitOn CHR ''/'' p);
          body = joinWith ''/'' segs
      in if isAbs p then CHR ''/'' # body else if segs = [] then ''.'' else body)"

definition joinPath :: "string list \<Rightarrow> string" where
  "joinPath parts =
     (case filter (\<lambda>s. s \<noteq> []) parts of [] \<Rightarrow> [] | ps \<Rightarrow> cleanPath (joinWith ''/'' ps))"

subsection \<open>Lemmas: results\<close>

lemma bindE_simps [simp, res_simps]: "bindE (Inl e) f = Inl e" "bindE (Inr a) f = f a"
  by (simp_all add: bindE_def)

lemma bindE_Inr [res_simps]: "bindE r f = Inr b \<longleftrightarrow> (\<exists>a. r = Inr a \<and> f a = Inr b)"
  by (cases r) simp_all

lemma isOk_simps [simp, res_simps]: "isOk (Inr a)" "\<not> isOk (Inl e)"
  by (simp_all add: isOk_def)

lemma isOk_iff: "isOk r \<longleftrightarrow> (\<exists>a. r = Inr a)"
  by (cases r) simp_all

lemma bindE_cong [fundef_cong]:
  "r = r' \<Longrightarrow> (\<And>a. r' = Inr a \<Longrightarrow> f a = g a) \<Longrightarrow> bindE r f = bindE r' g"
  by (cases r') simp_all

subsection \<open>Lemmas: strings\<close>

lemma splitOn_ne [simp]: "splitOn c s \<noteq> []"
  by (induction s) (auto split: list.splits)

lemma joinWith_Cons: "ss \<noteq> [] \<Longrightarrow> joinWith sep (s # ss) = s @ sep @ joinWith sep ss"
  by (cases ss) simp_all

lemma join_split [simp]: "joinWith [c] (splitOn c s) = s"
proof (induction s)
  case (Cons x xs)
  then show ?case
  proof (cases "splitOn c xs")
    case (Cons s ss)
    with Cons.IH show ?thesis by (cases ss) auto
  qed simp
qed simp

lemma splitOn_no_sep: "c \<notin> set s \<Longrightarrow> splitOn c s = [s]"
  by (induction s) auto

lemma splitOn_append_sep: "c \<notin> set s \<Longrightarrow> splitOn c (s @ c # t) = s # splitOn c t"
  by (induction s) auto

lemma split_join:
  "ss \<noteq> [] \<Longrightarrow> \<forall>s \<in> set ss. c \<notin> set s \<Longrightarrow> splitOn c (joinWith [c] ss) = ss"
proof (induction ss)
  case (Cons s ss)
  then show ?case
    by (cases ss) (auto simp: splitOn_no_sep splitOn_append_sep)
qed simp

lemma splitOn_parts: "s \<in> set (splitOn c t) \<Longrightarrow> c \<notin> set s"
  by (induction t arbitrary: s) (auto split: list.splits if_splits)

lemma cutAt_append: "c \<notin> set a \<Longrightarrow> cutAt c (a @ c # b) = Some (a, b)"
  by (induction a) auto

lemma cutAt_Some: "cutAt c s = Some (a, b) \<Longrightarrow> s = a @ c # b \<and> c \<notin> set a"
  by (induction s arbitrary: a) (auto split: if_splits option.splits)

lemma cutAt_None: "cutAt c s = None \<longleftrightarrow> c \<notin> set s"
  by (induction s) (auto split: option.splits)

lemma hasPrefix_iff: "hasPrefix s p \<longleftrightarrow> (\<exists>t. s = p @ t)"
  by (induction s p rule: hasPrefix.induct) auto

lemma hasPrefix_append [simp]: "hasPrefix (p @ t) p"
  by (auto simp: hasPrefix_iff)

lemma cutPrefix_append [simp]: "cutPrefix (p @ t) p = Some t"
  by (simp add: cutPrefix_def)

lemma cutPrefix_Some: "cutPrefix s p = Some t \<longleftrightarrow> s = p @ t"
  by (auto simp: cutPrefix_def hasPrefix_iff)

lemma hasSuffix_iff: "hasSuffix s p \<longleftrightarrow> (\<exists>t. s = t @ p)"
  unfolding hasSuffix_def hasPrefix_iff
  by (metis rev_append rev_rev_ident)

lemma hasSuffix_append [simp]: "hasSuffix (t @ p) p"
  by (auto simp: hasSuffix_iff)

lemma trimSuffix_append [simp]: "trimSuffix (t @ p) p = t"
  by (simp add: trimSuffix_def)

subsection \<open>Lemmas: paths\<close>

lemma cleanSegs_rooted_no_dotdot:
  "''..'' \<notin> set acc \<Longrightarrow> ''..'' \<notin> set (cleanSegs True acc ss)"
  by (induction "True" acc ss rule: cleanSegs.induct) (auto split: list.splits)

lemma cleanSegs_no_empty:
  "[] \<notin> set acc \<Longrightarrow> ''.'' \<notin> set acc \<Longrightarrow>
   [] \<notin> set (cleanSegs r acc ss) \<and> ''.'' \<notin> set (cleanSegs r acc ss)"
  by (induction r acc ss rule: cleanSegs.induct) (auto split: list.splits)

lemma cleanSegs_id:
  "\<forall>s \<in> set ss. s \<noteq> [] \<and> s \<noteq> ''.'' \<and> s \<noteq> ''..'' \<Longrightarrow> cleanSegs r acc ss = rev acc @ ss"
  by (induction r acc ss rule: cleanSegs.induct) auto

lemma cleanSegs_subset: "set (cleanSegs True acc ss) \<subseteq> set acc \<union> set ss"
  by (induction "True" acc ss rule: cleanSegs.induct) (auto split: list.splits if_splits)

lemma map_filter_set: "set (List.map_filter f xs) = {y. \<exists>x \<in> set xs. f x = Some y}"
  by (induction xs) (auto simp: List.map_filter_simps split: option.splits)

text \<open>Decimal digits of a number, as \<^verbatim>\<open>%d\<close> prints them.\<close>

fun digits :: "nat \<Rightarrow> string" where
  "digits n = (if n < 10 then [char_of (48 + n)] else digits (n div 10) @ [char_of (48 + n mod 10)])"

declare digits.simps [simp del]

definition showInt :: "int \<Rightarrow> string" where
  "showInt i = (if i < 0 then CHR ''-'' # digits (nat (- i)) else digits (nat i))"

text \<open>Arithmetic on \<^verbatim>\<open>int\<close> and \<^verbatim>\<open>int64\<close> wraps around at 64 bits.\<close>

definition wrap64 :: "int \<Rightarrow> int" where
  "wrap64 x = (x + 2 ^ 63) mod 2 ^ 64 - 2 ^ 63"

lemma wrap64_id: "- (2 ^ 63) \<le> x \<Longrightarrow> x < 2 ^ 63 \<Longrightarrow> wrap64 x = x"
  by (simp add: wrap64_def)

text \<open>Splitting at the last separator.\<close>

lemma append_sep_eq:
  fixes c :: char
  assumes "c \<notin> set a" "c \<notin> set b" "x @ c # a = y @ c # b"
  shows "x = y \<and> a = b"
proof -
  have "rev a @ c # rev x = rev b @ c # rev y" using arg_cong [OF assms(3), of rev] by simp
  then have "cutAt c (rev a @ c # rev x) = cutAt c (rev b @ c # rev y)" by (rule arg_cong)
  moreover have "c \<notin> set (rev a)" "c \<notin> set (rev b)" using assms(1,2) by simp_all
  ultimately have "(rev a, rev x) = (rev b, rev y)" by (metis cutAt_append option.inject)
  then show ?thesis by (metis prod.inject rev_rev_ident)
qed

end
