(* ===== verification/Values.thy ===== *)
theory Values
  imports Complex_Main Prelude
begin

text \<open>
  The data every component exchanges: Go errors, the dynamic values \<^verbatim>\<open>any\<close> that a decoded YAML or
  JSON spec consists of, and the resource of pkg/protocol/resource.go.

  A \<^verbatim>\<open>map[string]any\<close> is an association list; its order stands for the order in which one run
  of Go's randomised map iteration delivers the entries, so a fact proved for every order holds for
  every iteration order.  \<open>wf_val\<close> says that keys are distinct, which a Go map guarantees.
  A number is an integer or a finite float64, given by its exact rational value.  Integers are taken
  to be within the exact range of float64 (at most 2 to the 53 in magnitude), so that converting
  one to float64, or writing it to JSON and reading it back, keeps its value.
\<close>

subsection \<open>Errors\<close>

text \<open>
  One constructor per error the code distinguishes (\<^verbatim>\<open>errors.Is\<close>, \<^verbatim>\<open>errors.As\<close>); other errors are
  \<open>Plain\<close> with their message, \<open>NilDeref\<close> is the panic of a nil dereference, \<open>Wrap p e\<close> is \<^verbatim>\<open>fmt.Errorf("p: %w", e)\<close>, and \<open>WrapAround p e s\<close> has the text \<open>s\<close> after the error.
\<close>

datatype err =
    ErrNoRows
  | DbErr string
  | ConflictError string
  | ForgottenError string string string
  | NotFoundError string string
  | ErrMigrationBusy
  | ErrMigrationConflict string
  | ErrMigrationUnsupported string
  | ErrMigrationNotFound
  | CtxCanceled
  | NilDeref
  | Plain string
  | Wrap string err
  | WrapAround string err string

definition hexDigit :: "nat \<Rightarrow> char" where
  "hexDigit n = (if n < 10 then char_of (48 + n) else char_of (87 + n))"

definition quoteChar :: "char \<Rightarrow> string" where
  "quoteChar c =
     (let n = of_char c :: nat in
      if n = 34 then [char_of (92::nat), c]
      else if n = 92 then [c, c]
      else if n = 7 then [char_of (92::nat), CHR ''a'']
      else if n = 8 then [char_of (92::nat), CHR ''b'']
      else if n = 9 then [char_of (92::nat), CHR ''t'']
      else if n = 10 then [char_of (92::nat), CHR ''n'']
      else if n = 11 then [char_of (92::nat), CHR ''v'']
      else if n = 12 then [char_of (92::nat), CHR ''f'']
      else if n = 13 then [char_of (92::nat), CHR ''r'']
      else if n < 32 \<or> n = 127
        then [char_of (92::nat), CHR ''x'', hexDigit (n div 16), hexDigit (n mod 16)]
      else [c])"

text \<open>\<open>goQuote\<close> is the \<^verbatim>\<open>%q\<close> verb (bytes of multi-byte characters are kept as they are).\<close>

definition goQuote :: "string \<Rightarrow> string" where
  "goQuote s = char_of (34::nat) # concat (map quoteChar s) @ [char_of (34::nat)]"

fun errText :: "err \<Rightarrow> string" where
  "errText ErrNoRows = ''sql: no rows in result set''"
| "errText (DbErr m) = m"
| "errText (ConflictError i) = ''operation '' @ i @ '' already in flight for this resource''"
| "errText (ForgottenError av k n) =
     k @ '' '' @ goQuote n
     @ '' was forgotten by this controller; use ctl adopt to reclaim management''"
| "errText (NotFoundError k n) = k @ '' '' @ goQuote n @ '' not found''"
| "errText ErrMigrationBusy =
     ''controller has pending or running operations; wait for them to finish before migration''"
| "errText (ErrMigrationConflict m) =
     ''migration conflicts with current controller intent'' @ (if m = [] then [] else '': '' @ m)"
| "errText (ErrMigrationUnsupported m) =
     ''migration requires a standalone Proxmox VirtualMachine without provider state or resource references''
     @ (if m = [] then [] else '': '' @ m)"
| "errText ErrMigrationNotFound = ''resource has no managed desired manifest''"
| "errText CtxCanceled = ''context canceled''"
| "errText NilDeref = ''runtime error: invalid memory address or nil pointer dereference''"
| "errText (Plain m) = m"
| "errText (Wrap p e) = p @ '': '' @ errText e"
| "errText (WrapAround p e s) = p @ '': '' @ errText e @ s"

text \<open>The error at the end of a \<^verbatim>\<open>%w\<close> chain: what \<^verbatim>\<open>errors.Is\<close> and \<^verbatim>\<open>errors.As\<close> find.\<close>

fun rootErr :: "err \<Rightarrow> err" where
  "rootErr (Wrap p e) = rootErr e"
| "rootErr (WrapAround p e s) = rootErr e"
| "rootErr e = e"

definition isNotFound :: "err \<Rightarrow> bool" where
  "isNotFound e = (case rootErr e of NotFoundError _ _ \<Rightarrow> True | _ \<Rightarrow> False)"

subsection \<open>Dynamic values\<close>

datatype val =
    VNil
  | VBool bool
  | VInt int
  | VFloat rat
  | VStr string
  | VArr "val list"
  | VObj "(string \<times> val) list"

type_synonym obj = "(string \<times> val) list"
type_synonym strmap = "(string \<times> string) list"

text \<open>Indexing a Go map: the zero value when the key is absent.\<close>

definition objGet :: "obj \<Rightarrow> string \<Rightarrow> val" where
  "objGet m k = (case map_of m k of None \<Rightarrow> VNil | Some v \<Rightarrow> v)"

definition strGet :: "strmap \<Rightarrow> string \<Rightarrow> string" where
  "strGet m k = (case map_of m k of None \<Rightarrow> [] | Some v \<Rightarrow> v)"

text \<open>\<^verbatim>\<open>v, ok := m[k].(string)\<close>: the string, or the empty string when absent or of another type.\<close>

definition strField :: "obj \<Rightarrow> string \<Rightarrow> string" where
  "strField m k = (case objGet m k of VStr s \<Rightarrow> s | _ \<Rightarrow> [])"

text \<open>Map assignment: overwrite in place, or add.\<close>

fun putKey :: "('k \<times> 'v) list \<Rightarrow> 'k \<Rightarrow> 'v \<Rightarrow> ('k \<times> 'v) list" where
  "putKey [] k v = [(k, v)]"
| "putKey ((a, b) # m) k v = (if a = k then (k, v) # m else (a, b) # putKey m k v)"

fun wf_val :: "val \<Rightarrow> bool" and wf_kvs :: "(string \<times> val) list \<Rightarrow> bool"
  and wf_arr :: "val list \<Rightarrow> bool" where
  "wf_val (VObj m) = (distinct (map fst m) \<and> wf_kvs m)"
| "wf_val (VArr xs) = wf_arr xs"
| "wf_val VNil = True"
| "wf_val (VBool b) = True"
| "wf_val (VInt i) = True"
| "wf_val (VFloat q) = True"
| "wf_val (VStr s) = True"
| "wf_kvs [] = True"
| "wf_kvs ((k, v) # m) = (wf_val v \<and> wf_kvs m)"
| "wf_arr [] = True"
| "wf_arr (v # xs) = (wf_val v \<and> wf_arr xs)"

text \<open>The numeric value of a number (\<^verbatim>\<open>toFloat\<close>).\<close>

definition numVal :: "val \<Rightarrow> rat option" where
  "numVal v = (case v of VInt i \<Rightarrow> Some (of_int i) | VFloat q \<Rightarrow> Some q | _ \<Rightarrow> None)"

text \<open>A value after a JSON round trip: every number comes back as a float64.\<close>

fun jsonVal :: "val \<Rightarrow> val" and jsonObj :: "(string \<times> val) list \<Rightarrow> obj"
  and jsonArr :: "val list \<Rightarrow> val list" where
  "jsonVal (VObj m) = VObj (jsonObj m)"
| "jsonVal (VArr xs) = VArr (jsonArr xs)"
| "jsonVal VNil = VNil"
| "jsonVal (VBool b) = VBool b"
| "jsonVal (VInt i) = VFloat (of_int i)"
| "jsonVal (VFloat q) = VFloat q"
| "jsonVal (VStr s) = VStr s"
| "jsonObj [] = []"
| "jsonObj ((k, v) # m) = (k, jsonVal v) # jsonObj m"
| "jsonArr [] = []"
| "jsonArr (v # xs) = jsonVal v # jsonArr xs"

subsection \<open>Resources (pkg/protocol/resource.go)\<close>

record resource_metadata =
  md_name :: string
  md_namespace :: string
  md_labels :: strmap
  md_annotations :: strmap
  md_uid :: string
  md_createdAt :: string

record resource =
  r_apiVersion :: string
  r_kind :: string
  r_metadata :: resource_metadata
  r_spec :: "obj option"
  r_status :: "obj option"

abbreviation r_name :: "resource \<Rightarrow> string" where
  "r_name r \<equiv> md_name (r_metadata r)"

definition bareMetadata :: "string \<Rightarrow> resource_metadata" where
  "bareMetadata n = \<lparr>md_name = n, md_namespace = [], md_labels = [], md_annotations = [],
     md_uid = [], md_createdAt = []\<rparr>"

definition bareResource :: "string \<Rightarrow> string \<Rightarrow> string \<Rightarrow> resource" where
  "bareResource av k n = \<lparr>r_apiVersion = av, r_kind = k, r_metadata = bareMetadata n,
     r_spec = None, r_status = None\<rparr>"

text \<open>
  A manifest or result column: empty, the encoding of a resource, or text that does not decode.
  \<^verbatim>\<open>json.Marshal\<close> of a resource is \<open>Doc\<close>; \<^verbatim>\<open>json.Unmarshal\<close> is \<open>decodeDoc\<close>.
\<close>

definition jsonResource :: "resource \<Rightarrow> resource" where
  "jsonResource r = r\<lparr>r_spec := map_option jsonObj (r_spec r),
                      r_status := map_option jsonObj (r_status r)\<rparr>"

datatype doc = NoDoc | Doc resource | BadDoc string

definition decodeDoc :: "doc \<Rightarrow> err + resource" where
  "decodeDoc d =
     (case d of Doc r \<Rightarrow> Inr (jsonResource r)
      | NoDoc \<Rightarrow> Inl (Plain ''unexpected end of JSON input'')
      | BadDoc m \<Rightarrow> Inl (Plain m))"

subsection \<open>Lemmas\<close>

lemma map_of_putKey [simp]: "map_of (putKey m k v) = (map_of m)(k \<mapsto> v)"
  by (induction m) auto

lemma fst_putKey [simp]: "fst ` set (putKey m k v) = insert k (fst ` set m)"
  by (simp flip: dom_map_of_conv_image_fst)

lemma distinct_putKey [simp]:
  "distinct (map fst m) \<Longrightarrow> distinct (map fst (putKey m k v))"
proof (induction m)
  case (Cons p m)
  have "fst ` set (putKey m k v) = insert k (fst ` set m)" by simp
  with Cons show ?case by (cases p) auto
qed simp

lemma strGet_Nil [simp]: "strGet [] k = []"
  by (simp add: strGet_def)

lemma objGet_Nil [simp]: "objGet [] k = VNil"
  by (simp add: objGet_def)

lemma wf_kvs_iff: "wf_kvs m \<longleftrightarrow> (\<forall>v \<in> snd ` set m. wf_val v)"
  by (induction m) auto

lemma wf_arr_iff: "wf_arr xs \<longleftrightarrow> (\<forall>v \<in> set xs. wf_val v)"
  by (induction xs) auto

lemma numVal_simps [simp]:
  "numVal VNil = None" "numVal (VBool b) = None" "numVal (VInt i) = Some (of_int i)"
  "numVal (VFloat q) = Some q" "numVal (VStr s) = None" "numVal (VArr xs) = None"
  "numVal (VObj m) = None"
  by (simp_all add: numVal_def)

lemma numVal_Some: "numVal v = Some q \<longleftrightarrow> (\<exists>i. v = VInt i \<and> q = of_int i) \<or> v = VFloat q"
  by (cases v) auto

lemma jsonObj_map: "jsonObj m = map (\<lambda>(k, v). (k, jsonVal v)) m"
  by (induction m) auto

lemma jsonArr_map: "jsonArr xs = map jsonVal xs"
  by (induction xs) auto

lemma keys_jsonObj [simp]: "map fst (jsonObj m) = map fst m"
  by (induction m) auto

lemma map_of_jsonObj: "map_of (jsonObj m) k = map_option jsonVal (map_of m k)"
  by (induction m) auto

lemma jsonVal_idem [simp]:
  "jsonVal (jsonVal v) = jsonVal v"
  "jsonObj (jsonObj m) = jsonObj m"
  "jsonArr (jsonArr xs) = jsonArr xs"
  by (induction v and m and xs rule: jsonVal_jsonObj_jsonArr.induct) auto

lemma wf_jsonVal [simp]:
  "wf_val (jsonVal v) = wf_val v"
  "wf_kvs (jsonObj m) = wf_kvs m"
  "wf_arr (jsonArr xs) = wf_arr xs"
  by (induction v and m and xs rule: jsonVal_jsonObj_jsonArr.induct) auto

lemma jsonResource_simps [simp]:
  "r_apiVersion (jsonResource r) = r_apiVersion r" "r_kind (jsonResource r) = r_kind r"
  "r_metadata (jsonResource r) = r_metadata r"
  "r_spec (jsonResource r) = map_option jsonObj (r_spec r)"
  "r_status (jsonResource r) = map_option jsonObj (r_status r)"
  "jsonResource (jsonResource r) = jsonResource r"
  by (simp_all add: jsonResource_def option.map_comp comp_def)

lemma rootErr_idem [simp]: "rootErr (rootErr e) = rootErr e"
  by (induction e rule: rootErr.induct) auto

end
