(* ===== verification/Markers.thy ===== *)
theory Markers
  imports Values
begin

text \<open>
  The spec traversal shared by the \<^verbatim>\<open>$ref\<close> resolver (internal/controller/refs/refs.go) and the
  \<^verbatim>\<open>$secret\<close> resolver (internal/controller/secrets/secrets.go).  Both walk a spec tree, ask an
  \<^emph>\<open>extract\<close> function whether a map is a placeholder, and replace each placeholder by what a
  \<^emph>\<open>resolve\<close> function gives.  The contract between walk and extract is the locale
  \<open>marker_walk\<close>: a map is left alone exactly when it lacks the marker key.
\<close>

subsection \<open>The walk\<close>

fun walk_val :: "(obj \<Rightarrow> err + 'r option) \<Rightarrow> ('r \<Rightarrow> err + val) \<Rightarrow> val \<Rightarrow> err + val"
  and walk_kvs :: "(obj \<Rightarrow> err + 'r option) \<Rightarrow> ('r \<Rightarrow> err + val) \<Rightarrow> (string \<times> val) list \<Rightarrow> err + obj"
  and walk_arr :: "(obj \<Rightarrow> err + 'r option) \<Rightarrow> ('r \<Rightarrow> err + val) \<Rightarrow> val list \<Rightarrow> err + val list"
where
  "walk_val ex rs (VObj m) =
     (case ex m of
        Inl e \<Rightarrow> Inl e
      | Inr (Some r) \<Rightarrow> rs r
      | Inr None \<Rightarrow> bindE (walk_kvs ex rs m) (\<lambda>m'. Inr (VObj m')))"
| "walk_val ex rs (VArr xs) = bindE (walk_arr ex rs xs) (\<lambda>xs'. Inr (VArr xs'))"
| "walk_val ex rs VNil = Inr VNil"
| "walk_val ex rs (VBool b) = Inr (VBool b)"
| "walk_val ex rs (VInt i) = Inr (VInt i)"
| "walk_val ex rs (VFloat q) = Inr (VFloat q)"
| "walk_val ex rs (VStr s) = Inr (VStr s)"
| "walk_kvs ex rs [] = Inr []"
| "walk_kvs ex rs ((k, v) # m) =
     bindE (walk_val ex rs v) (\<lambda>v'. bindE (walk_kvs ex rs m) (\<lambda>m'. Inr ((k, v') # m')))"
| "walk_arr ex rs [] = Inr []"
| "walk_arr ex rs (v # xs) =
     bindE (walk_val ex rs v) (\<lambda>v'. bindE (walk_arr ex rs xs) (\<lambda>xs'. Inr (v' # xs')))"

text \<open>Whether some map of the tree has the key, and the placeholders a walk reaches.\<close>

fun hasMarker :: "string \<Rightarrow> val \<Rightarrow> bool" and hasMarker_kvs :: "string \<Rightarrow> (string \<times> val) list \<Rightarrow> bool"
  and hasMarker_arr :: "string \<Rightarrow> val list \<Rightarrow> bool" where
  "hasMarker mk (VObj m) = (map_of m mk \<noteq> None \<or> hasMarker_kvs mk m)"
| "hasMarker mk (VArr xs) = hasMarker_arr mk xs"
| "hasMarker mk VNil = False"
| "hasMarker mk (VBool b) = False"
| "hasMarker mk (VInt i) = False"
| "hasMarker mk (VFloat q) = False"
| "hasMarker mk (VStr s) = False"
| "hasMarker_kvs mk [] = False"
| "hasMarker_kvs mk ((k, v) # m) = (hasMarker mk v \<or> hasMarker_kvs mk m)"
| "hasMarker_arr mk [] = False"
| "hasMarker_arr mk (v # xs) = (hasMarker mk v \<or> hasMarker_arr mk xs)"

fun visit_val :: "(obj \<Rightarrow> err + 'r option) \<Rightarrow> val \<Rightarrow> 'r list"
  and visit_kvs :: "(obj \<Rightarrow> err + 'r option) \<Rightarrow> (string \<times> val) list \<Rightarrow> 'r list"
  and visit_arr :: "(obj \<Rightarrow> err + 'r option) \<Rightarrow> val list \<Rightarrow> 'r list" where
  "visit_val ex (VObj m) =
     (case ex m of Inr (Some r) \<Rightarrow> [r] | Inr None \<Rightarrow> visit_kvs ex m | Inl e \<Rightarrow> visit_kvs ex m)"
| "visit_val ex (VArr xs) = visit_arr ex xs"
| "visit_val ex VNil = []"
| "visit_val ex (VBool b) = []"
| "visit_val ex (VInt i) = []"
| "visit_val ex (VFloat q) = []"
| "visit_val ex (VStr s) = []"
| "visit_kvs ex [] = []"
| "visit_kvs ex ((k, v) # m) = visit_val ex v @ visit_kvs ex m"
| "visit_arr ex [] = []"
| "visit_arr ex (v # xs) = visit_val ex v @ visit_arr ex xs"

subsection \<open>Facts that hold for every extract function\<close>

text \<open>A walk asks \<open>resolve\<close> only about the placeholders a visit collects.\<close>

lemma walk_cong_visit:
  "(\<forall>r \<in> set (visit_val ex v). rs r = rs' r) \<Longrightarrow> walk_val ex rs v = walk_val ex rs' v"
  "(\<forall>r \<in> set (visit_kvs ex m). rs r = rs' r) \<Longrightarrow> walk_kvs ex rs m = walk_kvs ex rs' m"
  "(\<forall>r \<in> set (visit_arr ex xs). rs r = rs' r) \<Longrightarrow> walk_arr ex rs xs = walk_arr ex rs' xs"
  by (induction ex rs v and ex rs m and ex rs xs rule: walk_val_walk_kvs_walk_arr.induct)
     (auto split: sum.splits option.splits intro!: bindE_cong)

text \<open>A walk keeps the keys of a map and their order.\<close>

lemma walk_kvs_keys: "walk_kvs ex rs m = Inr m' \<Longrightarrow> map fst m' = map fst m"
  by (induction m arbitrary: m') (auto simp: bindE_Inr)

lemma walk_kvs_map_of: "walk_kvs ex rs m = Inr m' \<Longrightarrow> (map_of m' k = None) = (map_of m k = None)"
  by (metis map_of_eq_None_iff walk_kvs_keys image_set)

subsection \<open>The contract of a placeholder marker\<close>

locale marker_walk =
  fixes mkey :: string
    and exf :: "obj \<Rightarrow> err + 'r option"
  assumes exf_None: "exf m = Inr None \<longleftrightarrow> map_of m mkey = None"
begin

lemma walk_unmarked_aux:
  "mk = mkey \<Longrightarrow> \<not> hasMarker mk v \<Longrightarrow> walk_val exf rs v = Inr v"
  "mk = mkey \<Longrightarrow> \<not> hasMarker_kvs mk m \<Longrightarrow> walk_kvs exf rs m = Inr m"
  "mk = mkey \<Longrightarrow> \<not> hasMarker_arr mk xs \<Longrightarrow> walk_arr exf rs xs = Inr xs"
proof (induction mk v and mk m and mk xs rule: hasMarker_hasMarker_kvs_hasMarker_arr.induct)
  case (1 mk m)
  then show ?case using exf_None [of m] by auto
qed auto

text \<open>A tree without the marker is returned unchanged.\<close>

lemmas walk_unmarked = walk_unmarked_aux [OF refl]

lemma visit_unmarked_aux:
  "mk = mkey \<Longrightarrow> \<not> hasMarker mk v \<Longrightarrow> visit_val exf v = []"
  "mk = mkey \<Longrightarrow> \<not> hasMarker_kvs mk m \<Longrightarrow> visit_kvs exf m = []"
  "mk = mkey \<Longrightarrow> \<not> hasMarker_arr mk xs \<Longrightarrow> visit_arr exf xs = []"
proof (induction mk v and mk m and mk xs rule: hasMarker_hasMarker_kvs_hasMarker_arr.induct)
  case (1 mk m)
  then show ?case using exf_None [of m] by auto
qed auto

lemmas visit_unmarked = visit_unmarked_aux [OF refl]

text \<open>If every resolved value is free of the marker, so is the result of the walk.\<close>

lemma walk_clean_aux:
  "ex = exf \<Longrightarrow> (\<And>r v. rs r = Inr v \<Longrightarrow> \<not> hasMarker mkey v) \<Longrightarrow>
     walk_val ex rs v = Inr w \<Longrightarrow> \<not> hasMarker mkey w"
  "ex = exf \<Longrightarrow> (\<And>r v. rs r = Inr v \<Longrightarrow> \<not> hasMarker mkey v) \<Longrightarrow>
     walk_kvs ex rs m = Inr m' \<Longrightarrow> \<not> hasMarker_kvs mkey m'"
  "ex = exf \<Longrightarrow> (\<And>r v. rs r = Inr v \<Longrightarrow> \<not> hasMarker mkey v) \<Longrightarrow>
     walk_arr ex rs xs = Inr ys \<Longrightarrow> \<not> hasMarker_arr mkey ys"
proof (induction ex rs v and ex rs m and ex rs xs arbitrary: w and m' and ys
       rule: walk_val_walk_kvs_walk_arr.induct)
  case (1 ex rs m)
  then show ?case
    using exf_None [of m] walk_kvs_map_of [of ex rs m _ mkey]
    by (auto simp: bindE_Inr split: sum.splits option.splits)
qed (auto simp: bindE_Inr)

lemmas walk_clean = walk_clean_aux [OF refl]

text \<open>A walk that succeeds on a marked tree has resolved at least one placeholder.\<close>

lemma walk_marked_aux:
  "mk = mkey \<Longrightarrow> hasMarker mk v \<Longrightarrow> isOk (walk_val exf rs v) \<Longrightarrow> visit_val exf v \<noteq> []"
  "mk = mkey \<Longrightarrow> hasMarker_kvs mk m \<Longrightarrow> isOk (walk_kvs exf rs m) \<Longrightarrow> visit_kvs exf m \<noteq> []"
  "mk = mkey \<Longrightarrow> hasMarker_arr mk xs \<Longrightarrow> isOk (walk_arr exf rs xs) \<Longrightarrow> visit_arr exf xs \<noteq> []"
proof (induction mk v and mk m and mk xs rule: hasMarker_hasMarker_kvs_hasMarker_arr.induct)
  case (1 mk m)
  then show ?case using exf_None [of m]
    by (auto simp: isOk_iff bindE_Inr split: sum.splits option.splits)
qed (auto simp: isOk_iff bindE_Inr)

lemmas walk_marked = walk_marked_aux [OF refl]

end

end
