(* ===== verification/Refs.thy ===== *)
theory Refs
  imports Markers "HOL-Library.Product_Lexorder"
begin

text \<open>
  internal/controller/refs/refs.go: the \<^verbatim>\<open>$ref\<close> placeholder.  A resolver is given by its getter
  (nil is \<open>None\<close>); \<open>Resolve\<close> replaces every placeholder of a spec by the referenced resource or a
  field of it, \<open>CollectRefs\<close> lists the placeholders without resolving them.
\<close>

record ref =
  ref_apiVersion :: string
  ref_kind :: string
  ref_name :: string
  ref_field :: string

type_synonym getter = "string \<Rightarrow> string \<Rightarrow> string \<Rightarrow> err + resource"

definition RefMarker :: string where "RefMarker = ''$ref''"

text \<open>The \<^verbatim>\<open>%T\<close> verb on a decoded value.\<close>

fun goType :: "val \<Rightarrow> string" where
  "goType VNil = ''<nil>''"
| "goType (VBool _) = ''bool''"
| "goType (VInt _) = ''int''"
| "goType (VFloat _) = ''float64''"
| "goType (VStr _) = ''string''"
| "goType (VArr _) = ''[]interface {}''"
| "goType (VObj _) = ''map[string]interface {}''"

definition showRef :: "ref \<Rightarrow> string" where
  "showRef r = ''&{APIVersion:'' @ ref_apiVersion r @ '' Kind:'' @ ref_kind r
     @ '' Name:'' @ ref_name r @ '' Field:'' @ ref_field r @ ''}''"

definition extractRef :: "obj \<Rightarrow> err + ref option" where
  "extractRef m =
     (case map_of m RefMarker of
        None \<Rightarrow> Inr None
      | Some raw \<Rightarrow>
          (case raw of
             VObj obj \<Rightarrow>
               (let r = \<lparr>ref_apiVersion = strField obj ''apiVersion'', ref_kind = strField obj ''kind'',
                         ref_name = strField obj ''name'', ref_field = strField obj ''field''\<rparr>
                in if ref_apiVersion r = [] \<or> ref_kind r = [] \<or> ref_name r = []
                   then Inl (Plain (''ref: apiVersion, kind, and name are required (got ''
                                    @ showRef r @ '')''))
                   else Inr (Some r))
           | _ \<Rightarrow> Inl (Plain (''ref: $ref must be an object (got '' @ goType raw @ '')''))))"

definition refSortKey :: "ref \<Rightarrow> string \<times> string \<times> string \<times> string" where
  "refSortKey r = (ref_kind r, ref_name r, ref_field r, ref_apiVersion r)"

definition CollectRefs :: "obj option \<Rightarrow> ref list" where
  "CollectRefs spec =
     (case spec of None \<Rightarrow> []
      | Some m \<Rightarrow> sort_key refSortKey (visit_val extractRef (VObj m)))"

text \<open>The walk of a dotted path below the chosen root.\<close>

fun walkSegs :: "val \<Rightarrow> string list \<Rightarrow> err + val" where
  "walkSegs current [] = Inr current"
| "walkSegs current (seg # segs) =
     (case current of
        VObj obj \<Rightarrow>
          (case map_of obj seg of
             None \<Rightarrow> Inl (Plain (''path segment '' @ goQuote seg @ '' missing''))
           | Some v \<Rightarrow> walkSegs v segs)
      | _ \<Rightarrow> Inl (Plain (''path segment '' @ goQuote seg @ '' not traversable (got ''
                          @ goType current @ '')'')))"

definition walkPath :: "resource \<Rightarrow> string \<Rightarrow> err + val" where
  "walkPath r path =
     (case splitOn CHR ''.'' path of
        [] \<Rightarrow> Inl (Plain ''empty path'')
      | p # segs \<Rightarrow>
          if p = ''status'' then
            (case r_status r of None \<Rightarrow> Inl (Plain ''resource has no status'')
             | Some m \<Rightarrow> walkSegs (VObj m) segs)
          else if p = ''spec'' then
            (case r_spec r of None \<Rightarrow> Inl (Plain ''resource has no spec'')
             | Some m \<Rightarrow> walkSegs (VObj m) segs)
          else Inl (Plain (''path must start with 'status' or 'spec' (got '' @ goQuote p @ '')'')))"

definition objOr :: "obj option \<Rightarrow> obj" where
  "objOr m = (case m of None \<Rightarrow> [] | Some x \<Rightarrow> x)"

definition wholeResource :: "resource \<Rightarrow> val" where
  "wholeResource r = VObj
     [(''apiVersion'', VStr (r_apiVersion r)), (''kind'', VStr (r_kind r)),
      (''metadata'', VObj [(''name'', VStr (r_name r))]),
      (''spec'', VObj (objOr (r_spec r))), (''status'', VObj (objOr (r_status r)))]"

definition refLabel :: "ref \<Rightarrow> string" where
  "refLabel r = ''ref '' @ ref_apiVersion r @ ''/'' @ ref_kind r @ ''/'' @ ref_name r"

definition resolveRef :: "getter option \<Rightarrow> ref \<Rightarrow> err + val" where
  "resolveRef get r =
     (case get of
        None \<Rightarrow> Inl (Plain ''ref: no Getter configured on Resolver'')
      | Some g \<Rightarrow>
          (case g (ref_apiVersion r) (ref_kind r) (ref_name r) of
             Inl e \<Rightarrow> Inl (Wrap (refLabel r) e)
           | Inr res \<Rightarrow>
               if ref_field r = [] then Inr (wholeResource res)
               else (case walkPath res (ref_field r) of
                       Inl e \<Rightarrow> Inl (Wrap (refLabel r @ '' field '' @ goQuote (ref_field r)) e)
                     | Inr v \<Rightarrow> Inr v)))"

definition walk :: "getter option \<Rightarrow> val \<Rightarrow> err + val" where
  "walk get v = walk_val extractRef (resolveRef get) v"

definition Resolve :: "getter option \<Rightarrow> obj option \<Rightarrow> err + obj option" where
  "Resolve get spec =
     (case spec of
        None \<Rightarrow> Inr None
      | Some m \<Rightarrow>
          (case walk get (VObj m) of
             Inl e \<Rightarrow> Inl e
           | Inr (VObj m') \<Rightarrow> Inr (Some m')
           | Inr v \<Rightarrow> Inl (Plain (''resolver: top-level result is not a map (got ''
                                  @ goType v @ '')''))))"

subsection \<open>The placeholder contract\<close>

lemma extractRef_None: "extractRef m = Inr None \<longleftrightarrow> map_of m RefMarker = None"
  by (auto simp: extractRef_def Let_def split: option.splits val.splits)

interpretation rw: marker_walk RefMarker extractRef
  by unfold_locales (rule extractRef_None)

lemma set_CollectRefs: "set (CollectRefs (Some m)) = set (visit_val extractRef (VObj m))"
  by (simp add: CollectRefs_def)

lemma hasMarker_entry:
  "\<not> hasMarker_kvs mk m \<Longrightarrow> map_of m k = Some v \<Longrightarrow> \<not> hasMarker mk v"
  by (induction m) (auto split: if_splits)

lemma walkSegs_clean:
  "\<not> hasMarker mk v \<Longrightarrow> walkSegs v segs = Inr w \<Longrightarrow> \<not> hasMarker mk w"
  by (induction v segs rule: walkSegs.induct)
     (auto split: val.splits option.splits dest: hasMarker_entry)

abbreviation cleanResource :: "resource \<Rightarrow> bool" where
  "cleanResource r \<equiv> \<not> hasMarker RefMarker (VObj (objOr (r_spec r))) \<and>
                      \<not> hasMarker RefMarker (VObj (objOr (r_status r)))"

lemma walkPath_clean:
  "cleanResource r \<Longrightarrow> walkPath r path = Inr v \<Longrightarrow> \<not> hasMarker RefMarker v"
  by (auto simp: walkPath_def objOr_def split: list.splits if_splits option.splits
           dest!: walkSegs_clean [rotated])

lemma wholeResource_clean: "cleanResource r \<Longrightarrow> \<not> hasMarker RefMarker (wholeResource r)"
  by (simp add: wholeResource_def RefMarker_def)

lemma resolveRef_clean:
  assumes "\<And>av k n r. g av k n = Inr r \<Longrightarrow> cleanResource r"
    and "resolveRef (Some g) r = Inr v"
  shows "\<not> hasMarker RefMarker v"
proof -
  from assms(2) obtain res where res: "g (ref_apiVersion r) (ref_kind r) (ref_name r) = Inr res"
    and v: "v = wholeResource res \<or> walkPath res (ref_field r) = Inr v"
    by (auto simp: resolveRef_def split: sum.splits if_splits)
  from assms(1) [OF res] v show ?thesis
    by (meson wholeResource_clean walkPath_clean)
qed

lemma Resolve_Some:
  "Resolve get (Some m) = Inr out \<longleftrightarrow> (\<exists>m'. walk get (VObj m) = Inr (VObj m') \<and> out = Some m')"
  by (auto simp: Resolve_def split: sum.splits val.splits)

subsection \<open>Properties\<close>

text \<open>
  Resolving a spec reads only the resources that \<open>CollectRefs\<close> lists: two getters that agree on
  the collected references give the same outcome, value or error.  This is what justifies deriving
  the scheduling edges from \<open>CollectRefs\<close>.
\<close>

theorem resolve_reads_only_collected:
  assumes "\<forall>r \<in> set (CollectRefs spec).
             g1 (ref_apiVersion r) (ref_kind r) (ref_name r) =
             g2 (ref_apiVersion r) (ref_kind r) (ref_name r)"
  shows "Resolve (Some g1) spec = Resolve (Some g2) spec"
proof (cases spec)
  case (Some m)
  with assms have "\<forall>r \<in> set (visit_val extractRef (VObj m)).
      resolveRef (Some g1) r = resolveRef (Some g2) r"
    by (simp add: set_CollectRefs resolveRef_def)
  then have "walk (Some g1) (VObj m) = walk (Some g2) (VObj m)"
    unfolding walk_def by (rule walk_cong_visit)
  with Some show ?thesis by (simp add: Resolve_def)
qed (simp add: Resolve_def)

theorem resolve_reads_only_collected_witness:
  "Resolve (Some (\<lambda>_ _ _. Inl (Plain ''a''))) (Some [(''cpu'', VInt 2)]) =
   Resolve (Some (\<lambda>_ _ _. Inl (Plain ''b''))) (Some [(''cpu'', VInt 2)])"
  by (rule resolve_reads_only_collected) code_simp

text \<open>
  After a successful resolve of a spec no \<^verbatim>\<open>$ref\<close> marker is left, provided the referenced
  resources themselves carry none (a resolved value is substituted as it is, not walked again).
\<close>

theorem resolve_leaves_no_marker:
  assumes "\<And>av k n r. g av k n = Inr r \<Longrightarrow> cleanResource r"
    and "Resolve (Some g) (Some m) = Inr (Some m')"
  shows "\<not> hasMarker RefMarker (VObj m') \<and> CollectRefs (Some m') = []"
proof -
  from assms(2) have "walk_val extractRef (resolveRef (Some g)) (VObj m) = Inr (VObj m')"
    by (auto simp: Resolve_Some walk_def)
  then have "\<not> hasMarker RefMarker (VObj m')"
    by (rule rw.walk_clean(1) [rotated]) (rule resolveRef_clean [OF assms(1)])
  then show ?thesis using rw.visit_unmarked(1) [of "VObj m'"]
    by (simp add: CollectRefs_def del: visit_val.simps hasMarker.simps)
qed

theorem resolve_leaves_no_marker_witness:
  "CollectRefs (Some [(''ip'', VStr ''10.0.0.1'')]) = []"
proof -
  let ?g = "\<lambda>av k n. Inr (bareResource av k n\<lparr>r_status := Some [(''ip'', VStr ''10.0.0.1'')]\<rparr>) :: err + resource"
  let ?m = "[(''ip'', VObj [(''$ref'', VObj [(''apiVersion'', VStr ''p/v1''), (''kind'', VStr ''VM''),
              (''name'', VStr ''a''), (''field'', VStr ''status.ip'')])])]"
  have c: "\<And>av k n r. ?g av k n = Inr r \<Longrightarrow> cleanResource r"
    by (auto simp: bareResource_def objOr_def RefMarker_def)
  have "Resolve (Some ?g) (Some ?m) = Inr (Some [(''ip'', VStr ''10.0.0.1'')])" by code_simp
  with c have "\<not> hasMarker RefMarker (VObj [(''ip'', VStr ''10.0.0.1'')]) \<and> CollectRefs (Some [(''ip'', VStr ''10.0.0.1'')]) = []"
    by (rule resolve_leaves_no_marker)
  then show ?thesis ..
qed

text \<open>A spec without a \<^verbatim>\<open>$ref\<close> marker is resolved to itself, whatever the getter is.\<close>

theorem resolve_unmarked_id:
  assumes "\<not> hasMarker RefMarker (VObj m)"
  shows "Resolve get (Some m) = Inr (Some m)"
  using rw.walk_unmarked(1) [OF assms] by (simp add: Resolve_def walk_def)

theorem resolve_unmarked_id_witness:
  "Resolve None (Some [(''cpu'', VInt 2)]) = Inr (Some [(''cpu'', VInt 2)])"
  by (rule resolve_unmarked_id) code_simp

end
