(* ===== verification/Secrets.thy ===== *)
theory Secrets
  imports Markers Refs
begin

text \<open>
  internal/controller/secrets: the \<^verbatim>\<open>$secret\<close> placeholder (secrets.go), the built-in file and
  environment providers (builtin.go) and the action-output provider (action.go).  A registry is the
  list of its providers by name, latest registration of a name in force; a provider is its
  \<^verbatim>\<open>Resolve\<close> function.
\<close>

subsection \<open>Placeholders (secrets.go)\<close>

record secret_ref =
  sr_provider :: string
  sr_key :: string

type_synonym secret_provider = "string \<Rightarrow> err + string"
type_synonym secret_registry = "(string \<times> secret_provider) list"

definition SecretMarker :: string where "SecretMarker = ''$secret''"
definition builtinFileProvider :: string where "builtinFileProvider = ''file''"
definition builtinEnvProvider :: string where "builtinEnvProvider = ''env''"

definition Register :: "secret_registry \<Rightarrow> string \<Rightarrow> secret_provider \<Rightarrow> secret_registry" where
  "Register reg name p = putKey reg name p"

definition lookup :: "secret_registry \<Rightarrow> string \<Rightarrow> secret_provider option" where
  "lookup reg name = map_of reg name"

definition stringField :: "obj \<Rightarrow> string \<Rightarrow> string option" where
  "stringField obj key = (case objGet obj key of VStr v \<Rightarrow> if v \<noteq> [] then Some v else None | _ \<Rightarrow> None)"

text \<open>The message of the last error is cut before the dump of the offending object.\<close>

definition extractSecret :: "obj \<Rightarrow> err + secret_ref option" where
  "extractSecret m =
     (case map_of m SecretMarker of
        None \<Rightarrow> Inr None
      | Some raw \<Rightarrow>
          (case raw of
             VObj obj \<Rightarrow>
               (case stringField obj builtinFileProvider of
                  Some v \<Rightarrow> Inr (Some \<lparr>sr_provider = builtinFileProvider, sr_key = v\<rparr>)
                | None \<Rightarrow>
                    (case stringField obj builtinEnvProvider of
                       Some v \<Rightarrow> Inr (Some \<lparr>sr_provider = builtinEnvProvider, sr_key = v\<rparr>)
                     | None \<Rightarrow>
                         (let r = \<lparr>sr_provider = strField obj ''provider'', sr_key = strField obj ''key''\<rparr>
                          in if sr_provider r = [] \<or> sr_key r = []
                             then Inl (Plain ''secret: needs {provider, key} or a built-in {file|env} sugar'')
                             else Inr (Some r))))
           | _ \<Rightarrow> Inl (Plain (''secret: $secret must be an object (got '' @ goType raw @ '')''))))"

definition resolveSecret :: "secret_registry option \<Rightarrow> secret_ref \<Rightarrow> err + val" where
  "resolveSecret reg r =
     (case reg of
        None \<Rightarrow> Inl (Plain ''secret: no Registry configured on Resolver'')
      | Some rg \<Rightarrow>
          (case lookup rg (sr_provider r) of
             None \<Rightarrow> Inl (Plain (''secret: unknown provider '' @ goQuote (sr_provider r)))
           | Some p \<Rightarrow>
               (case p (sr_key r) of
                  Inl e \<Rightarrow> Inl (Wrap (''secret '' @ sr_provider r @ '':'' @ sr_key r) e)
                | Inr v \<Rightarrow> Inr (VStr v))))"

definition walk :: "secret_registry option \<Rightarrow> val \<Rightarrow> err + val" where
  "walk reg v = walk_val extractSecret (resolveSecret reg) v"

definition Resolve :: "secret_registry option \<Rightarrow> obj option \<Rightarrow> err + obj option" where
  "Resolve reg spec =
     (case spec of
        None \<Rightarrow> Inr None
      | Some m \<Rightarrow>
          (case walk reg (VObj m) of
             Inl e \<Rightarrow> Inl e
           | Inr (VObj m') \<Rightarrow> Inr (Some m')
           | Inr v \<Rightarrow> Inl (Plain (''secrets: top-level result is not a map (got ''
                                  @ goType v @ '')''))))"

definition HasSecrets :: "obj \<Rightarrow> bool" where
  "HasSecrets spec = hasMarker SecretMarker (VObj spec)"

subsection \<open>Built-in providers (builtin.go)\<close>

text \<open>What \<^verbatim>\<open>os.ReadFile\<close> finds at a path.\<close>

datatype file_read = FileData string | FileMissing | FileErr string

definition FileProvider_Resolve :: "string \<Rightarrow> (string \<Rightarrow> file_read) \<Rightarrow> secret_provider" where
  "FileProvider_Resolve rootdir fs key =
     (if key = [] then Inl (Plain ''empty file key'')
      else if isAbs key then
        Inl (Plain (''file key '' @ goQuote key
                    @ '' must be relative to the secrets dir, not absolute''))
      else
        (let clean = cleanPath (joinPath [rootdir, key]); rootClean = cleanPath rootdir in
         if clean \<noteq> rootClean \<and> \<not> hasPrefix clean (rootClean @ ''/'') then
           Inl (Plain (''file key '' @ goQuote key @ '' escapes the secrets dir''))
         else
           (case fs clean of
              FileMissing \<Rightarrow> Inl (Plain (''not found at '' @ clean))
            | FileErr e \<Rightarrow> Inl (Wrap (''read '' @ clean) (Plain e))
            | FileData b \<Rightarrow> Inr (trimRightChar (char_of (10::nat)) b))))"

definition EnvProvider_Resolve :: "(string \<Rightarrow> string option) \<Rightarrow> secret_provider" where
  "EnvProvider_Resolve env key =
     (if key = [] then Inl (Plain ''empty env key'')
      else (case env key of
              None \<Rightarrow> Inl (Plain (''environment variable '' @ goQuote key @ '' not set''))
            | Some v \<Rightarrow> Inr v))"

definition RegisterBuiltins ::
  "secret_registry \<Rightarrow> string \<Rightarrow> (string \<Rightarrow> file_read) \<Rightarrow> (string \<Rightarrow> string option) \<Rightarrow> secret_registry" where
  "RegisterBuiltins reg secretsDir fs env =
     Register (Register reg builtinFileProvider (FileProvider_Resolve secretsDir fs))
       builtinEnvProvider (EnvProvider_Resolve env)"

subsection \<open>The action-output provider (action.go)\<close>

record action_output =
  ao_download :: string
  ao_message :: string
  ao_url :: string

record action_key =
  ak_apiVersion :: string
  ak_kind :: string
  ak_name :: string
  ak_action :: string
  ak_field :: string

definition parseActionKey :: "string \<Rightarrow> err + action_key" where
  "parseActionKey key =
     (case cutAt CHR ''#'' key of
        None \<Rightarrow> Inl (Plain (''action secret key '' @ goQuote key
                     @ '': want '' @ goQuote ''<apiVersion>/<kind>/<name>#<action>''))
      | Some (r, actionPart) \<Rightarrow>
          (case splitOn CHR ''/'' r of
             [s0, s1, s2, s3] \<Rightarrow>
               if s0 = [] \<or> s1 = [] \<or> s2 = [] \<or> s3 = [] then
                 Inl (Plain (''action secret key '' @ goQuote key
                      @ '': ref must be <domain>/<version>/<kind>/<name>''))
               else
                 (let (action, field) =
                        (case cutAt CHR '':'' actionPart of None \<Rightarrow> (actionPart, []) | Some p \<Rightarrow> p)
                  in if action = [] then
                       Inl (Plain (''action secret key '' @ goQuote key
                            @ '': missing action after '#' ''))
                     else Inr \<lparr>ak_apiVersion = s0 @ ''/'' @ s1, ak_kind = s2, ak_name = s3,
                               ak_action = action, ak_field = field\<rparr>)
           | _ \<Rightarrow> Inl (Plain (''action secret key '' @ goQuote key
                      @ '': ref must be <domain>/<version>/<kind>/<name>''))))"

definition fieldOrDefault :: "string \<Rightarrow> string" where
  "fieldOrDefault field = (if field = [] then ''download'' else field)"

type_synonym action_invoker =
  "string \<Rightarrow> string \<Rightarrow> string \<Rightarrow> string \<Rightarrow> err + action_output option"

definition ActionProvider_Resolve :: "action_invoker option \<Rightarrow> secret_provider" where
  "ActionProvider_Resolve invoke key =
     bindE (parseActionKey key) (\<lambda>k.
       case invoke of
         None \<Rightarrow> Inl (Plain ''action secret provider is not wired to an invoker'')
       | Some f \<Rightarrow>
           (case f (ak_apiVersion k) (ak_kind k) (ak_name k) (ak_action k) of
              Inl e \<Rightarrow> Inl (Wrap (''action secret '' @ goQuote key) e)
            | Inr None \<Rightarrow> Inl (Plain (''action secret '' @ goQuote key
                                   @ '': action returned no result''))
            | Inr (Some out) \<Rightarrow>
                (let fld = ak_field k;
                     pick = (if fld = [] \<or> fld = ''download'' then Some (ao_download out)
                             else if fld = ''message'' then Some (ao_message out)
                             else if fld = ''url'' then Some (ao_url out) else None)
                 in case pick of
                      None \<Rightarrow> Inl (Plain (''action secret '' @ goQuote key @ '': unknown field ''
                                 @ goQuote fld @ '' (want download|message|url)''))
                    | Some v \<Rightarrow>
                        if v = [] then Inl (Plain (''action secret '' @ goQuote key @ '': ''
                                 @ fieldOrDefault fld @ '' field is empty''))
                        else Inr v)))"

subsection \<open>The placeholder contract\<close>

lemma extractSecret_None: "extractSecret m = Inr None \<longleftrightarrow> map_of m SecretMarker = None"
  by (auto simp: extractSecret_def Let_def split: option.splits val.splits)

interpretation sw: marker_walk SecretMarker extractSecret
  by unfold_locales (rule extractSecret_None)

lemma resolveSecret_string: "resolveSecret reg r = Inr v \<Longrightarrow> \<exists>s. v = VStr s"
  by (auto simp: resolveSecret_def split: option.splits sum.splits)

lemma Secrets_Resolve_Some:
  "Resolve reg (Some m) = Inr out \<longleftrightarrow> (\<exists>m'. walk reg (VObj m) = Inr (VObj m') \<and> out = Some m')"
  by (auto simp: Resolve_def split: sum.splits val.splits)

lemma secrets_clean:
  assumes "Resolve reg (Some m) = Inr (Some m')"
  shows "\<not> HasSecrets m'"
proof -
  from assms have "walk_val extractSecret (resolveSecret reg) (VObj m) = Inr (VObj m')"
    by (auto simp: Secrets_Resolve_Some walk_def)
  moreover have "\<not> hasMarker SecretMarker v" if "resolveSecret reg r = Inr v" for r v
    using resolveSecret_string [OF that] by auto
  ultimately have "\<not> hasMarker SecretMarker (VObj m')"
    using sw.walk_clean(1) by blast
  then show ?thesis by (simp add: HasSecrets_def)
qed

lemma secrets_unmarked: "\<not> HasSecrets m \<Longrightarrow> Resolve reg (Some m) = Inr (Some m)"
  using sw.walk_unmarked(1) [of "VObj m"] by (simp add: Resolve_def walk_def HasSecrets_def)

subsection \<open>Cleaned paths\<close>

lemma isAbs_Cons: "isAbs p \<longleftrightarrow> (\<exists>t. p = CHR ''/'' # t)"
  by (auto simp: isAbs_def hasPrefix_iff)

lemma cleanPath_abs: "isAbs p \<Longrightarrow> isAbs (cleanPath p)"
  by (simp add: cleanPath_def isAbs_Cons Let_def)

lemma cleanPath_segs:
  assumes "isAbs p"
  shows "set (splitOn CHR ''/'' (cleanPath p)) \<subseteq>
           insert [] (set (cleanSegs True [] (splitOn CHR ''/'' p)))"
proof -
  let ?segs = "cleanSegs True [] (splitOn CHR ''/'' p)"
  have "\<forall>s \<in> set ?segs. CHR ''/'' \<notin> set s"
    using cleanSegs_subset [of "[]" "splitOn CHR ''/'' p"] splitOn_parts by fastforce
  then have "splitOn CHR ''/'' (joinWith ''/'' ?segs) = (if ?segs = [] then [[]] else ?segs)"
    using split_join [of ?segs "CHR ''/''"] by simp
  with assms show ?thesis by (auto simp: cleanPath_def Let_def)
qed

lemma cleanPath_no_dotdot:
  assumes "isAbs p"
  shows "''..'' \<notin> set (splitOn CHR ''/'' (cleanPath p))"
  using cleanPath_segs [OF assms] cleanSegs_rooted_no_dotdot [of "[]" "splitOn CHR ''/'' p"]
  by auto

lemma joinPath_abs: "isAbs d \<Longrightarrow> isAbs (joinPath [d, k])"
  by (auto simp: joinPath_def isAbs_Cons cleanPath_def Let_def)

subsection \<open>Properties\<close>

text \<open>
  A successful resolve leaves no \<^verbatim>\<open>$secret\<close> marker: unlike references, a secret always
  resolves to a string, so no condition on the providers is needed.
\<close>

theorem secrets_resolve_leaves_no_marker:
  assumes "Resolve reg (Some m) = Inr (Some m')"
  shows "\<not> HasSecrets m' \<and> Resolve reg' (Some m') = Inr (Some m')"
  using secrets_clean [OF assms] secrets_unmarked by blast

theorem secrets_resolve_leaves_no_marker_witness:
  "\<not> HasSecrets [(''token'', VStr ''s3cr3t'')]"
proof -
  have "Resolve (Some [(''env'', \<lambda>k. Inr ''s3cr3t'')])
      (Some [(''token'', VObj [(''$secret'', VObj [(''env'', VStr ''TOKEN'')])])])
    = Inr (Some [(''token'', VStr ''s3cr3t'')])" by code_simp
  from secrets_resolve_leaves_no_marker [OF this] show ?thesis by blast
qed

text \<open>
  \<open>HasSecrets\<close> decides exactly when a registry is needed: a spec passes the resolver
  unchanged without any registry if and only if it has no secret marker.
\<close>

theorem hasSecrets_iff_registry_needed:
  "HasSecrets m \<longleftrightarrow> Resolve None (Some m) \<noteq> Inr (Some m)"
  using secrets_clean [of None m m] secrets_unmarked [of m None] by blast

text \<open>
  The file provider never reads outside its directory: its answer depends only on the files at
  the cleaned directory or below it, at paths without a parent-directory element.
\<close>

theorem file_provider_confined:
  assumes "isAbs dir"
    and "\<And>p. (p = cleanPath dir \<or> hasPrefix p (cleanPath dir @ ''/'')) \<Longrightarrow>
              ''..'' \<notin> set (splitOn CHR ''/'' p) \<Longrightarrow> fs1 p = fs2 p"
  shows "FileProvider_Resolve dir fs1 key = FileProvider_Resolve dir fs2 key"
proof -
  let ?c = "cleanPath (joinPath [dir, key])"
  have "''..'' \<notin> set (splitOn CHR ''/'' ?c)"
    using assms(1) by (intro cleanPath_no_dotdot joinPath_abs)
  with assms(2) [of ?c] show ?thesis
    by (auto simp: FileProvider_Resolve_def Let_def)
qed

theorem file_provider_confined_witness:
  "FileProvider_Resolve ''/secrets'' (\<lambda>p. if p = ''/etc/passwd'' then FileData ''root'' else FileMissing) ''../etc/passwd'' =
   FileProvider_Resolve ''/secrets'' (\<lambda>p. FileMissing) ''../etc/passwd''"
proof (rule file_provider_confined)
  show "isAbs ''/secrets''" by code_simp
  have c: "cleanPath ''/secrets'' = ''/secrets''" by code_simp
  show "(if p = ''/etc/passwd'' then FileData ''root'' else FileMissing) = FileMissing"
    if "p = cleanPath ''/secrets'' \<or> hasPrefix p (cleanPath ''/secrets'' @ ''/'')"
      and "''..'' \<notin> set (splitOn CHR ''/'' p)" for p
    using that(1) unfolding c by auto
qed

text \<open>
  The key grammar of action secrets round-trips: composing
  \<^verbatim>\<open>domain/version/kind/name#action:field\<close> from non-empty parts without separator characters and
  parsing it gives the parts back, and likewise without the field.
\<close>

theorem parseActionKey_roundtrip:
  assumes "\<forall>s \<in> {dm, ver, knd, nm}. s \<noteq> [] \<and> CHR ''/'' \<notin> set s \<and> CHR ''#'' \<notin> set s"
    and "act \<noteq> []" and "CHR '':'' \<notin> set act"
  shows "parseActionKey (dm @ ''/'' @ ver @ ''/'' @ knd @ ''/'' @ nm @ ''#'' @ act @ '':'' @ fld) =
           Inr \<lparr>ak_apiVersion = dm @ ''/'' @ ver, ak_kind = knd, ak_name = nm,
                ak_action = act, ak_field = fld\<rparr> \<and>
         parseActionKey (dm @ ''/'' @ ver @ ''/'' @ knd @ ''/'' @ nm @ ''#'' @ act) =
           Inr \<lparr>ak_apiVersion = dm @ ''/'' @ ver, ak_kind = knd, ak_name = nm,
                ak_action = act, ak_field = []\<rparr>"
proof -
  let ?r = "joinWith ''/'' [dm, ver, knd, nm]"
  have r: "?r = dm @ ''/'' @ ver @ ''/'' @ knd @ ''/'' @ nm" by simp
  have hash: "CHR ''#'' \<notin> set ?r" using assms(1) by simp
  have split: "splitOn CHR ''/'' ?r = [dm, ver, knd, nm]"
    using assms(1) by (intro split_join) auto
  have cut: "cutAt CHR ''#'' (?r @ CHR ''#'' # rest) = Some (?r, rest)" for rest
    using hash by (rule cutAt_append)
  have none: "cutAt CHR '':'' act = None" using assms(3) by (simp add: cutAt_None)
  show ?thesis
    using cut [of "act @ '':'' @ fld"] cut [of act] split none assms(1,2)
      cutAt_append [OF assms(3), of fld]
    by (simp add: parseActionKey_def r)
qed

theorem parseActionKey_roundtrip_witness:
  "parseActionKey (''k3s.openctl.io'' @ ''/'' @ ''v1'' @ ''/'' @ ''Cluster'' @ ''/'' @ ''dev'' @ ''#'' @ ''kubeconfig'' @ '':'' @ ''url'') =
     Inr \<lparr>ak_apiVersion = ''k3s.openctl.io'' @ ''/'' @ ''v1'', ak_kind = ''Cluster'', ak_name = ''dev'',
          ak_action = ''kubeconfig'', ak_field = ''url''\<rparr>"
  by (rule parseActionKey_roundtrip [THEN conjunct1]) simp_all

end
