(* ===== verification/Registry.thy ===== *)
theory Registry
  imports Refs
begin

text \<open>
  internal/controller/providers/provider.go: the provider interface with its optional capabilities
  and the registry that routes an apiVersion to a provider.

  A provider is a record of functions over a world \<^typ>\<open>'w\<close> (the database, the providers' platforms);
  an optional Go interface the provider may implement is an \<^verbatim>\<open>option\<close> field.  A registry is an
  association list whose order is the order of one map iteration.
\<close>

record resource_ref =
  rr_apiVersion :: string
  rr_kind :: string
  rr_name :: string

record advanced_kind =
  ak_kind :: string
  ak_ownerKind :: string
  ak_note :: string

record action_parameter =
  ap_name :: string
  ap_type :: string
  ap_required :: bool
  ap_description :: string
  ap_default :: string

record action_spec =
  as_name :: string
  as_description :: string
  as_parameters :: "action_parameter list"

record action_result =
  ar_message :: string
  ar_url :: string
  ar_downloadContent :: string
  ar_downloadFilename :: string

record 'w actioner =
  ac_actions :: "string \<Rightarrow> string list"
  ac_doAction :: "string \<Rightarrow> string \<Rightarrow> string \<Rightarrow> 'w \<Rightarrow> (err + action_result option) \<times> 'w"
  ac_withParams ::
    "(string \<Rightarrow> string \<Rightarrow> string \<Rightarrow> strmap \<Rightarrow> 'w \<Rightarrow> (err + action_result option) \<times> 'w) option"
  ac_specs :: "(string \<Rightarrow> action_spec list) option"

record 'w provider =
  pv_name :: string
  pv_kinds :: "string list"
  pv_apply :: "resource \<Rightarrow> 'w \<Rightarrow> (err + resource option) \<times> 'w"
  pv_get :: "string \<Rightarrow> string \<Rightarrow> 'w \<Rightarrow> err + resource option"
  pv_list :: "string \<Rightarrow> 'w \<Rightarrow> err + resource list"
  pv_delete :: "string \<Rightarrow> string \<Rightarrow> 'w \<Rightarrow> err option \<times> 'w"
  pv_ownerOf :: "(string \<Rightarrow> string \<Rightarrow> (string \<times> string) option) option"
  pv_childrenOf :: "(string \<Rightarrow> string \<Rightarrow> resource_ref list) option"
  pv_observedOnly :: "string list option"
  pv_driftSpecs :: "(string \<Rightarrow> obj option \<Rightarrow> obj option \<Rightarrow> obj option \<times> obj option) option"
  pv_plan :: "(resource \<Rightarrow> 'w \<Rightarrow> err + resource list option) option"
  pv_advanced :: "advanced_kind list option"
  pv_actioner :: "'w actioner option"

type_synonym 'w registry = "(string \<times> 'w provider) list"

definition providerAPIVersion :: "'w provider \<Rightarrow> string" where
  "providerAPIVersion p = pv_name p @ ''.openctl.io/v1''"

definition providerNameFromAPIVersion :: "string \<Rightarrow> string" where
  "providerNameFromAPIVersion apiVersion =
     (if apiVersion = [] then []
      else (case cutAt CHR ''.'' apiVersion of None \<Rightarrow> [] | Some (before, _) \<Rightarrow> before))"

text \<open>Duplicate registration panics: \<open>None\<close>.\<close>

definition Register :: "'w registry \<Rightarrow> 'w provider \<Rightarrow> 'w registry option" where
  "Register r p =
     (case map_of r (pv_name p) of
        Some _ \<Rightarrow> None
      | None \<Rightarrow> Some (r @ [(pv_name p, p)]))"

definition knownNames :: "'w registry \<Rightarrow> string list" where
  "knownNames r = map fst r"

definition For :: "'w registry \<Rightarrow> string \<Rightarrow> err + 'w provider" where
  "For r apiVersion =
     (let name = providerNameFromAPIVersion apiVersion in
      if name = [] then
        Inl (Plain (''invalid apiVersion '' @ goQuote apiVersion
                    @ '' (expected `<provider>.openctl.io/<version>`)''))
      else (case map_of r name of
              None \<Rightarrow> Inl (Plain (''no provider registered for apiVersion '' @ goQuote apiVersion
                         @ '' (have: '' @ joinWith '', '' (knownNames r) @ '')''))
            | Some p \<Rightarrow> Inr p))"

definition advancedKindsStep ::
  "(string \<times> advanced_kind) list \<Rightarrow> string \<times> 'w provider \<Rightarrow> (string \<times> advanced_kind) list" where
  "advancedKindsStep out np =
     (case pv_advanced (snd np) of
        None \<Rightarrow> out
      | Some aks \<Rightarrow> foldl (\<lambda>acc ak. putKey acc (fst np @ ''/'' @ ak_kind ak) ak) out aks)"

definition AdvancedKinds :: "'w registry option \<Rightarrow> (string \<times> advanced_kind) list" where
  "AdvancedKinds r = (case r of None \<Rightarrow> [] | Some rg \<Rightarrow> foldl advancedKindsStep [] rg)"

fun OwnerOf :: "'w registry \<Rightarrow> string \<Rightarrow> string \<Rightarrow> (string \<times> string) option" where
  "OwnerOf [] kind name = None"
| "OwnerOf ((_, p) # r) kind name =
     (case pv_ownerOf p of
        None \<Rightarrow> OwnerOf r kind name
      | Some owner \<Rightarrow> (case owner kind name of Some kn \<Rightarrow> Some kn | None \<Rightarrow> OwnerOf r kind name))"

fun OwnerRefOf :: "'w registry \<Rightarrow> string \<Rightarrow> string \<Rightarrow> resource_ref option" where
  "OwnerRefOf [] kind name = None"
| "OwnerRefOf ((_, p) # r) kind name =
     (case pv_ownerOf p of
        None \<Rightarrow> OwnerRefOf r kind name
      | Some owner \<Rightarrow>
          (case owner kind name of
             None \<Rightarrow> OwnerRefOf r kind name
           | Some (k, n) \<Rightarrow>
               Some \<lparr>rr_apiVersion = providerAPIVersion p, rr_kind = k, rr_name = n\<rparr>))"

definition ChildrenOf :: "'w registry \<Rightarrow> string \<Rightarrow> string \<Rightarrow> resource_ref list" where
  "ChildrenOf r kind name =
     concat (map (\<lambda>(_, p). case pv_childrenOf p of None \<Rightarrow> [] | Some f \<Rightarrow> f kind name) r)"

definition ActionsFor :: "'w registry \<Rightarrow> string \<Rightarrow> string \<Rightarrow> string list" where
  "ActionsFor r apiVersion kind =
     (case For r apiVersion of
        Inl _ \<Rightarrow> []
      | Inr p \<Rightarrow> (case pv_actioner p of None \<Rightarrow> [] | Some a \<Rightarrow> ac_actions a kind))"

definition ActionSpecsFor :: "'w registry \<Rightarrow> string \<Rightarrow> string \<Rightarrow> action_spec list" where
  "ActionSpecsFor r apiVersion kind =
     (case For r apiVersion of
        Inl _ \<Rightarrow> []
      | Inr p \<Rightarrow>
          (case pv_actioner p of
             None \<Rightarrow> []
           | Some a \<Rightarrow>
               (case ac_specs a of
                  Some specs \<Rightarrow> specs kind
                | None \<Rightarrow> map (\<lambda>n. \<lparr>as_name = n, as_description = [], as_parameters = []\<rparr>)
                            (ac_actions a kind))))"

definition DoAction ::
  "'w registry \<Rightarrow> string \<Rightarrow> string \<Rightarrow> string \<Rightarrow> string \<Rightarrow> strmap \<Rightarrow> 'w \<Rightarrow>
   (err + action_result option) \<times> 'w" where
  "DoAction r apiVersion kind name action params w =
     (case For r apiVersion of
        Inl e \<Rightarrow> (Inl e, w)
      | Inr p \<Rightarrow>
          (case pv_actioner p of
             None \<Rightarrow> (Inl (Plain (''provider '' @ goQuote (pv_name p)
                        @ '' does not support runtime actions'')), w)
           | Some a \<Rightarrow>
               if \<not> List.member (ac_actions a kind) action then
                 (Inl (Plain (''action '' @ goQuote action @ '' not supported for kind ''
                              @ goQuote kind)), w)
               else (case ac_withParams a of
                       Some f \<Rightarrow> f kind name action params w
                     | None \<Rightarrow> ac_doAction a kind name action w)))"

text \<open>
  The registry as the reference getter.  A provider that answers nil without an error would make
  the resolver dereference nil.
\<close>

definition RegGet :: "'w registry \<Rightarrow> 'w \<Rightarrow> getter" where
  "RegGet r w apiVersion kind name =
     bindE (For r apiVersion) (\<lambda>p.
       case pv_get p kind name w of
         Inl e \<Rightarrow> Inl e
       | Inr None \<Rightarrow> Inl NilDeref
       | Inr (Some res) \<Rightarrow> Inr res)"

definition IsObservedOnly :: "'w registry \<Rightarrow> string \<Rightarrow> string \<Rightarrow> bool" where
  "IsObservedOnly r apiVersion kind =
     (case For r apiVersion of
        Inl _ \<Rightarrow> False
      | Inr p \<Rightarrow> (case pv_observedOnly p of None \<Rightarrow> False | Some ks \<Rightarrow> List.member ks kind))"

definition DriftSpecs ::
  "'w provider \<Rightarrow> string \<Rightarrow> obj option \<Rightarrow> obj option \<Rightarrow> obj option \<times> obj option" where
  "DriftSpecs p kind desired observed =
     (case pv_driftSpecs p of None \<Rightarrow> (desired, observed) | Some f \<Rightarrow> f kind desired observed)"

subsection \<open>Properties\<close>

lemma For_Inr:
  "For r av = Inr p \<longleftrightarrow>
     providerNameFromAPIVersion av \<noteq> [] \<and> map_of r (providerNameFromAPIVersion av) = Some p"
  by (auto simp: For_def Let_def split: option.splits)

lemma providerName_of_apiVersion:
  "CHR ''.'' \<notin> set n \<Longrightarrow> providerNameFromAPIVersion (n @ ''.openctl.io/'' @ v) = n"
  using cutAt_append [of "CHR ''.''" n "''openctl.io/'' @ v"]
  by (simp add: providerNameFromAPIVersion_def)

text \<open>
  Registration and lookup agree: a provider with a non-empty dot-free name that registers without
  a panic is the one found for its canonical apiVersion (and for any other version of its group),
  and lookups that succeeded before still give the same provider.
\<close>

theorem register_then_for:
  assumes "Register r p = Some r'" and "pv_name p \<noteq> []" and "CHR ''.'' \<notin> set (pv_name p)"
  shows "For r' (providerAPIVersion p) = Inr p \<and>
         For r' (pv_name p @ ''.openctl.io/'' @ v) = Inr p \<and>
         (\<forall>av q. For r av = Inr q \<longrightarrow> For r' av = Inr q)"
proof -
  from assms(1) have r': "r' = r @ [(pv_name p, p)]" and new: "map_of r (pv_name p) = None"
    by (auto simp: Register_def split: option.splits)
  have "providerNameFromAPIVersion (providerAPIVersion p) = pv_name p"
    using providerName_of_apiVersion [OF assms(3), of "''v1''"] by (simp add: providerAPIVersion_def)
  moreover have "providerNameFromAPIVersion (pv_name p @ ''.openctl.io/'' @ v) = pv_name p"
    by (rule providerName_of_apiVersion [OF assms(3)])
  ultimately show ?thesis using assms(2) r' new
    by (auto simp: For_Inr map_add_def)
qed

text \<open>A provider that answers nothing, for the examples.\<close>

definition sampleProvider :: "string \<Rightarrow> unit provider" where
  "sampleProvider n = \<lparr>pv_name = n, pv_kinds = [''VM''],
     pv_apply = (\<lambda>r w. (Inr (Some r), w)), pv_get = (\<lambda>k n w. Inr None), pv_list = (\<lambda>k w. Inr []),
     pv_delete = (\<lambda>k n w. (None, w)), pv_ownerOf = None, pv_childrenOf = None, pv_observedOnly = None,
     pv_driftSpecs = None, pv_plan = None, pv_advanced = None, pv_actioner = None\<rparr>"

theorem register_then_for_witness:
  "For [(''proxmox'', sampleProvider ''proxmox'')] (providerAPIVersion (sampleProvider ''proxmox'')) = Inr (sampleProvider ''proxmox'')"
  by (rule register_then_for [THEN conjunct1, of "[]"]) (simp_all add: Register_def sampleProvider_def)

text \<open>
  The owner triple used to block deletes and the owner reference shown to clients name the same
  owner, whichever order the registry map is iterated in.
\<close>

theorem ownerRef_agrees:
  "OwnerOf r kind name = map_option (\<lambda>x. (rr_kind x, rr_name x)) (OwnerRefOf r kind name)"
  by (induction r kind name rule: OwnerOf.induct) (auto split: option.splits)

text \<open>
  A runtime action reaches a provider only if that provider lists it for the kind: for any other
  action the call is an error and the world is unchanged.
\<close>

theorem doAction_only_listed:
  assumes "action \<notin> set (ActionsFor r apiVersion kind)"
  shows "snd (DoAction r apiVersion kind name action params w) = w \<and>
         \<not> isOk (fst (DoAction r apiVersion kind name action params w))"
  using assms
  by (auto simp: DoAction_def ActionsFor_def split: sum.splits option.splits)

theorem doAction_only_listed_witness:
  "\<not> isOk (fst (DoAction [(''proxmox'', sampleProvider ''proxmox'')] ''proxmox.openctl.io/v1'' ''VM'' ''a'' ''reboot'' [] ()))"
  by (rule doAction_only_listed [THEN conjunct2]) code_simp

end
