(* ===== verification/Hashing.thy ===== *)
theory Hashing
  imports Values
begin

text \<open>
  internal/controller/manifests/hash.go: the verifying-trace cache key.  \<open>normalize\<close> turns every map
  into the list of its entries in key order, \<open>marshal\<close> is the shape \<^verbatim>\<open>json.Marshal\<close> gives to that
  value (a number is represented by its value), and the hash applies a digest (the hex SHA-256 of the JSON bytes), a parameter of the model.
\<close>

datatype nval =
    NNil
  | NBool bool
  | NNum rat
  | NStr string
  | NArr "nval list"
  | NKVs "(string \<times> nval) list"

text \<open>JSON documents as they leave the encoder: an entry is the object with fields k and v.\<close>

datatype json =
    JNull
  | JBool bool
  | JNum rat
  | JStr string
  | JArr "json list"
  | JKV string json

fun normalize :: "val \<Rightarrow> nval" and normalize_kvs :: "(string \<times> val) list \<Rightarrow> (string \<times> nval) list"
  and normalize_arr :: "val list \<Rightarrow> nval list" where
  "normalize (VObj m) = NKVs (sort_key fst (normalize_kvs m))"
| "normalize (VArr xs) = NArr (normalize_arr xs)"
| "normalize VNil = NNil"
| "normalize (VBool b) = NBool b"
| "normalize (VInt i) = NNum (of_int i)"
| "normalize (VFloat q) = NNum q"
| "normalize (VStr s) = NStr s"
| "normalize_kvs [] = []"
| "normalize_kvs ((k, v) # m) = (k, normalize v) # normalize_kvs m"
| "normalize_arr [] = []"
| "normalize_arr (v # xs) = normalize v # normalize_arr xs"

text \<open>The case of a \<^verbatim>\<open>map[string]string\<close>.\<close>

definition normalize_labels :: "strmap \<Rightarrow> nval" where
  "normalize_labels m = NKVs (sort_key fst (map (\<lambda>(k, s). (k, NStr s)) m))"

fun marshal :: "nval \<Rightarrow> json" and marshal_kvs :: "(string \<times> nval) list \<Rightarrow> json list"
  and marshal_arr :: "nval list \<Rightarrow> json list" where
  "marshal (NKVs m) = JArr (marshal_kvs m)"
| "marshal (NArr xs) = JArr (marshal_arr xs)"
| "marshal NNil = JNull"
| "marshal (NBool b) = JBool b"
| "marshal (NNum q) = JNum q"
| "marshal (NStr s) = JStr s"
| "marshal_kvs [] = []"
| "marshal_kvs ((k, v) # m) = JKV k (marshal v) # marshal_kvs m"
| "marshal_arr [] = []"
| "marshal_arr (v # xs) = marshal v # marshal_arr xs"

definition canonical :: "val \<Rightarrow> json" where
  "canonical v = marshal (normalize v)"

definition specVal :: "obj option \<Rightarrow> val" where
  "specVal s = VObj (case s of None \<Rightarrow> [] | Some m \<Rightarrow> m)"

text \<open>
  The outer map has the five keys below, in sorted order; its labels and spec entries are already
  normalized and pass through the second normalization unchanged.
\<close>

definition hashInput :: "resource \<Rightarrow> json" where
  "hashInput r = marshal (NKVs
     [(''apiVersion'', NStr (r_apiVersion r)),
      (''kind'', NStr (r_kind r)),
      (''labels'', normalize_labels (md_labels (r_metadata r))),
      (''name'', NStr (r_name r)),
      (''spec'', normalize (specVal (r_spec r)))])"

definition Hash :: "(json \<Rightarrow> string) \<Rightarrow> resource option \<Rightarrow> string" where
  "Hash digest r = (case r of None \<Rightarrow> [] | Some x \<Rightarrow> digest (hashInput x))"

subsection \<open>Equality of Go values\<close>

text \<open>
  Two values are the same data: numbers have the same value, and maps agree key by key, whatever
  their iteration order.
\<close>

inductive veq :: "val \<Rightarrow> val \<Rightarrow> bool" where
  veq_nil: "veq VNil VNil"
| veq_bool: "veq (VBool b) (VBool b)"
| veq_num: "numVal v = Some q \<Longrightarrow> numVal w = Some q \<Longrightarrow> veq v w"
| veq_str: "veq (VStr s) (VStr s)"
| veq_arr: "length xs = length ys \<Longrightarrow> (\<And>i. i < length xs \<Longrightarrow> veq (xs ! i) (ys ! i)) \<Longrightarrow>
     veq (VArr xs) (VArr ys)"
| veq_obj: "(\<And>k. (map_of m k = None) = (map_of m' k = None)) \<Longrightarrow>
     (\<And>k v v'. map_of m k = Some v \<Longrightarrow> map_of m' k = Some v' \<Longrightarrow> veq v v') \<Longrightarrow>
     veq (VObj m) (VObj m')"

inductive_cases veq_objE: "veq (VObj m) w"
inductive_cases veq_arrE: "veq (VArr xs) w"
lemma veq_scalar_simps [simp]:
  "veq VNil w \<longleftrightarrow> w = VNil" "veq (VBool b) w \<longleftrightarrow> w = VBool b" "veq (VStr s) w \<longleftrightarrow> w = VStr s"
  "veq (VInt i) w \<longleftrightarrow> numVal w = Some (of_int i)" "veq (VFloat q) w \<longleftrightarrow> numVal w = Some q"
  by (auto intro: veq.intros elim: veq.cases)

text \<open>No empty map below the top of the tree.\<close>

fun noEmptyMap :: "val \<Rightarrow> bool" and noEmptyMap_kvs :: "(string \<times> val) list \<Rightarrow> bool"
  and noEmptyMap_arr :: "val list \<Rightarrow> bool" where
  "noEmptyMap (VObj m) = (m \<noteq> [] \<and> noEmptyMap_kvs m)"
| "noEmptyMap (VArr xs) = noEmptyMap_arr xs"
| "noEmptyMap VNil = True"
| "noEmptyMap (VBool b) = True"
| "noEmptyMap (VInt i) = True"
| "noEmptyMap (VFloat q) = True"
| "noEmptyMap (VStr s) = True"
| "noEmptyMap_kvs [] = True"
| "noEmptyMap_kvs ((k, v) # m) = (noEmptyMap v \<and> noEmptyMap_kvs m)"
| "noEmptyMap_arr [] = True"
| "noEmptyMap_arr (v # xs) = (noEmptyMap v \<and> noEmptyMap_arr xs)"

subsection \<open>Sorted entry lists\<close>

lemma distinct_fst_sort_key:
  "distinct (map fst xs) \<Longrightarrow> distinct (map fst (sort_key fst (xs :: (string \<times> 'b) list)))"
  by (simp add: distinct_map)

lemma sort_key_fst_unique:
  assumes "distinct (map fst xs)" "distinct (map fst ys)"
    and "map_of xs = map_of ys"
  shows "sort_key fst xs = sort_key fst (ys :: (string \<times> 'b) list)"
proof (rule map_sorted_distinct_set_unique [where f = fst])
  show "set (sort_key fst xs) = set (sort_key fst ys)"
    using assms by (simp add: map_of_inject_set)
  then show "inj_on fst (set (sort_key fst xs) \<union> set (sort_key fst ys))"
    using assms(2) by (simp add: distinct_map)
qed (use assms in \<open>simp_all add: distinct_fst_sort_key\<close>)

lemma map_of_sort_key_fst:
  assumes "distinct (map fst xs)"
  shows "map_of (sort_key fst xs) = map_of (xs :: (string \<times> 'b) list)"
  using map_of_inject_set [OF distinct_fst_sort_key [OF assms] assms] by simp

lemma sort_key_fst_eq_iff:
  assumes "distinct (map fst xs)" "distinct (map fst ys)"
  shows "sort_key fst xs = sort_key fst (ys :: (string \<times> 'b) list) \<longleftrightarrow> map_of xs = map_of ys"
  using assms sort_key_fst_unique map_of_sort_key_fst by metis

lemma normalize_arr_map: "normalize_arr xs = map normalize xs"
  by (induction xs) auto

lemma map_of_normalize_kvs: "map_of (normalize_kvs m) = map_option normalize \<circ> map_of m"
  by (induction m) (auto simp: fun_eq_iff)

lemma keys_normalize_kvs [simp]: "map fst (normalize_kvs m) = map fst m"
  by (induction m) auto

lemma normalize_obj_eq:
  assumes "distinct (map fst m)" "distinct (map fst m')"
  shows "normalize (VObj m) = normalize (VObj m') \<longleftrightarrow>
           (\<forall>k. map_option normalize (map_of m k) = map_option normalize (map_of m' k))"
  using assms by (simp add: sort_key_fst_eq_iff map_of_normalize_kvs fun_eq_iff)

lemma wf_kvs_lookup: "wf_kvs m \<Longrightarrow> map_of m k = Some v \<Longrightarrow> wf_val v"
  by (induction m) (auto split: if_splits)

text \<open>Normalization identifies exactly the equal Go values.\<close>

lemma veq_normalize: "veq v w \<Longrightarrow> wf_val v \<Longrightarrow> wf_val w \<Longrightarrow> normalize v = normalize w"
proof (induction rule: veq.induct)
  case (veq_num v q w)
  then show ?case by (auto simp: numVal_Some)
next
  case (veq_arr xs ys)
  then show ?case by (auto simp: normalize_arr_map wf_arr_iff intro: nth_equalityI)
next
  case (veq_obj m m')
  then have "map_option normalize (map_of m k) = map_option normalize (map_of m' k)" for k
    using veq_obj.hyps(1) [of k] wf_kvs_lookup [of m k] wf_kvs_lookup [of m' k]
    by (cases "map_of m k"; cases "map_of m' k") auto
  with veq_obj show ?case by (simp add: normalize_obj_eq del: normalize.simps)
qed simp_all

lemma map_of_size: "map_of m k = Some v \<Longrightarrow> size v < size (VObj m)"
  by (induction m) (auto split: if_splits)

lemma nth_size: "i < length xs \<Longrightarrow> size (xs ! i) < size (VArr xs)"
  using size_list_estimation' [of "xs ! i" xs "size (xs ! i)" size] by (simp add: less_Suc_eq_le)

lemma normalize_veq: "normalize v = normalize w \<Longrightarrow> wf_val v \<Longrightarrow> wf_val w \<Longrightarrow> veq v w"
proof (induction "size v" arbitrary: v w rule: less_induct)
  case less
  show ?case
  proof (cases v)
    case (VArr xs)
    with less.prems(1) obtain ys where w: "w = VArr ys" and e: "map normalize xs = map normalize ys"
      by (cases w) (auto simp: normalize_arr_map)
    from e have len: "length xs = length ys" by (metis length_map)
    have "veq (xs ! i) (ys ! i)" if i: "i < length xs" for i
    proof (rule less.hyps)
      show "size (xs ! i) < size v" using nth_size [OF i] VArr by simp
      show "normalize (xs ! i) = normalize (ys ! i)" using e i len by (metis nth_map)
      show "wf_val (xs ! i)" "wf_val (ys ! i)"
        using less.prems i len by (auto simp: VArr w wf_arr_iff)
    qed
    with VArr w len show ?thesis by (auto intro: veq_arr)
  next
    case (VObj m)
    with less.prems(1) obtain m' where w: "w = VObj m'" by (cases w) auto
    have e: "map_option normalize (map_of m k) = map_option normalize (map_of m' k)" for k
      using less.prems VObj w by (simp add: normalize_obj_eq del: normalize.simps)
    have "veq a b" if a: "map_of m k = Some a" and b: "map_of m' k = Some b" for k a b
    proof (rule less.hyps)
      show "size a < size v" using map_of_size [OF a] VObj by simp
      show "normalize a = normalize b" using e [of k] a b by simp
      show "wf_val a" "wf_val b" using less.prems a b by (auto simp: VObj w dest: wf_kvs_lookup)
    qed
    moreover have "(map_of m k = None) = (map_of m' k = None)" for k
      using e [of k] by (metis option.map_disc_iff)
    ultimately show ?thesis using VObj w by (auto intro: veq_obj)
  qed (use less.prems in \<open>cases w; simp\<close>)+
qed

subsection \<open>The encoder is injective but for empty maps\<close>

fun okN :: "nval \<Rightarrow> bool" and okN_kvs :: "(string \<times> nval) list \<Rightarrow> bool"
  and okN_arr :: "nval list \<Rightarrow> bool" where
  "okN (NKVs m) = (m \<noteq> [] \<and> okN_kvs m)"
| "okN (NArr xs) = okN_arr xs"
| "okN NNil = True"
| "okN (NBool b) = True"
| "okN (NNum q) = True"
| "okN (NStr s) = True"
| "okN_kvs [] = True"
| "okN_kvs ((k, v) # m) = (okN v \<and> okN_kvs m)"
| "okN_arr [] = True"
| "okN_arr (v # xs) = (okN v \<and> okN_arr xs)"

lemma okN_kvs_iff: "okN_kvs m \<longleftrightarrow> (\<forall>v \<in> snd ` set m. okN v)"
  by (induction m) auto

lemma sort_key_Nil_iff [simp]: "sort_key f xs = [] \<longleftrightarrow> xs = []"
  by (metis length_0_conv length_sort)

lemma okN_normalize:
  "noEmptyMap v \<Longrightarrow> okN (normalize v)"
  "noEmptyMap_kvs m \<Longrightarrow> okN_kvs (normalize_kvs m)"
  "noEmptyMap_arr xs \<Longrightarrow> okN_arr (normalize_arr xs)"
proof (induction v and m and xs rule: noEmptyMap_noEmptyMap_kvs_noEmptyMap_arr.induct)
  case (1 m)
  then show ?case by (cases m) (auto simp: okN_kvs_iff)
qed auto

lemma marshal_not_JKV [simp]: "marshal v \<noteq> JKV k j" "JKV k j \<noteq> marshal v"
  by (cases v; simp)+

lemma marshal_inj:
  "marshal v = marshal w \<Longrightarrow> okN v \<Longrightarrow> okN w \<Longrightarrow> v = w"
  "marshal_kvs m = marshal_kvs m' \<Longrightarrow> okN_kvs m \<Longrightarrow> okN_kvs m' \<Longrightarrow> m = m'"
  "marshal_arr xs = marshal_arr ys \<Longrightarrow> okN_arr xs \<Longrightarrow> okN_arr ys \<Longrightarrow> xs = ys"
proof (induction v and m and xs arbitrary: w and m' and ys rule: marshal_marshal_kvs_marshal_arr.induct)
  case (1 m)
  then show ?case
  proof (cases w)
    case (NArr xs)
    with 1 show ?thesis by (cases m; cases xs) auto
  qed auto
next
  case (2 xs)
  then show ?case
  proof (cases w)
    case (NKVs m)
    with 2 show ?thesis by (cases m; cases xs) auto
  qed auto
next
  case (7 m')
  then show ?case by (cases m') auto
next
  case (8 k v m m')
  then show ?case by (cases m') auto
next
  case (9 ys)
  then show ?case by (cases ys) auto
next
  case (10 v xs ys)
  then show ?case by (cases ys) auto
qed (case_tac w; simp)+

lemma marshal_NKVs_eq:
  "okN_kvs a \<Longrightarrow> okN_kvs b \<Longrightarrow> marshal (NKVs a) = marshal (NKVs b) \<longleftrightarrow> a = b"
  using marshal_inj(2) by auto

lemma okN_sorted: "okN_kvs m \<Longrightarrow> okN_kvs (sort_key fst m)"
  by (simp add: okN_kvs_iff)

lemma labels_eq:
  assumes "distinct (map fst l1)" "distinct (map fst l2)"
  shows "marshal (normalize_labels l1) = marshal (normalize_labels l2) \<longleftrightarrow> map_of l1 = map_of l2"
proof -
  let ?f = "\<lambda>(k, s). (k, NStr s)"
  have ok: "okN_kvs (sort_key fst (map ?f l))" for l :: strmap
    by (auto simp: okN_kvs_iff)
  have keys: "map fst (map ?f l) = map fst l" for l :: strmap by (induction l) auto
  have mo: "map_of (map ?f l) = map_option NStr \<circ> map_of l" for l :: strmap
    by (induction l) (auto simp: fun_eq_iff)
  have "marshal (normalize_labels l1) = marshal (normalize_labels l2) \<longleftrightarrow>
        map_of (map ?f l1) = map_of (map ?f l2)"
    unfolding normalize_labels_def marshal_NKVs_eq [OF ok ok]
    using assms by (intro sort_key_fst_eq_iff) (simp_all only: keys)
  also have "\<dots> \<longleftrightarrow> map_of l1 = map_of l2"
    unfolding mo by (auto simp: fun_eq_iff dest: option.inj_map_strong [rotated])
  finally show ?thesis .
qed

lemma spec_eq:
  assumes "wf_val (VObj m1)" "wf_val (VObj m2)" "noEmptyMap_kvs m1" "noEmptyMap_kvs m2"
  shows "marshal (normalize (VObj m1)) = marshal (normalize (VObj m2)) \<longleftrightarrow> veq (VObj m1) (VObj m2)"
proof -
  have "marshal (normalize (VObj m1)) = marshal (normalize (VObj m2)) \<longleftrightarrow>
        normalize (VObj m1) = normalize (VObj m2)"
    using assms(3,4) marshal_NKVs_eq [OF okN_sorted [OF okN_normalize(2)] okN_sorted [OF okN_normalize(2)]]
    by simp
  with assms(1,2) show ?thesis using veq_normalize normalize_veq by blast
qed

abbreviation specObj :: "resource \<Rightarrow> obj" where
  "specObj r \<equiv> (case r_spec r of None \<Rightarrow> [] | Some m \<Rightarrow> m)"

abbreviation sameIntent :: "resource \<Rightarrow> resource \<Rightarrow> bool" where
  "sameIntent r1 r2 \<equiv>
     r_apiVersion r1 = r_apiVersion r2 \<and> r_kind r1 = r_kind r2 \<and> r_name r1 = r_name r2 \<and>
     map_of (md_labels (r_metadata r1)) = map_of (md_labels (r_metadata r2)) \<and>
     veq (specVal (r_spec r1)) (specVal (r_spec r2))"

abbreviation wfInput :: "resource \<Rightarrow> bool" where
  "wfInput r \<equiv> wf_val (specVal (r_spec r)) \<and> distinct (map fst (md_labels (r_metadata r)))"

lemma hashInput_eq:
  assumes "wfInput r1" "wfInput r2"
    and "noEmptyMap_kvs (specObj r1)" "noEmptyMap_kvs (specObj r2)"
  shows "hashInput r1 = hashInput r2 \<longleftrightarrow> sameIntent r1 r2"
proof -
  have "marshal (normalize (specVal (r_spec r1))) = marshal (normalize (specVal (r_spec r2)))
      \<longleftrightarrow> veq (specVal (r_spec r1)) (specVal (r_spec r2))"
    unfolding specVal_def by (rule spec_eq) (use assms in \<open>simp_all add: specVal_def\<close>)
  with labels_eq [of "md_labels (r_metadata r1)" "md_labels (r_metadata r2)"] assms(1,2)
  show ?thesis by (auto simp: hashInput_def)
qed

lemma hashInput_cong:
  assumes "wfInput r1" "wfInput r2" "sameIntent r1 r2"
  shows "hashInput r1 = hashInput r2"
  using assms labels_eq [of "md_labels (r_metadata r1)" "md_labels (r_metadata r2)"]
    veq_normalize [of "specVal (r_spec r1)" "specVal (r_spec r2)"]
  by (simp add: hashInput_def)

lemma veq_objD: "veq (VObj m) (VObj m') \<Longrightarrow> map_of m k = Some a \<Longrightarrow> map_of m' k = Some b \<Longrightarrow> veq a b"
  by (erule veq_objE) auto

lemma not_veq_empty: "\<not> veq (VObj [(f, VObj [])]) (VObj [(f, VArr [])])"
proof
  assume "veq (VObj [(f, VObj [])]) (VObj [(f, VArr [])])"
  then have "veq (VObj []) (VArr [])" by (rule veq_objD [where k = f]) simp_all
  then show False by (auto elim: veq_objE)
qed

lemma normalize_json [simp]:
  "normalize (jsonVal v) = normalize v"
  "normalize_kvs (jsonObj m) = normalize_kvs m"
  "normalize_arr (jsonArr xs) = normalize_arr xs"
  by (induction v and m and xs rule: jsonVal_jsonObj_jsonArr.induct) auto

lemma hashInput_json [simp]: "hashInput (jsonResource r) = hashInput r"
proof -
  have "normalize (specVal (map_option jsonObj s)) = normalize (specVal s)" for s
    by (cases s) (simp_all add: specVal_def)
  then show ?thesis by (simp add: hashInput_def)
qed

subsection \<open>Properties\<close>

text \<open>
  The cache key is a function of the apply input alone: two manifests with the same apiVersion,
  kind, name, labels and spec have the same hash, in whatever order their maps are iterated and
  whatever their annotations, status, uid or namespace are.
\<close>

theorem hash_ignores_map_order:
  assumes "wfInput r1" "wfInput r2" and "sameIntent r1 r2"
  shows "Hash digest (Some r1) = Hash digest (Some r2)"
  using hashInput_cong [OF assms] by (simp add: Hash_def)

theorem hash_ignores_map_order_witness:
  "Hash (\<lambda>j. ''d'') (Some ((bareResource ''p.openctl.io/v1'' ''VM'' ''a'')
      \<lparr>r_spec := Some [(''x'', VInt 1), (''y'', VStr ''z'')]\<rparr>)) =
   Hash (\<lambda>j. ''d'') (Some ((bareResource ''p.openctl.io/v1'' ''VM'' ''a'')
      \<lparr>r_spec := Some [(''y'', VStr ''z''), (''x'', VInt 1)]\<rparr>))"
  by (rule hash_ignores_map_order)
     (auto simp: bareResource_def bareMetadata_def specVal_def intro!: veq_obj split: if_splits)

text \<open>
  Conversely, as long as the digest does not collide on the two inputs, equal hashes mean equal
  apply input, for specs in which no nested map is empty.
\<close>

theorem hash_identifies_intent:
  assumes "wfInput r1" "wfInput r2"
    and "noEmptyMap_kvs (specObj r1)" "noEmptyMap_kvs (specObj r2)"
    and "digest (hashInput r1) = digest (hashInput r2) \<Longrightarrow> hashInput r1 = hashInput r2"
  shows "Hash digest (Some r1) = Hash digest (Some r2) \<longleftrightarrow> sameIntent r1 r2"
  using hashInput_eq [OF assms(1-4)] assms(5) by (auto simp: Hash_def)

theorem hash_identifies_intent_witness:
  "let r1 = (bareResource ''p.openctl.io/v1'' ''VM'' ''a'')\<lparr>r_spec := Some [(''x'', VInt 1)]\<rparr>;
       r2 = (bareResource ''p.openctl.io/v1'' ''VM'' ''a'')\<lparr>r_spec := Some [(''x'', VInt 2)]\<rparr>;
       d = (\<lambda>j. if j = hashInput r1 then ''1'' else ''2'')
   in Hash d (Some r1) = Hash d (Some r2) \<longleftrightarrow> sameIntent r1 r2"
  unfolding Let_def
  by (rule hash_identifies_intent)
     (auto simp: bareResource_def bareMetadata_def specVal_def hashInput_def)

text \<open>
  The restriction is needed: a nested empty map and an empty list in the same place give the same
  hash for every digest, because the entry list of an empty map is encoded as an empty array.
\<close>

theorem hash_conflates_empty_map_and_list:
  "Hash digest (Some ((bareResource av k n)\<lparr>r_spec := Some [(f, VObj [])]\<rparr>)) =
   Hash digest (Some ((bareResource av k n)\<lparr>r_spec := Some [(f, VArr [])]\<rparr>)) \<and>
   \<not> veq (VObj [(f, VObj [])]) (VObj [(f, VArr [])])"
  by (simp add: Hash_def hashInput_def specVal_def bareResource_def bareMetadata_def not_veq_empty)

end
