(* ===== verification/Timestamps.thy ===== *)
theory Timestamps
  imports Prelude "HOL-Library.Product_Lexorder"
begin

text \<open>
  The timestamps of every table: \<^verbatim>\<open>time.Now().UTC().Format(time.RFC3339Nano)\<close> (operations.go
  \<^verbatim>\<open>nowUTC\<close>), and the order SQLite gives them, which is the bytewise order of the strings.  An instant
  is its UTC civil fields; the chronological order is the lexicographic order of the fields.
\<close>

record instant =
  t_year :: nat
  t_month :: nat
  t_day :: nat
  t_hour :: nat
  t_min :: nat
  t_sec :: nat
  t_nano :: nat

definition valid_instant :: "instant \<Rightarrow> bool" where
  "valid_instant t \<longleftrightarrow> t_year t < 10 ^ 4 \<and> t_month t < 100 \<and> t_day t < 100 \<and> t_hour t < 100 \<and>
     t_min t < 100 \<and> t_sec t < 100 \<and> t_nano t < 10 ^ 9"

definition chron :: "instant \<Rightarrow> nat \<times> nat \<times> nat \<times> nat \<times> nat \<times> nat \<times> nat" where
  "chron t = (t_year t, t_month t, t_day t, t_hour t, t_min t, t_sec t, t_nano t)"

text \<open>The decimal digits of a number, zero-padded to a width.\<close>

fun padDigits :: "nat \<Rightarrow> nat \<Rightarrow> string" where
  "padDigits 0 n = []"
| "padDigits (Suc w) n = padDigits w (n div 10) @ [char_of (48 + n mod 10)]"

text \<open>The fraction of RFC3339Nano: nine digits without trailing zeros, nothing for a whole second.\<close>

definition fracDigits :: "nat \<Rightarrow> string" where
  "fracDigits n = trimRightChar CHR ''0'' (padDigits 9 n)"

definition rfc3339nano :: "instant \<Rightarrow> string" where
  "rfc3339nano t =
     padDigits 4 (t_year t) @ ''-'' @ padDigits 2 (t_month t) @ ''-'' @ padDigits 2 (t_day t) @ ''T''
     @ padDigits 2 (t_hour t) @ '':'' @ padDigits 2 (t_min t) @ '':'' @ padDigits 2 (t_sec t)
     @ (if fracDigits (t_nano t) = [] then [] else ''.'' @ fracDigits (t_nano t)) @ ''Z''"

definition nowUTC :: "instant \<Rightarrow> string" where
  "nowUTC now = rfc3339nano now"

subsection \<open>Lexicographic order of concatenations\<close>

lemma append_less_same_length:
  "length a = length b \<Longrightarrow> a @ x < b @ y \<longleftrightarrow> a < b \<or> (a = b \<and> x < (y :: string))"
  by (induction a b rule: list_induct2) auto

lemma length_padDigits [simp]: "length (padDigits w n) = w"
  by (induction w arbitrary: n) auto

lemma digit_less: "a < 10 \<Longrightarrow> b < 10 \<Longrightarrow> (char_of (48 + a) < char_of (48 + b)) = (a < (b::nat))"
  by (simp add: less_char_def)

lemma digit_eq: "a < 10 \<Longrightarrow> b < 10 \<Longrightarrow> (char_of (48 + a) = (char_of (48 + b) :: char)) = (a = (b::nat))"
  by (metis digit_less less_irrefl nat_neq_iff)

lemma ten_lex:
  "b < 10 \<Longrightarrow> d < 10 \<Longrightarrow>
     (10 * a + b < 10 * c + d \<longleftrightarrow> a < c \<or> (a = c \<and> b < d)) \<and>
     (10 * a + b = 10 * c + d \<longleftrightarrow> a = c \<and> b = (d::nat))"
proof -
  assume bd: "b < 10" "d < 10"
  have "a = c \<and> b = d" if e: "10 * a + b = 10 * c + d"
  proof -
    have "a = c" using e bd by linarith
    with e show ?thesis by simp
  qed
  moreover have "10 * a + b < 10 * c + d \<longleftrightarrow> a < c \<or> (a = c \<and> b < d)"
    using bd by (cases a c rule: linorder_cases) auto
  ultimately show ?thesis by blast
qed

lemma padDigits_order:
  "m < 10 ^ w \<Longrightarrow> n < 10 ^ w \<Longrightarrow>
     (padDigits w m < padDigits w n \<longleftrightarrow> m < n) \<and> (padDigits w m = padDigits w n \<longleftrightarrow> m = n)"
proof (induction w arbitrary: m n)
  case (Suc w)
  have b: "m div 10 < 10 ^ w" "n div 10 < 10 ^ w"
    using Suc.prems by (simp_all add: less_mult_imp_div_less mult.commute)
  have d: "(char_of (48 + m mod 10) < (char_of (48 + n mod 10) :: char)) = (m mod 10 < n mod 10)"
    "(char_of (48 + m mod 10) = (char_of (48 + n mod 10) :: char)) = (m mod 10 = n mod 10)"
    by (simp_all add: digit_less digit_eq)
  have "m < n \<longleftrightarrow> m div 10 < n div 10 \<or> (m div 10 = n div 10 \<and> m mod 10 < n mod 10)"
    "m = n \<longleftrightarrow> m div 10 = n div 10 \<and> m mod 10 = n mod 10"
    using ten_lex [of "m mod 10" "n mod 10" "m div 10" "n div 10"] by simp_all
  with Suc.IH [OF b] d show ?case by (auto simp: append_less_same_length)
qed auto

lemma takeWhile_replicate:
  "takeWhile (\<lambda>x. x = c) xs = replicate (length (takeWhile (\<lambda>x. x = c) xs)) c"
  by (induction xs) auto

lemma trimRight_split:
  "\<exists>k. s = trimRightChar c s @ replicate k c"
proof -
  have "rev s = takeWhile (\<lambda>x. x = c) (rev s) @ dropWhile (\<lambda>x. x = c) (rev s)" by simp
  then have "s = trimRightChar c s @ rev (takeWhile (\<lambda>x. x = c) (rev s))"
    unfolding trimRightChar_def by (metis rev_append rev_rev_ident)
  moreover have "rev (takeWhile (\<lambda>x. x = c) (rev s)) = replicate (length (takeWhile (\<lambda>x. x = c) (rev s))) c"
    by (metis takeWhile_replicate rev_replicate)
  ultimately show ?thesis by metis
qed

lemma fracDigits_order:
  assumes "m < 10 ^ 9" "n < 10 ^ 9" "length (fracDigits m) = length (fracDigits n)"
  shows "(fracDigits m < fracDigits n \<longleftrightarrow> m < n) \<and> (fracDigits m = fracDigits n \<longleftrightarrow> m = n)"
proof -
  obtain j k where j: "padDigits 9 m = fracDigits m @ replicate j CHR ''0''"
    and k: "padDigits 9 n = fracDigits n @ replicate k CHR ''0''"
    unfolding fracDigits_def using trimRight_split by meson
  then have "j = k" using assms(3) length_padDigits [of 9 m] length_padDigits [of 9 n]
    by (metis add_left_cancel length_append length_replicate)
  with j k padDigits_order [OF assms(1,2)] assms(3) show ?thesis
    by (auto simp: append_less_same_length)
qed

lemma padDigits_zero: "padDigits w 0 = replicate w CHR ''0''"
proof (induction w)
  case (Suc w)
  have "char_of (48::nat) = CHR ''0''" by code_simp
  with Suc show ?case by (simp add: replicate_append_same)
qed simp

lemma dropWhile_replicate [simp]: "dropWhile (\<lambda>x. x = c) (replicate k c) = []"
  by (induction k) auto

lemma fracDigits_zero_iff: "n < 10 ^ 9 \<Longrightarrow> fracDigits n = [] \<longleftrightarrow> n = 0"
proof -
  have z: "fracDigits 0 = []" by (simp add: fracDigits_def trimRightChar_def padDigits_zero)
  assume "n < 10 ^ 9"
  with z fracDigits_order [of n 0] show ?thesis by auto
qed

subsection \<open>Properties\<close>

text \<open>
  Timestamps written with the same number of fractional digits sort chronologically: for them
  the string order used by the queries is the order of the instants.
\<close>

theorem timestamps_sort_chronologically:
  assumes "valid_instant t" "valid_instant u"
    and "length (nowUTC t) = length (nowUTC u)"
  shows "nowUTC t < nowUTC u \<longleftrightarrow> chron t < chron u"
proof -
  have len: "length (fracDigits (t_nano t)) = length (fracDigits (t_nano u))"
    using assms(3) by (auto simp: nowUTC_def rfc3339nano_def split: if_splits)
  then have "fracDigits (t_nano t) = [] \<longleftrightarrow> fracDigits (t_nano u) = []"
    by (metis length_0_conv)
  then show ?thesis
    using assms(1,2) fracDigits_order [OF _ _ len]
    by (auto simp: nowUTC_def rfc3339nano_def append_less_same_length valid_instant_def chron_def
        padDigits_order less_prod_def' len)
qed

theorem timestamps_sort_chronologically_witness:
  "\<exists>t u. chron t < chron u \<and> nowUTC t < nowUTC u"
proof -
  let ?t = "\<lparr>t_year = 2026, t_month = 7, t_day = 4, t_hour = 12, t_min = 0, t_sec = 5, t_nano = 0\<rparr>"
  let ?u = "\<lparr>t_year = 2026, t_month = 7, t_day = 4, t_hour = 12, t_min = 1, t_sec = 0, t_nano = 0\<rparr>"
  have "valid_instant ?t" "valid_instant ?u" by (simp_all add: valid_instant_def)
  moreover have "length (nowUTC ?t) = length (nowUTC ?u)" by code_simp
  moreover have "chron ?t < chron ?u" by (simp add: chron_def)
  ultimately show ?thesis using timestamps_sort_chronologically by blast
qed

text \<open>
  Without that condition the order is not chronological: trailing zeros are dropped, so the
  timestamp of a whole second sorts after every later timestamp of the same second.
\<close>

theorem whole_second_sorts_last:
  assumes "t_nano t = 0" and "0 < n" and "n < 10 ^ 9"
  shows "chron t < chron (t\<lparr>t_nano := n\<rparr>) \<and> nowUTC (t\<lparr>t_nano := n\<rparr>) < nowUTC t"
proof -
  have "fracDigits n \<noteq> []" using fracDigits_zero_iff assms by blast
  moreover have "fracDigits 0 = []" using fracDigits_zero_iff [of 0] by simp
  ultimately show ?thesis using assms(1,2)
    by (simp add: nowUTC_def rfc3339nano_def chron_def append_less_same_length less_char_def)
qed

theorem whole_second_sorts_last_witness:
  "\<exists>t u. chron t < chron u \<and> nowUTC u < nowUTC t"
proof -
  let ?t = "\<lparr>t_year = 2026, t_month = 7, t_day = 4, t_hour = 12, t_min = 0, t_sec = 5, t_nano = 0\<rparr>"
  show ?thesis using whole_second_sorts_last [of ?t 250000000] by fastforce
qed

end
