(* ===== verification/Storage.thy ===== *)
theory Storage
  imports Hashing Timestamps
begin

text \<open>
  The controller's SQLite database (internal/controller/storage/migrations): one record field per
  table, a table being the list of its rows in insertion order.  A nullable text column is the string
  that \<^verbatim>\<open>COALESCE(column, '')\<close> reads.  The database driver can fail at every statement: an operation
  takes an oracle \<^typ>\<open>nat \<Rightarrow> string option\<close> that gives, for the i-th statement it issues, the driver's
  error, if any.
\<close>

type_synonym io = "nat \<Rightarrow> string option"

definition dbCall :: "string option \<Rightarrow> err + unit" where
  "dbCall f = (case f of None \<Rightarrow> Inr () | Some e \<Rightarrow> Inl (DbErr e))"

definition wrapErr :: "string \<Rightarrow> err + 'a \<Rightarrow> err + 'a" where
  "wrapErr p r = (case r of Inl e \<Rightarrow> Inl (Wrap p e) | Inr a \<Rightarrow> Inr a)"

record operation =
  op_id :: string
  op_parent :: string
  op_type :: string
  op_apiVersion :: string
  op_kind :: string
  op_name :: string
  op_label :: string
  op_manifest :: doc
  op_result :: doc
  op_status :: string
  op_error :: string
  op_submitted :: string
  op_started :: string
  op_completed :: string
  op_source :: string

text \<open>A JSON column holds text that decodes to the value, or not (\<open>Inl\<close>, the decoder's error).\<close>

record applied_row =
  am_apiVersion :: string
  am_kind :: string
  am_name :: string
  am_spec :: "string + obj option"
  am_meta :: "string + resource_metadata option"
  am_appliedAt :: string
  am_inputHash :: string
  am_refsHash :: string
  am_source :: string

record release_row =
  rl_apiVersion :: string
  rl_kind :: string
  rl_name :: string
  rl_digest :: string
  rl_releasedAt :: string

record state_row =
  ps_apiVersion :: string
  ps_kind :: string
  ps_name :: string
  ps_state :: "string option"
  ps_private :: "string option"
  ps_schemaVersion :: int
  ps_updatedAt :: string

record db =
  db_ops :: "operation list"
  db_applied :: "applied_row list"
  db_releases :: "release_row list"
  db_states :: "state_row list"
  db_meta :: strmap

definition emptyDb :: db where
  "emptyDb = \<lparr>db_ops = [], db_applied = [], db_releases = [], db_states = [], db_meta = []\<rparr>"

text \<open>
  \<^verbatim>\<open>ORDER BY c ASC\<close> and \<^verbatim>\<open>ORDER BY c DESC\<close>, rows with equal keys in insertion order.
\<close>

definition orderAsc :: "('r \<Rightarrow> string) \<Rightarrow> 'r list \<Rightarrow> 'r list" where
  "orderAsc c rows = sort_key c rows"

definition orderDesc :: "('r \<Rightarrow> string) \<Rightarrow> 'r list \<Rightarrow> 'r list" where
  "orderDesc c rows = rev (sort_key c (rev rows))"

text \<open>
  Tables with a primary key: \<^verbatim>\<open>INSERT ... ON CONFLICT DO UPDATE\<close> replaces the row with the same key in
  place, or adds one; \<^verbatim>\<open>SELECT\<close> and \<^verbatim>\<open>DELETE\<close> by key.
\<close>

definition upsertRow :: "('r \<Rightarrow> 'k) \<Rightarrow> 'r \<Rightarrow> 'r list \<Rightarrow> 'r list" where
  "upsertRow key row rows =
     (if list_ex (\<lambda>x. key x = key row) rows
      then map (\<lambda>x. if key x = key row then row else x) rows else rows @ [row])"

definition findRow :: "('r \<Rightarrow> 'k) \<Rightarrow> 'k \<Rightarrow> 'r list \<Rightarrow> 'r option" where
  "findRow key k rows = find (\<lambda>x. key x = k) rows"

definition dropRow :: "('r \<Rightarrow> 'k) \<Rightarrow> 'k \<Rightarrow> 'r list \<Rightarrow> 'r list" where
  "dropRow key k rows = filter (\<lambda>x. key x \<noteq> k) rows"

type_synonym rkey = "string \<times> string \<times> string"

definition amKey :: "applied_row \<Rightarrow> rkey" where
  "amKey row = (am_apiVersion row, am_kind row, am_name row)"

definition rlKey :: "release_row \<Rightarrow> rkey" where
  "rlKey row = (rl_apiVersion row, rl_kind row, rl_name row)"

definition psKey :: "state_row \<Rightarrow> rkey" where
  "psKey row = (ps_apiVersion row, ps_kind row, ps_name row)"

text \<open>The release fence (manifests/migration.go), checked inside several transactions.\<close>

definition isReleased :: "db \<Rightarrow> string \<Rightarrow> string \<Rightarrow> string \<Rightarrow> bool" where
  "isReleased d av k n =
     list_ex (\<lambda>row. rlKey row = (av, k, n)) (db_releases d)"

definition CheckNotForgotten ::
  "string option \<Rightarrow> db \<Rightarrow> string \<Rightarrow> string \<Rightarrow> string \<Rightarrow> err + unit" where
  "CheckNotForgotten f d av k n =
     bindE (wrapErr ''check resource release'' (dbCall f)) (\<lambda>_.
       if isReleased d av k n then Inl (ForgottenError av k n) else Inr ())"

definition IsForgotten ::
  "string option \<Rightarrow> db \<Rightarrow> string \<Rightarrow> string \<Rightarrow> string \<Rightarrow> err + bool" where
  "IsForgotten f d av k n =
     (case CheckNotForgotten f d av k n of
        Inr _ \<Rightarrow> Inr False
      | Inl e \<Rightarrow> (case rootErr e of ForgottenError _ _ _ \<Rightarrow> Inr True | _ \<Rightarrow> Inl e))"

subsection \<open>Lemmas\<close>

lemma dbCall_simps [simp, res_simps]: "dbCall None = Inr ()" "dbCall (Some e) = Inl (DbErr e)"
  by (simp_all add: dbCall_def)

lemma dbCall_Inr [res_simps]: "dbCall f = Inr u \<longleftrightarrow> f = None"
  by (cases f) simp_all

lemma wrapErr_simps [simp, res_simps]: "wrapErr p (Inr a) = Inr a" "wrapErr p (Inl e) = Inl (Wrap p e)"
  by (simp_all add: wrapErr_def)

lemma wrapErr_Inr [res_simps]: "wrapErr p r = Inr a \<longleftrightarrow> r = Inr a"
  by (cases r) simp_all

lemma CheckNotForgotten_Inr [res_simps]:
  "CheckNotForgotten f d av k n = Inr u \<longleftrightarrow> f = None \<and> \<not> isReleased d av k n"
  by (auto simp: CheckNotForgotten_def res_simps split: if_splits)

lemma findRow_upsertRow [simp]:
  "findRow key k (upsertRow key row rows) = (if k = key row then Some row else findRow key k rows)"
proof -
  have a: "find (\<lambda>x. key x = k) (map (\<lambda>x. if key x = key row then row else x) rows)
        = (if k = key row then Some row else find (\<lambda>x. key x = k) rows)"
    if "list_ex (\<lambda>x. key x = key row) rows \<or> k \<noteq> key row"
    using that by (induction rows) auto
  have b: "find (\<lambda>x. key x = k) (rows @ [row]) = (if k = key row then Some row else find (\<lambda>x. key x = k) rows)"
    if "\<not> list_ex (\<lambda>x. key x = key row) rows"
    using that by (induction rows) auto
  show ?thesis
  proof (cases "list_ex (\<lambda>x. key x = key row) rows")
    case True
    then show ?thesis unfolding findRow_def upsertRow_def using a by (simp only: if_True simp_thms)
  next
    case False
    then show ?thesis unfolding findRow_def upsertRow_def using b by (simp only: if_False simp_thms)
  qed
qed

lemma findRow_dropRow [simp]:
  "findRow key k (dropRow key k' rows) = (if k = k' then None else findRow key k rows)"
  unfolding findRow_def dropRow_def by (induction rows) auto

lemma findRow_Some: "findRow key k rows = Some row \<Longrightarrow> row \<in> set rows \<and> key row = k"
  by (auto simp: findRow_def find_Some_iff)

lemma findRow_None: "findRow key k rows = None \<longleftrightarrow> k \<notin> key ` set rows"
  by (auto simp: findRow_def find_None_iff)

lemma findRow_unique:
  "distinct (map key rows) \<Longrightarrow> row \<in> set rows \<Longrightarrow> findRow key (key row) rows = Some row"
  unfolding findRow_def by (induction rows) (auto simp: image_iff)

lemma keys_upsertRow [simp]: "key ` set (upsertRow key row rows) = insert (key row) (key ` set rows)"
proof -
  have "k \<in> key ` set (upsertRow key row rows) \<longleftrightarrow> k \<in> insert (key row) (key ` set rows)" for k
    using findRow_None [of key k "upsertRow key row rows"] findRow_None [of key k rows]
    by (simp del: findRow_None split: if_splits)
  then show ?thesis by blast
qed

lemma keys_dropRow [simp]: "key ` set (dropRow key k rows) = key ` set rows - {k}"
  by (auto simp: dropRow_def)

lemma distinct_upsertRow [simp]:
  assumes "distinct (map key rows)"
  shows "distinct (map key (upsertRow key row rows))"
proof -
  have "map key (map (\<lambda>x. if key x = key row then row else x) rows) = map key rows" by simp
  then show ?thesis using assms by (auto simp: upsertRow_def list_ex_iff simp del: map_map)
qed

lemma distinct_dropRow [simp]: "distinct (map key rows) \<Longrightarrow> distinct (map key (dropRow key k rows))"
  by (simp add: dropRow_def distinct_map_filter)

lemma upsertRow_same: "findRow key (key row) rows = Some row \<Longrightarrow> distinct (map key rows) \<Longrightarrow> upsertRow key row rows = rows"
  by (auto simp: upsertRow_def list_ex_iff distinct_map inj_on_def dest!: findRow_Some intro!: map_idI)

lemma isReleased_iff: "isReleased d av k n \<longleftrightarrow> (av, k, n) \<in> rlKey ` set (db_releases d)"
  unfolding isReleased_def list_ex_iff image_iff by metis

lemma set_orderAsc [simp]: "set (orderAsc c rows) = set rows"
  by (simp add: orderAsc_def)

lemma set_orderDesc [simp]: "set (orderDesc c rows) = set rows"
  by (simp add: orderDesc_def)

lemma length_orderDesc [simp]: "length (orderDesc c rows) = length rows"
  by (simp add: orderDesc_def)

lemma mset_orderDesc [simp]: "mset (orderDesc c rows) = mset rows"
  by (simp add: orderDesc_def)

lemma orderDesc_sorted: "sorted (rev (map c (orderDesc c rows)))"
  by (simp add: orderDesc_def rev_map)

lemma orderAsc_head: "orderAsc c rows = r # rs \<Longrightarrow> r \<in> set rows \<and> (\<forall>x \<in> set rows. c r \<le> c x)"
proof -
  assume a: "orderAsc c rows = r # rs"
  then have "sorted (map c (r # rs))" and "set rows = set (r # rs)"
    unfolding orderAsc_def by (metis sorted_sort_key, metis set_sort)
  then show ?thesis by auto
qed

lemma orderAsc_Nil [simp]: "orderAsc c rows = [] \<longleftrightarrow> rows = []"
  by (metis length_0_conv length_sort orderAsc_def)

lemma orderAsc_of_Nil [simp]: "orderAsc c [] = []"
  by simp

text \<open>The rows kept by a limit on a descending order are at least as recent as those dropped.\<close>

lemma orderDesc_take_drop:
  assumes "x \<in> set (take k (orderDesc c rows))" "y \<in> set (drop k (orderDesc c rows))"
  shows "c y \<le> c x"
proof -
  have "sorted_wrt (\<ge>) (map c (orderDesc c rows))"
    using orderDesc_sorted [of c rows] by (simp add: sorted_wrt_rev)
  then have "sorted_wrt (\<ge>) (map c (take k (orderDesc c rows)) @ map c (drop k (orderDesc c rows)))"
    by (simp flip: map_append)
  with assms show ?thesis by (simp add: sorted_wrt_append)
qed

end
