(* ===== verification/OpStore.thy ===== *)
theory OpStore
  imports Storage
begin

text \<open>
  internal/controller/operations/operations.go: the persisted operation store.  Every method is a
  definition over the database; the clock and the random identifier are arguments, the driver's
  failures an oracle.  A method that runs in a transaction leaves the database as it was unless it
  commits.
\<close>

subsection \<open>Constants and rows\<close>

abbreviation TypeApply :: string where "TypeApply \<equiv> ''apply''"
abbreviation TypeDelete :: string where "TypeDelete \<equiv> ''delete''"
abbreviation TypeStep :: string where "TypeStep \<equiv> ''step''"

abbreviation StatusPending :: string where "StatusPending \<equiv> ''pending''"
abbreviation StatusRunning :: string where "StatusRunning \<equiv> ''running''"
abbreviation StatusSucceeded :: string where "StatusSucceeded \<equiv> ''succeeded''"
abbreviation StatusFailed :: string where "StatusFailed \<equiv> ''failed''"
abbreviation StatusInterrupted :: string where "StatusInterrupted \<equiv> ''interrupted''"
abbreviation StatusCancelled :: string where "StatusCancelled \<equiv> ''canceled''"

definition isTerminalStatus :: "string \<Rightarrow> bool" where
  "isTerminalStatus s \<longleftrightarrow>
     s = StatusSucceeded \<or> s = StatusFailed \<or> s = StatusInterrupted \<or> s = StatusCancelled"

definition IsTerminal :: "operation \<Rightarrow> bool" where
  "IsTerminal o1 = isTerminalStatus (op_status o1)"

definition inFlight :: "operation \<Rightarrow> bool" where
  "inFlight o1 \<longleftrightarrow> op_status o1 = StatusPending \<or> op_status o1 = StatusRunning"

definition ofResource :: "string \<Rightarrow> string \<Rightarrow> string \<Rightarrow> operation \<Rightarrow> bool" where
  "ofResource av k n o1 \<longleftrightarrow> op_apiVersion o1 = av \<and> op_kind o1 = k \<and> op_name o1 = n"

definition sameResource :: "operation \<Rightarrow> operation \<Rightarrow> bool" where
  "sameResource o1 = ofResource (op_apiVersion o1) (op_kind o1) (op_name o1)"

text \<open>\<^verbatim>\<open>UPDATE operations SET ... WHERE ...\<close> and \<^verbatim>\<open>INSERT\<close> with the primary key on id.\<close>

definition updateOps :: "(operation \<Rightarrow> bool) \<Rightarrow> (operation \<Rightarrow> operation) \<Rightarrow> db \<Rightarrow> db" where
  "updateOps P f d = d\<lparr>db_ops := map (\<lambda>o1. if P o1 then f o1 else o1) (db_ops d)\<rparr>"

definition insertOp :: "string option \<Rightarrow> operation \<Rightarrow> db \<Rightarrow> err + db" where
  "insertOp f row d =
     bindE (dbCall f) (\<lambda>_.
       if op_id row \<in> op_id ` set (db_ops d)
       then Inl (DbErr ''UNIQUE constraint failed: operations.id'')
       else Inr (d\<lparr>db_ops := db_ops d @ [row]\<rparr>))"

text \<open>\<^verbatim>\<open>newOpID\<close>: the eight random bytes in lower-case hex.\<close>

definition hexByte :: "nat \<Rightarrow> string" where
  "hexByte b = [hexDigit (b div 16 mod 16), hexDigit (b mod 16)]"

definition newOpID :: "nat list \<Rightarrow> string" where
  "newOpID buf = ''op-'' @ concat (map hexByte buf)"

subsection \<open>Retention\<close>

definition collectable :: "operation \<Rightarrow> bool" where
  "collectable o1 \<longleftrightarrow>
     op_status o1 = StatusSucceeded \<or> op_status o1 = StatusFailed \<or> op_status o1 = StatusInterrupted"

definition gcVictims :: "int \<Rightarrow> db \<Rightarrow> string \<Rightarrow> string \<Rightarrow> string \<Rightarrow> operation list" where
  "gcVictims retain d av k n =
     drop (nat retain)
       (orderDesc op_submitted (filter (\<lambda>o1. ofResource av k n o1 \<and> collectable o1) (db_ops d)))"

definition gcResource ::
  "string option \<Rightarrow> int \<Rightarrow> db \<Rightarrow> string \<Rightarrow> string \<Rightarrow> string \<Rightarrow> err + db" where
  "gcResource f retain d av k n =
     (if retain \<le> 0 then Inr d
      else bindE (dbCall f) (\<lambda>_.
        Inr (d\<lparr>db_ops := filter (\<lambda>o1. op_id o1 \<notin> op_id ` set (gcVictims retain d av k n))
                              (db_ops d)\<rparr>)))"

subsection \<open>Submission\<close>

text \<open>The row the INSERT of \<open>Submit\<close> writes: the columns it names, the others NULL.\<close>

definition submitRow :: "operation \<Rightarrow> operation" where
  "submitRow o1 = o1\<lparr>op_result := NoDoc, op_error := [], op_started := [], op_completed := []\<rparr>"

definition conflictCheck :: "operation \<Rightarrow> db \<Rightarrow> err + unit" where
  "conflictCheck op1 d =
     (case find (\<lambda>o1. sameResource op1 o1 \<and> inFlight o1) (db_ops d) of
        Some o1 \<Rightarrow> if op_id o1 \<noteq> [] then Inl (ConflictError (op_id o1)) else Inr ()
      | None \<Rightarrow> Inr ())"

definition submitTx ::
  "io \<Rightarrow> string \<Rightarrow> string \<Rightarrow> operation \<Rightarrow> db \<Rightarrow> err + operation \<times> db" where
  "submitTx io now newid op1 d =
     (if op_type op1 = [] \<or> op_apiVersion op1 = [] \<or> op_kind op1 = [] \<or> op_name op1 = [] then
        Inl (Plain ''submit: type, apiVersion, kind, resource_name all required'')
      else
        bindE (dbCall (io 0)) (\<lambda>_.
        bindE (CheckNotForgotten (io 1) d (op_apiVersion op1) (op_kind op1) (op_name op1)) (\<lambda>_.
        bindE (wrapErr ''conflict check'' (dbCall (io 2))) (\<lambda>_.
        bindE (conflictCheck op1 d) (\<lambda>_.
        let op2 = op1\<lparr>op_id := newid, op_status := StatusPending, op_submitted := now\<rparr> in
        bindE (wrapErr ''insert'' (insertOp (io 3) (submitRow op2) d)) (\<lambda>d'.
        bindE (dbCall (io 4)) (\<lambda>_. Inr (op2, d'))))))))"

text \<open>Go's pair of results: the operation and the error, both present after a failed retention sweep.\<close>

definition Submit ::
  "io \<Rightarrow> string \<Rightarrow> string \<Rightarrow> int \<Rightarrow> operation \<Rightarrow> db \<Rightarrow> (operation option \<times> err option) \<times> db" where
  "Submit io now newid retain op1 d =
     (case submitTx io now newid op1 d of
        Inl e \<Rightarrow> ((None, Some e), d)
      | Inr (op2, d') \<Rightarrow>
          if retain > 0 then
            (case gcResource (io 5) retain d' (op_apiVersion op2) (op_kind op2) (op_name op2) of
               Inl e \<Rightarrow> ((Some op2, Some (Wrap ''submit ok, gc warning'' e)), d')
             | Inr d'' \<Rightarrow> ((Some op2, None), d''))
          else ((Some op2, None), d'))"

subsection \<open>Reading\<close>

definition Get :: "string option \<Rightarrow> db \<Rightarrow> string \<Rightarrow> err + operation" where
  "Get f d i =
     bindE (dbCall f) (\<lambda>_.
       case find (\<lambda>o1. op_id o1 = i) (db_ops d) of None \<Rightarrow> Inl ErrNoRows | Some o1 \<Rightarrow> Inr o1)"

record list_filter =
  lf_status :: string
  lf_apiVersion :: string
  lf_kind :: string
  lf_name :: string
  lf_source :: string
  lf_since :: string
  lf_until :: string
  lf_limit :: int

definition matchFilter :: "list_filter \<Rightarrow> operation \<Rightarrow> bool" where
  "matchFilter f o1 \<longleftrightarrow>
     (lf_status f \<noteq> [] \<longrightarrow> op_status o1 = lf_status f) \<and>
     (lf_apiVersion f \<noteq> [] \<longrightarrow> op_apiVersion o1 = lf_apiVersion f) \<and>
     (lf_kind f \<noteq> [] \<longrightarrow> op_kind o1 = lf_kind f) \<and>
     (lf_name f \<noteq> [] \<longrightarrow> op_name o1 = lf_name f) \<and>
     (lf_source f \<noteq> [] \<longrightarrow> op_source o1 = lf_source f) \<and>
     (lf_since f \<noteq> [] \<longrightarrow> lf_since f \<le> op_submitted o1) \<and>
     (lf_until f \<noteq> [] \<longrightarrow> op_submitted o1 \<le> lf_until f)"

definition List :: "string option \<Rightarrow> db \<Rightarrow> list_filter \<Rightarrow> err + operation list" where
  "List f d flt =
     bindE (dbCall f) (\<lambda>_.
       let rows = orderDesc op_submitted (filter (matchFilter flt) (db_ops d))
       in Inr (if lf_limit flt > 0 then take (nat (lf_limit flt)) rows else rows))"

definition ListChildren :: "string option \<Rightarrow> db \<Rightarrow> string \<Rightarrow> err + operation list" where
  "ListChildren f d parentID =
     (if parentID = [] then Inr []
      else bindE (dbCall f) (\<lambda>_.
        Inr (orderAsc op_submitted (filter (\<lambda>o1. op_parent o1 = parentID) (db_ops d)))))"

subsection \<open>The life of an operation\<close>

definition ClaimNextPending :: "io \<Rightarrow> string \<Rightarrow> db \<Rightarrow> err + operation \<times> db" where
  "ClaimNextPending io now d =
     bindE (dbCall (io 0)) (\<lambda>_.
     bindE (dbCall (io 1)) (\<lambda>_.
     case orderAsc op_submitted (filter (\<lambda>o1. op_status o1 = StatusPending) (db_ops d)) of
       [] \<Rightarrow> Inl ErrNoRows
     | o1 # _ \<Rightarrow>
         bindE (dbCall (io 2)) (\<lambda>_.
         let d' = updateOps (\<lambda>x. op_id x = op_id o1)
                    (\<lambda>x. x\<lparr>op_status := StatusRunning, op_started := now\<rparr>) d in
         bindE (dbCall (io 3)) (\<lambda>_.
           Inr (o1\<lparr>op_status := StatusRunning, op_started := now\<rparr>, d')))))"

definition terminate_row :: "string \<Rightarrow> string \<Rightarrow> string \<Rightarrow> doc \<Rightarrow> operation \<Rightarrow> operation" where
  "terminate_row now status errMsg result o1 =
     o1\<lparr>op_status := status, op_error := errMsg, op_result := result, op_completed := now\<rparr>"

definition Complete ::
  "io \<Rightarrow> string \<Rightarrow> int \<Rightarrow> string \<Rightarrow> string \<Rightarrow> string \<Rightarrow> doc \<Rightarrow> db \<Rightarrow> err option \<times> db" where
  "Complete io now retain i status errMsg result d =
     (if status \<noteq> StatusSucceeded \<and> status \<noteq> StatusFailed \<and> status \<noteq> StatusCancelled then
        (Some (Plain (''complete: status must be '' @ StatusSucceeded @ '', '' @ StatusFailed
                      @ '', or '' @ StatusCancelled @ '', got '' @ status)), d)
      else
        (case dbCall (io 0) of
           Inl e \<Rightarrow> (Some e, d)
         | Inr _ \<Rightarrow>
             let d' = updateOps (\<lambda>x. op_id x = i) (terminate_row now status errMsg result) d in
             if retain > 0 then
               (case Get (io 1) d' i of
                  Inl _ \<Rightarrow> (None, d')
                | Inr o1 \<Rightarrow>
                    (case gcResource (io 2) retain d' (op_apiVersion o1) (op_kind o1) (op_name o1) of
                       Inl _ \<Rightarrow> (None, d')
                     | Inr d'' \<Rightarrow> (None, d'')))
             else (None, d')))"

definition BeginChild ::
  "string option \<Rightarrow> string \<Rightarrow> string \<Rightarrow> string \<Rightarrow> operation \<Rightarrow> db \<Rightarrow> err + operation \<times> db" where
  "BeginChild f now newid parentID op1 d =
     (if parentID = [] then Inl (Plain ''begin child: parentID required'')
      else if op_type op1 = [] then Inl (Plain ''begin child: type required'')
      else
        (let op2 = op1\<lparr>op_id := newid, op_parent := parentID, op_status := StatusRunning,
                       op_submitted := now, op_started := now\<rparr>;
             row = op2\<lparr>op_result := NoDoc, op_error := [], op_completed := [], op_source := []\<rparr>
         in bindE (wrapErr ''insert child'' (insertOp f row d)) (\<lambda>d'. Inr (op2, d'))))"

definition EndChild ::
  "string option \<Rightarrow> string \<Rightarrow> string \<Rightarrow> string \<Rightarrow> string \<Rightarrow> doc \<Rightarrow> db \<Rightarrow> err + db" where
  "EndChild f now childID status errMsg result d =
     (if status \<noteq> StatusSucceeded \<and> status \<noteq> StatusFailed then
        Inl (Plain (''end child: status must be '' @ StatusSucceeded @ '' or '' @ StatusFailed
                    @ '', got '' @ status))
      else bindE (dbCall f) (\<lambda>_.
        Inr (updateOps (\<lambda>x. op_id x = childID) (terminate_row now status errMsg result) d)))"

definition SetLabel :: "string option \<Rightarrow> string \<Rightarrow> string \<Rightarrow> db \<Rightarrow> err + db" where
  "SetLabel f i label d =
     bindE (dbCall f) (\<lambda>_. Inr (updateOps (\<lambda>x. op_id x = i) (\<lambda>x. x\<lparr>op_label := label\<rparr>) d))"

record cancel_result =
  cr_status :: string
  cr_reason :: string

definition CancelPending :: "io \<Rightarrow> string \<Rightarrow> db \<Rightarrow> string \<Rightarrow> (err + cancel_result) \<times> db" where
  "CancelPending io now d i =
     (case dbCall (io 0) of
        Inl e \<Rightarrow> (Inl e, d)
      | Inr _ \<Rightarrow>
          (let P = (\<lambda>x. op_id x = i \<and> op_status x = StatusPending);
               d' = updateOps P (\<lambda>x. x\<lparr>op_status := StatusCancelled,
                        op_error := ''canceled by user before dispatcher claimed the op'',
                        op_completed := now\<rparr>) d
           in if length (filter P (db_ops d)) = 1
              then (Inr \<lparr>cr_status = StatusCancelled, cr_reason = []\<rparr>, d')
              else (case Get (io 1) d' i of
                      Inl e \<Rightarrow> (Inl e, d')
                    | Inr o1 \<Rightarrow>
                        (Inr \<lparr>cr_status = op_status o1,
                              cr_reason = (if op_status o1 = StatusRunning
                                 then ''operation already running, cannot cancel (cooperative cancellation of running ops is not supported in v1)''
                                 else ''operation already terminal, cannot cancel'')\<rparr>, d'))))"

definition MarkRunningInterrupted :: "string option \<Rightarrow> string \<Rightarrow> db \<Rightarrow> err + nat \<times> db" where
  "MarkRunningInterrupted f now d =
     bindE (dbCall f) (\<lambda>_.
       let P = (\<lambda>x. op_status x = StatusRunning) in
       Inr (length (filter P (db_ops d)),
            updateOps P (\<lambda>x. x\<lparr>op_status := StatusInterrupted,
               op_error := ''controller restarted while this operation was running; re-apply if needed'',
               op_completed := now\<rparr>) d))"

subsection \<open>Steps and invariant\<close>

text \<open>
  One call of a store method, with any arguments, clock, identifier and driver behaviour.
\<close>

inductive store_step :: "db \<Rightarrow> db \<Rightarrow> bool" where
  submit: "Submit io now (newOpID buf) retain op1 d = (r, d') \<Longrightarrow> store_step d d'"
| claim: "ClaimNextPending io now d = Inr (o1, d') \<Longrightarrow> store_step d d'"
| complete: "Complete io now retain i st msg res d = (r, d') \<Longrightarrow> store_step d d'"
| begin_child: "BeginChild f now (newOpID buf) parent op1 d = Inr (o1, d') \<Longrightarrow> store_step d d'"
| end_child: "EndChild f now i st msg res d = Inr d' \<Longrightarrow> store_step d d'"
| set_label: "SetLabel f i label d = Inr d' \<Longrightarrow> store_step d d'"
| cancel: "CancelPending io now d i = (r, d') \<Longrightarrow> store_step d d'"
| interrupt: "MarkRunningInterrupted f now d = Inr (n, d') \<Longrightarrow> store_step d d'"

inductive store_reach :: "db \<Rightarrow> db \<Rightarrow> bool" where
  reach_refl: "store_reach d d"
| reach_step: "store_reach d d' \<Longrightarrow> store_step d' d'' \<Longrightarrow> store_reach d d''"

definition validStatus :: "string \<Rightarrow> bool" where
  "validStatus s \<longleftrightarrow> s = StatusPending \<or> s = StatusRunning \<or> isTerminalStatus s"

text \<open>
  Distinct non-empty identifiers, known statuses, and at most one top-level operation in flight per
  resource.
\<close>

definition ops_inv :: "operation list \<Rightarrow> bool" where
  "ops_inv rows \<longleftrightarrow>
     distinct (map op_id rows) \<and>
     (\<forall>o1 \<in> set rows. op_id o1 \<noteq> [] \<and> validStatus (op_status o1)) \<and>
     (\<forall>o1 \<in> set rows. \<forall>o2 \<in> set rows.
        op_parent o1 = [] \<and> op_parent o2 = [] \<and> inFlight o1 \<and> inFlight o2 \<and> sameResource o1 o2
        \<longrightarrow> op_id o1 = op_id o2)"

subsection \<open>Library lemmas\<close>

named_theorems row_simps \<open>statuses and identity columns of updated rows\<close>

lemma db_ops_updateOps [simp]:
  "db_ops (updateOps P f d) = map (\<lambda>o1. if P o1 then f o1 else o1) (db_ops d)"
  by (simp add: updateOps_def)

lemma updateOps_other_tables [simp]:
  "db_releases (updateOps P f d) = db_releases d" "db_applied (updateOps P f d) = db_applied d"
  "db_states (updateOps P f d) = db_states d" "db_meta (updateOps P f d) = db_meta d"
  by (simp_all add: updateOps_def)

lemma insertOp_Inr [res_simps]:
  "insertOp f row d = Inr d' \<longleftrightarrow>
     f = None \<and> op_id row \<notin> op_id ` set (db_ops d) \<and> d' = d\<lparr>db_ops := db_ops d @ [row]\<rparr>"
  by (auto simp: insertOp_def res_simps split: if_splits)

lemma newOpID_nonempty [simp]: "newOpID buf \<noteq> []"
  by (simp add: newOpID_def)

lemma terminate_row_sel [simp, row_simps]:
  "op_id (terminate_row now st msg res x) = op_id x"
  "op_status (terminate_row now st msg res x) = st"
  "op_parent (terminate_row now st msg res x) = op_parent x"
  "op_apiVersion (terminate_row now st msg res x) = op_apiVersion x"
  "op_kind (terminate_row now st msg res x) = op_kind x"
  "op_name (terminate_row now st msg res x) = op_name x"
  by (simp_all add: terminate_row_def)

text \<open>A row update that keeps the identity columns and never puts an operation back in flight.\<close>

definition keepsIdentity :: "(operation \<Rightarrow> operation) \<Rightarrow> bool" where
  "keepsIdentity f \<longleftrightarrow> (\<forall>x. op_id (f x) = op_id x \<and> op_parent (f x) = op_parent x \<and>
     op_apiVersion (f x) = op_apiVersion x \<and> op_kind (f x) = op_kind x \<and> op_name (f x) = op_name x)"

definition rank :: "operation \<Rightarrow> nat" where
  "rank x = (if op_status x = StatusPending then 0 else if IsTerminal x then 2 else 1)"

definition progresses :: "(operation \<Rightarrow> operation) \<Rightarrow> operation \<Rightarrow> bool" where
  "progresses f x \<longleftrightarrow> (validStatus (op_status x) \<longrightarrow> validStatus (op_status (f x))) \<and> rank x \<le> rank (f x)"

lemma inFlight_rank: "validStatus (op_status x) \<Longrightarrow> inFlight x \<longleftrightarrow> rank x < 2"
  by (auto simp: validStatus_def inFlight_def rank_def IsTerminal_def isTerminalStatus_def)

lemma sameResource_iff: "sameResource a b \<longleftrightarrow>
    op_apiVersion b = op_apiVersion a \<and> op_kind b = op_kind a \<and> op_name b = op_name a"
  by (simp add: sameResource_def ofResource_def)

lemma sameResource_row [row_simps]:
  "keepsIdentity f \<Longrightarrow> sameResource (f a) b = sameResource a b"
  "keepsIdentity f \<Longrightarrow> sameResource a (f b) = sameResource a b"
  by (simp_all add: keepsIdentity_def sameResource_iff)

lemma ops_inv_map:
  assumes "ops_inv rows" "keepsIdentity f" "\<forall>x \<in> set rows. P x \<longrightarrow> progresses f x"
  shows "ops_inv (map (\<lambda>x. if P x then f x else x) rows)" (is "ops_inv (map ?g rows)")
proof -
  have ids: "op_id (?g x) = op_id x" and par: "op_parent (?g x) = op_parent x" for x
    using assms(2) by (simp_all add: keepsIdentity_def)
  have res: "sameResource (?g x) (?g y) = sameResource x y" for x y
    using assms(2) by (simp add: row_simps)
  have v: "validStatus (op_status (?g x))" if "x \<in> set rows" for x
    using assms(1,3) that by (simp add: ops_inv_def progresses_def)
  have fl: "inFlight x" if "x \<in> set rows" "inFlight (?g x)" for x
  proof -
    have "rank x \<le> rank (?g x)" using assms(3) that(1) by (simp add: progresses_def)
    moreover have "validStatus (op_status x)" using assms(1) that(1) by (simp add: ops_inv_def)
    ultimately show ?thesis using that(2) v [OF that(1)] by (simp only: inFlight_rank)
  qed
  have d: "distinct (map op_id (map ?g rows))"
    using assms(1) by (simp add: ops_inv_def ids comp_def del: if_distrib)
  show ?thesis
    unfolding ops_inv_def
  proof (intro conjI ballI impI d)
    fix a assume "a \<in> set (map ?g rows)"
    then obtain x where x: "x \<in> set rows" "a = ?g x" by auto
    then show "op_id a \<noteq> []" using assms(1) ids [of x] by (simp add: ops_inv_def)
    from x v show "validStatus (op_status a)" by blast
    fix b assume "b \<in> set (map ?g rows)"
    then obtain y where y: "y \<in> set rows" "b = ?g y" by auto
    assume h: "op_parent a = [] \<and> op_parent b = [] \<and> inFlight a \<and> inFlight b \<and> sameResource a b"
    have "op_id x = op_id y"
      using assms(1) x y h par [of x] par [of y] res [of x y] fl [of x] fl [of y]
      unfolding ops_inv_def by metis
    then show "op_id a = op_id b" using x(2) y(2) ids by metis
  qed
qed

lemma ops_inv_filter: "ops_inv rows \<Longrightarrow> ops_inv (filter P rows)"
  by (simp add: ops_inv_def distinct_map_filter)

lemma ops_inv_snoc:
  assumes "ops_inv rows" "op_id r \<notin> op_id ` set rows" "op_id r \<noteq> []" "validStatus (op_status r)"
    and "op_parent r = [] \<Longrightarrow> inFlight r \<Longrightarrow> \<forall>x \<in> set rows. sameResource r x \<longrightarrow> \<not> inFlight x"
  shows "ops_inv (rows @ [r])"
proof -
  have "op_id a = op_id b"
    if "a \<in> set (rows @ [r])" "b \<in> set (rows @ [r])"
      and "op_parent a = []" "op_parent b = []" "inFlight a" "inFlight b" "sameResource a b" for a b
  proof -
    have sym: "sameResource b a" using that(7) by (simp add: sameResource_iff)
    have ab: "a \<in> set rows \<or> a = r" "b \<in> set rows \<or> b = r" using that(1,2) by auto
    show ?thesis using that(3-7) ab sym assms(1,5) unfolding ops_inv_def by blast
  qed
  moreover have "distinct (map op_id (rows @ [r]))" "\<forall>x \<in> set (rows @ [r]). op_id x \<noteq> [] \<and> validStatus (op_status x)"
    using assms(1-4) by (auto simp: ops_inv_def)
  ultimately show ?thesis unfolding ops_inv_def by blast
qed

subsection \<open>Evolution of the operations table\<close>

text \<open>
  What every method guarantees of the table: the invariant is kept, an operation that is still there
  has kept its identity and has not gone back in its life cycle.
\<close>

definition evolves :: "operation list \<Rightarrow> operation list \<Rightarrow> bool" where
  "evolves rows rows' \<longleftrightarrow> ops_inv rows' \<and>
     (\<forall>x \<in> set rows. \<forall>y \<in> set rows'. op_id x = op_id y \<longrightarrow>
        rank x \<le> rank y \<and> sameResource x y \<and> op_parent x = op_parent y)"

lemma unique_row: "ops_inv rows \<Longrightarrow> x \<in> set rows \<Longrightarrow> y \<in> set rows \<Longrightarrow> op_id x = op_id y \<Longrightarrow> x = y"
  by (simp add: ops_inv_def distinct_map inj_on_def)

lemma evolves_refl [simp]: "ops_inv rows \<Longrightarrow> evolves rows rows"
  by (auto simp: evolves_def sameResource_iff dest: unique_row)

lemma evolves_map:
  assumes "ops_inv rows" "keepsIdentity f" "\<forall>x \<in> set rows. P x \<longrightarrow> progresses f x"
  shows "evolves rows (map (\<lambda>x. if P x then f x else x) rows)"
proof -
  have "rank x \<le> rank (if P y then f y else y) \<and> sameResource x (if P y then f y else y) \<and>
        op_parent x = op_parent (if P y then f y else y)"
    if "x \<in> set rows" "y \<in> set rows" "op_id x = op_id (if P y then f y else y)" for x y
  proof -
    have "op_id x = op_id y" using that(3) assms(2) by (simp add: keepsIdentity_def split: if_splits)
    then have "x = y" using unique_row [OF assms(1)] that(1,2) by blast
    then show ?thesis using assms(2,3) that(1)
      by (simp add: keepsIdentity_def progresses_def sameResource_iff)
  qed
  then show ?thesis using ops_inv_map [OF assms] unfolding evolves_def set_map by blast
qed

lemma evolves_snoc:
  assumes "ops_inv rows" "op_id r \<notin> op_id ` set rows" "op_id r \<noteq> []" "validStatus (op_status r)"
    and "op_parent r = [] \<Longrightarrow> inFlight r \<Longrightarrow> \<forall>x \<in> set rows. sameResource r x \<longrightarrow> \<not> inFlight x"
  shows "evolves rows (rows @ [r])"
proof -
  have "x = y" if "x \<in> set rows" "y \<in> set (rows @ [r])" "op_id x = op_id y" for x y
  proof -
    have "op_id y \<in> op_id ` set rows" using that(1,3) by (metis image_eqI)
    then have "y \<in> set rows" using that(2) assms(2) by auto
    then show ?thesis using unique_row [OF assms(1)] that(1,3) by blast
  qed
  then show ?thesis using ops_inv_snoc [OF assms] unfolding evolves_def
    by (metis order_refl sameResource_iff)
qed

lemma evolves_filter: "evolves rows rows' \<Longrightarrow> evolves rows (filter P rows')"
  by (simp add: evolves_def ops_inv_filter)

lemma gcResource_rows:
  "gcResource f retain d av k n = Inr d' \<Longrightarrow> \<exists>P. d' = d\<lparr>db_ops := filter P (db_ops d)\<rparr>"
  by (auto simp: gcResource_def res_simps split: if_splits intro: exI [of _ "\<lambda>_. True"])

lemma conflictCheck_Inr:
  assumes "conflictCheck op1 d = Inr u" "\<forall>x \<in> set (db_ops d). op_id x \<noteq> []"
  shows "\<forall>x \<in> set (db_ops d). sameResource op1 x \<longrightarrow> \<not> inFlight x"
proof (cases "find (\<lambda>o1. sameResource op1 o1 \<and> inFlight o1) (db_ops d)")
  case None
  then show ?thesis by (auto simp: find_None_iff)
next
  case (Some y)
  then have "y \<in> set (db_ops d)" by (auto simp: find_Some_iff)
  with Some assms show ?thesis by (simp add: conflictCheck_def)
qed

lemma conflictCheck_Inl:
  "conflictCheck op1 d = Inl e \<Longrightarrow>
     \<exists>x \<in> set (db_ops d). sameResource op1 x \<and> inFlight x \<and> e = ConflictError (op_id x)"
  by (auto simp: conflictCheck_def find_Some_iff split: option.splits if_splits)

lemma submitTx_Inr:
  assumes "submitTx io now newid op1 d = Inr (op2, d')"
  shows "op2 = op1\<lparr>op_id := newid, op_status := StatusPending, op_submitted := now\<rparr>"
    and "d' = d\<lparr>db_ops := db_ops d @ [submitRow op2]\<rparr>"
    and "newid \<notin> op_id ` set (db_ops d)"
    and "conflictCheck op1 d = Inr ()"
    and "\<not> isReleased d (op_apiVersion op1) (op_kind op1) (op_name op1)"
    and "op_type op1 \<noteq> [] \<and> op_apiVersion op1 \<noteq> [] \<and> op_kind op1 \<noteq> [] \<and> op_name op1 \<noteq> []"
  using assms by (auto simp: submitTx_def Let_def res_simps submitRow_def split: if_splits)

lemma submitTx_evolves:
  assumes "submitTx io now newid op1 d = Inr (op2, d')" "ops_inv (db_ops d)" "newid \<noteq> []"
  shows "evolves (db_ops d) (db_ops d')"
proof -
  note t = submitTx_Inr [OF assms(1)]
  have ids: "\<forall>x \<in> set (db_ops d). op_id x \<noteq> []" using assms(2) by (simp add: ops_inv_def)
  have "evolves (db_ops d) (db_ops d @ [submitRow op2])"
    using conflictCheck_Inr [OF t(4) ids] t(1,3) assms(2,3)
    by (intro evolves_snoc) (auto simp: submitRow_def validStatus_def sameResource_iff)
  then show ?thesis using t(2) by simp
qed

lemma Submit_evolves:
  assumes "ops_inv (db_ops d)" "Submit io now (newOpID buf) retain op1 d = (r, d')"
  shows "evolves (db_ops d) (db_ops d')"
proof (cases "submitTx io now (newOpID buf) op1 d")
  case (Inl e)
  then show ?thesis using assms by (auto simp: Submit_def)
next
  case (Inr p)
  obtain op2 d1 where p: "p = (op2, d1)" by (cases p)
  have e: "evolves (db_ops d) (db_ops d1)"
    using submitTx_evolves Inr p assms(1) newOpID_nonempty by blast
  show ?thesis
    using assms(2) Inr p e
    by (auto simp: Submit_def split: if_splits sum.splits dest!: gcResource_rows intro: evolves_filter)
qed

lemma progresses_terminal:
  "isTerminalStatus (op_status (f x)) \<Longrightarrow> progresses f x"
  by (auto simp: progresses_def rank_def IsTerminal_def validStatus_def isTerminalStatus_def)

lemma Complete_evolves:
  assumes "ops_inv (db_ops d)" "Complete io now retain i st msg res d = (r, d')"
  shows "evolves (db_ops d) (db_ops d')"
proof (cases "isTerminalStatus st")
  case True
  let ?d = "updateOps (\<lambda>x. op_id x = i) (terminate_row now st msg res) d"
  have e: "evolves (db_ops d) (db_ops ?d)"
    using assms(1) True by (simp add: evolves_map keepsIdentity_def progresses_terminal)
  show ?thesis
    using assms e
    by (auto simp: Complete_def Let_def dbCall_def split: if_splits sum.splits option.splits
             dest!: gcResource_rows intro: evolves_filter)
next
  case False
  then show ?thesis using assms by (auto simp: Complete_def isTerminalStatus_def)
qed

lemma find_pending_head:
  assumes "orderAsc op_submitted (filter (\<lambda>x. op_status x = StatusPending) rows) = o1 # rest"
  shows "o1 \<in> set rows" "op_status o1 = StatusPending"
    and "\<forall>x \<in> set rows. op_status x = StatusPending \<longrightarrow> op_submitted o1 \<le> op_submitted x"
  using orderAsc_head [OF assms] by auto

lemma ClaimNextPending_Inr:
  assumes "ClaimNextPending io now d = Inr (o1, d')"
  obtains o0 rest where
    "orderAsc op_submitted (filter (\<lambda>x. op_status x = StatusPending) (db_ops d)) = o0 # rest"
    "o1 = o0\<lparr>op_status := StatusRunning, op_started := now\<rparr>"
    "d' = updateOps (\<lambda>x. op_id x = op_id o0) (\<lambda>x. x\<lparr>op_status := StatusRunning, op_started := now\<rparr>) d"
  using assms by (auto simp: ClaimNextPending_def Let_def res_simps split: list.splits)

lemma ClaimNextPending_evolves:
  assumes "ops_inv (db_ops d)" "ClaimNextPending io now d = Inr (o1, d')"
  shows "evolves (db_ops d) (db_ops d')"
proof -
  obtain o0 rest where
    h: "orderAsc op_submitted (filter (\<lambda>x. op_status x = StatusPending) (db_ops d)) = o0 # rest"
    and d': "d' = updateOps (\<lambda>x. op_id x = op_id o0) (\<lambda>x. x\<lparr>op_status := StatusRunning, op_started := now\<rparr>) d"
    using ClaimNextPending_Inr [OF assms(2)] by metis
  note o0 = find_pending_head [OF h]
  have "op_status x = StatusPending" if "x \<in> set (db_ops d)" "op_id x = op_id o0" for x
    using unique_row [OF assms(1) that(1) o0(1) that(2)] o0(2) by simp
  then show ?thesis using assms(1) unfolding d' db_ops_updateOps
    by (intro evolves_map) (auto simp: keepsIdentity_def progresses_def validStatus_def rank_def)
qed

lemma BeginChild_evolves:
  assumes "ops_inv (db_ops d)" "BeginChild f now (newOpID buf) parent op1 d = Inr (o1, d')"
  shows "evolves (db_ops d) (db_ops d')"
  using assms
  by (auto simp: BeginChild_def Let_def res_simps validStatus_def split: if_splits intro!: evolves_snoc)

lemma EndChild_evolves:
  assumes "ops_inv (db_ops d)" "EndChild f now i st msg res d = Inr d'"
  shows "evolves (db_ops d) (db_ops d')"
proof -
  have "isTerminalStatus st" "d' = updateOps (\<lambda>x. op_id x = i) (terminate_row now st msg res) d"
    using assms(2) by (auto simp: EndChild_def res_simps isTerminalStatus_def split: if_splits)
  then show ?thesis using assms(1) by (simp add: evolves_map keepsIdentity_def progresses_terminal)
qed

lemma SetLabel_evolves:
  assumes "ops_inv (db_ops d)" "SetLabel f i label d = Inr d'"
  shows "evolves (db_ops d) (db_ops d')"
  using assms
  by (auto simp: SetLabel_def res_simps progresses_def rank_def IsTerminal_def keepsIdentity_def
           intro!: evolves_map)

lemma CancelPending_evolves:
  assumes "ops_inv (db_ops d)" "CancelPending io now d i = (r, d')"
  shows "evolves (db_ops d) (db_ops d')"
proof (cases "io 0")
  case None
  have "d' = updateOps (\<lambda>x. op_id x = i \<and> op_status x = StatusPending)
                (\<lambda>x. x\<lparr>op_status := StatusCancelled,
                   op_error := ''canceled by user before dispatcher claimed the op'', op_completed := now\<rparr>) d"
    using assms(2) None by (auto simp: CancelPending_def Let_def split: if_splits sum.splits)
  then show ?thesis using assms(1)
    by (auto simp: keepsIdentity_def isTerminalStatus_def intro!: evolves_map progresses_terminal)
next
  case (Some e)
  then show ?thesis using assms by (simp add: CancelPending_def)
qed

lemma MarkRunningInterrupted_Inr:
  "MarkRunningInterrupted f now d = Inr (n, d') \<longleftrightarrow> f = None \<and>
     n = length (filter (\<lambda>x. op_status x = StatusRunning) (db_ops d)) \<and>
     d' = updateOps (\<lambda>x. op_status x = StatusRunning) (\<lambda>x. x\<lparr>op_status := StatusInterrupted,
            op_error := ''controller restarted while this operation was running; re-apply if needed'',
            op_completed := now\<rparr>) d"
  by (auto simp: MarkRunningInterrupted_def Let_def res_simps)

lemma MarkRunningInterrupted_evolves:
  assumes "ops_inv (db_ops d)" "MarkRunningInterrupted f now d = Inr (n, d')"
  shows "evolves (db_ops d) (db_ops d')"
  using assms
  by (auto simp: MarkRunningInterrupted_Inr keepsIdentity_def isTerminalStatus_def
           intro!: evolves_map progresses_terminal)

lemmas evolves_ops = Submit_evolves ClaimNextPending_evolves Complete_evolves BeginChild_evolves
  EndChild_evolves SetLabel_evolves CancelPending_evolves MarkRunningInterrupted_evolves

lemma store_step_evolves: "store_step d d' \<Longrightarrow> ops_inv (db_ops d) \<Longrightarrow> evolves (db_ops d) (db_ops d')"
  by (induction rule: store_step.induct) (erule (1) evolves_ops)+

lemma store_reach_ops_inv: "store_reach d d' \<Longrightarrow> ops_inv (db_ops d) \<Longrightarrow> ops_inv (db_ops d')"
  by (induction rule: store_reach.induct) (auto dest: store_step_evolves simp: evolves_def)

lemma ops_inv_emptyDb [simp]: "ops_inv (db_ops emptyDb)"
  by (simp add: emptyDb_def ops_inv_def)

text \<open>What the retention sweep can delete: settled operations of the given resource.\<close>

lemma gcVictims_set:
  "v \<in> set (gcVictims retain d av k n) \<Longrightarrow> v \<in> set (db_ops d) \<and> ofResource av k n v \<and> collectable v"
  by (auto simp: gcVictims_def dest!: in_set_dropD)

lemma gcResource_None: "gcResource None retain d av k n \<noteq> Inl e"
  by (simp add: gcResource_def)

lemma gcResource_keeps:
  assumes "gcResource f retain d av k n = Inr d'" "distinct (map op_id (db_ops d))"
    and "x \<in> set (db_ops d)" "\<not> (ofResource av k n x \<and> collectable x)"
  shows "x \<in> set (db_ops d')"
proof -
  have "op_id x \<noteq> op_id v" if "v \<in> set (gcVictims retain d av k n)" for v
    using gcVictims_set [OF that] assms(2-4) by (auto simp: distinct_map inj_on_def)
  then have "op_id x \<notin> op_id ` set (gcVictims retain d av k n)" by blast
  then show ?thesis using assms(1,3) by (simp add: gcResource_def res_simps split: if_splits) force
qed

subsection \<open>Properties of the store\<close>

text \<open>A concrete row for the examples.\<close>

definition sampleOp :: "string \<Rightarrow> string \<Rightarrow> string \<Rightarrow> operation" where
  "sampleOp i st t = \<lparr>op_id = i, op_parent = [], op_type = TypeApply, op_apiVersion = ''k3s.openctl.io/v1'',
     op_kind = ''Cluster'', op_name = ''dev'', op_label = [], op_manifest = NoDoc, op_result = NoDoc,
     op_status = st, op_error = [], op_submitted = t, op_started = [], op_completed = [], op_source = ''cli''\<rparr>"

definition sampleDb :: "operation list \<Rightarrow> db" where
  "sampleDb rows = emptyDb\<lparr>db_ops := rows\<rparr>"

lemmas sample_simps = sampleDb_def emptyDb_def sampleOp_def

text \<open>
  C1. Whatever sequence of store calls runs, with whatever arguments and driver failures, starting from
  an empty database: operation identifiers stay distinct, every status is a known one, and no resource
  ever has two top-level operations in flight.
\<close>
theorem reachable_ops_inv: "store_reach emptyDb d \<Longrightarrow> ops_inv (db_ops d)"
  using store_reach_ops_inv ops_inv_emptyDb by blast

theorem reachable_ops_inv_witness:
  "ops_inv (db_ops (snd (Submit (\<lambda>_. None) ''t0'' (newOpID [171, 205]) 5 (sampleOp [] [] []) emptyDb)))"
proof (rule reachable_ops_inv)
  show "store_reach emptyDb (snd (Submit (\<lambda>_. None) ''t0'' (newOpID [171, 205]) 5 (sampleOp [] [] []) emptyDb))"
    by (rule reach_step [OF reach_refl], rule store_step.submit, rule surjective_pairing)
qed

text \<open>
  The life cycle of an operation is one-way: no store call moves a row that is still present from
  running back to pending or from a terminal status back into flight, nor changes the resource or the
  parent it belongs to; and the call keeps the invariant.
\<close>
theorem store_step_progress:
  assumes "ops_inv (db_ops d)" "store_step d d'"
  shows "ops_inv (db_ops d') \<and>
    (\<forall>x \<in> set (db_ops d). \<forall>y \<in> set (db_ops d'). op_id x = op_id y \<longrightarrow>
       rank x \<le> rank y \<and> sameResource x y \<and> op_parent x = op_parent y)"
  using store_step_evolves [OF assms(2,1)] by (simp add: evolves_def)

theorem store_step_progress_witness:
  "ops_inv (db_ops (updateOps (\<lambda>x. op_id x = ''a'') (\<lambda>x. x\<lparr>op_label := ''l''\<rparr>) (sampleDb [sampleOp ''a'' StatusRunning ''t'']))) \<and>
   rank (sampleOp ''a'' StatusRunning ''t'') \<le> rank ((sampleOp ''a'' StatusRunning ''t'')\<lparr>op_label := ''l''\<rparr>)"
proof -
  let ?d = "sampleDb [sampleOp ''a'' StatusRunning ''t'']"
  have "SetLabel None ''a'' ''l'' ?d = Inr (updateOps (\<lambda>x. op_id x = ''a'') (\<lambda>x. x\<lparr>op_label := ''l''\<rparr>) ?d)"
    by (simp add: SetLabel_def)
  then have st: "store_step ?d (updateOps (\<lambda>x. op_id x = ''a'') (\<lambda>x. x\<lparr>op_label := ''l''\<rparr>) ?d)"
    by (rule store_step.set_label)
  have "ops_inv (db_ops ?d)" by (simp add: ops_inv_def sample_simps validStatus_def)
  from store_step_progress [OF this st] show ?thesis by (simp add: sample_simps)
qed

text \<open>
  C15. \<open>Submit\<close> on a healthy database: a well-formed operation with a fresh identifier is accepted
  exactly when the resource is not released to another controller and has no operation in flight; a
  rejected call changes nothing, names the conflicting operation when there is one, and an accepted
  call leaves the pending row in the table.
\<close>
theorem submit_accepts_iff:
  assumes "ops_inv (db_ops d)" "newid \<notin> op_id ` set (db_ops d)"
    and "op_type op1 \<noteq> []" "op_apiVersion op1 \<noteq> []" "op_kind op1 \<noteq> []" "op_name op1 \<noteq> []"
  shows "case Submit (\<lambda>_. None) now newid retain op1 d of
      ((Some op2, e), d') \<Rightarrow> e = None \<and> submitRow op2 \<in> set (db_ops d') \<and> op_status op2 = StatusPending \<and>
         \<not> isReleased d (op_apiVersion op1) (op_kind op1) (op_name op1) \<and>
         (\<forall>x \<in> set (db_ops d). sameResource op1 x \<longrightarrow> \<not> inFlight x)
    | ((None, e), d') \<Rightarrow> d' = d \<and>
         (e = Some (ForgottenError (op_apiVersion op1) (op_kind op1) (op_name op1)) \<and>
            isReleased d (op_apiVersion op1) (op_kind op1) (op_name op1)
          \<or> (\<exists>x \<in> set (db_ops d). sameResource op1 x \<and> inFlight x \<and> e = Some (ConflictError (op_id x))))"
proof (cases "submitTx (\<lambda>_. None) now newid op1 d")
  case (Inl e)
  have "e = ForgottenError (op_apiVersion op1) (op_kind op1) (op_name op1) \<and>
            isReleased d (op_apiVersion op1) (op_kind op1) (op_name op1)
          \<or> (\<exists>x \<in> set (db_ops d). sameResource op1 x \<and> inFlight x \<and> e = ConflictError (op_id x))"
    using Inl assms(2-) conflictCheck_Inl [of op1 d]
    by (cases "conflictCheck op1 d")
       (auto simp: submitTx_def CheckNotForgotten_def insertOp_def submitRow_def Let_def split: if_splits)
  then show ?thesis using Inl by (auto simp: Submit_def)
next
  case (Inr p)
  obtain op2 d1 where p: "p = (op2, d1)" by (cases p)
  note t = submitTx_Inr [OF Inr [unfolded p]]
  have ids: "\<forall>x \<in> set (db_ops d). op_id x \<noteq> []" using assms(1) by (simp add: ops_inv_def)
  note nc = conflictCheck_Inr [OF t(4) ids]
  let ?row = "submitRow op2"
  have st: "op_status op2 = StatusPending" and row: "op_id ?row = newid" using t(1) by (simp_all add: submitRow_def)
  have dist: "distinct (map op_id (db_ops d1))" using t(2,3) row assms(1) by (simp add: ops_inv_def)
  have "\<not> collectable ?row" "?row \<in> set (db_ops d1)" using st t(2) by (simp_all add: collectable_def submitRow_def)
  then have kept: "?row \<in> set (db_ops d2)"
    if "gcResource None retain d1 av k n = Inr d2" for av k n d2
    using gcResource_keeps [OF that dist] by blast
  show ?thesis
    using Inr p nc t(5) st \<open>?row \<in> set (db_ops d1)\<close> kept
    by (auto simp: Submit_def gcResource_None split: sum.splits)
qed

theorem submit_accepts_iff_witness:
  "fst (Submit (\<lambda>_. None) ''t1'' ''op-2'' 5 (sampleOp [] [] []) (sampleDb [sampleOp ''op-1'' StatusRunning ''t0'']))
     = (None, Some (ConflictError ''op-1''))"
proof -
  have "ops_inv (db_ops (sampleDb [sampleOp ''op-1'' StatusRunning ''t0'']))"
    by (simp add: ops_inv_def sample_simps validStatus_def)
  from submit_accepts_iff [OF this, of "''op-2''" "sampleOp [] [] []" "''t1''" 5]
  show ?thesis by (auto simp: sample_simps isReleased_def inFlight_def sameResource_iff split: prod.splits option.splits)
qed

text \<open>
  C40. Under any driver failure \<open>Submit\<close> is all or nothing: with no operation returned there is an error
  and the database is untouched; with one returned its row is in the table, no unsettled operation and
  no operation of another resource was deleted, and an error can only be the retention warning.
\<close>
theorem submit_atomic:
  assumes "distinct (map op_id (db_ops d))" "Submit io now newid retain op1 d = ((r, e), d')"
  shows "case r of
      None \<Rightarrow> e \<noteq> None \<and> d' = d
    | Some op2 \<Rightarrow>
        submitRow op2 \<in> set (db_ops d') \<and>
        (\<forall>x \<in> set (db_ops d). \<not> (sameResource op1 x \<and> collectable x) \<longrightarrow> x \<in> set (db_ops d')) \<and>
        (e = None \<or> (\<exists>w. e = Some (Wrap ''submit ok, gc warning'' w) \<and> db_ops d' = db_ops d @ [submitRow op2]))"
proof (cases "submitTx io now newid op1 d")
  case (Inl err)
  then show ?thesis using assms(2) by (auto simp: Submit_def)
next
  case (Inr p)
  obtain op2 d1 where p: "p = (op2, d1)" by (cases p)
  note t = submitTx_Inr [OF Inr [unfolded p]]
  have r: "r = Some op2" using assms(2) Inr p by (auto simp: Submit_def split: if_splits sum.splits)
  have dist: "distinct (map op_id (db_ops d1))" using t(1-3) assms(1) by (simp add: submitRow_def)
  have d1: "db_ops d1 = db_ops d @ [submitRow op2]" using t(2) by simp
  have nc: "\<not> collectable (submitRow op2)" using t(1) by (simp add: collectable_def submitRow_def)
  have res: "ofResource (op_apiVersion op2) (op_kind op2) (op_name op2) = sameResource op1"
    using t(1) by (simp add: sameResource_def)
  have gc: "\<forall>x \<in> set (db_ops d1). \<not> (sameResource op1 x \<and> collectable x) \<longrightarrow> x \<in> set (db_ops d2)"
    if "gcResource (io 5) retain d1 (op_apiVersion op2) (op_kind op2) (op_name op2) = Inr d2" for d2
    using gcResource_keeps [OF that dist] res by metis
  consider (kept) "d' = d1" "e = None \<or> (\<exists>w. e = Some (Wrap ''submit ok, gc warning'' w))"
    | (swept) d2 where "gcResource (io 5) retain d1 (op_apiVersion op2) (op_kind op2) (op_name op2) = Inr d2"
        "d' = d2" "e = None"
    using assms(2) Inr p by (auto simp: Submit_def split: if_splits sum.splits)
  then show ?thesis
  proof cases
    case kept
    then show ?thesis using r d1 by auto
  next
    case swept
    then show ?thesis using r d1 nc gc [OF swept(1)] by simp
  qed
qed

theorem submit_atomic_witness:
  "snd (Submit (\<lambda>i. if i = 3 then Some ''disk full'' else None) ''t'' ''op-1'' 5 (sampleOp [] [] []) emptyDb) = emptyDb"
proof -
  let ?s = "Submit (\<lambda>i. if i = 3 then Some ''disk full'' else None) ''t'' ''op-1'' 5 (sampleOp [] [] []) emptyDb"
  have r: "fst (fst ?s) = None"
    by (simp add: Submit_def submitTx_def CheckNotForgotten_def conflictCheck_def insertOp_def isReleased_def
          sample_simps bindE_def)
  have "distinct (map op_id (db_ops emptyDb))" by (simp add: emptyDb_def)
  moreover obtain r e d' where s: "?s = ((r, e), d')" by (metis prod.collapse)
  ultimately have "case r of None \<Rightarrow> e \<noteq> None \<and> d' = emptyDb | Some op2 \<Rightarrow> True"
    using submit_atomic by (fastforce split: option.splits)
  then show ?thesis using r s by simp
qed

text \<open>
  \<open>ClaimNextPending\<close> on a healthy database: it reports \<open>ErrNoRows\<close> exactly when nothing is
  pending; otherwise it returns a pending operation whose timestamp text is least, now running with its
  start time, and the only row of the table that changed is that one.
\<close>
theorem claim_takes_first_pending:
  assumes "ops_inv (db_ops d)"
  shows "case ClaimNextPending (\<lambda>_. None) now d of
      Inl e \<Rightarrow> e = ErrNoRows \<and> (\<forall>x \<in> set (db_ops d). op_status x \<noteq> StatusPending)
    | Inr (o1, d') \<Rightarrow> \<exists>o0 \<in> set (db_ops d).
        op_status o0 = StatusPending \<and>
        (\<forall>x \<in> set (db_ops d). op_status x = StatusPending \<longrightarrow> op_submitted o0 \<le> op_submitted x) \<and>
        o1 = o0\<lparr>op_status := StatusRunning, op_started := now\<rparr> \<and>
        db_ops d' = map (\<lambda>x. if x = o0 then o1 else x) (db_ops d)"
proof (cases "orderAsc op_submitted (filter (\<lambda>x. op_status x = StatusPending) (db_ops d))")
  case Nil
  then have "\<forall>x \<in> set (db_ops d). op_status x \<noteq> StatusPending" by (simp add: filter_empty_conv)
  then show ?thesis using Nil by (simp add: ClaimNextPending_def)
next
  case (Cons o0 rest)
  note h = find_pending_head [OF Cons]
  have "op_id x = op_id o0 \<longleftrightarrow> x = o0" if "x \<in> set (db_ops d)" for x
    using unique_row [OF assms that h(1)] by auto
  then show ?thesis using Cons h
    by (auto simp: ClaimNextPending_def Let_def intro!: bexI [of _ o0] map_cong)
qed

theorem claim_takes_first_pending_witness:
  "isOk (ClaimNextPending (\<lambda>_. None) ''t2'' (sampleDb [sampleOp ''op-1'' StatusPending ''t1'']))"
proof -
  have "ops_inv (db_ops (sampleDb [sampleOp ''op-1'' StatusPending ''t1'']))"
    by (simp add: ops_inv_def sample_simps validStatus_def)
  from claim_takes_first_pending [OF this, of "''t2''"]
  show ?thesis by (auto simp: sample_simps isOk_def split: sum.splits)
qed

text \<open>The sweep with a positive cap deletes exactly the victims.\<close>

lemma gcResource_Inr:
  "0 < retain \<Longrightarrow> gcResource f retain d av k n = Inr d' \<Longrightarrow>
     db_ops d' = filter (\<lambda>x. op_id x \<notin> op_id ` set (gcVictims retain d av k n)) (db_ops d)"
  by (auto simp: gcResource_def res_simps)

lemma gc_survivors:
  fixes d av k n retain
  defines "L \<equiv> orderDesc op_submitted (filter (\<lambda>x. ofResource av k n x \<and> collectable x) (db_ops d))"
  assumes "distinct (map op_id (db_ops d))" "0 < retain" "gcResource f retain d av k n = Inr d'"
  shows "{x \<in> set (db_ops d'). ofResource av k n x \<and> collectable x} = set (take (nat retain) L)"
proof -
  have v: "gcVictims retain d av k n = drop (nat retain) L" by (simp add: gcVictims_def L_def)
  have mapL: "mset (map op_id L) = mset (map op_id (filter (\<lambda>x. ofResource av k n x \<and> collectable x) (db_ops d)))"
    by (simp add: L_def)
  have dL: "distinct (map op_id L)"
    using assms(2) mset_eq_imp_distinct_iff [OF mapL] by (simp add: distinct_map_filter)
  have split: "set L = set (take (nat retain) L) \<union> set (drop (nat retain) L)"
    by (metis append_take_drop_id set_append)
  have disj: "op_id ` set (take (nat retain) L) \<inter> op_id ` set (drop (nat retain) L) = {}"
    using dL by (metis append_take_drop_id distinct_append map_append set_map)
  have sub: "set L = {x \<in> set (db_ops d). ofResource av k n x \<and> collectable x}" by (auto simp: L_def)
  have "{x \<in> set (db_ops d'). ofResource av k n x \<and> collectable x}
      = {x \<in> set L. op_id x \<notin> op_id ` set (drop (nat retain) L)}"
    using gcResource_Inr [OF assms(3,4)] v sub by auto
  also have "\<dots> = set (take (nat retain) L)" using split disj by blast
  finally show ?thesis .
qed

text \<open>
  Retention: after a sweep with a positive cap at most that many settled operations of the resource
  remain, each at least as recent (in the order of the stored timestamps) as every settled operation
  that was deleted, and every row of another resource or still unsettled is kept.
\<close>
theorem gc_retains_newest:
  assumes "distinct (map op_id (db_ops d))" "0 < retain" "gcResource f retain d av k n = Inr d'"
  shows "card {x \<in> set (db_ops d'). ofResource av k n x \<and> collectable x} \<le> nat retain \<and>
    (\<forall>x \<in> set (db_ops d'). \<forall>y \<in> set (db_ops d) - set (db_ops d').
       ofResource av k n x \<and> collectable x \<longrightarrow> op_submitted y \<le> op_submitted x) \<and>
    (\<forall>x \<in> set (db_ops d). \<not> (ofResource av k n x \<and> collectable x) \<longrightarrow> x \<in> set (db_ops d'))"
proof (intro conjI ballI impI)
  let ?L = "orderDesc op_submitted (filter (\<lambda>x. ofResource av k n x \<and> collectable x) (db_ops d))"
  note sv = gc_survivors [OF assms]
  show "card {x \<in> set (db_ops d'). ofResource av k n x \<and> collectable x} \<le> nat retain"
    unfolding sv by (rule order_trans [OF card_length]) simp
  fix x y
  assume x: "x \<in> set (db_ops d')" "ofResource av k n x \<and> collectable x"
    and y: "y \<in> set (db_ops d) - set (db_ops d')"
  have "y \<in> set ?L" using y gcResource_keeps [OF assms(3,1)] by auto
  moreover have "y \<notin> set (take (nat retain) ?L)" using sv y by blast
  ultimately have "y \<in> set (drop (nat retain) ?L)" by (metis Un_iff append_take_drop_id set_append)
  moreover have "x \<in> set (take (nat retain) ?L)" using sv x by blast
  ultimately show "op_submitted y \<le> op_submitted x" by (rule orderDesc_take_drop [rotated])
next
  fix x assume "x \<in> set (db_ops d)" "\<not> (ofResource av k n x \<and> collectable x)"
  then show "x \<in> set (db_ops d')" using gcResource_keeps [OF assms(3,1)] by blast
qed

theorem gc_retains_newest_witness:
  "\<exists>d'. gcResource None 1 (sampleDb [sampleOp ''op-1'' StatusFailed ''t1'', sampleOp ''op-2'' StatusSucceeded ''t2''])
          ''k3s.openctl.io/v1'' ''Cluster'' ''dev'' = Inr d' \<and>
        card {x \<in> set (db_ops d'). ofResource ''k3s.openctl.io/v1'' ''Cluster'' ''dev'' x \<and> collectable x} \<le> 1"
proof -
  let ?d = "sampleDb [sampleOp ''op-1'' StatusFailed ''t1'', sampleOp ''op-2'' StatusSucceeded ''t2'']"
  obtain d' where g: "gcResource None 1 ?d ''k3s.openctl.io/v1'' ''Cluster'' ''dev'' = Inr d'"
    using gcResource_None by (metis sum.exhaust)
  have "distinct (map op_id (db_ops ?d))" by (simp add: sample_simps)
  from gc_retains_newest [OF this _ g] g show ?thesis by auto
qed

text \<open>
  Canceled operations are settled, yet the sweep does not count them: any number of them survives
  every sweep of their resource.
\<close>
theorem canceled_never_swept:
  assumes "distinct (map op_id (db_ops d))" "gcResource f retain d av k n = Inr d'"
    and "x \<in> set (db_ops d)" "op_status x = StatusCancelled"
  shows "IsTerminal x \<and> x \<in> set (db_ops d')"
  using gcResource_keeps [OF assms(2,1,3)] assms(4)
  by (simp add: collectable_def IsTerminal_def isTerminalStatus_def)

text \<open>
  Cancelling on a healthy database: a pending operation becomes canceled and nothing else changes;
  an operation in any other state is left as it is and its status is reported with the reason; an unknown
  identifier gives \<open>ErrNoRows\<close>.
\<close>
theorem cancel_pending_cases:
  assumes "ops_inv (db_ops d)"
  shows "case find (\<lambda>x. op_id x = i) (db_ops d) of
      None \<Rightarrow> CancelPending (\<lambda>_. None) now d i = (Inl ErrNoRows, d)
    | Some o1 \<Rightarrow>
        (if op_status o1 = StatusPending
         then fst (CancelPending (\<lambda>_. None) now d i) = Inr \<lparr>cr_status = StatusCancelled, cr_reason = []\<rparr> \<and>
              db_ops (snd (CancelPending (\<lambda>_. None) now d i)) =
                map (\<lambda>x. if x = o1 then o1\<lparr>op_status := StatusCancelled,
                       op_error := ''canceled by user before dispatcher claimed the op'', op_completed := now\<rparr>
                     else x) (db_ops d)
         else \<exists>why. why \<noteq> [] \<and>
              CancelPending (\<lambda>_. None) now d i = (Inr \<lparr>cr_status = op_status o1, cr_reason = why\<rparr>, d))"
proof -
  let ?P = "\<lambda>x. op_id x = i \<and> op_status x = StatusPending"
  have none: "updateOps ?P f d = d" if "\<forall>x \<in> set (db_ops d). \<not> ?P x" for f
  proof -
    have "map (\<lambda>x. if ?P x then f x else x) (db_ops d) = db_ops d"
      using that by (intro map_idI) auto
    then show ?thesis by (simp add: updateOps_def)
  qed
  show ?thesis
  proof (cases "find (\<lambda>x. op_id x = i) (db_ops d)")
    case None
    then have n: "\<forall>x \<in> set (db_ops d). op_id x \<noteq> i" by (auto simp: find_None_iff)
    then have "filter ?P (db_ops d) = []" by (auto simp: filter_empty_conv)
    then show ?thesis using None none n by (simp add: CancelPending_def Let_def Get_def)
  next
    case (Some o1)
    then have o1: "o1 \<in> set (db_ops d)" "op_id o1 = i" by (auto simp: find_Some_iff)
    have u: "op_id x = i \<longleftrightarrow> x = o1" if "x \<in> set (db_ops d)" for x
      using unique_row [OF assms that o1(1)] o1(2) by auto
    show ?thesis
    proof (cases "op_status o1 = StatusPending")
      case True
      have "distinct (db_ops d)" using assms by (simp add: ops_inv_def distinct_map)
      then have "distinct (filter ?P (db_ops d))" "set (filter ?P (db_ops d)) = {o1}"
        using True o1 u by auto
      then have "length (filter ?P (db_ops d)) = 1" by (simp flip: distinct_card)
      then show ?thesis using Some True u
        by (auto simp: CancelPending_def Let_def intro!: map_cong)
    next
      case False
      then have np: "\<forall>x \<in> set (db_ops d). \<not> ?P x" using u by auto
      then have "filter ?P (db_ops d) = []" by (simp add: filter_empty_conv)
      then show ?thesis using Some False none [OF np] by (simp add: CancelPending_def Let_def Get_def)
    qed
  qed
qed

theorem cancel_pending_cases_witness:
  "CancelPending (\<lambda>_. None) ''t9'' (sampleDb [sampleOp ''op-1'' StatusPending ''t1'']) ''nope''
     = (Inl ErrNoRows, sampleDb [sampleOp ''op-1'' StatusPending ''t1''])"
proof -
  have "ops_inv (db_ops (sampleDb [sampleOp ''op-1'' StatusPending ''t1'']))"
    by (simp add: ops_inv_def sample_simps validStatus_def)
  from cancel_pending_cases [OF this, where i = "''nope''" and now = "''t9''"] show ?thesis by (simp add: sample_simps)
qed

text \<open>
  The start-up sweep: afterwards no operation is running, exactly the previously running ones (as many
  as reported) are interrupted, and pending operations are still there to be claimed.
\<close>
theorem interrupt_clears_running:
  assumes "MarkRunningInterrupted f now d = Inr (n, d')"
  shows "(\<forall>x \<in> set (db_ops d'). op_status x \<noteq> StatusRunning) \<and>
    length (filter (\<lambda>x. op_status x = StatusInterrupted) (db_ops d')) =
      n + length (filter (\<lambda>x. op_status x = StatusInterrupted) (db_ops d)) \<and>
    filter (\<lambda>x. op_status x = StatusPending) (db_ops d') = filter (\<lambda>x. op_status x = StatusPending) (db_ops d)"
proof -
  define g where "g = (\<lambda>x :: operation. if op_status x = StatusRunning then x\<lparr>op_status := StatusInterrupted,
            op_error := ''controller restarted while this operation was running; re-apply if needed'',
            op_completed := now\<rparr> else x)"
  have d': "db_ops d' = map g (db_ops d)" "n = length (filter (\<lambda>x. op_status x = StatusRunning) (db_ops d))"
    using assms by (simp_all add: MarkRunningInterrupted_Inr g_def)
  have st: "op_status (g x) = (if op_status x = StatusRunning then StatusInterrupted else op_status x)" for x
    by (simp add: g_def)
  have same: "g x = x" if "op_status x = StatusPending" for x using that by (simp add: g_def)
  have run: "\<forall>x \<in> set (map g rows). op_status x \<noteq> StatusRunning" for rows by (simp add: st)
  have int: "length (filter (\<lambda>x. op_status x = StatusInterrupted) (map g rows)) =
      length (filter (\<lambda>x. op_status x = StatusRunning) rows) + length (filter (\<lambda>x. op_status x = StatusInterrupted) rows)" for rows
    by (induction rows) (simp_all add: st)
  have pend: "filter (\<lambda>x. op_status x = StatusPending) (map g rows) = filter (\<lambda>x. op_status x = StatusPending) rows" for rows
    by (induction rows) (simp_all add: st same)
  show ?thesis unfolding d' by (intro conjI run int pend)
qed

theorem interrupt_clears_running_witness:
  "\<exists>n d'. MarkRunningInterrupted None ''t'' (sampleDb [sampleOp ''op-1'' StatusRunning ''t1'']) = Inr (n, d') \<and>
     (\<forall>x \<in> set (db_ops d'). op_status x \<noteq> StatusRunning)"
proof -
  obtain n d' where r: "MarkRunningInterrupted None ''t'' (sampleDb [sampleOp ''op-1'' StatusRunning ''t1'']) = Inr (n, d')"
    by (auto simp: MarkRunningInterrupted_def Let_def)
  with interrupt_clears_running [OF r] show ?thesis by blast
qed

end
