(* ===== verification/ManifestStore.thy ===== *)
theory ManifestStore
  imports OpStore Refs
begin

text \<open>
  The desired-state store: internal/controller/manifests/store.go (one row per resource, upserted by an
  apply and removed by a delete), source.go (the originator carried by the context), and
  internal/controller/providerstate/store.go (opaque provider blobs, keyed the same way).
\<close>

subsection \<open>The originator of a request (source.go)\<close>

type_synonym ctx = "string option"

definition WithSource :: "ctx \<Rightarrow> string \<Rightarrow> ctx" where
  "WithSource c source = (if source = [] then c else Some source)"

definition SourceFromContext :: "ctx \<Rightarrow> string" where
  "SourceFromContext c = (case c of None \<Rightarrow> [] | Some s \<Rightarrow> s)"

abbreviation SourceCLI :: string where "SourceCLI \<equiv> ''cli''"
abbreviation SourceUI :: string where "SourceUI \<equiv> ''ui''"
abbreviation SourceAutoReconcile :: string where "SourceAutoReconcile \<equiv> ''auto-reconcile''"
abbreviation SourceGitOps :: string where "SourceGitOps \<equiv> ''gitops''"

subsection \<open>The applied-manifest table (store.go)\<close>

text \<open>The row of a manifest: the JSON of its spec and metadata as they will be read back.\<close>

definition manifestRow ::
  "(json \<Rightarrow> string) \<Rightarrow> string \<Rightarrow> resource \<Rightarrow> string \<Rightarrow> string \<Rightarrow> applied_row" where
  "manifestRow digest now r refsHash source =
     \<lparr>am_apiVersion = r_apiVersion r, am_kind = r_kind r, am_name = r_name r,
      am_spec = Inr (map_option jsonObj (r_spec r)), am_meta = Inr (Some (r_metadata r)),
      am_appliedAt = now, am_inputHash = Hash digest (Some r), am_refsHash = refsHash,
      am_source = source\<rparr>"

definition saveManifest ::
  "string option \<Rightarrow> (json \<Rightarrow> string) \<Rightarrow> string \<Rightarrow> resource \<Rightarrow> string \<Rightarrow> string \<Rightarrow> db \<Rightarrow> err + db" where
  "saveManifest f digest now r refsHash source d =
     bindE (wrapErr ''upsert applied_manifest'' (dbCall f)) (\<lambda>_.
       Inr (d\<lparr>db_applied := upsertRow amKey (manifestRow digest now r refsHash source) (db_applied d)\<rparr>))"

definition SaveWithRefsHash ::
  "io \<Rightarrow> (json \<Rightarrow> string) \<Rightarrow> string \<Rightarrow> ctx \<Rightarrow> resource option \<Rightarrow> string \<Rightarrow> db \<Rightarrow> err + db" where
  "SaveWithRefsHash io digest now c r0 refsHash d =
     (case r0 of
        None \<Rightarrow> Inl (Plain ''save: apiVersion, kind, metadata.name all required'')
      | Some r \<Rightarrow>
          if r_apiVersion r = [] \<or> r_kind r = [] \<or> r_name r = []
          then Inl (Plain ''save: apiVersion, kind, metadata.name all required'')
          else
            bindE (dbCall (io 0)) (\<lambda>_.
            bindE (CheckNotForgotten (io 1) d (r_apiVersion r) (r_kind r) (r_name r)) (\<lambda>_.
            bindE (saveManifest (io 2) digest now r refsHash (SourceFromContext c) d) (\<lambda>d'.
            bindE (dbCall (io 3)) (\<lambda>_. Inr d')))))"

definition Save ::
  "io \<Rightarrow> (json \<Rightarrow> string) \<Rightarrow> string \<Rightarrow> ctx \<Rightarrow> resource option \<Rightarrow> db \<Rightarrow> err + db" where
  "Save io digest now c r0 d = SaveWithRefsHash io digest now c r0 [] d"

definition LoadHashes ::
  "string option \<Rightarrow> db \<Rightarrow> string \<Rightarrow> string \<Rightarrow> string \<Rightarrow> err + string \<times> string" where
  "LoadHashes f d av k n =
     bindE (wrapErr ''load hashes'' (dbCall f)) (\<lambda>_.
       case findRow amKey (av, k, n) (db_applied d) of
         None \<Rightarrow> Inr ([], [])
       | Some row \<Rightarrow> Inr (am_inputHash row, am_refsHash row))"

definition LoadHash :: "string option \<Rightarrow> db \<Rightarrow> string \<Rightarrow> string \<Rightarrow> string \<Rightarrow> err + string" where
  "LoadHash f d av k n = bindE (LoadHashes f d av k n) (\<lambda>(i, _). Inr i)"

text \<open>
  \<open>parse\<close> stands for the two attempts of \<^verbatim>\<open>time.Parse\<close> on the stored text, \<open>zero\<close> for the zero time.
  Undecodable metadata is ignored, an undecodable spec is an error.
\<close>

definition LoadWithTime ::
  "(string \<Rightarrow> 't option) \<Rightarrow> 't \<Rightarrow> string option \<Rightarrow> db \<Rightarrow> string \<Rightarrow> string \<Rightarrow> string
     \<Rightarrow> err + resource option \<times> 't" where
  "LoadWithTime parse zero f d av k n =
     bindE (wrapErr ''load applied_manifest'' (dbCall f)) (\<lambda>_.
       case findRow amKey (av, k, n) (db_applied d) of
         None \<Rightarrow> Inr (None, zero)
       | Some row \<Rightarrow>
           (case am_spec row of
              Inl e \<Rightarrow> Inl (Wrap ''decode spec'' (Plain e))
            | Inr spec \<Rightarrow>
                let md = (case am_meta row of Inr (Some m) \<Rightarrow> m | _ \<Rightarrow> bareMetadata n);
                    ts = (if am_appliedAt row = [] then zero
                          else case parse (am_appliedAt row) of None \<Rightarrow> zero | Some t \<Rightarrow> t)
                in Inr (Some \<lparr>r_apiVersion = av, r_kind = k, r_metadata = md, r_spec = spec,
                              r_status = None\<rparr>, ts)))"

definition Load :: "string option \<Rightarrow> db \<Rightarrow> string \<Rightarrow> string \<Rightarrow> string \<Rightarrow> err + resource option" where
  "Load f d av k n = bindE (LoadWithTime (\<lambda>_. None) () f d av k n) (\<lambda>(r, _). Inr r)"

record manifest_ref =
  mr_apiVersion :: string
  mr_kind :: string
  mr_name :: string
  mr_source :: string

definition ListAll :: "string option \<Rightarrow> db \<Rightarrow> err + manifest_ref list" where
  "ListAll f d =
     bindE (wrapErr ''list applied_manifests'' (dbCall f)) (\<lambda>_.
       Inr (map (\<lambda>row. \<lparr>mr_apiVersion = am_apiVersion row, mr_kind = am_kind row,
                         mr_name = am_name row, mr_source = am_source row\<rparr>)
                (orderAsc am_appliedAt (db_applied d))))"

definition ListNames :: "string option \<Rightarrow> db \<Rightarrow> string \<Rightarrow> string \<Rightarrow> err + string list" where
  "ListNames f d av k =
     bindE (wrapErr ''list names'' (dbCall f)) (\<lambda>_.
       Inr (remdups (map am_name (filter (\<lambda>row. am_apiVersion row = av \<and> am_kind row = k) (db_applied d)))))"

definition Delete :: "string option \<Rightarrow> string \<Rightarrow> string \<Rightarrow> string \<Rightarrow> db \<Rightarrow> err + db" where
  "Delete f av k n d =
     bindE (dbCall f) (\<lambda>_. Inr (d\<lparr>db_applied := dropRow amKey (av, k, n) (db_applied d)\<rparr>))"

subsection \<open>Provider state (providerstate/store.go)\<close>

definition nilIfEmpty :: "string \<Rightarrow> string option" where
  "nilIfEmpty b = (if b = [] then None else Some b)"

definition LoadState ::
  "string option \<Rightarrow> db \<Rightarrow> string \<Rightarrow> string \<Rightarrow> string \<Rightarrow> err + string option \<times> string option \<times> int" where
  "LoadState f d av k n =
     bindE (wrapErr ''load provider_state'' (dbCall f)) (\<lambda>_.
       case findRow psKey (av, k, n) (db_states d) of
         None \<Rightarrow> Inr (None, None, 0)
       | Some row \<Rightarrow> Inr (ps_state row, ps_private row, ps_schemaVersion row))"

definition SaveState ::
  "string option \<Rightarrow> string \<Rightarrow> string \<Rightarrow> string \<Rightarrow> string \<Rightarrow> string \<Rightarrow> string \<Rightarrow> int \<Rightarrow> db \<Rightarrow> err + db" where
  "SaveState f now av k n st pv sv d =
     (if av = [] \<or> k = [] \<or> n = []
      then Inl (Plain ''save provider_state: apiVersion, kind, name all required'')
      else bindE (wrapErr ''upsert provider_state'' (dbCall f)) (\<lambda>_.
        Inr (d\<lparr>db_states := upsertRow psKey
          \<lparr>ps_apiVersion = av, ps_kind = k, ps_name = n, ps_state = nilIfEmpty st,
           ps_private = nilIfEmpty pv, ps_schemaVersion = sv, ps_updatedAt = now\<rparr> (db_states d)\<rparr>)))"

definition DeleteState :: "string option \<Rightarrow> string \<Rightarrow> string \<Rightarrow> string \<Rightarrow> db \<Rightarrow> err + db" where
  "DeleteState f av k n d =
     bindE (wrapErr ''delete provider_state'' (dbCall f)) (\<lambda>_.
       Inr (d\<lparr>db_states := dropRow psKey (av, k, n) (db_states d)\<rparr>))"

end
