(* ===== verification/Migration.thy ===== *)
theory Migration
  imports ManifestStore
begin

text \<open>
  internal/controller/manifests/migration.go: handing one resource from a controller to another.  Export
  snapshots the desired manifest with a digest, adopt records it at the destination, forget removes it at
  the source and installs the release fence that submissions and saves check.  Each method is one
  transaction.
\<close>

subsection \<open>The digest of a manifest\<close>

definition optField :: "string \<Rightarrow> string \<Rightarrow> (string \<times> nval) list" where
  "optField k s = (if s = [] then [] else [(k, NStr s)])"

definition optMap :: "string \<Rightarrow> strmap \<Rightarrow> (string \<times> nval) list" where
  "optMap k m = (if m = [] then [] else [(k, normalize_labels m)])"

definition optObj :: "string \<Rightarrow> obj option \<Rightarrow> (string \<times> nval) list" where
  "optObj k v = (case v of None \<Rightarrow> [] | Some m \<Rightarrow> if m = [] then [] else [(k, normalize (VObj m))])"

text \<open>
  \<^verbatim>\<open>json.Marshal\<close> of a resource: the fields in declaration order, the \<^verbatim>\<open>omitempty\<close> ones only when they
  are not empty, maps in key order.
\<close>

definition resourceDoc :: "resource \<Rightarrow> nval" where
  "resourceDoc r = NKVs
     ([(''apiVersion'', NStr (r_apiVersion r)), (''kind'', NStr (r_kind r)),
       (''metadata'', NKVs
          ([(''name'', NStr (r_name r))]
           @ optField ''namespace'' (md_namespace (r_metadata r))
           @ optMap ''labels'' (md_labels (r_metadata r))
           @ optMap ''annotations'' (md_annotations (r_metadata r))
           @ optField ''uid'' (md_uid (r_metadata r))
           @ optField ''createdAt'' (md_createdAt (r_metadata r))))]
      @ optObj ''spec'' (r_spec r) @ optObj ''status'' (r_status r))"

definition MigrationDigest :: "(nval \<Rightarrow> string) \<Rightarrow> resource option \<Rightarrow> err + string" where
  "MigrationDigest sha r =
     (case r of
        None \<Rightarrow> Inl (Plain ''migration manifest is required'')
      | Some x \<Rightarrow> Inr (sha (resourceDoc (x\<lparr>r_status := None\<rparr>))))"

subsection \<open>Preconditions\<close>

definition validateMigrationResource :: "resource option \<Rightarrow> err + unit" where
  "validateMigrationResource r0 =
     (case r0 of
        None \<Rightarrow> Inl (ErrMigrationUnsupported [])
      | Some r \<Rightarrow>
          if r_apiVersion r \<noteq> ''proxmox.openctl.io/v1'' \<or> r_kind r \<noteq> ''VirtualMachine'' \<or> r_name r = []
          then Inl (ErrMigrationUnsupported [])
          else if strGet (md_labels (r_metadata r)) ''openctl.io/owner-kind'' \<noteq> []
               \<or> strGet (md_labels (r_metadata r)) ''openctl.io/owner-name'' \<noteq> []
               \<or> strGet (md_labels (r_metadata r)) ''openctl.io/cluster'' \<noteq> []
               \<or> CollectRefs (r_spec r) \<noteq> []
          then Inl (ErrMigrationUnsupported [])
          else Inr ())"

definition migrationIdle :: "string option \<Rightarrow> db \<Rightarrow> err + unit" where
  "migrationIdle f d =
     bindE (dbCall f) (\<lambda>_.
       if list_ex inFlight (db_ops d) then Inl ErrMigrationBusy else Inr ())"

text \<open>The loop over the other managed resources.\<close>

fun standaloneRows :: "resource \<Rightarrow> applied_row list \<Rightarrow> err + unit" where
  "standaloneRows r [] = Inr ()"
| "standaloneRows r (row # rows) =
     (if am_apiVersion row = r_apiVersion r \<and> am_kind row = r_kind r \<and> am_name row = r_name r
      then standaloneRows r rows
      else
        (case am_spec row of
           Inl e \<Rightarrow> Inl (Wrap ''read managed resource references'' (Plain e))
         | Inr spec \<Rightarrow>
             if list_ex (\<lambda>x. ref_apiVersion x = r_apiVersion r \<and> ref_kind x = r_kind r \<and> ref_name x = r_name r)
                  (CollectRefs spec)
             then Inl (ErrMigrationUnsupported (am_kind row @ '' '' @ goQuote (am_name row) @ '' references this VM''))
             else
               (case am_meta row of
                  Inl e \<Rightarrow> Inl (Wrap ''read managed ownership'' (Plain e))
                | Inr None \<Rightarrow> standaloneRows r rows
                | Inr (Some md) \<Rightarrow>
                    if strGet (md_labels md) ''openctl.io/owner-kind'' = r_kind r
                       \<and> strGet (md_labels md) ''openctl.io/owner-name'' = r_name r
                    then Inl (ErrMigrationUnsupported (am_kind row @ '' '' @ goQuote (am_name row) @ '' is owned by this VM''))
                    else standaloneRows r rows)))"

definition migrationStandalone :: "io \<Rightarrow> db \<Rightarrow> resource \<Rightarrow> err + unit" where
  "migrationStandalone io d r =
     bindE (validateMigrationResource (Some r)) (\<lambda>_.
     bindE (dbCall (io 0)) (\<lambda>_.
       if list_ex (\<lambda>row. psKey row = (r_apiVersion r, r_kind r, r_name r)) (db_states d)
       then Inl (ErrMigrationUnsupported ''opaque provider state is present'')
       else
         bindE (dbCall (io 1)) (\<lambda>_.
         bindE (standaloneRows r (db_applied d)) (\<lambda>_. dbCall (io 2)))))"

definition loadMigrationManifest ::
  "string option \<Rightarrow> db \<Rightarrow> string \<Rightarrow> string \<Rightarrow> string \<Rightarrow> err + resource option" where
  "loadMigrationManifest f d av k n =
     bindE (dbCall f) (\<lambda>_.
       case findRow amKey (av, k, n) (db_applied d) of
         None \<Rightarrow> Inr None
       | Some row \<Rightarrow>
           (case am_spec row of
              Inl e \<Rightarrow> Inl (Wrap ''decode desired spec'' (Plain e))
            | Inr spec \<Rightarrow>
                (case am_meta row of
                   Inl e \<Rightarrow> Inl (Wrap ''decode desired metadata'' (Plain e))
                 | Inr md \<Rightarrow>
                     Inr (Some \<lparr>r_apiVersion = av, r_kind = k,
                                r_metadata = (case md of None \<Rightarrow> bareMetadata n | Some m \<Rightarrow> m),
                                r_spec = spec, r_status = None\<rparr>))))"

definition migrationControllerID :: "io \<Rightarrow> string \<Rightarrow> db \<Rightarrow> err + string \<times> db" where
  "migrationControllerID io fresh d =
     bindE (dbCall (io 0)) (\<lambda>_.
       case map_of (db_meta d) ''migration_controller_id'' of
         Some i \<Rightarrow> Inr (i, d)
       | None \<Rightarrow>
           bindE (dbCall (io 1)) (\<lambda>_.
           bindE (dbCall (io 2)) (\<lambda>_.
             Inr (fresh, d\<lparr>db_meta := putKey (db_meta d) ''migration_controller_id'' fresh\<rparr>))))"

subsection \<open>Export, adopt, forget\<close>

record migration_snapshot =
  ms_controllerID :: string
  ms_digest :: string
  ms_resource :: resource

definition ExportMigration ::
  "io \<Rightarrow> (nval \<Rightarrow> string) \<Rightarrow> string \<Rightarrow> string \<Rightarrow> string \<Rightarrow> string \<Rightarrow> db \<Rightarrow> err + migration_snapshot \<times> db" where
  "ExportMigration io sha fresh av k n d =
     bindE (dbCall (io 0)) (\<lambda>_.
     bindE (migrationIdle (io 1) d) (\<lambda>_.
     bindE (CheckNotForgotten (io 2) d av k n) (\<lambda>_.
     bindE (loadMigrationManifest (io 3) d av k n) (\<lambda>r0.
       case r0 of
         None \<Rightarrow> Inl ErrMigrationNotFound
       | Some r \<Rightarrow>
           bindE (migrationStandalone (\<lambda>i. io (4 + i)) d r) (\<lambda>_.
           bindE (migrationControllerID (\<lambda>i. io (7 + i)) fresh d) (\<lambda>(i, d').
           bindE (MigrationDigest sha (Some r)) (\<lambda>dg.
           bindE (dbCall (io 10)) (\<lambda>_.
             Inr (\<lparr>ms_controllerID = i, ms_digest = dg, ms_resource = r\<rparr>, d')))))))))"

definition Adopt ::
  "io \<Rightarrow> (nval \<Rightarrow> string) \<Rightarrow> (json \<Rightarrow> string) \<Rightarrow> string \<Rightarrow> resource option \<Rightarrow> db \<Rightarrow> err + db" where
  "Adopt io sha digest now r0 d =
     bindE (validateMigrationResource r0) (\<lambda>_.
       case r0 of
         None \<Rightarrow> Inl NilDeref
       | Some r \<Rightarrow>
           bindE (dbCall (io 0)) (\<lambda>_.
           bindE (migrationIdle (io 1) d) (\<lambda>_.
           bindE (migrationStandalone (\<lambda>i. io (2 + i)) d r) (\<lambda>_.
           bindE (loadMigrationManifest (io 5) d (r_apiVersion r) (r_kind r) (r_name r)) (\<lambda>old.
           bindE (case old of
                    None \<Rightarrow> Inr ()
                  | Some x \<Rightarrow>
                      bindE (MigrationDigest sha (Some x)) (\<lambda>oldDigest.
                      bindE (MigrationDigest sha (Some r)) (\<lambda>newDigest.
                        if oldDigest \<noteq> newDigest
                        then Inl (ErrMigrationConflict (''destination already manages a different manifest for ''
                                    @ r_kind r @ '' '' @ goQuote (r_name r)))
                        else Inr ()))) (\<lambda>_.
           bindE (dbCall (io 6)) (\<lambda>_.
           let d1 = d\<lparr>db_releases := dropRow rlKey (r_apiVersion r, r_kind r, r_name r) (db_releases d)\<rparr> in
           bindE (saveManifest (io 7) digest now r [] SourceCLI d1) (\<lambda>d2.
           bindE (dbCall (io 8)) (\<lambda>_. Inr d2)))))))))"

definition Forget ::
  "io \<Rightarrow> (nval \<Rightarrow> string) \<Rightarrow> string \<Rightarrow> string \<Rightarrow> resource option \<Rightarrow> string \<Rightarrow> string \<Rightarrow> db \<Rightarrow> err + db" where
  "Forget io sha now fresh r0 controllerID dg d =
     bindE (validateMigrationResource r0) (\<lambda>_.
     bindE (MigrationDigest sha r0) (\<lambda>actual.
       if controllerID = [] \<or> dg = [] \<or> dg \<noteq> actual
       then Inl (ErrMigrationConflict ''invalid bundle manifest digest or source controller'')
       else
         case r0 of
           None \<Rightarrow> Inl NilDeref
         | Some r \<Rightarrow>
             let key = (r_apiVersion r, r_kind r, r_name r) in
             bindE (dbCall (io 0)) (\<lambda>_.
             bindE (migrationIdle (io 1) d) (\<lambda>_.
             bindE (migrationControllerID (\<lambda>i. io (2 + i)) fresh d) (\<lambda>(i, d1).
               if i \<noteq> controllerID
               then Inl (ErrMigrationConflict ''bundle belongs to another source controller'')
               else
                 bindE (loadMigrationManifest (io 5) d1 (r_apiVersion r) (r_kind r) (r_name r)) (\<lambda>old.
                   case old of
                     None \<Rightarrow>
                       bindE (dbCall (io 6)) (\<lambda>_.
                         case findRow rlKey key (db_releases d1) of
                           None \<Rightarrow> Inl ErrMigrationNotFound
                         | Some row \<Rightarrow>
                             if rl_digest row \<noteq> dg
                             then Inl (ErrMigrationConflict ''release belongs to a different export'')
                             else bindE (dbCall (io 7)) (\<lambda>_. Inr d1))
                   | Some x \<Rightarrow>
                       bindE (MigrationDigest sha (Some x)) (\<lambda>current.
                         if current \<noteq> dg
                         then Inl (ErrMigrationConflict ''source manifest changed after export; export it again'')
                         else
                           bindE (migrationStandalone (\<lambda>i. io (8 + i)) d1 x) (\<lambda>_.
                           bindE (dbCall (io 11)) (\<lambda>_.
                           let d2 = d1\<lparr>db_releases := upsertRow rlKey
                                  \<lparr>rl_apiVersion = r_apiVersion r, rl_kind = r_kind r, rl_name = r_name r,
                                   rl_digest = dg, rl_releasedAt = now\<rparr> (db_releases d1)\<rparr> in
                           bindE (dbCall (io 12)) (\<lambda>_.
                           let d3 = d2\<lparr>db_applied := dropRow amKey key (db_applied d2)\<rparr> in
                           bindE (dbCall (io 13)) (\<lambda>_. Inr d3)))))))))))"

subsection \<open>What a successful call does\<close>

lemma migrationIdle_Inr [res_simps]:
  "migrationIdle f d = Inr u \<longleftrightarrow> f = None \<and> \<not> list_ex inFlight (db_ops d)"
  by (auto simp: migrationIdle_def res_simps split: if_splits)

lemma saveManifest_Inr [res_simps]:
  "saveManifest f digest now r refsHash source d = Inr d' \<longleftrightarrow>
     f = None \<and> d' = d\<lparr>db_applied := upsertRow amKey (manifestRow digest now r refsHash source) (db_applied d)\<rparr>"
  by (auto simp: saveManifest_def res_simps)

lemma SaveWithRefsHash_Inr:
  "SaveWithRefsHash io digest now c (Some r) refsHash d = Inr d' \<Longrightarrow>
     \<not> isReleased d (r_apiVersion r) (r_kind r) (r_name r) \<and>
     d' = d\<lparr>db_applied := upsertRow amKey (manifestRow digest now r refsHash (SourceFromContext c)) (db_applied d)\<rparr>"
  by (auto simp: SaveWithRefsHash_def res_simps split: if_splits)

lemma Delete_Inr [res_simps]:
  "Delete f av k n d = Inr d' \<longleftrightarrow> f = None \<and> d' = d\<lparr>db_applied := dropRow amKey (av, k, n) (db_applied d)\<rparr>"
  by (auto simp: Delete_def res_simps)

lemma amKey_manifestRow [simp]:
  "amKey (manifestRow digest now r refsHash source) = (r_apiVersion r, r_kind r, r_name r)"
  by (simp add: amKey_def manifestRow_def)

lemma rlKey_make [simp]:
  "rlKey \<lparr>rl_apiVersion = av, rl_kind = k, rl_name = n, rl_digest = dg, rl_releasedAt = t\<rparr> = (av, k, n)"
  by (simp add: rlKey_def)

lemma migrationControllerID_Inr:
  assumes "migrationControllerID io fresh d = Inr (i, d')"
  shows "map_of (db_meta d') ''migration_controller_id'' = Some i"
    and "db_ops d' = db_ops d" "db_applied d' = db_applied d" "db_releases d' = db_releases d"
    and "db_states d' = db_states d"
  using assms by (auto simp: migrationControllerID_def res_simps split: option.splits)

text \<open>Every table but the one or two a call is about is left alone.\<close>

lemma Adopt_Inr:
  assumes "Adopt io sha digest now (Some r) d = Inr d'"
  shows "d' = d\<lparr>db_releases := dropRow rlKey (r_apiVersion r, r_kind r, r_name r) (db_releases d),
               db_applied := upsertRow amKey (manifestRow digest now r [] SourceCLI) (db_applied d)\<rparr>"
    and "\<not> list_ex inFlight (db_ops d)"
  using assms by (auto simp: Adopt_def res_simps Let_def)

lemma Forget_Inr:
  assumes "Forget io sha now fresh (Some r) cid dg d = Inr d'"
  obtains (retry) i d1 row where "migrationControllerID (\<lambda>j. io (2 + j)) fresh d = Inr (i, d1)" "i = cid"
      "findRow amKey (r_apiVersion r, r_kind r, r_name r) (db_applied d) = None"
      "findRow rlKey (r_apiVersion r, r_kind r, r_name r) (db_releases d) = Some row" "rl_digest row = dg" "d' = d1"
  | (release) i d1 where "migrationControllerID (\<lambda>j. io (2 + j)) fresh d = Inr (i, d1)" "i = cid"
      "d' = d1\<lparr>db_releases := upsertRow rlKey
                \<lparr>rl_apiVersion = r_apiVersion r, rl_kind = r_kind r, rl_name = r_name r,
                 rl_digest = dg, rl_releasedAt = now\<rparr> (db_releases d1),
              db_applied := dropRow amKey (r_apiVersion r, r_kind r, r_name r) (db_applied d1)\<rparr>"
proof -
  obtain i d1 old where c: "migrationControllerID (\<lambda>j. io (2 + j)) fresh d = Inr (i, d1)"
    and l: "loadMigrationManifest (io 5) d1 (r_apiVersion r) (r_kind r) (r_name r) = Inr old"
    and i: "i = cid"
    using assms by (auto simp: Forget_def Let_def res_simps split: if_splits)
  note m = migrationControllerID_Inr [OF c]
  show ?thesis
  proof (cases old)
    case None
    then obtain row where "findRow rlKey (r_apiVersion r, r_kind r, r_name r) (db_releases d1) = Some row"
        "rl_digest row = dg" "d' = d1"
      using assms c i l by (auto simp: Forget_def Let_def res_simps split: if_splits option.splits)
    moreover have "findRow amKey (r_apiVersion r, r_kind r, r_name r) (db_applied d) = None"
      using l None m(3)
      by (auto simp: loadMigrationManifest_def res_simps split: option.splits sum.splits)
    ultimately show ?thesis using c i m(4) by (intro retry) simp_all
  next
    case (Some x)
    then have "d' = d1\<lparr>db_releases := upsertRow rlKey
                \<lparr>rl_apiVersion = r_apiVersion r, rl_kind = r_kind r, rl_name = r_name r,
                 rl_digest = dg, rl_releasedAt = now\<rparr> (db_releases d1),
              db_applied := dropRow amKey (r_apiVersion r, r_kind r, r_name r) (db_applied d1)\<rparr>"
      using assms c i l by (auto simp: Forget_def Let_def res_simps split: if_splits)
    with c i show ?thesis by (rule release)
  qed
qed

lemma Forget_effect:
  assumes "Forget io sha now fresh (Some r) cid dg d = Inr d'"
  shows "(r_apiVersion r, r_kind r, r_name r) \<in> rlKey ` set (db_releases d')"
    and "(r_apiVersion r, r_kind r, r_name r) \<notin> amKey ` set (db_applied d')"
    and "rlKey ` set (db_releases d) \<subseteq> rlKey ` set (db_releases d')"
    and "amKey ` set (db_applied d') = amKey ` set (db_applied d) - {(r_apiVersion r, r_kind r, r_name r)}"
    and "rlKey ` set (db_releases d') = insert (r_apiVersion r, r_kind r, r_name r) (rlKey ` set (db_releases d))"
    and "db_ops d' = db_ops d"
    and "map_of (db_meta d') ''migration_controller_id'' = Some cid"
proof -
  let ?k = "(r_apiVersion r, r_kind r, r_name r)"
  have "?k \<in> rlKey ` set (db_releases d') \<and> ?k \<notin> amKey ` set (db_applied d') \<and>
        amKey ` set (db_applied d') = amKey ` set (db_applied d) - {?k} \<and>
        rlKey ` set (db_releases d') = insert ?k (rlKey ` set (db_releases d)) \<and>
        db_ops d' = db_ops d \<and> map_of (db_meta d') ''migration_controller_id'' = Some cid"
    using assms
  proof (cases rule: Forget_Inr)
    case (retry i d1 row)
    then have "?k \<in> rlKey ` set (db_releases d)" "?k \<notin> amKey ` set (db_applied d)"
      using findRow_None findRow_Some by (metis image_eqI) (use retry(3) in \<open>simp add: findRow_None\<close>)
    then show ?thesis using retry migrationControllerID_Inr [OF retry(1)] by auto
  next
    case (release i d1)
    then show ?thesis using migrationControllerID_Inr [OF release(1)] by simp
  qed
  then show "?k \<in> rlKey ` set (db_releases d')" "?k \<notin> amKey ` set (db_applied d')"
    "rlKey ` set (db_releases d) \<subseteq> rlKey ` set (db_releases d')"
    "amKey ` set (db_applied d') = amKey ` set (db_applied d) - {?k}"
    "rlKey ` set (db_releases d') = insert ?k (rlKey ` set (db_releases d))"
    "db_ops d' = db_ops d" "map_of (db_meta d') ''migration_controller_id'' = Some cid"
    by auto
qed

subsection \<open>The fence\<close>

text \<open>
  One call on the controller's database.  The label says whether the call is an adoption, and of what.
\<close>

inductive ctl_step :: "rkey option \<Rightarrow> db \<Rightarrow> db \<Rightarrow> bool" where
  ops: "store_step d d' \<Longrightarrow> ctl_step None d d'"
| save: "SaveWithRefsHash io digest now c (Some r) refsHash d = Inr d' \<Longrightarrow> ctl_step None d d'"
| delete: "Delete f av k n d = Inr d' \<Longrightarrow> ctl_step None d d'"
| save_state: "SaveState f now av k n st pv sv d = Inr d' \<Longrightarrow> ctl_step None d d'"
| delete_state: "DeleteState f av k n d = Inr d' \<Longrightarrow> ctl_step None d d'"
| export: "ExportMigration io sha fresh av k n d = Inr (ms, d') \<Longrightarrow> ctl_step None d d'"
| forget: "Forget io sha now fresh (Some r) cid dg d = Inr d' \<Longrightarrow> ctl_step None d d'"
| adopt: "Adopt io sha digest now (Some r) d = Inr d' \<Longrightarrow>
            ctl_step (Some (r_apiVersion r, r_kind r, r_name r)) d d'"

definition fence_inv :: "db \<Rightarrow> bool" where
  "fence_inv d \<longleftrightarrow> amKey ` set (db_applied d) \<inter> rlKey ` set (db_releases d) = {}"

lemma store_step_other_tables:
  "store_step d d' \<Longrightarrow> db_releases d' = db_releases d \<and> db_applied d' = db_applied d"
proof (induction rule: store_step.induct)
  case (submit io now buf retain op1 d r d')
  then show ?case
    by (auto simp: Submit_def split: sum.splits if_splits dest!: gcResource_rows submitTx_Inr(2))
next
  case (complete io now retain i st msg res d r d')
  then show ?case
    by (auto simp: Complete_def Let_def split: sum.splits if_splits dest!: gcResource_rows)
next
  case (cancel io now d i r d')
  then show ?case
    by (auto simp: CancelPending_def Let_def split: sum.splits if_splits)
next
  case (begin_child f now buf parent op1 d o1 d')
  then show ?case by (auto simp: BeginChild_def Let_def res_simps split: if_splits)
qed (auto simp: ClaimNextPending_def Let_def EndChild_def SetLabel_def MarkRunningInterrupted_Inr res_simps
       split: list.splits if_splits)

lemma ExportMigration_Inr:
  assumes "ExportMigration io sha fresh av k n d = Inr (ms, d')"
  obtains r i where "loadMigrationManifest None d av k n = Inr (Some r)"
    "migrationControllerID (\<lambda>j. io (7 + j)) fresh d = Inr (i, d')"
    "migrationStandalone (\<lambda>i. io (4 + i)) d r = Inr ()" "\<not> isReleased d av k n" "\<not> list_ex inFlight (db_ops d)"
    "ms = \<lparr>ms_controllerID = i, ms_digest = sha (resourceDoc (r\<lparr>r_status := None\<rparr>)), ms_resource = r\<rparr>"
proof -
  have "io 3 = None" using assms by (auto simp: ExportMigration_def loadMigrationManifest_def res_simps)
  then show ?thesis using assms that
    by (auto simp: ExportMigration_def res_simps MigrationDigest_def split: option.splits)
qed

lemma ctl_step_keys:
  assumes "ctl_step l d d'"
  shows "rlKey ` set (db_releases d) - set_option l \<subseteq> rlKey ` set (db_releases d') \<and>
    (fence_inv d \<longrightarrow> fence_inv d')"
  using assms
proof (induction rule: ctl_step.induct)
  case (ops d d')
  then show ?case by (simp add: store_step_other_tables fence_inv_def)
next
  case (save io digest now c r refsHash d d')
  show ?case using SaveWithRefsHash_Inr [OF save] by (simp add: fence_inv_def isReleased_iff)
next
  case (export io sha fresh av k n d ms d')
  then show ?case
    by (elim ExportMigration_Inr) (simp add: fence_inv_def migrationControllerID_Inr(3,4))
next
  case (forget io sha now fresh r cid dg d d')
  then show ?case using Forget_effect(3-5) [OF forget] by (auto simp: fence_inv_def)
next
  case (adopt io sha digest now r d d')
  then show ?case using Adopt_Inr(1) [OF adopt] by (auto simp: fence_inv_def)
qed (auto simp: fence_inv_def res_simps SaveState_def DeleteState_def split: if_splits)

inductive ctl_run :: "rkey set \<Rightarrow> db \<Rightarrow> db \<Rightarrow> bool" where
  run_refl: "ctl_run A d d"
| run_step: "ctl_run A d d' \<Longrightarrow> ctl_step l d' d'' \<Longrightarrow> set_option l \<subseteq> A \<Longrightarrow> ctl_run A d d''"

lemma ctl_run_keys:
  "ctl_run A d d' \<Longrightarrow> rlKey ` set (db_releases d) - A \<subseteq> rlKey ` set (db_releases d') \<and> (fence_inv d \<longrightarrow> fence_inv d')"
proof (induction rule: ctl_run.induct)
  case (run_step A d d' l d'')
  then show ?case using ctl_step_keys [OF run_step.hyps(2)] by blast
qed simp

lemma fenced_rejects:
  assumes "isReleased d av k n"
  shows "op_apiVersion op1 = av \<Longrightarrow> op_kind op1 = k \<Longrightarrow> op_name op1 = n \<Longrightarrow>
      \<exists>e. Submit io now newid retain op1 d = ((None, Some e), d)"
    and "r_apiVersion r = av \<Longrightarrow> r_kind r = k \<Longrightarrow> r_name r = n \<Longrightarrow>
      \<exists>e. SaveWithRefsHash io' digest now' c (Some r) refsHash d = Inl e"
proof -
  assume "op_apiVersion op1 = av" "op_kind op1 = k" "op_name op1 = n"
  then have "submitTx io now newid op1 d \<noteq> Inr p" for p
    using submitTx_Inr(5) [of io now newid op1 d "fst p" "snd p"] assms by auto
  then obtain e where "submitTx io now newid op1 d = Inl e" by (metis sum.exhaust)
  then show "\<exists>e. Submit io now newid retain op1 d = ((None, Some e), d)" by (simp add: Submit_def)
next
  assume "r_apiVersion r = av" "r_kind r = k" "r_name r = n"
  then have "SaveWithRefsHash io' digest now' c (Some r) refsHash d \<noteq> Inr d'" for d'
    using SaveWithRefsHash_Inr assms by blast
  then show "\<exists>e. SaveWithRefsHash io' digest now' c (Some r) refsHash d = Inl e" by (metis sum.exhaust)
qed

subsection \<open>Properties\<close>

text \<open>A virtual machine for the examples.\<close>

definition sampleVM :: resource where
  "sampleVM = (bareResource ''proxmox.openctl.io/v1'' ''VirtualMachine'' ''vm1'')\<lparr>
     r_spec := Some [(''cores'', VFloat 2)]\<rparr>"

definition sampleSource :: db where
  "sampleSource = emptyDb\<lparr>db_applied := [manifestRow (\<lambda>_. ''h'') ''t0'' sampleVM [] SourceCLI],
     db_meta := [(''migration_controller_id'', ''src'')]\<rparr>"

text \<open>
  C13. The release fence: once \<open>Forget\<close> has succeeded, then after any further calls among which no
  adoption of that resource, every submission and every save for it is refused and changes nothing,
  whatever the driver does.
\<close>
theorem forget_fences:
  assumes "Forget io sha now fresh (Some r) cid dg d = Inr d1"
    and "ctl_run A d1 d2" "(r_apiVersion r, r_kind r, r_name r) \<notin> A"
    and "op_apiVersion op1 = r_apiVersion r" "op_kind op1 = r_kind r" "op_name op1 = r_name r"
    and "r_apiVersion r' = r_apiVersion r" "r_kind r' = r_kind r" "r_name r' = r_name r"
  shows "(\<exists>e. Submit io' now' newid retain op1 d2 = ((None, Some e), d2)) \<and>
         (\<exists>e. SaveWithRefsHash io'' digest now'' c (Some r') refsHash d2 = Inl e)"
proof -
  have "(r_apiVersion r, r_kind r, r_name r) \<in> rlKey ` set (db_releases d2)"
    using Forget_effect(1) [OF assms(1)] ctl_run_keys [OF assms(2)] assms(3) by blast
  then have "isReleased d2 (r_apiVersion r) (r_kind r) (r_name r)" by (simp add: isReleased_iff)
  then show ?thesis using fenced_rejects assms(4-) by blast
qed

lemma sampleForget:
  "Forget (\<lambda>_. None) (\<lambda>_. ''dig'') ''t1'' ''x'' (Some sampleVM) ''src'' ''dig'' sampleSource =
     Inr \<lparr>db_ops = [], db_applied = [],
          db_releases = [\<lparr>rl_apiVersion = ''proxmox.openctl.io/v1'', rl_kind = ''VirtualMachine'', rl_name = ''vm1'',
                          rl_digest = ''dig'', rl_releasedAt = ''t1''\<rparr>],
          db_states = [], db_meta = [(''migration_controller_id'', ''src'')]\<rparr>"
  by code_simp

theorem forget_fences_witness:
  "\<exists>d1. Forget (\<lambda>_. None) (\<lambda>_. ''dig'') ''t1'' ''x'' (Some sampleVM) ''src'' ''dig'' sampleSource = Inr d1 \<and>
     (\<exists>e. SaveWithRefsHash (\<lambda>_. None) (\<lambda>_. ''h'') ''t2'' None (Some sampleVM) [] d1 = Inl e)"
proof -
  let ?op = "(sampleOp [] [] [])\<lparr>op_apiVersion := r_apiVersion sampleVM, op_kind := r_kind sampleVM,
      op_name := r_name sampleVM\<rparr>"
  show ?thesis
    unfolding sampleForget
    using forget_fences [OF sampleForget run_refl [of "{}"], of ?op sampleVM] by auto
qed

text \<open>
  The applied rows: one per resource, readable columns, the name in the metadata the row's own, and the
  spec as JSON gives it back.
\<close>

definition rowOk :: "applied_row \<Rightarrow> bool" where
  "rowOk row \<longleftrightarrow>
     (case am_spec row of Inl _ \<Rightarrow> False | Inr s \<Rightarrow> map_option jsonObj s = s) \<and>
     (case am_meta row of Inr (Some m) \<Rightarrow> md_name m = am_name row | _ \<Rightarrow> False)"

definition applied_inv :: "db \<Rightarrow> bool" where
  "applied_inv d \<longleftrightarrow> distinct (map amKey (db_applied d)) \<and> (\<forall>row \<in> set (db_applied d). rowOk row)"

lemma rowOk_manifestRow [simp]: "rowOk (manifestRow digest now r refsHash source)"
  by (simp add: rowOk_def manifestRow_def option.map_comp comp_def)

lemma applied_inv_upsert:
  "applied_inv d \<Longrightarrow> rowOk row \<Longrightarrow> applied_inv (d\<lparr>db_applied := upsertRow amKey row (db_applied d)\<rparr>)"
  by (auto simp: applied_inv_def) (auto simp: upsertRow_def split: if_splits)

lemma applied_inv_drop: "applied_inv d \<Longrightarrow> applied_inv (d\<lparr>db_applied := dropRow amKey k (db_applied d)\<rparr>)"
  by (auto simp: applied_inv_def) (auto simp: dropRow_def)

lemma applied_inv_cong: "db_applied d' = db_applied d \<Longrightarrow> applied_inv d' = applied_inv d"
  by (simp add: applied_inv_def)

lemma ctl_step_applied_inv:
  assumes "ctl_step l d d'" "applied_inv d"
  shows "applied_inv d'"
  using assms
proof (induction rule: ctl_step.induct)
  case (ops d d')
  then show ?case using store_step_other_tables applied_inv_cong by blast
next
  case (save io digest now c r refsHash d d')
  then show ?case using SaveWithRefsHash_Inr applied_inv_upsert rowOk_manifestRow by blast
next
  case (delete f av k n d d')
  then show ?case by (simp add: res_simps applied_inv_drop)
next
  case (export io sha fresh av k n d ms d')
  then show ?case by (elim ExportMigration_Inr) (simp add: applied_inv_def migrationControllerID_Inr(3))
next
  case (forget io sha now fresh r cid dg d d')
  from forget(1) show ?case
  proof (cases rule: Forget_Inr)
    case (retry i d1 row)
    then show ?thesis using forget(2) by (simp add: applied_inv_def migrationControllerID_Inr(3))
  next
    case (release i d1)
    have "applied_inv (d1\<lparr>db_applied := dropRow amKey (r_apiVersion r, r_kind r, r_name r) (db_applied d1)\<rparr>)"
      using applied_inv_drop forget(2) applied_inv_cong [OF migrationControllerID_Inr(3) [OF release(1)]] by blast
    then show ?thesis using release(3) by (simp add: applied_inv_def)
  qed
next
  case (adopt io sha digest now r d d')
  have "applied_inv (d\<lparr>db_applied := upsertRow amKey (manifestRow digest now r [] SourceCLI) (db_applied d)\<rparr>)"
    using adopt(2) applied_inv_upsert by simp
  then show ?case using Adopt_Inr(1) [OF adopt(1)] by (simp add: applied_inv_def)
qed (auto simp: applied_inv_def res_simps SaveState_def DeleteState_def split: if_splits)

lemma ctl_run_applied_inv: "ctl_run A d d' \<Longrightarrow> applied_inv d \<Longrightarrow> applied_inv d'"
  by (induction rule: ctl_run.induct) (auto intro: ctl_step_applied_inv)

lemma inv_emptyDb [simp]: "fence_inv emptyDb" "applied_inv emptyDb"
  by (simp_all add: fence_inv_def applied_inv_def emptyDb_def)

text \<open>
  C36. In every state the calls can reach from an empty database, no resource is both managed (has a
  desired manifest) and released, there is one manifest row per resource, and every row decodes.
\<close>
theorem reachable_managed_xor_released:
  assumes "ctl_run A emptyDb d"
  shows "(\<forall>row \<in> set (db_applied d). \<not> isReleased d (am_apiVersion row) (am_kind row) (am_name row)) \<and>
    distinct (map amKey (db_applied d)) \<and>
    (\<forall>row \<in> set (db_applied d). \<exists>r. Load None d (am_apiVersion row) (am_kind row) (am_name row) = Inr (Some r) \<and>
       r_name r = am_name row)"
proof -
  have f: "fence_inv d" and a: "applied_inv d"
    using ctl_run_keys [OF assms] ctl_run_applied_inv [OF assms] by simp_all
  have "\<exists>r. Load None d (am_apiVersion row) (am_kind row) (am_name row) = Inr (Some r) \<and> r_name r = am_name row"
    if "row \<in> set (db_applied d)" for row
  proof -
    have k: "amKey row = (am_apiVersion row, am_kind row, am_name row)" by (simp add: amKey_def)
    then have f': "findRow amKey (am_apiVersion row, am_kind row, am_name row) (db_applied d) = Some row"
      using findRow_unique [of amKey "db_applied d" row] a that by (simp add: applied_inv_def)
    have "rowOk row" using a that by (simp add: applied_inv_def)
    then show ?thesis using f'
      by (auto simp: Load_def LoadWithTime_def rowOk_def Let_def split: sum.splits option.splits)
  qed
  moreover have "\<not> isReleased d (am_apiVersion row) (am_kind row) (am_name row)" if "row \<in> set (db_applied d)" for row
    using f that by (auto simp: fence_inv_def isReleased_iff amKey_def disjoint_iff)
  ultimately show ?thesis using a by (simp add: applied_inv_def)
qed

theorem reachable_managed_xor_released_witness:
  "\<exists>d. ctl_run {} emptyDb d \<and> db_applied d \<noteq> [] \<and> distinct (map amKey (db_applied d))"
proof -
  let ?d = "emptyDb\<lparr>db_applied := [manifestRow (\<lambda>_. ''h'') ''t0'' sampleVM [] SourceCLI]\<rparr>"
  have "SaveWithRefsHash (\<lambda>_. None) (\<lambda>_. ''h'') ''t0'' (Some SourceCLI) (Some sampleVM) [] emptyDb = Inr ?d"
    by code_simp
  then have "ctl_step None emptyDb ?d" by (rule ctl_step.save)
  with run_refl have r: "ctl_run {} emptyDb ?d" by (rule run_step) simp
  from reachable_managed_xor_released [OF this] have "distinct (map amKey (db_applied ?d))" by blast
  moreover have "db_applied ?d \<noteq> []" by simp
  ultimately show ?thesis using r by blast
qed

lemma loadMigrationManifest_Some:
  assumes "loadMigrationManifest f d av k n = Inr (Some r)" "applied_inv d"
  shows "r_apiVersion r = av" "r_kind r = k" "r_name r = n"
    and "map_option jsonObj (r_spec r) = r_spec r" "r_status r = None"
    and "Load None d av k n = Inr (Some r)"
proof -
  obtain row where row: "findRow amKey (av, k, n) (db_applied d) = Some row"
    using assms(1) by (auto simp: loadMigrationManifest_def res_simps split: option.splits)
  have ok: "rowOk row" "am_name row = n"
    using findRow_Some [OF row] assms(2) by (auto simp: applied_inv_def amKey_def)
  show "r_apiVersion r = av" "r_kind r = k" "r_name r = n" "r_status r = None"
    "map_option jsonObj (r_spec r) = r_spec r" "Load None d av k n = Inr (Some r)"
    using assms(1) row ok
    by (auto simp: loadMigrationManifest_def Load_def LoadWithTime_def Let_def res_simps rowOk_def
             split: option.splits sum.splits)
qed

lemma Load_findRow_None: "findRow amKey (av, k, n) (db_applied d) = None \<Longrightarrow> Load None d av k n = Inr None"
  by (simp add: Load_def LoadWithTime_def)

lemma Load_manifestRow:
  "findRow amKey (r_apiVersion r, r_kind r, r_name r) (db_applied d) = Some (manifestRow digest now r refsHash source) \<Longrightarrow>
     Load None d (r_apiVersion r) (r_kind r) (r_name r) = Inr (Some ((jsonResource r)\<lparr>r_status := None\<rparr>))"
  by (simp add: Load_def LoadWithTime_def manifestRow_def jsonResource_def Let_def)

lemma migrationStandalone_None:
  "migrationStandalone io d r = Inr () \<Longrightarrow> db_applied d' = db_applied d \<Longrightarrow> db_states d' = db_states d \<Longrightarrow>
     migrationStandalone (\<lambda>_. None) d' r = Inr () \<and> validateMigrationResource (Some r) = Inr ()"
  by (auto simp: migrationStandalone_def res_simps split: if_splits)

lemma loadMigrationManifest_cong:
  "loadMigrationManifest f d av k n = Inr x \<Longrightarrow> db_applied d' = db_applied d \<Longrightarrow>
     loadMigrationManifest None d' av k n = Inr x"
  by (auto simp: loadMigrationManifest_def res_simps)

lemma export_forget:
  assumes "ExportMigration io sha fresh av k n d = Inr (ms, d1)" "applied_inv d"
    and "ms_digest ms \<noteq> []" "ms_controllerID ms \<noteq> []"
  shows "\<exists>d2. Forget (\<lambda>_. None) sha now fresh' (Some (ms_resource ms)) (ms_controllerID ms) (ms_digest ms) d1 = Inr d2"
  using assms(1)
proof (cases rule: ExportMigration_Inr)
  case (1 r i)
  note l = loadMigrationManifest_Some [OF 1(1) assms(2)] and m = migrationControllerID_Inr [OF 1(2)]
  have "migrationControllerID (\<lambda>_. None) fresh' d1 = Inr (i, d1)"
    using m(1) by (simp add: migrationControllerID_def)
  moreover have "loadMigrationManifest None d1 av k n = Inr (Some r)"
    using loadMigrationManifest_cong [OF 1(1) m(3)] .
  moreover note migrationStandalone_None [OF 1(3) m(3) m(5)]
  moreover have "migrationIdle None d1 = Inr ()" using 1(5) m(2) by (simp add: migrationIdle_def)
  ultimately show ?thesis
    using assms(3,4) 1(6) l(1-3) by (simp add: Forget_def MigrationDigest_def Let_def)
qed

text \<open>
  A handoff moves a resource: after export at the source, adoption at the destination and forgetting
  with the exported bundle at the source, the forget succeeds, the destination desires exactly the
  manifest the source desired, and the source desires nothing for it any more.
\<close>
theorem migration_handoff:
  assumes "ctl_run A emptyDb src"
    and "ExportMigration io sha fresh av k n src = Inr (ms, src1)" "ms_digest ms \<noteq> []" "ms_controllerID ms \<noteq> []"
    and "Adopt io' sha digest now (Some (ms_resource ms)) dst = Inr dst1"
  shows "\<exists>src2. Forget (\<lambda>_. None) sha now' fresh' (Some (ms_resource ms)) (ms_controllerID ms) (ms_digest ms) src1 = Inr src2 \<and>
    Load None src av k n = Inr (Some (ms_resource ms)) \<and>
    Load None dst1 av k n = Inr (Some (ms_resource ms)) \<and>
    Load None src2 av k n = Inr None \<and> \<not> isReleased dst1 av k n \<and> isReleased src2 av k n"
proof -
  have inv: "applied_inv src" using ctl_run_applied_inv [OF assms(1)] by simp
  obtain src2 where f: "Forget (\<lambda>_. None) sha now' fresh' (Some (ms_resource ms)) (ms_controllerID ms) (ms_digest ms) src1 = Inr src2"
    using export_forget [OF assms(2) inv assms(3,4)] by blast
  obtain r where r: "loadMigrationManifest None src av k n = Inr (Some r)" "ms_resource ms = r"
    using assms(2) by (rule ExportMigration_Inr) simp
  note l = loadMigrationManifest_Some [OF r(1) inv]
  note ad = Adopt_Inr(1) [OF assms(5) [unfolded r(2)]]
  have "(jsonResource r)\<lparr>r_status := None\<rparr> = r" using l(4,5) by (simp add: jsonResource_def)
  moreover have "findRow amKey (r_apiVersion r, r_kind r, r_name r) (db_applied dst1) = Some (manifestRow digest now r [] SourceCLI)"
    using ad by simp
  ultimately have dst: "Load None dst1 av k n = Inr (Some r)"
    using Load_manifestRow l(1-3) by metis
  have "\<not> isReleased dst1 av k n" using ad l(1-3) by (simp add: isReleased_iff)
  moreover have "isReleased src2 av k n" "Load None src2 av k n = Inr None"
    using Forget_effect(1,2) [OF f] l(1-3) r(2) by (simp_all add: isReleased_iff Load_findRow_None findRow_None)
  ultimately show ?thesis using f dst l(6) r(2) by blast
qed

theorem migration_handoff_witness:
  "\<exists>src2. Forget (\<lambda>_. None) (\<lambda>_. ''dig'') ''t2'' ''y'' (Some sampleVM) ''src'' ''dig''
       (emptyDb\<lparr>db_applied := [manifestRow (\<lambda>_. ''h'') ''t0'' sampleVM [] SourceCLI],
                db_meta := [(''migration_controller_id'', ''src'')]\<rparr>) = Inr src2 \<and>
     isReleased src2 ''proxmox.openctl.io/v1'' ''VirtualMachine'' ''vm1''"
proof -
  let ?d = "emptyDb\<lparr>db_applied := [manifestRow (\<lambda>_. ''h'') ''t0'' sampleVM [] SourceCLI]\<rparr>"
  let ?ms = "\<lparr>ms_controllerID = ''src'', ms_digest = ''dig'', ms_resource = sampleVM\<rparr>"
  have "SaveWithRefsHash (\<lambda>_. None) (\<lambda>_. ''h'') ''t0'' (Some SourceCLI) (Some sampleVM) [] emptyDb = Inr ?d"
    by code_simp
  then have "ctl_step None emptyDb ?d" by (rule ctl_step.save)
  with run_refl have r: "ctl_run {} emptyDb ?d" by (rule run_step) simp
  have e: "ExportMigration (\<lambda>_. None) (\<lambda>_. ''dig'') ''src'' ''proxmox.openctl.io/v1'' ''VirtualMachine'' ''vm1'' ?d
      = Inr (?ms, ?d\<lparr>db_meta := [(''migration_controller_id'', ''src'')]\<rparr>)"
    by code_simp
  have "isOk (Adopt (\<lambda>_. None) (\<lambda>_. ''dig'') (\<lambda>_. ''h'') ''t1'' (Some sampleVM) emptyDb)"
    by code_simp
  then obtain dst where "Adopt (\<lambda>_. None) (\<lambda>_. ''dig'') (\<lambda>_. ''h'') ''t1'' (Some (ms_resource ?ms)) emptyDb = Inr dst"
    by (auto simp: isOk_iff)
  from migration_handoff [OF r e _ _ this, of "''t2''" "''y''"] show ?thesis by auto
qed

text \<open>
  Forgetting is retryable: repeating a successful \<open>Forget\<close> with the same bundle on a healthy database
  succeeds and leaves the database as it is.
\<close>
theorem forget_retry:
  assumes "Forget io sha now fresh (Some r) cid dg d = Inr d1"
  shows "Forget (\<lambda>_. None) sha now' fresh' (Some r) cid dg d1 = Inr d1"
proof -
  let ?k = "(r_apiVersion r, r_kind r, r_name r)"
  note e = Forget_effect [OF assms]
  have pre: "validateMigrationResource (Some r) = Inr ()" "cid \<noteq> []" "dg \<noteq> []"
      "MigrationDigest sha (Some r) = Inr dg" "\<not> list_ex inFlight (db_ops d)"
    using assms by (auto simp: Forget_def res_simps Let_def split: if_splits)
  have c: "migrationControllerID (\<lambda>_. None) fresh' d1 = Inr (cid, d1)"
    using e(7) by (simp add: migrationControllerID_def)
  have l: "loadMigrationManifest None d1 (r_apiVersion r) (r_kind r) (r_name r) = Inr None"
    using e(2) by (simp add: loadMigrationManifest_def flip: findRow_None)
  obtain row where row: "findRow rlKey ?k (db_releases d1) = Some row" "rl_digest row = dg"
    using assms by (cases rule: Forget_Inr) (auto simp: migrationControllerID_Inr(4))
  show ?thesis using pre c l row e(6) by (simp add: Forget_def Let_def migrationIdle_def)
qed

theorem forget_retry_witness:
  "\<exists>d1. Forget (\<lambda>_. None) (\<lambda>_. ''dig'') ''t1'' ''x'' (Some sampleVM) ''src'' ''dig'' sampleSource = Inr d1 \<and>
     Forget (\<lambda>_. None) (\<lambda>_. ''dig'') ''t2'' ''y'' (Some sampleVM) ''src'' ''dig'' d1 = Inr d1"
  using forget_retry [OF sampleForget, of "''t2''" "''y''"] sampleForget by blast

end
