(* ===== verification/DiskMirror.thy ===== *)
theory DiskMirror
  imports Migration
begin

text \<open>
  The manifest mirror on disk: internal/controller/manifests/disk.go and migration_disk.go (write-through files
  beside the store), with what reconcile.go, watcher.go and prune.go need to find the files again (the theory
  \<open>GitOps\<close> has these).  The file system is the list of the regular files
  with their text; directories exist as far as files need them.  The YAML codec is a parameter (gopkg.in/yaml.v3), and so is
  the post-write hook (git).  A disk failure is given by an
  oracle, one entry per system call.
\<close>

subsection \<open>Paths\<close>

definition safeSegment :: "string \<Rightarrow> string" where
  "safeSegment s =
     (if s = [] \<or> s = ''.'' \<or> s = ''..'' then ''_''
      else map (\<lambda>c. if c = CHR ''/'' \<or> c = CHR 0x5C \<or> c = CHR 0x00 then CHR ''_'' else c) s)"

definition relSegsFor :: "string \<Rightarrow> string \<Rightarrow> string \<Rightarrow> string list" where
  "relSegsFor av k n = map safeSegment (splitOn CHR ''/'' av) @ [safeSegment k, safeSegment n @ ''.yaml'']"

definition pathFor :: "string \<Rightarrow> string \<Rightarrow> string \<Rightarrow> string \<Rightarrow> string" where
  "pathFor rt av k n = joinPath (rt # relSegsFor av k n)"

definition RelPathFor :: "string \<Rightarrow> string \<Rightarrow> string \<Rightarrow> string" where
  "RelPathFor av k n = joinWith ''/'' (relSegsFor av k n)"

text \<open>\<^verbatim>\<open>filepath.Rel\<close> of two clean absolute paths.\<close>

definition pathSegs :: "string \<Rightarrow> string list" where
  "pathSegs p = filter (\<lambda>s. s \<noteq> []) (splitOn CHR ''/'' p)"

fun relSegs :: "string list \<Rightarrow> string list \<Rightarrow> string list" where
  "relSegs [] ts = ts"
| "relSegs (b # bs) [] = replicate (length (b # bs)) ''..''"
| "relSegs (b # bs) (t # ts) =
     (if b = t then relSegs bs ts else replicate (length (b # bs)) ''..'' @ t # ts)"

definition relPath :: "string \<Rightarrow> string \<Rightarrow> string" where
  "relPath base target =
     (case relSegs (pathSegs base) (pathSegs target) of [] \<Rightarrow> ''.'' | ss \<Rightarrow> joinWith ''/'' ss)"

definition parsePathHint :: "string \<Rightarrow> string \<Rightarrow> (string \<times> string \<times> string) option" where
  "parsePathHint rt path =
     (case splitOn CHR ''/'' (relPath rt path) of
        [a, b, c, f] \<Rightarrow>
          if hasSuffix f ''.yaml'' then Some (a @ ''/'' @ b, c, trimSuffix f ''.yaml'') else None
      | _ \<Rightarrow> None)"

subsection \<open>Files\<close>

type_synonym fs = "(string \<times> string) list"

definition fileAt :: "fs \<Rightarrow> string \<Rightarrow> string option" where
  "fileAt f p = map_of f p"

definition rmFile :: "fs \<Rightarrow> string \<Rightarrow> fs" where
  "rmFile f p = filter (\<lambda>(q, _). q \<noteq> p) f"

definition sysCall :: "string option \<Rightarrow> err + unit" where
  "sysCall f = (case f of None \<Rightarrow> Inr () | Some e \<Rightarrow> Inl (Plain e))"

text \<open>
  The regular files \<^verbatim>\<open>filepath.WalkDir\<close> visits under a directory, in its (lexical) order, with the suffix
  the callers look for.
\<close>

definition walkYaml :: "string \<Rightarrow> fs \<Rightarrow> string list" where
  "walkYaml rt f =
     sort_key pathSegs (filter (\<lambda>p. hasPrefix p (rt @ ''/'') \<and> hasSuffix p ''.yaml'') (map fst f))"

record mirror =
  mi_db :: db
  mi_fs :: fs

text \<open>The parameters of the mirror: root directory, YAML encoder and decoder, hook, digest of the store.\<close>

record mirror_env =
  me_root :: string
  me_marshal :: "resource \<Rightarrow> err + string"
  me_unmarshal :: "string \<Rightarrow> err + resource"
  me_hook :: "(ctx \<Rightarrow> string \<Rightarrow> resource \<Rightarrow> string \<Rightarrow> err option) option"
  me_digest :: "json \<Rightarrow> string"

definition writeFile :: "mirror_env \<Rightarrow> io \<Rightarrow> resource \<Rightarrow> fs \<Rightarrow> err + fs" where
  "writeFile env dio r f =
     bindE (sysCall (dio 0)) (\<lambda>_.
     bindE (wrapErr ''encode yaml'' (me_marshal env r)) (\<lambda>out.
     bindE (sysCall (dio 1)) (\<lambda>_.
     bindE (sysCall (dio 2)) (\<lambda>_.
     bindE (sysCall (dio 3)) (\<lambda>_.
     bindE (sysCall (dio 4)) (\<lambda>_.
     bindE (sysCall (dio 5)) (\<lambda>_.
       Inr (putKey f (pathFor (me_root env) (r_apiVersion r) (r_kind r) (r_name r)) out))))))))"

definition removeFile :: "mirror_env \<Rightarrow> string option \<Rightarrow> string \<Rightarrow> string \<Rightarrow> string \<Rightarrow> fs \<Rightarrow> err + fs" where
  "removeFile env dio av k n f =
     (let dst = pathFor (me_root env) av k n in
      case fileAt f dst of
        None \<Rightarrow> Inr f
      | Some _ \<Rightarrow> bindE (sysCall dio) (\<lambda>_. Inr (rmFile f dst)))"

definition runHook :: "mirror_env \<Rightarrow> ctx \<Rightarrow> string \<Rightarrow> resource \<Rightarrow> string \<Rightarrow> err option" where
  "runHook env c k r verb = (case me_hook env of None \<Rightarrow> None | Some h \<Rightarrow> h c k r verb)"

subsection \<open>The write-through mirror (disk.go, migration_disk.go)\<close>

definition Mirror_SaveWithRefsHash ::
  "mirror_env \<Rightarrow> io \<Rightarrow> io \<Rightarrow> string \<Rightarrow> ctx \<Rightarrow> resource \<Rightarrow> string \<Rightarrow> mirror \<Rightarrow> err option \<times> mirror" where
  "Mirror_SaveWithRefsHash env io dio now c r refsHash m =
     (case SaveWithRefsHash io (me_digest env) now c (Some r) refsHash (mi_db m) of
        Inl e \<Rightarrow> (Some e, m)
      | Inr d \<Rightarrow>
          let m1 = m\<lparr>mi_db := d\<rparr> in
          (case writeFile env dio r (mi_fs m1) of
             Inl e \<Rightarrow> (Some (Wrap (''materialize '' @ r_kind r @ ''/'' @ r_name r @ '' to disk'') e), m1)
           | Inr f \<Rightarrow>
               let m2 = m1\<lparr>mi_fs := f\<rparr> in
               (case runHook env c (r_kind r) r ''apply'' of
                  Some e \<Rightarrow> (Some (Wrap ''post-write hook'' e), m2)
                | None \<Rightarrow> (None, m2))))"

definition Mirror_Delete ::
  "mirror_env \<Rightarrow> string option \<Rightarrow> string option \<Rightarrow> ctx \<Rightarrow> string \<Rightarrow> string \<Rightarrow> string \<Rightarrow> mirror \<Rightarrow> err option \<times> mirror" where
  "Mirror_Delete env f dio c av k n m =
     (case Delete f av k n (mi_db m) of
        Inl e \<Rightarrow> (Some e, m)
      | Inr d \<Rightarrow>
          let m1 = m\<lparr>mi_db := d\<rparr> in
          (case removeFile env dio av k n (mi_fs m1) of
             Inl e \<Rightarrow> (Some (Wrap (''remove '' @ k @ ''/'' @ n @ '' from disk'') e), m1)
           | Inr fs' \<Rightarrow>
               let m2 = m1\<lparr>mi_fs := fs'\<rparr> in
               (case runHook env c k (bareResource av k n) ''delete'' of
                  Some e \<Rightarrow> (Some (Wrap ''post-delete hook'' e), m2)
                | None \<Rightarrow> (None, m2))))"

definition Materialize ::
  "mirror_env \<Rightarrow> string option \<Rightarrow> io \<Rightarrow> ctx \<Rightarrow> resource option \<Rightarrow> mirror \<Rightarrow> err option \<times> mirror" where
  "Materialize env f dio c r0 m =
     (case r0 of
        None \<Rightarrow> (Some (Plain ''adoption manifest is required''), m)
      | Some r \<Rightarrow>
          (case CheckNotForgotten f (mi_db m) (r_apiVersion r) (r_kind r) (r_name r) of
             Inl e \<Rightarrow> (Some e, m)
           | Inr _ \<Rightarrow>
               (case writeFile env dio r (mi_fs m) of
                  Inl e \<Rightarrow> (Some (Wrap ''materialize adopted manifest'' e), m)
                | Inr fs' \<Rightarrow> (runHook env c (r_kind r) r ''adopt'', m\<lparr>mi_fs := fs'\<rparr>))))"

definition RemoveProjection ::
  "mirror_env \<Rightarrow> string option \<Rightarrow> string option \<Rightarrow> ctx \<Rightarrow> string \<Rightarrow> string \<Rightarrow> string \<Rightarrow> mirror \<Rightarrow> err option \<times> mirror" where
  "RemoveProjection env f dio c av k n m =
     (case IsForgotten f (mi_db m) av k n of
        Inl e \<Rightarrow> (Some e, m)
      | Inr forgotten \<Rightarrow>
          if \<not> forgotten
          then (Some (ErrMigrationConflict ''projection removal requires committed ownership release''), m)
          else
            (case removeFile env dio av k n (mi_fs m) of
               Inl e \<Rightarrow> (Some (Wrap ''remove forgotten manifest projection'' e), m)
             | Inr fs' \<Rightarrow> (runHook env c k (bareResource av k n) ''forget'', m\<lparr>mi_fs := fs'\<rparr>)))"

subsection \<open>Lemmas on paths\<close>

text \<open>A path component that names a file or directory of its own.\<close>

definition safeSeg :: "string \<Rightarrow> bool" where
  "safeSeg s \<longleftrightarrow> s \<noteq> [] \<and> s \<noteq> ''.'' \<and> s \<noteq> ''..'' \<and> CHR ''/'' \<notin> set s"

text \<open>A clean absolute directory other than the file system root.\<close>

definition cleanRoot :: "string \<Rightarrow> bool" where
  "cleanRoot rt \<longleftrightarrow> isAbs rt \<and> rt \<noteq> ''/'' \<and> (\<forall>s \<in> set (tl (splitOn CHR ''/'' rt)). safeSeg s)"

text \<open>A component that \<open>safeSegment\<close> leaves as it is.\<close>

definition plainSeg :: "string \<Rightarrow> bool" where
  "plainSeg s \<longleftrightarrow> safeSeg s \<and> CHR 0x5C \<notin> set s \<and> CHR 0x00 \<notin> set s"

lemma safeSegment_plain: "plainSeg s \<Longrightarrow> safeSegment s = s"
  by (auto simp: safeSegment_def plainSeg_def safeSeg_def intro!: map_idI)

lemma safeSegment_safe: "safeSeg (safeSegment s)"
proof (cases "s = [] \<or> s = ''.'' \<or> s = ''..''")
  case True
  then show ?thesis by (auto simp: safeSegment_def safeSeg_def)
next
  case False
  let ?f = "\<lambda>c. if c = CHR ''/'' \<or> c = CHR 0x5C \<or> c = CHR 0x00 then CHR ''_'' else c"
  have f: "?f c = CHR ''.'' \<longleftrightarrow> c = CHR ''.''" "?f c \<noteq> CHR ''/''" for c by auto
  have "map ?f s \<noteq> ''.''" "map ?f s \<noteq> ''..''"
    using False f(1) by (auto simp: map_eq_Cons_conv)
  moreover have "CHR ''/'' \<notin> set (map ?f s)" using f(2) by auto
  ultimately show ?thesis using False by (simp add: safeSegment_def safeSeg_def)
qed

lemma safeSeg_yaml: "safeSeg s \<Longrightarrow> safeSeg (s @ ''.yaml'')"
  by (auto simp: safeSeg_def)

lemma relSegsFor_safe: "s \<in> set (relSegsFor av k n) \<Longrightarrow> safeSeg s"
  by (auto simp: relSegsFor_def safeSegment_safe intro: safeSeg_yaml)

lemma relSegsFor_ne [simp]: "relSegsFor av k n \<noteq> []"
  by (simp add: relSegsFor_def)

lemma cleanRoot_segs:
  assumes "cleanRoot rt"
  obtains segs where "segs \<noteq> []" "\<forall>s \<in> set segs. safeSeg s" "rt = CHR ''/'' # joinWith ''/'' segs" "pathSegs rt = segs"
proof -
  obtain p where p: "rt = CHR ''/'' # p" "p \<noteq> []" using assms by (auto simp: cleanRoot_def isAbs_def hasPrefix_iff)
  have segs: "\<forall>s \<in> set (splitOn CHR ''/'' p). safeSeg s" using assms p by (simp add: cleanRoot_def)
  then have "filter (\<lambda>s. s \<noteq> []) (splitOn CHR ''/'' p) = splitOn CHR ''/'' p"
    by (auto simp: filter_id_conv safeSeg_def)
  then show ?thesis using p segs by (intro that [of "splitOn CHR ''/'' p"]) (simp_all add: pathSegs_def)
qed

lemma joinWith_append:
  "xs \<noteq> [] \<Longrightarrow> ys \<noteq> [] \<Longrightarrow> joinWith sep (xs @ ys) = joinWith sep xs @ sep @ joinWith sep ys"
proof (induction xs)
  case (Cons x xs)
  then show ?case by (cases xs) (simp_all add: joinWith_Cons)
qed simp

lemma split_safe: "ss \<noteq> [] \<Longrightarrow> \<forall>s \<in> set ss. safeSeg s \<Longrightarrow> splitOn CHR ''/'' (joinWith ''/'' ss) = ss"
  by (rule split_join) (auto simp: safeSeg_def)

lemma joinPath_safe:
  assumes "cleanRoot rt" "rel \<noteq> []" "\<forall>s \<in> set rel. safeSeg s"
  shows "joinPath (rt # rel) = rt @ ''/'' @ joinWith ''/'' rel"
    and "pathSegs (rt @ ''/'' @ joinWith ''/'' rel) = pathSegs rt @ rel"
proof -
  obtain segs where s: "segs \<noteq> []" "\<forall>s \<in> set segs. safeSeg s" "rt = CHR ''/'' # joinWith ''/'' segs" "pathSegs rt = segs"
    using cleanRoot_segs [OF assms(1)] .
  let ?all = "segs @ rel"
  have full: "rt @ ''/'' @ joinWith ''/'' rel = CHR ''/'' # joinWith ''/'' ?all"
    using s assms(2) by (simp add: joinWith_append)
  have sp: "splitOn CHR ''/'' (CHR ''/'' # joinWith ''/'' ?all) = [] # ?all"
    using s(1,2) assms(3) split_safe [of ?all] by auto
  have "filter (\<lambda>s. s \<noteq> []) rel = rel" using assms(3) by (auto simp: filter_id_conv safeSeg_def)
  then have "joinPath (rt # rel) = cleanPath (rt @ ''/'' @ joinWith ''/'' rel)"
    using s(3) assms(2) by (simp add: joinPath_def joinWith_Cons)
  moreover have "cleanSegs True [] ([] # ?all) = ?all"
    using cleanSegs_id [of ?all True "[]"] s(2) assms(3) by (auto simp: safeSeg_def)
  ultimately show "joinPath (rt # rel) = rt @ ''/'' @ joinWith ''/'' rel"
    unfolding full by (simp add: cleanPath_def isAbs_def sp del: splitOn.simps)
  show "pathSegs (rt @ ''/'' @ joinWith ''/'' rel) = pathSegs rt @ rel"
    unfolding full using s(2,4) assms(3) by (simp add: pathSegs_def sp filter_id_conv safeSeg_def del: splitOn.simps)
qed

lemma relSegs_append [simp]: "relSegs bs (bs @ ts) = ts"
  by (induction bs) simp_all

lemma pathFor_eq:
  assumes "cleanRoot rt"
  shows "pathFor rt av k n = rt @ ''/'' @ RelPathFor av k n"
    and "pathSegs (pathFor rt av k n) = pathSegs rt @ relSegsFor av k n"
    and "relPath rt (pathFor rt av k n) = RelPathFor av k n"
proof -
  note j = joinPath_safe [OF assms relSegsFor_ne, of av k n]
  show e: "pathFor rt av k n = rt @ ''/'' @ RelPathFor av k n"
    using j(1) relSegsFor_safe by (simp add: pathFor_def RelPathFor_def)
  show s: "pathSegs (pathFor rt av k n) = pathSegs rt @ relSegsFor av k n"
    using j(2) relSegsFor_safe e by (simp add: RelPathFor_def)
  show "relPath rt (pathFor rt av k n) = RelPathFor av k n"
    unfolding relPath_def s by (simp add: RelPathFor_def split: list.splits)
qed

lemma pathFor_is_yaml:
  assumes "cleanRoot rt"
  shows "hasPrefix (pathFor rt av k n) (rt @ ''/'') \<and> hasSuffix (pathFor rt av k n) ''.yaml''"
proof -
  have "RelPathFor av k n = joinWith ''/'' (map safeSegment (splitOn CHR ''/'' av) @ [safeSegment k]) @ ''/'' @ safeSegment n @ ''.yaml''"
    using joinWith_append [of "map safeSegment (splitOn CHR ''/'' av) @ [safeSegment k]" "[safeSegment n @ ''.yaml'']" "''/''"]
    by (simp add: RelPathFor_def relSegsFor_def)
  then show ?thesis by (auto simp: pathFor_eq(1) [OF assms] hasPrefix_iff hasSuffix_iff)
qed

subsection \<open>Properties of paths\<close>

lemma parsePathHint_pathFor:
  assumes "cleanRoot rt" "plainSeg dm" "plainSeg ver" "plainSeg k" "plainSeg n"
  shows "parsePathHint rt (pathFor rt (dm @ ''/'' @ ver) k n) = Some (dm @ ''/'' @ ver, k, n)"
proof -
  have sp: "splitOn CHR ''/'' (dm @ ''/'' @ ver) = [dm, ver]"
    using assms(2,3) by (simp add: plainSeg_def safeSeg_def splitOn_append_sep splitOn_no_sep)
  have segs: "relSegsFor (dm @ ''/'' @ ver) k n = [dm, ver, k, n @ ''.yaml'']"
    unfolding relSegsFor_def sp using assms(2-) by (simp add: safeSegment_plain)
  have "splitOn CHR ''/'' (RelPathFor (dm @ ''/'' @ ver) k n) = relSegsFor (dm @ ''/'' @ ver) k n"
    unfolding RelPathFor_def using relSegsFor_safe by (intro split_safe) auto
  then show ?thesis
    unfolding parsePathHint_def pathFor_eq(3) [OF assms(1)] segs by simp
qed

text \<open>
  Mirror files stay under the mirror directory: whatever bytes the apiVersion, kind and name
  contain, the path is the root followed by components none of which is empty, a dot or a parent
  reference, and the file is a \<^verbatim>\<open>.yaml\<close> file.
\<close>
theorem mirror_path_confined:
  assumes "cleanRoot rt"
  shows "pathFor rt av k n = rt @ ''/'' @ RelPathFor av k n \<and>
    (\<forall>s \<in> set (splitOn CHR ''/'' (RelPathFor av k n)). s \<noteq> [] \<and> s \<noteq> ''.'' \<and> s \<noteq> ''..'') \<and>
    hasSuffix (pathFor rt av k n) ''.yaml''"
proof -
  have "splitOn CHR ''/'' (RelPathFor av k n) = relSegsFor av k n"
    unfolding RelPathFor_def using relSegsFor_safe by (intro split_safe) auto
  then show ?thesis
    using pathFor_eq(1) [OF assms] pathFor_is_yaml [OF assms] relSegsFor_safe by (auto simp: safeSeg_def)
qed

theorem mirror_path_confined_witness:
  "pathFor ''/m'' ''p.io/v1'' ''VM'' ''../../etc/passwd'' = ''/m/'' @ RelPathFor ''p.io/v1'' ''VM'' ''../../etc/passwd''"
proof -
  have "cleanRoot ''/m''" by code_simp
  from mirror_path_confined [OF this] show ?thesis by simp
qed

text \<open>
  For a two-part apiVersion and components without special characters, reading the resource back from
  its mirror path gives the same apiVersion, kind and name; in particular two such resources never share
  a file.
\<close>
theorem path_hint_roundtrip:
  assumes "cleanRoot rt" "plainSeg dm" "plainSeg ver" "plainSeg k" "plainSeg n"
    and "plainSeg dm'" "plainSeg ver'" "plainSeg k'" "plainSeg n'"
  shows "parsePathHint rt (pathFor rt (dm @ ''/'' @ ver) k n) = Some (dm @ ''/'' @ ver, k, n) \<and>
    (pathFor rt (dm @ ''/'' @ ver) k n = pathFor rt (dm' @ ''/'' @ ver') k' n' \<longrightarrow>
       dm @ ''/'' @ ver = dm' @ ''/'' @ ver' \<and> k = k' \<and> n = n')"
  using parsePathHint_pathFor [OF assms(1-5)] parsePathHint_pathFor [OF assms(1,6-9)]
  by (metis option.inject prod.inject)

theorem path_hint_roundtrip_witness:
  "parsePathHint ''/m'' (pathFor ''/m'' (''p.io'' @ ''/'' @ ''v1'') ''VM'' ''a'') = Some (''p.io'' @ ''/'' @ ''v1'', ''VM'', ''a'')"
proof -
  have "cleanRoot ''/m''" "plainSeg ''p.io''" "plainSeg ''v1''" "plainSeg ''VM''" "plainSeg ''a''" by code_simp+
  from path_hint_roundtrip [OF this this(2-5)] show ?thesis by (rule conjunct1)
qed

end
