(* ===== verification/Sink.thy ===== *)
theory Sink
  imports DiskMirror Registry
begin

text \<open>
  The interface \<^verbatim>\<open>ManifestSink\<close> of internal/controller/operations/dispatcher.go: what the dispatcher relies
  on when it persists desired state and looks up the cache key.  Its two implementations are the store
  (manifests/store.go) and the disk mirror around it (manifests/disk.go).

  The world of the controller is the mirror (database and files) together with the platforms behind the
  providers.
\<close>

record 'p world =
  w_mirror :: mirror
  w_plat :: 'p

abbreviation w_db :: "'p world \<Rightarrow> db" where "w_db w \<equiv> mi_db (w_mirror w)"

definition onDb :: "(db \<Rightarrow> db) \<Rightarrow> 'p world \<Rightarrow> 'p world" where
  "onDb f w = w\<lparr>w_mirror := (w_mirror w)\<lparr>mi_db := f (w_db w)\<rparr>\<rparr>"

definition setDb :: "db \<Rightarrow> 'p world \<Rightarrow> 'p world" where
  "setDb d = onDb (\<lambda>_. d)"

record 'p sink =
  sk_save :: "ctx \<Rightarrow> resource \<Rightarrow> string \<Rightarrow> 'p world \<Rightarrow> err option \<times> 'p world"
  sk_delete :: "ctx \<Rightarrow> string \<Rightarrow> string \<Rightarrow> string \<Rightarrow> 'p world \<Rightarrow> err option \<times> 'p world"
  sk_loadHashes :: "'p world \<Rightarrow> string \<Rightarrow> string \<Rightarrow> string \<Rightarrow> err + string \<times> string"
  sk_hash :: "resource \<Rightarrow> string"

text \<open>The two implementations, for one call's clock and failures.\<close>

definition storeSink :: "io \<Rightarrow> (json \<Rightarrow> string) \<Rightarrow> string \<Rightarrow> 'p sink" where
  "storeSink io digest now =
     \<lparr>sk_save = (\<lambda>c r h w. case SaveWithRefsHash io digest now c (Some r) h (w_db w) of
                   Inl e \<Rightarrow> (Some e, w) | Inr d \<Rightarrow> (None, setDb d w)),
      sk_delete = (\<lambda>c av k n w. case Delete (io 0) av k n (w_db w) of
                   Inl e \<Rightarrow> (Some e, w) | Inr d \<Rightarrow> (None, setDb d w)),
      sk_loadHashes = (\<lambda>w av k n. LoadHashes (io 0) (w_db w) av k n),
      sk_hash = (\<lambda>r. Hash digest (Some r))\<rparr>"

definition mirrorSink :: "io \<Rightarrow> io \<Rightarrow> mirror_env \<Rightarrow> string \<Rightarrow> 'p sink" where
  "mirrorSink io dio env now =
     \<lparr>sk_save = (\<lambda>c r h w. case Mirror_SaveWithRefsHash env io dio now c r h (w_mirror w) of
                   (e, m) \<Rightarrow> (e, w\<lparr>w_mirror := m\<rparr>)),
      sk_delete = (\<lambda>c av k n w. case Mirror_Delete env (io 0) (dio 0) c av k n (w_mirror w) of
                   (e, m) \<Rightarrow> (e, w\<lparr>w_mirror := m\<rparr>)),
      sk_loadHashes = (\<lambda>w av k n. LoadHashes (io 0) (w_db w) av k n),
      sk_hash = (\<lambda>r. Hash (me_digest env) (Some r))\<rparr>"

lemma onDb_sel [simp]:
  "w_db (onDb f w) = f (w_db w)" "w_plat (onDb f w) = w_plat w"
  "mi_fs (w_mirror (onDb f w)) = mi_fs (w_mirror w)" "w_db (setDb d w) = d" "w_plat (setDb d w) = w_plat w"
  by (simp_all add: onDb_def setDb_def)

subsection \<open>The contract\<close>

definition keyOf :: "resource \<Rightarrow> rkey" where
  "keyOf r = (r_apiVersion r, r_kind r, r_name r)"

text \<open>The hashes on file, as an intact database returns them.\<close>

definition hashesOf :: "db \<Rightarrow> rkey \<Rightarrow> string \<times> string" where
  "hashesOf d key = (case findRow amKey key (db_applied d) of
     None \<Rightarrow> ([], []) | Some row \<Rightarrow> (am_inputHash row, am_refsHash row))"

lemma LoadHashes_Inr [res_simps]:
  "LoadHashes f d av k n = Inr h \<longleftrightarrow> f = None \<and> h = hashesOf d (av, k, n)"
  by (auto simp: LoadHashes_def hashesOf_def res_simps split: option.splits)

datatype sink_event = SaveEv ctx resource string | DeleteEv ctx string string string

text \<open>A run of sink calls, each with its own clock and failures.\<close>

fun sinkRun :: "('i \<Rightarrow> 'p sink) \<Rightarrow> ('i \<times> sink_event) list \<Rightarrow> 'p world \<Rightarrow> 'p world" where
  "sinkRun sk [] w = w"
| "sinkRun sk ((i, SaveEv c r h) # evs) w = sinkRun sk evs (snd (sk_save (sk i) c r h w))"
| "sinkRun sk ((i, DeleteEv c av k n) # evs) w = sinkRun sk evs (snd (sk_delete (sk i) c av k n w))"

locale manifest_sink =
  fixes sk :: "'i \<Rightarrow> 'p sink"
    and hash :: "resource \<Rightarrow> string"
  assumes hash_eq: "sk_hash (sk i) r = hash r"
    and save_any: "sk_save (sk i) c r h w = (e, w') \<Longrightarrow>
          hashesOf (w_db w') key = hashesOf (w_db w) key \<or>
          key = keyOf r \<and> hashesOf (w_db w') key = (hash r, h)"
    and save_ok: "sk_save (sk i) c r h w = (None, w') \<Longrightarrow> hashesOf (w_db w') (keyOf r) = (hash r, h)"
    and delete_any: "sk_delete (sk i) c av k n w = (e, w') \<Longrightarrow>
          hashesOf (w_db w') key = hashesOf (w_db w) key \<or>
          key = (av, k, n) \<and> hashesOf (w_db w') key = ([], [])"
    and delete_ok: "sk_delete (sk i) c av k n w = (None, w') \<Longrightarrow> hashesOf (w_db w') (av, k, n) = ([], [])"
    and load: "sk_loadHashes (sk i) w av k n = Inr p \<Longrightarrow> p = hashesOf (w_db w) (av, k, n)"
    and keeps_ops: "sk_save (sk i) c r h w = (e, w') \<Longrightarrow> db_ops (w_db w') = db_ops (w_db w)"
      "sk_delete (sk i) c av k n w = (e, w') \<Longrightarrow> db_ops (w_db w') = db_ops (w_db w)"
begin

lemma hashes_traceable:
  "hashesOf (w_db (sinkRun sk evs w)) key = (a, b) \<Longrightarrow> (a, b) \<noteq> ([], []) \<Longrightarrow>
     hashesOf (w_db w) key = (a, b) \<or>
     (\<exists>i c r. (i, SaveEv c r b) \<in> set evs \<and> keyOf r = key \<and> hash r = a)"
proof (induction evs arbitrary: w)
  case (Cons ev evs)
  show ?case
  proof (cases ev)
    case (Pair i act)
    show ?thesis
    proof (cases act)
      case (SaveEv c r h)
      obtain e w' where s: "sk_save (sk i) c r h w = (e, w')" by (cases "sk_save (sk i) c r h w")
      have "hashesOf (w_db w') key = (a, b) \<or> (\<exists>i c r. (i, SaveEv c r b) \<in> set evs \<and> keyOf r = key \<and> hash r = a)"
        using Cons.IH [of w'] Cons.prems Pair SaveEv s by simp
      then show ?thesis using save_any [OF s, of key] Pair SaveEv by fastforce
    next
      case (DeleteEv c av k n)
      obtain e w' where s: "sk_delete (sk i) c av k n w = (e, w')" by (cases "sk_delete (sk i) c av k n w")
      have "hashesOf (w_db w') key = (a, b) \<or> (\<exists>i c r. (i, SaveEv c r b) \<in> set evs \<and> keyOf r = key \<and> hash r = a)"
        using Cons.IH [of w'] Cons.prems Pair DeleteEv s by simp
      then show ?thesis using delete_any [OF s, of key] Pair Cons.prems(2) by auto
    qed
  qed
qed simp

lemma sinkRun_append: "sinkRun sk (evs @ evs') w = sinkRun sk evs' (sinkRun sk evs w)"
  by (induction sk evs w rule: sinkRun.induct) simp_all

lemma last_save_wins:
  assumes "fst (sk_save (sk i) c r h (sinkRun sk evs w)) = None"
  shows "hashesOf (w_db (sinkRun sk (evs @ [(i, SaveEv c r h)]) w)) (keyOf r) = (hash r, h)"
proof -
  obtain w' where "sk_save (sk i) c r h (sinkRun sk evs w) = (None, w')" using assms by (metis prod.collapse)
  then show ?thesis using save_ok by (simp add: sinkRun_append)
qed

end

subsection \<open>Both implementations keep it\<close>

lemma hashesOf_upsert:
  "hashesOf (d\<lparr>db_applied := upsertRow amKey row (db_applied d)\<rparr>) key =
     (if key = amKey row then (am_inputHash row, am_refsHash row) else hashesOf d key)"
  by (simp add: hashesOf_def)

lemma hashesOf_drop:
  "hashesOf (d\<lparr>db_applied := dropRow amKey k (db_applied d)\<rparr>) key = (if key = k then ([], []) else hashesOf d key)"
  by (simp add: hashesOf_def)

lemma manifestRow_hashes [simp]:
  "am_inputHash (manifestRow digest now r h src) = Hash digest (Some r)" "am_refsHash (manifestRow digest now r h src) = h"
  by (simp_all add: manifestRow_def)

lemma save_effect:
  assumes "SaveWithRefsHash io digest now c (Some r) h d = Inr d'"
  shows "hashesOf d' key = (if key = keyOf r then (Hash digest (Some r), h) else hashesOf d key)" "db_ops d' = db_ops d"
  using SaveWithRefsHash_Inr [OF assms] by (simp_all add: hashesOf_upsert keyOf_def)

lemma delete_effect:
  assumes "Delete f av k n d = Inr d'"
  shows "hashesOf d' key = (if key = (av, k, n) then ([], []) else hashesOf d key)" "db_ops d' = db_ops d"
  using assms by (simp_all add: res_simps hashesOf_drop)

text \<open>A save or a delete through either sink is one of the store, or fails and leaves the database alone.\<close>

lemma storeSink_calls:
  "sk_save (storeSink io digest now) c r h w = (e, w') \<Longrightarrow>
     w_db w' = w_db w \<and> e \<noteq> None \<or> SaveWithRefsHash io digest now c (Some r) h (w_db w) = Inr (w_db w')"
  "sk_delete (storeSink io digest now) c av k n w = (e, w') \<Longrightarrow>
     w_db w' = w_db w \<and> e \<noteq> None \<or> Delete (io 0) av k n (w_db w) = Inr (w_db w')"
  by (auto simp: storeSink_def split: sum.splits)

lemma mirrorSink_calls:
  "sk_save (mirrorSink io dio env now) c r h w = (e, w') \<Longrightarrow>
     w_db w' = w_db w \<and> e \<noteq> None \<or> SaveWithRefsHash io (me_digest env) now c (Some r) h (w_db w) = Inr (w_db w')"
  "sk_delete (mirrorSink io dio env now) c av k n w = (e, w') \<Longrightarrow>
     w_db w' = w_db w \<and> e \<noteq> None \<or> Delete (io 0) av k n (w_db w) = Inr (w_db w')"
  by (auto simp: mirrorSink_def Mirror_SaveWithRefsHash_def Mirror_Delete_def Let_def
           split: sum.splits option.splits prod.splits)

lemma manifest_sinkI:
  assumes "\<And>i r. sk_hash (sk i) r = Hash digest (Some r)"
    and "\<And>i c r h w e w'. sk_save (sk i) c r h w = (e, w') \<Longrightarrow>
      w_db w' = w_db w \<and> e \<noteq> None \<or> (\<exists>io now. SaveWithRefsHash io digest now c (Some r) h (w_db w) = Inr (w_db w'))"
    and "\<And>i c av k n w e w'. sk_delete (sk i) c av k n w = (e, w') \<Longrightarrow>
      w_db w' = w_db w \<and> e \<noteq> None \<or> (\<exists>f. Delete f av k n (w_db w) = Inr (w_db w'))"
    and "\<And>i w av k n p. sk_loadHashes (sk i) w av k n = Inr p \<Longrightarrow> p = hashesOf (w_db w) (av, k, n)"
  shows "manifest_sink sk (\<lambda>r. Hash digest (Some r))"
proof
  fix i c r h w e w' key av k n p
  show "sk_hash (sk i) r = Hash digest (Some r)" by (rule assms(1))
  show "hashesOf (w_db w') key = hashesOf (w_db w) key \<or> key = keyOf r \<and> hashesOf (w_db w') key = (Hash digest (Some r), h)"
      "db_ops (w_db w') = db_ops (w_db w)"
    if "sk_save (sk i) c r h w = (e, w')"
    using assms(2) [OF that] by (auto simp: save_effect split: if_splits)
  show "hashesOf (w_db w') (keyOf r) = (Hash digest (Some r), h)" if "sk_save (sk i) c r h w = (None, w')"
    using assms(2) [OF that] by (auto simp: save_effect)
  show "hashesOf (w_db w') key = hashesOf (w_db w) key \<or> key = (av, k, n) \<and> hashesOf (w_db w') key = ([], [])"
      "db_ops (w_db w') = db_ops (w_db w)"
    if "sk_delete (sk i) c av k n w = (e, w')"
    using assms(3) [OF that] by (auto simp: delete_effect split: if_splits)
  show "hashesOf (w_db w') (av, k, n) = ([], [])" if "sk_delete (sk i) c av k n w = (None, w')"
    using assms(3) [OF that] by (auto simp: delete_effect)
  show "p = hashesOf (w_db w) (av, k, n)" if "sk_loadHashes (sk i) w av k n = Inr p"
    by (rule assms(4) [OF that])
qed

interpretation ss: manifest_sink "\<lambda>i. storeSink (fst i) digest (snd i)" "\<lambda>r. Hash digest (Some r)" for digest
  by (rule manifest_sinkI)
     (auto dest: storeSink_calls simp: res_simps, simp_all add: storeSink_def res_simps)

interpretation ms: manifest_sink "\<lambda>i. mirrorSink (fst i) (fst (snd i)) env (snd (snd i))"
    "\<lambda>r. Hash (me_digest env) (Some r)" for env
  by (rule manifest_sinkI)
     (auto dest: mirrorSink_calls simp: res_simps, simp_all add: mirrorSink_def res_simps)

end
