(* ===== verification/Graph.thy ===== *)
theory Graph
  imports OpStore Refs
begin

text \<open>
  The dependency scheduler: internal/controller/operations/graph.go (\<open>RunGraph\<close>), refgraph.go (edges
  among the children of a plan) and crossop.go (edges, labels and the cycle check over a batch of
  operations).

  Goroutines and the result channel become a schedule: one entry per received result, which says which of
  the tasks in flight delivers it and whether the context is canceled by then.  A task's work takes place
  when its result is received.
\<close>

subsection \<open>Tasks and their edges\<close>

record 'w task =
  tk_id :: string
  tk_deps :: "string list"
  tk_run :: "('w \<Rightarrow> err option \<times> 'w) option"

text \<open>\<open>dependents\<close>: for every entry of a \<^verbatim>\<open>DependsOn\<close> list one entry of the reverse list, in task order.\<close>

definition depsOf :: "'w task list \<Rightarrow> string \<Rightarrow> string list" where
  "depsOf T y = concat (map (\<lambda>t. if tk_id t = y then tk_deps t else []) T)"

definition dependentsOf :: "'w task list \<Rightarrow> string \<Rightarrow> string list" where
  "dependentsOf T x = concat (map (\<lambda>t. map (\<lambda>_. tk_id t) (filter (\<lambda>d. d = x) (tk_deps t))) T)"

fun checkDup :: "string list \<Rightarrow> 'w task list \<Rightarrow> err option" where
  "checkDup seen [] = None"
| "checkDup seen (t # T) =
     (if tk_id t \<in> set seen then Some (Plain (''graph: duplicate task id '' @ goQuote (tk_id t)))
      else checkDup (tk_id t # seen) T)"

fun checkDeps :: "string list \<Rightarrow> 'w task list \<Rightarrow> err option" where
  "checkDeps ids [] = None"
| "checkDeps ids (t # T) =
     (case find (\<lambda>d. d \<notin> set ids) (tk_deps t) of
        Some d \<Rightarrow> Some (Plain (''graph: task '' @ goQuote (tk_id t) @ '' depends on unknown task '' @ goQuote d))
      | None \<Rightarrow> checkDeps ids T)"

subsection \<open>The scheduler (graph.go)\<close>

text \<open>
  The variables of \<open>RunGraph\<close>.  The counters \<^verbatim>\<open>inFlight\<close> and \<^verbatim>\<open>completed\<close> are the lengths of the list of
  tasks in flight and of the list of results received so far.
\<close>

record gstate =
  g_ready :: "string list"
  g_indegree :: "string \<Rightarrow> int"
  g_running :: "string list"
  g_results :: "(string \<times> err option) list"
  g_stop :: bool
  g_firstErr :: "err option"

abbreviation g_done :: "gstate \<Rightarrow> string list" where
  "g_done st \<equiv> map fst (g_results st)"

function fill :: "nat \<Rightarrow> gstate \<Rightarrow> gstate" where
  "fill conc st =
     (case g_ready st of
        [] \<Rightarrow> st
      | i # rest \<Rightarrow>
          if length (g_running st) < conc \<and> \<not> g_stop st
          then fill conc (st\<lparr>g_ready := rest, g_running := g_running st @ [i]\<rparr>)
          else st)"
  by pat_completeness auto
termination
  by (relation "measure (\<lambda>(conc, st). length (g_ready st))") auto

definition initGraph :: "'w task list \<Rightarrow> gstate" where
  "initGraph T =
     \<lparr>g_ready = sort (filter (\<lambda>i. length (depsOf T i) = 0) (map tk_id T)),
      g_indegree = (\<lambda>i. int (length (depsOf T i))), g_running = [], g_results = [],
      g_stop = False, g_firstErr = None\<rparr>"

fun release :: "string list \<Rightarrow> (string \<Rightarrow> int) \<Rightarrow> string list \<Rightarrow> (string \<Rightarrow> int) \<times> string list" where
  "release [] ind rdy = (ind, rdy)"
| "release (d # ds) ind rdy =
     (let ind' = ind(d := ind d - 1) in
      release ds ind' (if ind' d = 0 then rdy @ [d] else rdy))"

text \<open>One iteration of the result loop; \<open>c\<close> says whether the context is canceled.\<close>

definition onResult :: "'w task list \<Rightarrow> nat \<Rightarrow> bool \<Rightarrow> string \<Rightarrow> err option \<Rightarrow> gstate \<Rightarrow> gstate" where
  "onResult T conc c i e st =
     (let st1 = st\<lparr>g_running := remove1 i (g_running st), g_results := g_results st @ [(i, e)]\<rparr>;
          st2 = (case e of
                   None \<Rightarrow> st1
                 | Some er \<Rightarrow>
                     st1\<lparr>g_firstErr := (case g_firstErr st1 of
                             None \<Rightarrow> Some (Wrap (''task '' @ goQuote i) er) | Some x \<Rightarrow> Some x),
                         g_stop := True\<rparr>)
      in if g_stop st2 \<or> c then st2\<lparr>g_stop := True\<rparr>
         else (case release (dependentsOf T i) (g_indegree st2) (g_ready st2) of
                 (ind, rdy) \<Rightarrow> fill conc (st2\<lparr>g_indegree := ind, g_ready := sort rdy\<rparr>)))"

definition runTask :: "'w task list \<Rightarrow> string \<Rightarrow> 'w \<Rightarrow> err option \<times> 'w" where
  "runTask T i w =
     (case find (\<lambda>t. tk_id t = i) T of
        None \<Rightarrow> (None, w)
      | Some t \<Rightarrow> (case tk_run t of None \<Rightarrow> (None, w) | Some f \<Rightarrow> f w))"

fun runLoop :: "'w task list \<Rightarrow> nat \<Rightarrow> (nat \<times> bool) list \<Rightarrow> gstate \<Rightarrow> 'w \<Rightarrow> gstate \<times> 'w" where
  "runLoop T conc [] st w = (st, w)"
| "runLoop T conc ((k, c) # evs) st w =
     (if g_running st = [] then (st, w)
      else
        (let i = g_running st ! (k mod length (g_running st)) in
         case runTask T i w of
           (e, w') \<Rightarrow> runLoop T conc evs (onResult T conc c i e st) w'))"

definition stuckTasks :: "'w task list \<Rightarrow> (string \<Rightarrow> int) \<Rightarrow> string list" where
  "stuckTasks T ind = sort (filter (\<lambda>i. ind i > 0) (map tk_id T))"

definition graphOutcome :: "'w task list \<Rightarrow> bool \<Rightarrow> gstate \<Rightarrow> err option" where
  "graphOutcome T c st =
     (case g_firstErr st of
        Some e \<Rightarrow> Some e
      | None \<Rightarrow>
          if c then Some CtxCanceled
          else if length (g_results st) < length T then
            Some (Plain (''graph: '' @ digits (length T - length (g_results st)) @ '' task(s) unschedulable (cycle?): ''
                         @ joinWith '', '' (stuckTasks T (g_indegree st))))
          else None)"

text \<open>
  The whole call.  \<open>c0\<close> and \<open>c1\<close> say whether the context is canceled at the start and at the end; the log of
  results is returned beside the error so that the order of execution can be stated.
\<close>

definition RunGraph ::
  "int \<Rightarrow> 'w task list \<Rightarrow> bool \<Rightarrow> (nat \<times> bool) list \<Rightarrow> bool \<Rightarrow> 'w \<Rightarrow> (err option \<times> (string \<times> err option) list) \<times> 'w" where
  "RunGraph concurrency T c0 sched c1 w =
     (let conc = (if concurrency < 1 then 1 else nat concurrency) in
      case checkDup [] T of
        Some e \<Rightarrow> ((Some e, []), w)
      | None \<Rightarrow>
          (case checkDeps (map tk_id T) T of
             Some e \<Rightarrow> ((Some e, []), w)
           | None \<Rightarrow>
               if c0 then ((Some CtxCanceled, []), w)
               else (case runLoop T conc sched (fill conc (initGraph T)) w of
                       (st, w') \<Rightarrow> ((graphOutcome T c1 st, g_results st), w'))))"

subsection \<open>Edges of a plan (refgraph.go)\<close>

definition ChildKey :: "resource \<Rightarrow> string" where
  "ChildKey r = r_kind r @ ''/'' @ r_name r"

definition childDeps :: "string list \<Rightarrow> resource \<Rightarrow> string list" where
  "childDeps present c =
     sort (remdups (filter (\<lambda>dep. dep \<noteq> ChildKey c \<and> dep \<in> set present)
        (map (\<lambda>x. ref_kind x @ ''/'' @ ref_name x) (CollectRefs (r_spec c)))))"

definition RefChildEdges :: "resource list \<Rightarrow> (string \<times> string list) list" where
  "RefChildEdges children =
     foldl (\<lambda>edges c. let deps = childDeps (map ChildKey children) c in
              if deps \<noteq> [] then putKey edges (ChildKey c) deps else edges) [] children"

subsection \<open>Edges of a batch (crossop.go)\<close>

definition crossOpSchedulingEnabled :: "string \<Rightarrow> bool" where
  "crossOpSchedulingEnabled env \<longleftrightarrow> env \<notin> {''0'', ''false'', ''FALSE'', ''no''}"

text \<open>\<open>atoi\<close> is \<^verbatim>\<open>strconv.Atoi\<close>: a number, or no number.\<close>

definition crossOpConcurrency :: "(string \<Rightarrow> int option) \<Rightarrow> string \<Rightarrow> int" where
  "crossOpConcurrency atoi v =
     (if v \<noteq> [] then (case atoi v of Some n \<Rightarrow> if n > 0 then n else 4 | None \<Rightarrow> 4) else 4)"

definition resourceKey :: "string \<Rightarrow> string \<Rightarrow> string \<Rightarrow> string" where
  "resourceKey av k n = av @ ''|'' @ k @ ''|'' @ n"

text \<open>The first pass: who applies which resource, and the specs to look for references in.\<close>

fun crossOpScan ::
  "operation list \<Rightarrow> strmap \<Rightarrow> (string \<times> obj) list \<Rightarrow> err + strmap \<times> (string \<times> obj) list" where
  "crossOpScan [] applier specs = Inr (applier, specs)"
| "crossOpScan (o1 # ops) applier specs =
     (if op_type o1 \<noteq> TypeApply \<or> op_manifest o1 = NoDoc then crossOpScan ops applier specs
      else
        (case decodeDoc (op_manifest o1) of
           Inl e \<Rightarrow> Inl (Wrap (''op '' @ op_id o1 @ '': decode manifest'') e)
         | Inr r \<Rightarrow>
             crossOpScan ops (putKey applier (resourceKey (r_apiVersion r) (r_kind r) (r_name r)) (op_id o1))
               (case r_spec r of None \<Rightarrow> specs | Some m \<Rightarrow> putKey specs (op_id o1) m)))"

definition crossOpDeps :: "strmap \<Rightarrow> string \<Rightarrow> obj \<Rightarrow> string list" where
  "crossOpDeps applier opID spec =
     sort (remdups (filter (\<lambda>dep. dep \<noteq> opID)
       (List.map_filter (\<lambda>x. map_of applier (resourceKey (ref_apiVersion x) (ref_kind x) (ref_name x)))
          (CollectRefs (Some spec)))))"

definition crossOpEdges :: "operation list \<Rightarrow> err + (string \<times> string list) list" where
  "crossOpEdges ops =
     bindE (crossOpScan ops [] []) (\<lambda>(applier, specs).
       Inr (filter (\<lambda>(_, deps). deps \<noteq> [])
              (map (\<lambda>(opID, spec). (opID, crossOpDeps applier opID spec)) specs)))"

text \<open>A map from identifiers to identifiers; iterating it visits every key once.\<close>

definition edgeDeps :: "(string \<times> string list) list \<Rightarrow> string \<Rightarrow> string list" where
  "edgeDeps edges y = (case map_of edges y of None \<Rightarrow> [] | Some ds \<Rightarrow> ds)"

definition edgeDependents :: "(string \<times> string list) list \<Rightarrow> string \<Rightarrow> string list" where
  "edgeDependents edges x =
     concat (map (\<lambda>y. map (\<lambda>_. y) (filter (\<lambda>d. d = x) (edgeDeps edges y))) (remdups (map fst edges)))"

definition crossOpDependencyLabels ::
  "operation list \<Rightarrow> (string \<times> string list) list \<Rightarrow> (string \<times> string) list" where
  "crossOpDependencyLabels batch edges =
     (let desc = foldl (\<lambda>m o1. putKey m (op_id o1) (op_kind o1 @ ''/'' @ op_name o1)) [] batch in
      List.map_filter (\<lambda>opID.
        let names = List.map_filter (map_of desc) (edgeDeps edges opID) in
        if names = [] then None else Some (opID, ''depends on '' @ joinWith '', '' (sort names)))
        (remdups (map fst edges)))"

text \<open>The loop of \<open>crossOpAcyclic\<close>; the fuel is the number of identifiers left to process.\<close>

fun kahnLoop :: "(string \<Rightarrow> string list) \<Rightarrow> nat \<Rightarrow> string list \<Rightarrow> (string \<Rightarrow> int) \<Rightarrow> string list \<Rightarrow> string list" where
  "kahnLoop dependents fuel [] ind processed = processed"
| "kahnLoop dependents 0 (n # queue) ind processed = processed"
| "kahnLoop dependents (Suc fuel) (n # queue) ind processed =
     (case release (dependents n) ind queue of
        (ind', queue') \<Rightarrow> kahnLoop dependents fuel queue' ind' (processed @ [n]))"

definition crossOpAcyclic :: "string list \<Rightarrow> (string \<times> string list) list \<Rightarrow> bool" where
  "crossOpAcyclic ids edges =
     (length (kahnLoop (edgeDependents edges) (length ids)
        (filter (\<lambda>i. length (edgeDeps edges i) = 0) ids) (\<lambda>i. int (length (edgeDeps edges i))) [])
      = length ids)"

declare fill.simps [simp del]

subsection \<open>Counting lemmas\<close>

lemma count_replicate_filter:
  "count_list (map (\<lambda>_. a) (filter (\<lambda>d. d = x) ds)) y = (if y = a then count_list ds x else 0)"
  by (induction ds) auto

lemma count_dependentsOf: "count_list (dependentsOf T x) y = count_list (depsOf T y) x"
  by (induction T) (auto simp: dependentsOf_def depsOf_def count_replicate_filter)

lemma count_concat_keys:
  "distinct ks \<Longrightarrow>
   count_list (concat (map (\<lambda>z. map (\<lambda>_. z) (filter (\<lambda>d. d = x) (f z))) ks)) y =
     (if y \<in> set ks then count_list (f y) x else 0)"
  by (induction ks) (auto simp: count_replicate_filter)

lemma count_edgeDependents: "count_list (edgeDependents edges x) y = count_list (edgeDeps edges y) x"
proof (cases "y \<in> set (map fst edges)")
  case False
  then have "map_of edges y = None" by (simp add: map_of_eq_None_iff)
  then have "edgeDeps edges y = []" by (simp add: edgeDeps_def)
  then show ?thesis using False by (auto simp: edgeDependents_def count_concat_keys)
qed (simp add: edgeDependents_def count_concat_keys)

text \<open>The number of dependencies of a task that have not been processed yet, with multiplicity.\<close>

definition unmet :: "(string \<Rightarrow> string list) \<Rightarrow> string list \<Rightarrow> string \<Rightarrow> nat" where
  "unmet deps dn y = length (filter (\<lambda>d. d \<notin> set dn) (deps y))"

lemma unmet_snoc:
  assumes "x \<notin> set dn"
  shows "unmet deps dn y = unmet deps (dn @ [x]) y + count_list (deps y) x"
proof -
  have "length (filter (\<lambda>d. d \<notin> set dn) ds) = length (filter (\<lambda>d. d \<notin> set (dn @ [x])) ds) + count_list ds x" for ds
    using assms by (induction ds) auto
  then show ?thesis by (simp add: unmet_def)
qed

lemma unmet_0: "unmet deps dn y = 0 \<longleftrightarrow> set (deps y) \<subseteq> set dn"
  by (auto simp: unmet_def filter_empty_conv)

text \<open>What the release loop does, as long as no counter is below the number of its decrements.\<close>

lemma release_spec:
  assumes "release ds ind rdy = (ind', rdy')" "\<forall>y. int (count_list ds y) \<le> ind y"
  shows "ind' = (\<lambda>y. ind y - int (count_list ds y))"
    and "\<exists>new. rdy' = rdy @ new \<and> distinct new \<and> set new = {y \<in> set ds. ind y = int (count_list ds y)}"
proof -
  have "ind' = (\<lambda>y. ind y - int (count_list ds y)) \<and>
      (\<exists>new. rdy' = rdy @ new \<and> distinct new \<and> set new = {y \<in> set ds. ind y = int (count_list ds y)})"
    using assms
  proof (induction ds arbitrary: ind rdy)
    case (Cons d ds)
    let ?ind = "ind(d := ind d - 1)" and ?rdy = "if ind d - 1 = 0 then rdy @ [d] else rdy"
    have r: "release ds ?ind ?rdy = (ind', rdy')" using Cons.prems(1) by simp
    have b: "\<forall>y. int (count_list ds y) \<le> ?ind y"
    proof
      fix y show "int (count_list ds y) \<le> ?ind y" using Cons.prems(2) [THEN spec, of y] by auto
    qed
    from Cons.IH [OF r b] obtain new where ind': "ind' = (\<lambda>y. ?ind y - int (count_list ds y))"
      and new: "rdy' = ?rdy @ new" "distinct new" "set new = {y \<in> set ds. ?ind y = int (count_list ds y)}" by blast
    have i: "ind' = (\<lambda>y. ind y - int (count_list (d # ds) y))" using ind' by auto
    show ?case
    proof (cases "ind d - 1 = 0")
      case True
      then have "count_list ds d = 0" using b [THEN spec, of d] by simp
      then have "d \<notin> set ds" by (simp add: count_list_0_iff)
      then have "rdy' = rdy @ (d # new)" "distinct (d # new)"
          "set (d # new) = {y \<in> set (d # ds). ind y = int (count_list (d # ds) y)}"
        using new True \<open>count_list ds d = 0\<close> by auto
      then show ?thesis using i by blast
    next
      case False
      have "d \<in> set ds" if "ind d = 1 + int (count_list ds d)"
        by (rule ccontr) (use that False in simp)
      then have "set new = {y \<in> set (d # ds). ind y = int (count_list (d # ds) y)}"
        using new(3) by auto
      then show ?thesis using new(1,2) False i by auto
    qed
  qed simp
  then show "ind' = (\<lambda>y. ind y - int (count_list ds y))"
    "\<exists>new. rdy' = rdy @ new \<and> distinct new \<and> set new = {y \<in> set ds. ind y = int (count_list ds y)}"
    by auto
qed

subsection \<open>The worklist contract\<close>

text \<open>
  What both loops maintain: every task all of whose dependencies are processed is available or processed
  itself, nothing else is, no task twice, and the counters hold the number of unmet dependencies.
\<close>

definition kahn_inv ::
  "(string \<Rightarrow> string list) \<Rightarrow> string list \<Rightarrow> (string \<Rightarrow> int) \<Rightarrow> string list \<Rightarrow> string list \<Rightarrow> bool" where
  "kahn_inv deps ids ind avail dn \<longleftrightarrow>
     distinct (avail @ dn) \<and> set avail \<union> set dn = {y \<in> set ids. unmet deps dn y = 0} \<and>
     (\<forall>y. ind y = int (unmet deps dn y)) \<and> (\<forall>y. deps y \<noteq> [] \<longrightarrow> y \<in> set ids)"

text \<open>A list in dependency order: everything an element depends on comes before it.\<close>

definition topo :: "(string \<Rightarrow> string list) \<Rightarrow> string list \<Rightarrow> bool" where
  "topo deps dn \<longleftrightarrow> (\<forall>i < length dn. set (deps (dn ! i)) \<subseteq> set (take i dn))"

definition depRel :: "(string \<Rightarrow> string list) \<Rightarrow> string list \<Rightarrow> (string \<times> string) set" where
  "depRel deps ids = {(d, y). y \<in> set ids \<and> d \<in> set (deps y)}"

text \<open>
  The interface of a dependency graph: the reverse edges \<open>dependents\<close> are those of \<open>deps\<close>, with
  multiplicity.
\<close>

locale dep_graph =
  fixes deps :: "string \<Rightarrow> string list"
    and dependents :: "string \<Rightarrow> string list"
  assumes reverse: "count_list (dependents x) y = count_list (deps y) x"
begin

lemma finish:
  assumes inv: "kahn_inv deps ids ind avail dn" and x: "x \<in> set avail"
    and rel: "release (dependents x) ind rdy = (ind', rdy')"
  shows "\<exists>new. rdy' = rdy @ new \<and> kahn_inv deps ids ind' (remove1 x avail @ new) (dn @ [x])"
proof -
  have xd: "x \<notin> set dn" and dist: "distinct avail" "distinct dn" "set avail \<inter> set dn = {}"
    using inv x by (auto simp: kahn_inv_def)
  have ind: "ind y = int (unmet deps dn y)" for y using inv by (simp add: kahn_inv_def)
  have um: "unmet deps dn y = unmet deps (dn @ [x]) y + count_list (deps y) x" for y by (rule unmet_snoc [OF xd])
  have le: "\<forall>y. int (count_list (dependents x) y) \<le> ind y" using ind um reverse by simp
  obtain new where new: "rdy' = rdy @ new" "distinct new"
      "set new = {y \<in> set (dependents x). ind y = int (count_list (dependents x) y)}"
    using release_spec(2) [OF rel le] by blast
  have newset: "set new = {y. x \<in> set (deps y) \<and> unmet deps (dn @ [x]) y = 0}"
  proof -
    have "y \<in> set (dependents x) \<longleftrightarrow> x \<in> set (deps y)" for y
      using reverse [of x y] count_list_0_iff by metis
    then show ?thesis using new(3) ind um reverse by auto
  qed
  have ids: "y \<in> set ids" if "x \<in> set (deps y)" for y
  proof -
    have "deps y \<noteq> []" using that by auto
    then show ?thesis using inv by (simp add: kahn_inv_def)
  qed
  have old: "set avail \<union> set dn = {y \<in> set ids. unmet deps dn y = 0}" using inv by (simp add: kahn_inv_def)
  have sets: "set (remove1 x avail @ new) \<union> set (dn @ [x]) = {y \<in> set ids. unmet deps (dn @ [x]) y = 0}"
  proof -
    have "{y \<in> set ids. unmet deps (dn @ [x]) y = 0} = {y \<in> set ids. unmet deps dn y = 0} \<union> set new"
      using newset um ids by (auto simp: count_list_0_iff)
    then show ?thesis using old dist(1) x by auto
  qed
  have "set new \<inter> (set avail \<union> set dn) = {}"
    using newset old um by (auto simp: count_list_0_iff)
  then have "distinct ((remove1 x avail @ new) @ (dn @ [x]))"
    using dist new(2) xd x by (auto simp: distinct_remove1)
  moreover have "\<forall>y. ind' y = int (unmet deps (dn @ [x]) y)"
    using release_spec(1) [OF rel le] ind um reverse by simp
  ultimately show ?thesis using sets inv new(1) by (auto simp: kahn_inv_def)
qed

lemma finish_topo:
  "kahn_inv deps ids ind avail dn \<Longrightarrow> x \<in> set avail \<Longrightarrow> topo deps dn \<Longrightarrow> topo deps (dn @ [x])"
  unfolding topo_def kahn_inv_def
  by (auto simp: nth_append less_Suc_eq unmet_0)

lemma empty_avail_all:
  assumes "kahn_inv deps ids ind [] dn" "acyclic (depRel deps ids)" "\<forall>y \<in> set ids. set (deps y) \<subseteq> set ids"
  shows "set dn = set ids"
proof (rule ccontr)
  assume "set dn \<noteq> set ids"
  have dn: "set dn = {y \<in> set ids. unmet deps dn y = 0}" using assms(1) by (simp add: kahn_inv_def)
  then have ne: "set ids - set dn \<noteq> {}" using \<open>set dn \<noteq> set ids\<close> by blast
  have fin: "finite (depRel deps ids)"
    by (rule finite_subset [of _ "set (concat (map deps ids)) \<times> set ids"]) (auto simp: depRel_def)
  have "wf (depRel deps ids)" using fin assms(2) by (rule finite_acyclic_wf)
  moreover obtain w where "w \<in> set ids - set dn" using ne by blast
  ultimately obtain z where z: "z \<in> set ids - set dn" "\<And>y. (y, z) \<in> depRel deps ids \<Longrightarrow> y \<notin> set ids - set dn"
    by (rule wfE_min) blast
  have "set (deps z) \<subseteq> set dn"
  proof
    fix d assume d: "d \<in> set (deps z)"
    then have "(d, z) \<in> depRel deps ids" using z(1) by (simp add: depRel_def)
    then have "d \<notin> set ids - set dn" by (rule z(2))
    moreover have "d \<in> set ids" using d z(1) assms(3) by blast
    ultimately show "d \<in> set dn" by blast
  qed
  then have "unmet deps dn z = 0" by (simp add: unmet_0)
  then show False using z(1) dn by blast
qed

lemma topo_acyclic:
  assumes "topo deps dn" "distinct dn" "set dn = set ids"
  shows "acyclic (depRel deps ids)"
proof -
  define pos where "pos = inv_into {..< length dn} ((!) dn)"
  have "inj_on ((!) dn) {..< length dn}" using assms(2) by (intro inj_on_nth) auto
  then have pos: "pos (dn ! i) = i" if "i < length dn" for i
    using that unfolding pos_def by (intro inv_into_f_f) auto
  have "depRel deps ids \<subseteq> measure pos"
  proof
    fix p assume "p \<in> depRel deps ids"
    then obtain d y where p: "p = (d, y)" "y \<in> set dn" "d \<in> set (deps y)" using assms(3) by (auto simp: depRel_def)
    then obtain i where i: "i < length dn" "y = dn ! i" by (auto simp: in_set_conv_nth)
    then obtain j where "j < i" "d = dn ! j"
    proof -
      have "d \<in> set (take i dn)" using assms(1) p(3) i unfolding topo_def by blast
      then show ?thesis using that i(1) by (auto simp: in_set_conv_nth)
    qed
    then show "p \<in> measure pos" using pos i p(1) by simp
  qed
  then show ?thesis by (meson acyclic_subset wf_acyclic wf_measure)
qed

lemma step_count:
  assumes "kahn_inv deps ids ind avail dn"
  shows "length avail + length dn \<le> length ids"
proof -
  have "set (avail @ dn) \<subseteq> set ids" using assms by (auto simp: kahn_inv_def)
  then have "card (set (avail @ dn)) \<le> length ids" by (meson List.finite_set card_length card_mono le_trans)
  then show ?thesis using assms distinct_card [of "avail @ dn"] by (simp add: kahn_inv_def)
qed

end

interpretation tg: dep_graph "depsOf T" "dependentsOf T" for T :: "'w task list"
  by unfold_locales (rule count_dependentsOf)

interpretation eg: dep_graph "edgeDeps edges" "edgeDependents edges" for edges
  by unfold_locales (rule count_edgeDependents)

subsection \<open>The loops keep the contract\<close>

lemma kahn_inv_init:
  assumes "distinct ids" "\<forall>y. deps y \<noteq> [] \<longrightarrow> y \<in> set ids"
  shows "kahn_inv deps ids (\<lambda>i. int (length (deps i))) (filter (\<lambda>i. length (deps i) = 0) ids) []"
  using assms by (auto simp: kahn_inv_def unmet_def)

lemma kahn_inv_perm: "kahn_inv deps ids ind avail dn \<Longrightarrow> mset avail = mset avail' \<Longrightarrow> kahn_inv deps ids ind avail' dn"
  unfolding kahn_inv_def by (metis distinct_append mset_eq_imp_distinct_iff set_mset_mset)

context dep_graph
begin

lemma kahnLoop_end:
  assumes "kahn_inv deps ids ind queue dn" "topo deps dn" "length ids \<le> fuel + length dn"
  shows "\<exists>ind'. kahn_inv deps ids ind' [] (kahnLoop dependents fuel queue ind dn) \<and>
           topo deps (kahnLoop dependents fuel queue ind dn)"
  using assms
proof (induction fuel arbitrary: queue ind dn)
  case 0
  then have "queue = []" using step_count [OF 0(1)] by (cases queue) auto
  then show ?case using 0 by auto
next
  case (Suc fuel)
  show ?case
  proof (cases queue)
    case Nil
    then show ?thesis using Suc.prems by auto
  next
    case (Cons n rest)
    obtain ind' q' where r: "release (dependents n) ind rest = (ind', q')" by (cases "release (dependents n) ind rest")
    obtain new where q': "q' = rest @ new" and k: "kahn_inv deps ids ind' (remove1 n queue @ new) (dn @ [n])"
      using finish [OF Suc.prems(1) _ r] Cons by auto
    have "kahn_inv deps ids ind' q' (dn @ [n])" using k q' Cons by simp
    moreover have "topo deps (dn @ [n])" using finish_topo [OF Suc.prems(1) _ Suc.prems(2)] Cons by simp
    ultimately show ?thesis using Suc.IH [of ind' q' "dn @ [n]"] Suc.prems(3) Cons r by simp
  qed
qed

lemma kahn_acyclic_iff:
  assumes "distinct ids" "\<forall>y. deps y \<noteq> [] \<longrightarrow> y \<in> set ids" "\<forall>y \<in> set ids. set (deps y) \<subseteq> set ids"
  shows "length (kahnLoop dependents (length ids) (filter (\<lambda>i. length (deps i) = 0) ids)
           (\<lambda>i. int (length (deps i))) []) = length ids \<longleftrightarrow> acyclic (depRel deps ids)"
proof -
  let ?r = "kahnLoop dependents (length ids) (filter (\<lambda>i. length (deps i) = 0) ids) (\<lambda>i. int (length (deps i))) []"
  obtain ind' where k: "kahn_inv deps ids ind' [] ?r" and t: "topo deps ?r"
    using kahnLoop_end [OF kahn_inv_init [OF assms(1,2)], of "length ids"] by (auto simp: topo_def)
  have d: "distinct ?r" "set ?r \<subseteq> set ids" using k by (auto simp: kahn_inv_def)
  then have len: "length ?r = length ids \<longleftrightarrow> set ?r = set ids"
    using assms(1) by (metis List.finite_set card_subset_eq distinct_card)
  show ?thesis
    using len empty_avail_all [OF k _ assms(3)] topo_acyclic [OF t d(1)] by blast
qed

end

text \<open>
  C37. The cycle check of a batch is exact: for distinct identifiers and edges among them,
  \<open>crossOpAcyclic\<close> holds if and only if the dependency relation has no cycle.
\<close>
theorem crossOpAcyclic_iff:
  assumes "distinct ids" "\<forall>y. edgeDeps edges y \<noteq> [] \<longrightarrow> y \<in> set ids"
    and "\<forall>y \<in> set ids. set (edgeDeps edges y) \<subseteq> set ids"
  shows "crossOpAcyclic ids edges \<longleftrightarrow> acyclic (depRel (edgeDeps edges) ids)"
  unfolding crossOpAcyclic_def by (rule eg.kahn_acyclic_iff [OF assms])

theorem crossOpAcyclic_iff_witness:
  "\<not> acyclic (depRel (edgeDeps [(''a'', [''b'']), (''b'', [''a''])]) [''a'', ''b''])"
proof -
  have "\<not> crossOpAcyclic [''a'', ''b''] [(''a'', [''b'']), (''b'', [''a''])]" by code_simp
  moreover have "crossOpAcyclic [''a'', ''b''] [(''a'', [''b'']), (''b'', [''a''])] \<longleftrightarrow>
      acyclic (depRel (edgeDeps [(''a'', [''b'']), (''b'', [''a''])]) [''a'', ''b''])"
    by (rule crossOpAcyclic_iff) (auto simp: edgeDeps_def split: if_splits option.splits)
  ultimately show ?thesis by blast
qed

subsection \<open>The scheduler's invariant\<close>

lemma fill_eq:
  "fill conc st =
     (let k = (if g_stop st then 0 else conc - length (g_running st)) in
      st\<lparr>g_ready := drop k (g_ready st), g_running := g_running st @ take k (g_ready st)\<rparr>)"
proof (induction conc st rule: fill.induct)
  case (1 conc st)
  show ?case
  proof (cases "g_ready st")
    case Nil
    then show ?thesis by (simp add: fill.simps [of conc st])
  next
    case (Cons i rest)
    show ?thesis
    proof (cases "length (g_running st) < conc \<and> \<not> g_stop st")
      case True
      then obtain k where k: "conc - length (g_running st) = Suc k" by (cases "conc - length (g_running st)") auto
      then have "conc - Suc (length (g_running st)) = k" by simp
      then show ?thesis using 1 [OF Cons True] Cons True k by (simp add: fill.simps [of conc st] Let_def)
    next
      case False
      then show ?thesis using Cons by (auto simp: fill.simps [of conc st])
    qed
  qed
qed

lemma fill_sel [simp]:
  "g_indegree (fill conc st) = g_indegree st" "g_results (fill conc st) = g_results st"
  "g_stop (fill conc st) = g_stop st" "g_firstErr (fill conc st) = g_firstErr st"
  "mset (g_ready (fill conc st)) + mset (g_running (fill conc st)) = mset (g_ready st) + mset (g_running st)"
  "length (g_running st) \<le> conc \<Longrightarrow> length (g_running (fill conc st)) \<le> conc"
proof -
  have "mset (drop k xs) + mset (take k xs) = mset xs" for k and xs :: "string list"
    by (metis append_take_drop_id mset_append union_commute)
  then show "mset (g_ready (fill conc st)) + mset (g_running (fill conc st)) = mset (g_ready st) + mset (g_running st)"
    by (simp add: fill_eq Let_def ac_simps)
qed (auto simp: fill_eq Let_def)

lemma fill_busy: "\<not> g_stop st \<Longrightarrow> length (g_running st) \<le> conc \<Longrightarrow> g_ready (fill conc st) \<noteq> [] \<Longrightarrow>
    length (g_running (fill conc st)) = conc"
  by (auto simp: fill_eq Let_def)

abbreviation taskIds :: "'w task list \<Rightarrow> string list" where
  "taskIds T \<equiv> map tk_id T"

definition wfTasks :: "'w task list \<Rightarrow> bool" where
  "wfTasks T \<longleftrightarrow> distinct (taskIds T) \<and> (\<forall>t \<in> set T. set (tk_deps t) \<subseteq> set (taskIds T))"

text \<open>
  The bound on the tasks in flight; no task twice; everything launched has its dependencies completed
  without error; the results are in dependency order; and while launching goes on, the worklist contract,
  no error so far, and no ready task waits while a slot is free.
\<close>

definition g_inv :: "'w task list \<Rightarrow> nat \<Rightarrow> gstate \<Rightarrow> bool" where
  "g_inv T conc st \<longleftrightarrow>
     length (g_running st) \<le> conc \<and>
     distinct (g_ready st @ g_running st @ g_done st) \<and>
     set (g_ready st @ g_running st @ g_done st) \<subseteq> set (taskIds T) \<and>
     (\<forall>y \<in> set (g_running st) \<union> set (g_done st). \<forall>d \<in> set (depsOf T y). (d, None) \<in> set (g_results st)) \<and>
     topo (depsOf T) (g_done st) \<and>
     (\<not> g_stop st \<longrightarrow>
        kahn_inv (depsOf T) (taskIds T) (g_indegree st) (g_ready st @ g_running st) (g_done st) \<and>
        (\<forall>r \<in> set (g_results st). snd r = None) \<and> g_firstErr st = None \<and>
        (g_ready st \<noteq> [] \<longrightarrow> length (g_running st) = conc))"

lemma depsOf_nonempty: "depsOf T y \<noteq> [] \<Longrightarrow> y \<in> set (taskIds T)"
  by (induction T) (auto simp: depsOf_def split: if_splits)

lemma depsOf_subset: "wfTasks T \<Longrightarrow> set (depsOf T y) \<subseteq> set (taskIds T)"
  by (auto simp: wfTasks_def depsOf_def split: if_splits)

text \<open>What launching needs to know of the state before it.\<close>

lemma g_inv_fill:
  assumes "length (g_running st) \<le> conc" "\<not> g_stop st"
    and k: "kahn_inv (depsOf T) (taskIds T) (g_indegree st) (g_ready st @ g_running st) (g_done st)"
    and ok: "\<forall>r \<in> set (g_results st). snd r = None" "g_firstErr st = None" "topo (depsOf T) (g_done st)"
  shows "g_inv T conc (fill conc st)"
proof -
  let ?f = "fill conc st"
  have perm: "mset (g_ready ?f @ g_running ?f) = mset (g_ready st @ g_running st)" by simp
  have k': "kahn_inv (depsOf T) (taskIds T) (g_indegree ?f) (g_ready ?f @ g_running ?f) (g_done ?f)"
    using kahn_inv_perm [OF k perm [symmetric]] by simp
  then have sets: "distinct ((g_ready ?f @ g_running ?f) @ g_done ?f)"
      "set (g_ready ?f @ g_running ?f) \<union> set (g_done ?f) = {y \<in> set (taskIds T). unmet (depsOf T) (g_done ?f) y = 0}"
    by (simp_all add: kahn_inv_def)
  have "(d, None) \<in> set (g_results ?f)"
    if "y \<in> set (g_running ?f) \<union> set (g_done ?f)" "d \<in> set (depsOf T y)" for y d
  proof -
    have "y \<in> set (g_ready ?f @ g_running ?f) \<union> set (g_done ?f)" using that(1) by auto
    then have "unmet (depsOf T) (g_done ?f) y = 0" unfolding sets(2) by simp
    then have "d \<in> set (g_done ?f)" using that(2) unfolding unmet_0 by blast
    then show ?thesis using ok(1) by force
  qed
  then show ?thesis
    using assms(1,2) k' sets ok fill_busy [OF assms(2,1)] by (auto simp: g_inv_def)
qed

lemma g_inv_init:
  assumes "wfTasks T"
  shows "g_inv T conc (fill conc (initGraph T))"
proof (rule g_inv_fill)
  have "kahn_inv (depsOf T) (taskIds T) (\<lambda>i. int (length (depsOf T i)))
      (filter (\<lambda>i. length (depsOf T i) = 0) (taskIds T)) []"
    using assms depsOf_nonempty by (intro kahn_inv_init) (auto simp: wfTasks_def)
  then show "kahn_inv (depsOf T) (taskIds T) (g_indegree (initGraph T))
      (g_ready (initGraph T) @ g_running (initGraph T)) (g_done (initGraph T))"
    by (auto simp: initGraph_def elim: kahn_inv_perm)
qed (simp_all add: initGraph_def topo_def)

lemma g_inv_stop:
  assumes "g_inv T conc st" "i \<in> set (g_running st)"
  shows "g_inv T conc (st\<lparr>g_running := remove1 i (g_running st), g_results := g_results st @ [(i, e)],
           g_firstErr := fe, g_stop := True\<rparr>)"
proof -
  have i: "\<forall>d \<in> set (depsOf T i). (d, None) \<in> set (g_results st)" "i \<in> set (taskIds T)"
      "distinct (g_running st)" "i \<notin> set (g_done st)" "i \<notin> set (g_ready st)"
    using assms by (auto simp: g_inv_def)
  have "topo (depsOf T) (g_done st @ [i])"
  proof -
    have "set (depsOf T i) \<subseteq> set (g_done st)" using i(1) by force
    then show ?thesis using assms(1) by (auto simp: g_inv_def topo_def nth_append less_Suc_eq)
  qed
  moreover have "length (remove1 i (g_running st)) \<le> conc"
    using assms(1) length_remove1 [of i "g_running st"] by (auto simp: g_inv_def split: if_splits)
  moreover have "distinct (g_ready st @ remove1 i (g_running st) @ g_done st @ [i])"
      "set (g_ready st @ remove1 i (g_running st) @ g_done st @ [i]) \<subseteq> set (taskIds T)"
    using assms i by (auto simp: g_inv_def)
  moreover have "\<forall>y \<in> set (remove1 i (g_running st)) \<union> set (g_done st @ [i]). \<forall>d \<in> set (depsOf T y).
      (d, None) \<in> set (g_results st @ [(i, e)])"
  proof -
    have "y = i \<or> y \<in> set (g_running st) \<union> set (g_done st)"
      if "y \<in> set (remove1 i (g_running st)) \<union> set (g_done st @ [i])" for y
      using that notin_set_remove1 by fastforce
    moreover have "\<forall>y \<in> set (g_running st) \<union> set (g_done st). \<forall>d \<in> set (depsOf T y). (d, None) \<in> set (g_results st)"
      using assms(1) by (simp add: g_inv_def)
    ultimately show ?thesis using i(1) by auto
  qed
  ultimately show ?thesis by (simp add: g_inv_def)
qed

lemma g_inv_onResult:
  assumes "g_inv T conc st" "i \<in> set (g_running st)"
  shows "g_inv T conc (onResult T conc c i e st)"
proof -
  let ?st1 = "st\<lparr>g_running := remove1 i (g_running st), g_results := g_results st @ [(i, e)]\<rparr>"
  show ?thesis
  proof (cases "e = None \<and> \<not> g_stop st \<and> \<not> c")
    case False
    have eq: "onResult T conc c i e st = st\<lparr>g_running := remove1 i (g_running st), g_results := g_results st @ [(i, e)],
        g_firstErr := (case e of None \<Rightarrow> g_firstErr st | Some er \<Rightarrow> (case g_firstErr st of
             None \<Rightarrow> Some (Wrap (''task '' @ goQuote i) er) | Some x \<Rightarrow> Some x)), g_stop := True\<rparr>"
      using False by (auto simp: onResult_def Let_def split: option.splits)
    show ?thesis unfolding eq by (rule g_inv_stop [OF assms])
  next
    case True
    obtain ind rdy where r: "release (dependentsOf T i) (g_indegree st) (g_ready st) = (ind, rdy)"
      by (cases "release (dependentsOf T i) (g_indegree st) (g_ready st)")
    let ?st2 = "?st1\<lparr>g_indegree := ind, g_ready := sort rdy\<rparr>"
    have eq: "onResult T conc c i e st = fill conc ?st2" using True r by (simp add: onResult_def Let_def)
    have k: "kahn_inv (depsOf T) (taskIds T) (g_indegree st) (g_ready st @ g_running st) (g_done st)"
      and ok: "\<forall>r \<in> set (g_results st). snd r = None" "g_firstErr st = None" "topo (depsOf T) (g_done st)"
      using assms(1) True by (auto simp: g_inv_def)
    have av: "i \<in> set (g_ready st @ g_running st)" "i \<notin> set (g_ready st)"
      using assms by (auto simp: g_inv_def)
    obtain new where new: "rdy = g_ready st @ new"
      "kahn_inv (depsOf T) (taskIds T) ind (remove1 i (g_ready st @ g_running st) @ new) (g_done st @ [i])"
      using tg.finish [OF k av(1) r] by blast
    have "mset (remove1 i (g_ready st @ g_running st) @ new) = mset (sort rdy @ remove1 i (g_running st))"
      using new(1) av(2) by (simp add: remove1_append)
    then have k2: "kahn_inv (depsOf T) (taskIds T) (g_indegree ?st2) (g_ready ?st2 @ g_running ?st2) (g_done ?st2)"
      using kahn_inv_perm [OF new(2)] by simp
    have "length (remove1 i (g_running st)) \<le> conc"
      using assms(1) length_remove1 [of i "g_running st"] by (auto simp: g_inv_def split: if_splits)
    then show ?thesis
      unfolding eq using k2 ok True tg.finish_topo [OF k av(1) ok(3)]
      by (intro g_inv_fill) auto
  qed
qed

text \<open>The states of the loop, whatever the tasks return and whenever the context is canceled.\<close>

inductive graph_reach :: "'w task list \<Rightarrow> nat \<Rightarrow> gstate \<Rightarrow> bool" for T conc where
  graph_start: "graph_reach T conc (fill conc (initGraph T))"
| graph_result: "graph_reach T conc st \<Longrightarrow> i \<in> set (g_running st) \<Longrightarrow> graph_reach T conc (onResult T conc c i e st)"

lemma graph_reach_inv: "graph_reach T conc st \<Longrightarrow> wfTasks T \<Longrightarrow> g_inv T conc st"
  by (induction rule: graph_reach.induct) (auto intro: g_inv_init g_inv_onResult)

subsection \<open>Whole runs\<close>

lemma onResult_sel [simp]:
  "g_results (onResult T conc c i e st) = g_results st @ [(i, e)]"
  "g_stop (onResult T conc c i None st) = (g_stop st \<or> c)"
  "g_firstErr (onResult T conc c i None st) = g_firstErr st"
  by (auto simp: onResult_def Let_def split: option.splits prod.splits)

lemma pick_running: "g_running st \<noteq> [] \<Longrightarrow> g_running st ! (k mod length (g_running st)) \<in> set (g_running st)"
  by simp

lemma runLoop_Cons:
  assumes "g_running st \<noteq> []"
  obtains i e w' where "i \<in> set (g_running st)" "runTask T i w = (e, w')"
    "\<forall>rest. runLoop T conc ((k, c) # rest) st w = runLoop T conc rest (onResult T conc c i e st) w'"
proof -
  let ?i = "g_running st ! (k mod length (g_running st))"
  obtain e w' where "runTask T ?i w = (e, w')" by (cases "runTask T ?i w")
  then show ?thesis using that [of ?i e w'] pick_running [OF assms] assms by simp
qed

lemma runLoop_reach: "graph_reach T conc st \<Longrightarrow> graph_reach T conc (fst (runLoop T conc sched st w))"
proof (induction sched arbitrary: st w)
  case (Cons ev sched)
  obtain k c where ev: "ev = (k, c)" by (cases ev)
  show ?case
  proof (cases "g_running st = []")
    case False
    then obtain i e w' where "i \<in> set (g_running st)" "runTask T i w = (e, w')"
      "\<forall>rest. runLoop T conc ((k, c) # rest) st w = runLoop T conc rest (onResult T conc c i e st) w'"
      by (rule runLoop_Cons [of st T w conc k c])
    then show ?thesis using Cons ev by (simp add: graph_result)
  qed (use Cons ev in simp)
qed simp

lemma g_inv_length:
  assumes "g_inv T conc st"
  shows "length (g_ready st) + length (g_running st) + length (g_results st) \<le> length T"
proof -
  let ?xs = "g_ready st @ g_running st @ g_done st"
  have "card (set ?xs) \<le> length (taskIds T)"
    using assms by (meson List.finite_set card_length card_mono g_inv_def le_trans)
  then show ?thesis using assms distinct_card [of ?xs] by (simp add: g_inv_def)
qed

lemma runLoop_ends:
  "g_inv T conc st \<Longrightarrow> length T \<le> length sched + length (g_results st) \<Longrightarrow>
     g_running (fst (runLoop T conc sched st w)) = [] \<and> runLoop T conc (sched @ extra) st w = runLoop T conc sched st w"
proof (induction sched arbitrary: st w)
  case Nil
  then have "g_running st = []" using g_inv_length [OF Nil(1)] by (cases "g_running st") auto
  then show ?case by (cases extra) auto
next
  case (Cons ev sched)
  obtain k c where ev: "ev = (k, c)" by (cases ev)
  show ?case
  proof (cases "g_running st = []")
    case False
    then obtain i e w' where i: "i \<in> set (g_running st)" "runTask T i w = (e, w')"
      "\<forall>rest. runLoop T conc ((k, c) # rest) st w = runLoop T conc rest (onResult T conc c i e st) w'"
      by (rule runLoop_Cons [of st T w conc k c])
    then show ?thesis using Cons.IH [OF g_inv_onResult [OF Cons.prems(1) i(1)], of c e w'] Cons.prems(2) ev by simp
  qed (use ev in simp)
qed

lemma checkDup_None: "checkDup seen T = None \<longleftrightarrow> distinct (taskIds T) \<and> set seen \<inter> set (taskIds T) = {}"
  by (induction seen T rule: checkDup.induct) auto

lemma checkDeps_None: "checkDeps ids T = None \<longleftrightarrow> (\<forall>t \<in> set T. set (tk_deps t) \<subseteq> set ids)"
proof (induction ids T rule: checkDeps.induct)
  case (2 ids t T)
  show ?case
  proof (cases "find (\<lambda>d. d \<notin> set ids) (tk_deps t)")
    case None
    then have "set (tk_deps t) \<subseteq> set ids" by (auto simp: find_None_iff)
    then show ?thesis using 2 None by simp
  next
    case (Some d)
    then have "d \<in> set (tk_deps t)" "d \<notin> set ids" by (auto simp: find_Some_iff)
    then show ?thesis using Some by auto
  qed
qed simp

lemma checks_wf: "checkDup [] T = None \<and> checkDeps (taskIds T) T = None \<longleftrightarrow> wfTasks T"
  by (auto simp: checkDup_None checkDeps_None wfTasks_def)

lemma RunGraph_cases:
  obtains (refused) e where "RunGraph n T c0 sched c1 w = ((Some e, []), w)"
  | (ran) st w' where "wfTasks T" "runLoop T (if n < 1 then 1 else nat n) sched (fill (if n < 1 then 1 else nat n) (initGraph T)) w = (st, w')"
      "RunGraph n T c0 sched c1 w = ((graphOutcome T c1 st, g_results st), w')" "g_inv T (if n < 1 then 1 else nat n) st"
proof (cases "wfTasks T \<and> \<not> c0")
  case True
  let ?c = "if n < 1 then 1 else nat n"
  obtain st w' where r: "runLoop T ?c sched (fill ?c (initGraph T)) w = (st, w')"
    by (cases "runLoop T ?c sched (fill ?c (initGraph T)) w")
  have "g_inv T ?c st"
    using graph_reach_inv [OF runLoop_reach [OF graph_start]] True r by (metis fst_conv)
  then show ?thesis using True r checks_wf [of T] by (intro ran [of st w']) (auto simp: RunGraph_def)
next
  case False
  have "\<exists>e. RunGraph n T c0 sched c1 w = ((Some e, []), w)"
  proof (cases "wfTasks T")
    case True
    then have "c0" "checkDup [] T = None" "checkDeps (taskIds T) T = None" using False checks_wf [of T] by auto
    then show ?thesis by (simp add: RunGraph_def)
  next
    case False
    then show ?thesis using checks_wf [of T] by (auto simp: RunGraph_def Let_def split: option.splits)
  qed
  then show ?thesis using refused by blast
qed

lemma runTask_succeeds:
  "\<forall>t \<in> set T. \<forall>f w. tk_run t = Some f \<longrightarrow> fst (f w) = None \<Longrightarrow> fst (runTask T i w) = None"
proof (cases "find (\<lambda>t. tk_id t = i) T")
  case (Some t)
  assume "\<forall>t \<in> set T. \<forall>f w. tk_run t = Some f \<longrightarrow> fst (f w) = None"
  moreover have "t \<in> set T" using Some by (auto simp: find_Some_iff)
  ultimately show ?thesis using Some by (auto simp: runTask_def split: option.splits)
qed (simp add: runTask_def)

lemma runLoop_succeeds:
  assumes "\<forall>t \<in> set T. \<forall>f w. tk_run t = Some f \<longrightarrow> fst (f w) = None"
  shows "\<not> g_stop st \<Longrightarrow> \<forall>ev \<in> set sched. \<not> snd ev \<Longrightarrow> \<not> g_stop (fst (runLoop T conc sched st w))"
proof (induction sched arbitrary: st w)
  case (Cons ev sched)
  obtain k where ev: "ev = (k, False)" using Cons.prems(2) by (cases ev) auto
  show ?case
  proof (cases "g_running st = []")
    case False
    then obtain i e w' where i: "i \<in> set (g_running st)" "runTask T i w = (e, w')"
      "\<forall>rest. runLoop T conc ((k, False) # rest) st w = runLoop T conc rest (onResult T conc False i e st) w'"
      by (rule runLoop_Cons [of st T w conc k False])
    have "e = None" using runTask_succeeds [OF assms, of i w] i(2) by simp
    then show ?thesis using Cons ev i(3) by simp
  qed (use Cons ev in simp)
qed simp

subsection \<open>Properties of the scheduler\<close>

text \<open>Three tasks, two of them depending on the first, for the examples; the world is the log of the work done.\<close>

definition sampleTasks :: "string list task list" where
  "sampleTasks = map (\<lambda>(i, ds). \<lparr>tk_id = i, tk_deps = ds, tk_run = Some (\<lambda>w. (None, w @ [i]))\<rparr>)
     [(''vm'', []), (''node'', [''vm'']), (''agent'', [''vm'', ''node''])]"

lemma wf_sampleTasks: "wfTasks sampleTasks"
  by (simp add: wfTasks_def sampleTasks_def)

lemma results_in_order:
  assumes "g_inv T conc st" "i < length (g_results st)" "d \<in> set (depsOf T (fst (g_results st ! i)))"
  shows "(d, None) \<in> set (take i (g_results st))"
proof -
  have dist: "distinct (g_done st)" using assms(1) by (simp add: g_inv_def)
  have "fst (g_results st ! i) \<in> set (g_done st)" using assms(2) by auto
  then have ok: "(d, None) \<in> set (g_results st)" using assms(1,3) unfolding g_inv_def by blast
  have "d \<in> set (take i (g_done st))"
    using assms by (auto simp: g_inv_def topo_def)
  then obtain e where e: "(d, e) \<in> set (take i (g_results st))" by (auto simp: take_map)
  then have "(d, e) \<in> set (g_results st)" by (meson in_set_takeD)
  then have "e = None" using ok dist by (metis eq_key_imp_eq_value)
  then show ?thesis using e by simp
qed

lemma RunGraph_ordered:
  assumes "RunGraph n T c0 sched c1 w = ((e, lg), w')"
  shows "distinct (map fst lg) \<and> set (map fst lg) \<subseteq> set (map tk_id T) \<and>
    (\<forall>i < length lg. \<forall>d \<in> set (depsOf T (fst (lg ! i))). (d, None) \<in> set (take i lg))"
proof (cases rule: RunGraph_cases [of n T c0 sched c1 w])
  case (refused e')
  then show ?thesis using assms by simp
next
  case (ran st v)
  then have "lg = g_results st" using assms by simp
  then show ?thesis using ran(4) results_in_order [OF ran(4)] by (auto simp: g_inv_def)
qed

text \<open>
  C5. Order and uniqueness: in any run of \<open>RunGraph\<close>, whatever the tasks return, however their results
  interleave and whenever the context is canceled, every task is run at most once, and when it is, each
  task it depends on has been run before and returned without an error.
\<close>
theorem rungraph_order:
  assumes "RunGraph n T c0 sched c1 w = ((e, lg), w')"
  shows "distinct (map fst lg) \<and> set (map fst lg) \<subseteq> set (map tk_id T) \<and>
    (\<forall>i < length lg. \<forall>d \<in> set (depsOf T (fst (lg ! i))). (d, None) \<in> set (take i lg))"
  by (rule RunGraph_ordered [OF assms])

theorem rungraph_order_witness:
  "\<exists>lg. fst (RunGraph 2 sampleTasks False [(0, False), (0, False), (0, False)] False []) = (None, lg) \<and>
     map fst lg = [''vm'', ''node'', ''agent''] \<and> distinct (map fst lg)"
proof -
  let ?r = "RunGraph 2 sampleTasks False [(0, False), (0, False), (0, False)] False []"
  have e: "?r = ((None, [(''vm'', None), (''node'', None), (''agent'', None)]), [''vm'', ''node'', ''agent''])"
    by code_simp
  from rungraph_order [OF e] e show ?thesis by simp
qed

text \<open>
  Every intermediate state of the scheduler: never more tasks in flight than the bound, none twice
  in flight or re-run, and, as long as no failure or cancellation has stopped launching, no ready task waits
  while a slot is free.
\<close>
theorem rungraph_concurrency:
  assumes "wfTasks T" "graph_reach T conc st"
  shows "length (g_running st) \<le> conc \<and>
    distinct (g_ready st @ g_running st @ map fst (g_results st)) \<and>
    (\<not> g_stop st \<longrightarrow> g_ready st \<noteq> [] \<longrightarrow> length (g_running st) = conc)"
  using graph_reach_inv [OF assms(2,1)] by (simp add: g_inv_def)

theorem rungraph_concurrency_witness:
  "length (g_running (fill 1 (initGraph sampleTasks))) \<le> 1"
  using rungraph_concurrency [OF wf_sampleTasks graph_start [of sampleTasks 1]] by blast

text \<open>
  The result loop ends: after at most as many results as there are tasks nothing is in flight any
  more, and further schedule entries are not looked at.
\<close>
theorem rungraph_terminates:
  assumes "wfTasks T" "length T \<le> length sched"
  shows "g_running (fst (runLoop T conc sched (fill conc (initGraph T)) w)) = [] \<and>
    runLoop T conc (sched @ extra) (fill conc (initGraph T)) w = runLoop T conc sched (fill conc (initGraph T)) w"
  using runLoop_ends [OF g_inv_init [OF assms(1)], of sched conc w extra] assms(2) by (simp add: initGraph_def)

theorem rungraph_terminates_witness:
  "g_running (fst (runLoop sampleTasks 1 [(0, False), (0, False), (0, False)] (fill 1 (initGraph sampleTasks)) [])) = []"
  using rungraph_terminates [OF wf_sampleTasks, of "[(0, False), (0, False), (0, False)]" 1 "[]"]
  by (simp add: sampleTasks_def)

text \<open>A run that has not been stopped has run everything, unless the dependencies have a cycle.\<close>

lemma unstopped_complete:
  assumes "wfTasks T" "runLoop T conc sched (fill conc (initGraph T)) w = (st, v)" "\<not> g_stop st" "length T \<le> length sched"
    and "conc \<noteq> 0"
  shows "(graphOutcome T False st = None \<longleftrightarrow> acyclic (depRel (depsOf T) (map tk_id T))) \<and>
    (acyclic (depRel (depsOf T) (map tk_id T)) \<longrightarrow> mset (g_done st) = mset (map tk_id T))"
proof -
  have inv: "g_inv T conc st" using graph_reach_inv [OF runLoop_reach [OF graph_start] assms(1)] assms(2) by (metis fst_conv)
  have run: "g_running st = []"
    using runLoop_ends [OF g_inv_init [OF assms(1)], of sched conc w "[]"] assms(2,4) by (simp add: initGraph_def)
  then have "g_ready st = []" using inv assms(3,5) by (auto simp: g_inv_def)
  then have k: "kahn_inv (depsOf T) (map tk_id T) (g_indegree st) [] (g_done st)"
    using inv run assms(3) by (simp add: g_inv_def)
  have d: "distinct (g_done st)" "set (g_done st) \<subseteq> set (map tk_id T)" "topo (depsOf T) (g_done st)"
    using inv by (auto simp: g_inv_def)
  have ids: "distinct (map tk_id T)" using assms(1) by (simp add: wfTasks_def)
  have all: "set (g_done st) = set (map tk_id T) \<longleftrightarrow> acyclic (depRel (depsOf T) (map tk_id T))"
    using tg.empty_avail_all [OF k] tg.topo_acyclic [OF d(3,1)] depsOf_subset [OF assms(1)] by blast
  have len: "length (g_results st) < length T \<longleftrightarrow> set (g_done st) \<noteq> set (map tk_id T)"
  proof -
    have "card (set (g_done st)) = length (g_results st)" "card (set (map tk_id T)) = length T"
      using distinct_card [OF d(1)] distinct_card [OF ids] by simp_all
    then show ?thesis using d(2) by (metis List.finite_set card_mono card_subset_eq nat_less_le)
  qed
  have out: "graphOutcome T False st = None \<longleftrightarrow> set (g_done st) = set (map tk_id T)"
    using inv assms(3) len by (simp add: g_inv_def graphOutcome_def)
  have "mset (g_done st) = mset (map tk_id T)" if "set (g_done st) = set (map tk_id T)"
    using that d(1) ids set_eq_iff_mset_eq_distinct by blast
  then show ?thesis using out all by simp
qed

lemma RunGraph_runs_all:
  assumes "wfTasks T" "\<forall>t \<in> set T. \<forall>f w. tk_run t = Some f \<longrightarrow> fst (f w) = None"
    and "\<forall>ev \<in> set sched. \<not> snd ev" "length T \<le> length sched"
  shows "(fst (fst (RunGraph n T False sched False w)) = None \<longleftrightarrow> acyclic (depRel (depsOf T) (map tk_id T))) \<and>
    (acyclic (depRel (depsOf T) (map tk_id T)) \<longrightarrow>
       mset (map fst (snd (fst (RunGraph n T False sched False w)))) = mset (map tk_id T))"
proof -
  let ?c = "if n < 1 then 1 else nat n"
  obtain st v where r: "runLoop T ?c sched (fill ?c (initGraph T)) w = (st, v)"
    by (cases "runLoop T ?c sched (fill ?c (initGraph T)) w")
  have g: "RunGraph n T False sched False w = ((graphOutcome T False st, g_results st), v)"
    using assms(1) r checks_wf [of T] by (simp add: RunGraph_def)
  have "\<not> g_stop st"
    using runLoop_succeeds [OF assms(2), of "fill ?c (initGraph T)" sched ?c w] assms(3) r by (simp add: initGraph_def)
  then show ?thesis using unstopped_complete [OF assms(1) r _ assms(4)] g by simp
qed

text \<open>
  The rule for runs whose tasks depend on what earlier tasks did: if a relation between the tasks done and the
  world is kept by every task whose dependencies are done, and such a task does not fail, the run completes.
\<close>

lemma runLoop_rule:
  assumes step: "\<And>dn w i. J dn w \<Longrightarrow> i \<in> set (taskIds T) \<Longrightarrow> i \<notin> dn \<Longrightarrow> set (depsOf T i) \<subseteq> dn \<Longrightarrow>
      fst (runTask T i w) = None \<and> J (insert i dn) (snd (runTask T i w))"
  shows "g_inv T conc st \<Longrightarrow> \<not> g_stop st \<Longrightarrow> \<forall>ev \<in> set sched. \<not> snd ev \<Longrightarrow> J (set (g_done st)) w \<Longrightarrow>
    runLoop T conc sched st w = (st', w') \<Longrightarrow> \<not> g_stop st' \<and> J (set (g_done st')) w'"
proof (induction sched arbitrary: st w)
  case (Cons ev sched)
  obtain k where ev: "ev = (k, False)" using Cons.prems(3) by (cases ev) auto
  show ?case
  proof (cases "g_running st = []")
    case False
    then obtain i e v where i: "i \<in> set (g_running st)" "runTask T i w = (e, v)"
      "\<forall>rest. runLoop T conc ((k, False) # rest) st w = runLoop T conc rest (onResult T conc False i e st) v"
      by (rule runLoop_Cons [of st T w conc k False])
    note inv = Cons.prems(1) [unfolded g_inv_def]
    have "i \<in> set (taskIds T)" "i \<notin> set (g_done st)" using inv i(1) by auto
    moreover have "set (depsOf T i) \<subseteq> set (g_done st)"
    proof
      fix d assume "d \<in> set (depsOf T i)"
      then have "(d, None) \<in> set (g_results st)" using inv i(1) by blast
      then show "d \<in> set (g_done st)" by force
    qed
    ultimately have s: "e = None" "J (insert i (set (g_done st))) v" using step [OF Cons.prems(4)] i(2) by force+
    let ?st = "onResult T conc False i e st"
    have "\<not> g_stop ?st" "J (set (g_done ?st)) v" using s Cons.prems(2) by simp_all
    moreover have "runLoop T conc sched ?st v = (st', w')" using Cons.prems(5) i(3) ev by simp
    ultimately show ?thesis using Cons.IH [OF g_inv_onResult [OF Cons.prems(1) i(1)]] Cons.prems(3) by simp
  qed (use Cons ev in simp)
qed simp

lemma RunGraph_rule:
  assumes "wfTasks T" "acyclic (depRel (depsOf T) (map tk_id T))"
    and "\<forall>ev \<in> set sched. \<not> snd ev" "length T \<le> length sched" "J {} w"
    and step: "\<And>dn w i. J dn w \<Longrightarrow> i \<in> set (taskIds T) \<Longrightarrow> i \<notin> dn \<Longrightarrow> set (depsOf T i) \<subseteq> dn \<Longrightarrow>
      fst (runTask T i w) = None \<and> J (insert i dn) (snd (runTask T i w))"
  obtains lg w' where "RunGraph n T False sched False w = ((None, lg), w')" "J (set (map tk_id T)) w'" "set (map fst lg) = set (map tk_id T)"
proof -
  let ?c = "if n < 1 then 1 else nat n"
  obtain st v where r: "runLoop T ?c sched (fill ?c (initGraph T)) w = (st, v)"
    by (cases "runLoop T ?c sched (fill ?c (initGraph T)) w")
  have "\<not> g_stop st \<and> J (set (g_done st)) v"
    using runLoop_rule [of J T, OF step g_inv_init [OF assms(1)] _ assms(3) _ r] assms(5) by (simp add: initGraph_def)
  moreover have "RunGraph n T False sched False w = ((graphOutcome T False st, g_results st), v)"
    using assms(1) r checks_wf [of T] by (simp add: RunGraph_def)
  moreover have "graphOutcome T False st = None \<and> mset (g_done st) = mset (map tk_id T)"
    using unstopped_complete [OF assms(1) r _ assms(4)] calculation(1) assms(2) by simp
  ultimately show ?thesis using that [of "g_results st" v] mset_eq_setD [of "g_done st" "map tk_id T"] by metis
qed

text \<open>
  C6. Completeness: when no task fails and the context is not canceled, \<open>RunGraph\<close> on well-formed tasks
  returns without error exactly if the dependencies have no cycle, and then every task has been run exactly
  once.
\<close>
theorem rungraph_complete:
  assumes "wfTasks T" "\<forall>t \<in> set T. \<forall>f w. tk_run t = Some f \<longrightarrow> fst (f w) = None"
    and "\<forall>ev \<in> set sched. \<not> snd ev" "length T \<le> length sched"
  shows "(fst (fst (RunGraph n T False sched False w)) = None \<longleftrightarrow> acyclic (depRel (depsOf T) (map tk_id T))) \<and>
    (acyclic (depRel (depsOf T) (map tk_id T)) \<longrightarrow>
       mset (map fst (snd (fst (RunGraph n T False sched False w)))) = mset (map tk_id T))"
  by (rule RunGraph_runs_all [OF assms])

lemma sampleTasks_acyclic: "acyclic (depRel (depsOf sampleTasks) (map tk_id sampleTasks))"
  by (rule tg.topo_acyclic [of sampleTasks "[''vm'', ''node'', ''agent'']"])
     (auto simp: topo_def sampleTasks_def depsOf_def less_Suc_eq)

theorem rungraph_complete_witness:
  "fst (fst (RunGraph 4 sampleTasks False [(0, False), (5, False), (1, False)] False [])) = None"
proof -
  have "\<forall>t \<in> set sampleTasks. \<forall>f w. tk_run t = Some f \<longrightarrow> fst (f w) = None" by (auto simp: sampleTasks_def)
  then show ?thesis
    using rungraph_complete [OF wf_sampleTasks, of "[(0, False), (5, False), (1, False)]" 4 "[]"] sampleTasks_acyclic
    by (simp add: sampleTasks_def)
qed

end
