(* ===== verification/CrossOp.thy ===== *)
theory CrossOp
  imports Graph
begin

text \<open>
  The edges that internal/controller/operations/crossop.go derives over a batch of operations: they stay
  inside the batch and contain every reference from one operation's spec to the resource another one applies.
\<close>

text \<open>The resource an operation applies, as the scan reads it.\<close>

definition opResource :: "operation \<Rightarrow> resource option" where
  "opResource o1 =
     (if op_type o1 \<noteq> TypeApply \<or> op_manifest o1 = NoDoc then None
      else (case decodeDoc (op_manifest o1) of Inl _ \<Rightarrow> None | Inr r \<Rightarrow> Some r))"

abbreviation resKey :: "resource \<Rightarrow> string" where
  "resKey r \<equiv> resourceKey (r_apiVersion r) (r_kind r) (r_name r)"

lemma crossOpScan_ids:
  assumes "crossOpScan ops a s = Inr (a', s')"
  shows "ran (map_of a') \<subseteq> ran (map_of a) \<union> op_id ` set ops \<and>
    fst ` set s' \<subseteq> fst ` set s \<union> op_id ` set ops \<and> (distinct (map fst s) \<longrightarrow> distinct (map fst s'))"
  using assms
proof (induction ops a s rule: crossOpScan.induct)
  case (2 o1 ops a s)
  show ?case
  proof (cases "op_type o1 \<noteq> TypeApply \<or> op_manifest o1 = NoDoc")
    case True
    then show ?thesis using 2 by auto
  next
    case False
    then obtain r where r: "decodeDoc (op_manifest o1) = Inr r" using 2(3) by (auto split: sum.splits)
    let ?a = "putKey a (resKey r) (op_id o1)" and ?s = "case r_spec r of None \<Rightarrow> s | Some m \<Rightarrow> putKey s (op_id o1) m"
    have c: "crossOpScan ops ?a ?s = Inr (a', s')" using 2(3) False r by simp
    have ih: "ran (map_of a') \<subseteq> ran (map_of ?a) \<union> op_id ` set ops" "fst ` set s' \<subseteq> fst ` set ?s \<union> op_id ` set ops"
        "distinct (map fst ?s) \<longrightarrow> distinct (map fst s')"
      using 2(2) [OF False r c] by (rule conjunct1, metis, metis)
    have step: "ran (map_of ?a) \<subseteq> insert (op_id o1) (ran (map_of a))"
      unfolding map_of_putKey by (auto simp: ran_def)
    have step': "fst ` set ?s \<subseteq> insert (op_id o1) (fst ` set s) \<and> (distinct (map fst s) \<longrightarrow> distinct (map fst ?s))"
      by (cases "r_spec r") (simp_all add: subset_insertI)
    have gen: "X \<subseteq> W \<union> op_id ` set (o1 # ops)" if "X \<subseteq> Y \<union> op_id ` set ops" "Y \<subseteq> insert (op_id o1) W" for X Y W
      using that by auto
    show ?thesis using gen [OF ih(1) step] gen [OF ih(2) conjunct1 [OF step']] ih(3) step' by simp
  qed
qed simp

lemma crossOpScan_applier:
  assumes "crossOpScan ops a s = Inr (a', s')"
    and "\<forall>o1 \<in> set ops. \<forall>r. opResource o1 = Some r \<longrightarrow> resKey r = k \<longrightarrow> op_id o1 = i"
    and "map_of a k = Some i \<or> (\<exists>o1 \<in> set ops. \<exists>r. opResource o1 = Some r \<and> resKey r = k)"
  shows "map_of a' k = Some i"
  using assms
proof (induction ops a s rule: crossOpScan.induct)
  case (2 o1 ops a s)
  show ?case
  proof (cases "op_type o1 \<noteq> TypeApply \<or> op_manifest o1 = NoDoc")
    case True
    then have "opResource o1 = None" by (simp add: opResource_def)
    then show ?thesis using 2(1) [OF True] 2(3-) True by auto
  next
    case False
    then obtain r where r: "decodeDoc (op_manifest o1) = Inr r" using 2(3) by (auto split: sum.splits)
    then have o1: "opResource o1 = Some r" using False by (simp add: opResource_def)
    let ?a = "putKey a (resKey r) (op_id o1)" and ?s = "case r_spec r of None \<Rightarrow> s | Some m \<Rightarrow> putKey s (op_id o1) m"
    have "crossOpScan ops ?a ?s = Inr (a', s')" using 2(3) False r by simp
    moreover have "map_of ?a k = Some i \<or> (\<exists>o1 \<in> set ops. \<exists>r. opResource o1 = Some r \<and> resKey r = k)"
      using 2(4,5) o1 by auto
    ultimately show ?thesis using 2(2) [OF False r] 2(4) by simp
  qed
qed simp

lemma crossOpScan_spec:
  assumes "crossOpScan ops a s = Inr (a', s')" "distinct (map op_id ops)"
    and "map_of s i = Some m \<and> i \<notin> op_id ` set ops \<or>
         (\<exists>o1 \<in> set ops. op_id o1 = i \<and> (\<exists>r. opResource o1 = Some r \<and> r_spec r = Some m))"
  shows "map_of s' i = Some m"
  using assms
proof (induction ops a s rule: crossOpScan.induct)
  case (2 o1 ops a s)
  show ?case
  proof (cases "op_type o1 \<noteq> TypeApply \<or> op_manifest o1 = NoDoc")
    case True
    then have "opResource o1 = None" by (simp add: opResource_def)
    then show ?thesis using 2(1) [OF True] 2(3-) True by auto
  next
    case False
    then obtain r where r: "decodeDoc (op_manifest o1) = Inr r" using 2(3) by (auto split: sum.splits)
    then have o1: "opResource o1 = Some r" using False by (simp add: opResource_def)
    let ?a = "putKey a (resKey r) (op_id o1)" and ?s = "case r_spec r of None \<Rightarrow> s | Some m \<Rightarrow> putKey s (op_id o1) m"
    have c: "crossOpScan ops ?a ?s = Inr (a', s')" using 2(3) False r by simp
    have "map_of ?s i = Some m \<and> i \<notin> op_id ` set ops \<or>
         (\<exists>o1 \<in> set ops. op_id o1 = i \<and> (\<exists>r. opResource o1 = Some r \<and> r_spec r = Some m))"
      using 2(4,5) o1 by (auto split: option.splits)
    then show ?thesis using 2(2) [OF False r c] 2(4) by simp
  qed
qed auto

lemma set_crossOpDeps:
  "set (crossOpDeps a i m) =
     {d. d \<noteq> i \<and> (\<exists>x \<in> set (CollectRefs (Some m)). map_of a (resourceKey (ref_apiVersion x) (ref_kind x) (ref_name x)) = Some d)}"
  by (auto simp: crossOpDeps_def map_filter_set)

lemma crossOpEdges_Inr:
  assumes "crossOpEdges ops = Inr edges"
  obtains a s where "crossOpScan ops [] [] = Inr (a, s)"
    "\<And>i. edgeDeps edges i = (case map_of s i of None \<Rightarrow> [] | Some m \<Rightarrow> crossOpDeps a i m)"
proof -
  obtain a s where s: "crossOpScan ops [] [] = Inr (a, s)"
      "edges = filter (\<lambda>(_, deps). deps \<noteq> []) (map (\<lambda>(i, m). (i, crossOpDeps a i m)) s)"
    using assms by (auto simp: crossOpEdges_def res_simps)
  have "distinct (map fst s)" using crossOpScan_ids [OF s(1)] by simp
  then have "edgeDeps (filter (\<lambda>(_, deps). deps \<noteq> []) (map (\<lambda>(i, m). (i, crossOpDeps a i m)) s)) i =
      (case map_of s i of None \<Rightarrow> [] | Some m \<Rightarrow> crossOpDeps a i m)" for i
  proof (induction s)
    case (Cons p s)
    obtain j m where p: "p = (j, m)" by (cases p)
    have "map_of s j = None" using Cons.prems p by (simp add: map_of_eq_None_iff)
    then show ?case using Cons p by (auto simp: edgeDeps_def split: option.splits)
  qed (simp add: edgeDeps_def)
  then show ?thesis by (intro that [OF s(1)]) (simp only: s(2))
qed

lemma crossOpEdges_confined:
  assumes "crossOpEdges ops = Inr edges"
  shows "edgeDeps edges i \<noteq> [] \<Longrightarrow> i \<in> op_id ` set ops"
    and "set (edgeDeps edges i) \<subseteq> op_id ` set ops - {i}"
proof -
  obtain a s where s: "crossOpScan ops [] [] = Inr (a, s)"
    "edgeDeps edges i = (case map_of s i of None \<Rightarrow> [] | Some m \<Rightarrow> crossOpDeps a i m)"
    using crossOpEdges_Inr [OF assms] by metis
  note b = crossOpScan_ids [OF s(1)]
  show "edgeDeps edges i \<noteq> [] \<Longrightarrow> i \<in> op_id ` set ops"
    using s(2) b by (auto split: option.splits dest: map_of_SomeD)
  have "ran (map_of a) \<subseteq> op_id ` set ops" using b by simp
  then show "set (edgeDeps edges i) \<subseteq> op_id ` set ops - {i}"
    using s(2) by (auto simp: set_crossOpDeps ran_def split: option.splits)
qed

text \<open>
  The edges of a batch are complete and confined: they only join operations of the batch, never an
  operation to itself; and whenever the spec an operation applies references the resource that exactly
  one other operation of the batch applies, the first depends on the second.
\<close>
theorem crossOpEdges_complete:
  assumes "crossOpEdges ops = Inr edges" "distinct (map op_id ops)"
    and "oA \<in> set ops" "opResource oA = Some rA" "oB \<in> set ops" "opResource oB = Some rB" "oA \<noteq> oB"
    and "\<forall>o1 \<in> set ops. \<forall>r. opResource o1 = Some r \<longrightarrow> resKey r = resKey rA \<longrightarrow> o1 = oA"
    and "x \<in> set (CollectRefs (r_spec rB))"
    and "ref_apiVersion x = r_apiVersion rA" "ref_kind x = r_kind rA" "ref_name x = r_name rA"
  shows "op_id oA \<in> set (edgeDeps edges (op_id oB)) \<and>
    (\<forall>i. set (edgeDeps edges i) \<subseteq> op_id ` set ops - {i})"
proof -
  obtain a s where s: "crossOpScan ops [] [] = Inr (a, s)"
    "edgeDeps edges (op_id oB) = (case map_of s (op_id oB) of None \<Rightarrow> [] | Some m \<Rightarrow> crossOpDeps a (op_id oB) m)"
    using crossOpEdges_Inr [OF assms(1)] by metis
  obtain m where m: "r_spec rB = Some m" using assms(9) by (cases "r_spec rB") (auto simp: CollectRefs_def)
  have "map_of s (op_id oB) = Some m"
    using crossOpScan_spec [OF s(1) assms(2)] assms(5,6) m by blast
  moreover have "map_of a (resKey rA) = Some (op_id oA)"
    using crossOpScan_applier [OF s(1), of "resKey rA" "op_id oA"] assms(3,4,8) by blast
  moreover have "op_id oA \<noteq> op_id oB" using assms(2,3,5,7) by (auto simp: distinct_map inj_on_def)
  ultimately have "op_id oA \<in> set (edgeDeps edges (op_id oB))"
    using s(2) m assms(9) by (simp add: set_crossOpDeps) (rule bexI [of _ x], simp_all add: assms(10-12))
  then show ?thesis using crossOpEdges_confined(2) [OF assms(1)] by blast
qed

text \<open>Two operations, the second referencing the resource of the first, for the examples.\<close>

definition sampleRefSpec :: obj where
  "sampleRefSpec = [(''ip'', VObj [(''$ref'', VObj [(''apiVersion'', VStr ''p/v1''), (''kind'', VStr ''VM''),
      (''name'', VStr ''a''), (''field'', VStr ''status.ip'')])])]"

definition sampleBatch :: "operation list" where
  "sampleBatch =
     [(sampleOp ''op-2'' StatusRunning ''t2'')\<lparr>op_manifest := Doc ((bareResource ''p/v1'' ''Node'' ''b'')\<lparr>r_spec := Some sampleRefSpec\<rparr>)\<rparr>,
      (sampleOp ''op-1'' StatusRunning ''t1'')\<lparr>op_manifest := Doc (bareResource ''p/v1'' ''VM'' ''a'')\<rparr>]"

theorem crossOpEdges_complete_witness: "''op-1'' \<in> set (edgeDeps [(''op-2'', [''op-1''])] ''op-2'')"
proof -
  let ?A = "sampleBatch ! 1" and ?B = "sampleBatch ! 0"
  let ?rA = "bareResource ''p/v1'' ''VM'' ''a''" and ?rB = "(bareResource ''p/v1'' ''Node'' ''b'')\<lparr>r_spec := Some sampleRefSpec\<rparr>"
  let ?x = "\<lparr>ref_apiVersion = ''p/v1'', ref_kind = ''VM'', ref_name = ''a'', ref_field = ''status.ip''\<rparr>"
  have e: "crossOpEdges sampleBatch = Inr [(''op-2'', [''op-1''])]" by code_simp
  have d: "distinct (map op_id sampleBatch)" by code_simp
  have mem: "?A \<in> set sampleBatch" "?B \<in> set sampleBatch" by (simp_all add: sampleBatch_def)
  have A: "opResource ?A = Some ?rA" by code_simp
  have B: "opResource ?B = Some ?rB" by code_simp
  have u: "\<forall>o1 \<in> set sampleBatch. \<forall>r. opResource o1 = Some r \<longrightarrow> resKey r = resKey ?rA \<longrightarrow> o1 = ?A"
  proof -
    have "set sampleBatch = {?A, ?B}" by (auto simp: sampleBatch_def)
    moreover have "resKey ?rB \<noteq> resKey ?rA" by code_simp
    ultimately show ?thesis using B by auto
  qed
  have x: "?x \<in> set (CollectRefs (r_spec ?rB))" by code_simp
  have i: "op_id ?A = ''op-1''" "op_id ?B = ''op-2''" by code_simp+
  then have ne: "?A \<noteq> ?B" by auto
  from crossOpEdges_complete [OF e d mem(1) A mem(2) B ne u x] i show ?thesis
    by (simp add: bareResource_def bareMetadata_def)
qed

end
