(* ===== verification/Dispatcher.thy ===== *)
theory Dispatcher
  imports Sink Secrets CrossOp
begin

text \<open>
  internal/controller/operations/dispatcher.go, childop.go and childdispatch.go: executing operations.  An
  apply resolves references, consults the verifying-trace cache, resolves secrets into a copy for the
  provider only, applies, and persists the unresolved manifest; a delete goes to the provider and the store.
  The outcome is recorded on the operation's row.

  Provider calls are functions on the world (a provider may reach the dispatcher again through it, as the
  composite providers do).  Whether a user canceled the running operation is an argument of \<open>execute\<close>.
\<close>

record 'p dispatcher =
  dp_registry :: "'p world registry"
  dp_sink :: "'p sink option"
  dp_secrets :: "secret_registry option"
  dp_retain :: int

subsection \<open>The cache\<close>

definition tryCacheHitInline ::
  "'p dispatcher \<Rightarrow> 'p world provider \<Rightarrow> resource \<Rightarrow> resource \<Rightarrow> 'p world \<Rightarrow> resource option" where
  "tryCacheHitInline dp p raw resolved w =
     (case dp_sink dp of
        None \<Rightarrow> None
      | Some sk \<Rightarrow>
          if pv_plan p \<noteq> None then None
          else if strGet (md_annotations (r_metadata raw)) ''openctl.io/i-know-this-breaks-the-cluster'' = ''true'' then None
          else
            (case sk_loadHashes sk w (r_apiVersion raw) (r_kind raw) (r_name raw) of
               Inl _ \<Rightarrow> None
             | Inr (storedInput, storedRefs) \<Rightarrow>
                 if storedInput = [] then None
                 else if sk_hash sk raw \<noteq> storedInput then None
                 else if storedRefs = [] \<or> sk_hash sk resolved \<noteq> storedRefs then None
                 else (case pv_get p (r_kind resolved) (r_name resolved) w of
                         Inl _ \<Rightarrow> None
                       | Inr result \<Rightarrow> result)))"

subsection \<open>Applying and deleting one manifest\<close>

text \<open>The manifest with its references resolved; secrets are still markers in it.\<close>

definition resolveManifest :: "'p dispatcher \<Rightarrow> resource \<Rightarrow> 'p world \<Rightarrow> err + resource" where
  "resolveManifest dp raw w =
     (case r_spec raw of
        None \<Rightarrow> Inr raw
      | Some m \<Rightarrow> bindE (Refs.Resolve (Some (RegGet (dp_registry dp) w)) (Some m)) (\<lambda>m'.
          Inr (raw\<lparr>r_spec := m'\<rparr>)))"

definition withSecrets :: "'p dispatcher \<Rightarrow> resource \<Rightarrow> err + resource" where
  "withSecrets dp resolved =
     (case (dp_secrets dp, r_spec resolved) of
        (Some reg, Some m) \<Rightarrow>
          if HasSecrets m
          then bindE (wrapErr ''resolve secrets'' (Secrets.Resolve (Some reg) (Some m))) (\<lambda>m'.
                 Inr (resolved\<lparr>r_spec := m'\<rparr>))
          else Inr resolved
      | _ \<Rightarrow> Inr resolved)"

definition ApplyManifest ::
  "'p dispatcher \<Rightarrow> ctx \<Rightarrow> resource \<Rightarrow> 'p world \<Rightarrow> (err + resource option) \<times> 'p world" where
  "ApplyManifest dp c raw w =
     (case For (dp_registry dp) (r_apiVersion raw) of
        Inl e \<Rightarrow> (Inl (Wrap (''no provider for apiVersion '' @ goQuote (r_apiVersion raw)) e), w)
      | Inr p \<Rightarrow>
          (case wrapErr ''resolve refs'' (resolveManifest dp raw w) of
             Inl e \<Rightarrow> (Inl e, w)
           | Inr resolved \<Rightarrow>
               (case tryCacheHitInline dp p raw resolved w of
                  Some cached \<Rightarrow> (Inr (Some cached), w)
                | None \<Rightarrow>
                    (case withSecrets dp resolved of
                       Inl e \<Rightarrow> (Inl e, w)
                     | Inr applied \<Rightarrow>
                         (case pv_apply p applied w of
                            (Inl e, w1) \<Rightarrow> (Inl e, w1)
                          | (Inr result, w1) \<Rightarrow>
                              (case dp_sink dp of
                                 None \<Rightarrow> (Inr result, w1)
                               | Some sk \<Rightarrow> (Inr result, snd (sk_save sk c raw (sk_hash sk resolved) w1))))))))"

definition DeleteManifest :: "'p dispatcher \<Rightarrow> ctx \<Rightarrow> resource \<Rightarrow> 'p world \<Rightarrow> err option \<times> 'p world" where
  "DeleteManifest dp c raw w =
     (case For (dp_registry dp) (r_apiVersion raw) of
        Inl e \<Rightarrow> (Some (Wrap (''no provider for apiVersion '' @ goQuote (r_apiVersion raw)) e), w)
      | Inr p \<Rightarrow>
          (case pv_delete p (r_kind raw) (r_name raw) w of
             (Some e, w1) \<Rightarrow> (Some e, w1)
           | (None, w1) \<Rightarrow>
               (case dp_sink dp of
                  None \<Rightarrow> (None, w1)
                | Some sk \<Rightarrow> (None, snd (sk_delete sk c (r_apiVersion raw) (r_kind raw) (r_name raw) w1)))))"

text \<open>childdispatch.go: what a composite provider gets to see of the dispatcher.\<close>

definition ApplyChild :: "'p dispatcher \<Rightarrow> ctx \<Rightarrow> resource \<Rightarrow> 'p world \<Rightarrow> (err + resource option) \<times> 'p world" where
  "ApplyChild dp c m w = ApplyManifest dp c m w"

definition DeleteChild :: "'p dispatcher \<Rightarrow> ctx \<Rightarrow> resource \<Rightarrow> 'p world \<Rightarrow> err option \<times> 'p world" where
  "DeleteChild dp c m w = DeleteManifest dp c m w"

subsection \<open>Executing an operation\<close>

text \<open>The clock, the identifier source and the failures of the calls one execution makes.\<close>

record exec_env =
  ee_io :: io
  ee_now :: string
  ee_canceled :: bool

definition terminalOutcome :: "bool \<Rightarrow> err \<Rightarrow> string \<times> string" where
  "terminalOutcome canceled e =
     (if canceled then (StatusCancelled, ''canceled by user while running'') else (StatusFailed, errText e))"

definition completeOp ::
  "'p dispatcher \<Rightarrow> exec_env \<Rightarrow> string \<Rightarrow> string \<Rightarrow> string \<Rightarrow> doc \<Rightarrow> 'p world \<Rightarrow> 'p world" where
  "completeOp dp ee i st msg res w =
     setDb (snd (Complete (ee_io ee) (ee_now ee) (dp_retain dp) i st msg res (w_db w))) w"

definition labelOp :: "exec_env \<Rightarrow> string \<Rightarrow> string \<Rightarrow> 'p world \<Rightarrow> 'p world" where
  "labelOp ee i label w =
     (case SetLabel (ee_io ee 3) i label (w_db w) of Inl _ \<Rightarrow> w | Inr d \<Rightarrow> setDb d w)"

definition executeApply :: "'p dispatcher \<Rightarrow> exec_env \<Rightarrow> 'p world provider \<Rightarrow> operation \<Rightarrow> 'p world \<Rightarrow> 'p world" where
  "executeApply dp ee p o1 w =
     (case decodeDoc (op_manifest o1) of
        Inl e \<Rightarrow> completeOp dp ee (op_id o1) StatusFailed (''decode manifest: '' @ errText e) NoDoc w
      | Inr raw \<Rightarrow>
          (let c = (if dp_sink dp = None then None else WithSource None (op_source o1));
               hit = (if dp_sink dp = None \<or> r_spec raw = None then None
                      else (case resolveManifest dp raw w of
                              Inl _ \<Rightarrow> None
                            | Inr resolved \<Rightarrow> tryCacheHitInline dp p raw resolved w))
           in case hit of
                Some cached \<Rightarrow>
                  completeOp dp ee (op_id o1) StatusSucceeded [] (Doc cached)
                    (labelOp ee (op_id o1) ''cached: input+refs hashes unchanged since last apply'' w)
              | None \<Rightarrow>
                  (case ApplyManifest dp c raw w of
                     (Inl e, w1) \<Rightarrow>
                       (case terminalOutcome (ee_canceled ee) e of
                          (st, msg) \<Rightarrow> completeOp dp ee (op_id o1) st msg NoDoc w1)
                   | (Inr result, w1) \<Rightarrow>
                       completeOp dp ee (op_id o1) StatusSucceeded []
                         (case result of None \<Rightarrow> NoDoc | Some r \<Rightarrow> Doc r) w1)))"

definition executeDelete :: "'p dispatcher \<Rightarrow> exec_env \<Rightarrow> 'p world provider \<Rightarrow> operation \<Rightarrow> 'p world \<Rightarrow> 'p world" where
  "executeDelete dp ee p o1 w =
     (case pv_delete p (op_kind o1) (op_name o1) w of
        (Some e, w1) \<Rightarrow>
          (case terminalOutcome (ee_canceled ee) e of
             (st, msg) \<Rightarrow> completeOp dp ee (op_id o1) st msg NoDoc w1)
      | (None, w1) \<Rightarrow>
          (let w2 = (case dp_sink dp of
                       None \<Rightarrow> w1
                     | Some sk \<Rightarrow> snd (sk_delete sk (WithSource None (op_source o1))
                                     (op_apiVersion o1) (op_kind o1) (op_name o1) w1))
           in completeOp dp ee (op_id o1) StatusSucceeded [] NoDoc w2))"

definition execute :: "'p dispatcher \<Rightarrow> exec_env \<Rightarrow> operation \<Rightarrow> 'p world \<Rightarrow> 'p world" where
  "execute dp ee o1 w =
     (case For (dp_registry dp) (op_apiVersion o1) of
        Inl e \<Rightarrow> completeOp dp ee (op_id o1) StatusFailed (errText e) NoDoc w
      | Inr p \<Rightarrow>
          if op_type o1 = TypeApply then executeApply dp ee p o1 w
          else if op_type o1 = TypeDelete then executeDelete dp ee p o1 w
          else completeOp dp ee (op_id o1) StatusFailed (''unknown op type '' @ goQuote (op_type o1)) NoDoc w)"

subsection \<open>Running and canceled operations\<close>

text \<open>The two maps under \<^verbatim>\<open>runMu\<close>: registered on entry to \<open>execute\<close>, dropped on return.\<close>

record run_table =
  rt_running :: "string list"
  rt_userCancelled :: "string list"

definition beginRun :: "string \<Rightarrow> run_table \<Rightarrow> run_table" where
  "beginRun i rt = rt\<lparr>rt_running := List.insert i (rt_running rt)\<rparr>"

definition endRun :: "string \<Rightarrow> run_table \<Rightarrow> run_table" where
  "endRun i rt = rt\<lparr>rt_running := removeAll i (rt_running rt), rt_userCancelled := removeAll i (rt_userCancelled rt)\<rparr>"

definition CancelRunning :: "string \<Rightarrow> run_table \<Rightarrow> bool \<times> run_table" where
  "CancelRunning i rt =
     (if i \<in> set (rt_running rt) then (True, rt\<lparr>rt_userCancelled := List.insert i (rt_userCancelled rt)\<rparr>)
      else (False, rt))"

subsection \<open>Draining the queue\<close>

text \<open>
  One environment per claim, consumed in order: the claim uses the first four of its failures, the
  execution a second environment.
\<close>

fun drain :: "'p dispatcher \<Rightarrow> (exec_env \<times> exec_env) list \<Rightarrow> 'p world \<Rightarrow> 'p world" where
  "drain dp [] w = w"
| "drain dp ((ce, ee) # es) w =
     (case ClaimNextPending (ee_io ce) (ee_now ce) (w_db w) of
        Inl _ \<Rightarrow> w
      | Inr (o1, d) \<Rightarrow> drain dp es (execute dp ee o1 (setDb d w)))"

fun claimBatch :: "exec_env list \<Rightarrow> db \<Rightarrow> operation list \<times> db" where
  "claimBatch [] d = ([], d)"
| "claimBatch (ce # es) d =
     (case ClaimNextPending (ee_io ce) (ee_now ce) d of
        Inl _ \<Rightarrow> ([], d)
      | Inr (o1, d') \<Rightarrow> (case claimBatch es d' of (batch, d'') \<Rightarrow> (o1 # batch, d'')))"

definition batchEdges :: "operation list \<Rightarrow> (string \<times> string list) list" where
  "batchEdges batch =
     (case crossOpEdges batch of
        Inl _ \<Rightarrow> []
      | Inr edges \<Rightarrow> if crossOpAcyclic (map op_id batch) edges then edges else [])"

fun setLabels :: "exec_env \<Rightarrow> (string \<times> string) list \<Rightarrow> 'p world \<Rightarrow> 'p world" where
  "setLabels ee [] w = w"
| "setLabels ee ((i, l) # ls) w = setLabels ee ls (labelOp ee i l w)"

definition batchTasks ::
  "'p dispatcher \<Rightarrow> (string \<Rightarrow> exec_env) \<Rightarrow> operation list \<Rightarrow> (string \<times> string list) list \<Rightarrow> 'p world task list" where
  "batchTasks dp ees batch edges =
     map (\<lambda>o1. \<lparr>tk_id = op_id o1, tk_deps = edgeDeps edges (op_id o1),
                tk_run = Some (\<lambda>w. (None, execute dp (ees (op_id o1)) o1 w))\<rparr>) batch"

text \<open>
  \<open>ces\<close>: the claims; \<open>ees\<close>: the environment of each operation's execution; \<open>sched\<close>: the order in which
  executions finish (with the context's state), \<open>c0\<close> and \<open>c1\<close> the context before and after.
\<close>

definition drainScheduled ::
  "'p dispatcher \<Rightarrow> int \<Rightarrow> exec_env list \<Rightarrow> (string \<Rightarrow> exec_env) \<Rightarrow> exec_env \<Rightarrow> bool \<Rightarrow> (nat \<times> bool) list \<Rightarrow> bool
     \<Rightarrow> 'p world \<Rightarrow> (string \<times> err option) list \<times> 'p world" where
  "drainScheduled dp concurrency ces ees le c0 sched c1 w =
     (case claimBatch ces (w_db w) of
        (batch, d) \<Rightarrow>
          if batch = [] then ([], setDb d w)
          else
            (let edges = batchEdges batch;
                 w1 = setLabels le (crossOpDependencyLabels batch edges) (setDb d w)
             in case RunGraph concurrency (batchTasks dp ees batch edges) c0 sched c1 w1 of
                  ((_, results), w2) \<Rightarrow> (results, w2)))"

subsection \<open>Child operations (childop.go)\<close>

text \<open>
  A recorder is a pair of functions on the database.  The bound recorder fills in the parent, the no-op
  recorder does nothing.
\<close>

record recorder =
  rc_begin :: "operation \<Rightarrow> db \<Rightarrow> err + string \<times> db"
  rc_end :: "string \<Rightarrow> bool \<Rightarrow> string \<Rightarrow> doc \<Rightarrow> db \<Rightarrow> err + db"

definition StoreRecorder :: "string option \<Rightarrow> string \<Rightarrow> string \<Rightarrow> recorder" where
  "StoreRecorder f now newid =
     \<lparr>rc_begin = (\<lambda>o1 d. bindE (BeginChild f now newid (op_parent o1) o1 d) (\<lambda>(x, d'). Inr (op_id x, d'))),
      rc_end = (\<lambda>i ok msg res d. EndChild f now i (if ok then StatusSucceeded else StatusFailed) msg res d)\<rparr>"

definition boundRecorder :: "recorder \<Rightarrow> string \<Rightarrow> recorder" where
  "boundRecorder r parentID =
     \<lparr>rc_begin = (\<lambda>o1 d. rc_begin r (o1\<lparr>op_parent := parentID\<rparr>) d),
      rc_end = (\<lambda>i ok msg res d. rc_end r i ok msg res d)\<rparr>"

definition noopRecorder :: recorder where
  "noopRecorder = \<lparr>rc_begin = (\<lambda>_ d. Inr ([], d)), rc_end = (\<lambda>_ _ _ _ d. Inr d)\<rparr>"

text \<open>\<open>WithRecorder\<close> and \<open>RecorderFrom\<close>: the recorder a context carries, if any.\<close>

definition WithRecorder :: "recorder option \<Rightarrow> recorder \<Rightarrow> string \<Rightarrow> recorder option" where
  "WithRecorder c r parentID = Some (boundRecorder r parentID)"

definition RecorderFrom :: "recorder option \<Rightarrow> recorder" where
  "RecorderFrom c = (case c of Some r \<Rightarrow> r | None \<Rightarrow> noopRecorder)"

subsection \<open>Lemmas\<close>

lemma tryCacheHitInline_Some:
  "tryCacheHitInline dp p raw resolved w = Some r \<longleftrightarrow>
     (\<exists>sk i h. dp_sink dp = Some sk \<and> pv_plan p = None \<and>
        strGet (md_annotations (r_metadata raw)) ''openctl.io/i-know-this-breaks-the-cluster'' \<noteq> ''true'' \<and>
        sk_loadHashes sk w (r_apiVersion raw) (r_kind raw) (r_name raw) = Inr (i, h) \<and> i \<noteq> [] \<and> sk_hash sk raw = i \<and>
        h \<noteq> [] \<and> sk_hash sk resolved = h \<and> pv_get p (r_kind resolved) (r_name resolved) w = Inr (Some r))"
  by (auto simp: tryCacheHitInline_def split: option.splits sum.splits if_splits)

lemma resolveManifest_fields:
  "resolveManifest dp raw w = Inr x \<Longrightarrow> r_apiVersion x = r_apiVersion raw \<and> r_kind x = r_kind raw \<and>
     r_metadata x = r_metadata raw \<and> r_status x = r_status raw"
  by (auto simp: resolveManifest_def res_simps split: option.splits)

text \<open>The terminal write: whatever happened before, on an intact database no row of the operation is in flight.\<close>

lemma Complete_rows:
  assumes "io 0 = None" "st \<in> {StatusSucceeded, StatusFailed, StatusCancelled}"
  shows "\<exists>P. snd (Complete io now retain i st msg res d) =
      (let d' = updateOps (\<lambda>x. op_id x = i) (terminate_row now st msg res) d in d'\<lparr>db_ops := filter P (db_ops d')\<rparr>)"
proof -
  let ?d = "updateOps (\<lambda>x. op_id x = i) (terminate_row now st msg res) d"
  have id: "?d = ?d\<lparr>db_ops := filter (\<lambda>_. True) (db_ops ?d)\<rparr>" by simp
  have c: "Complete io now retain i st msg res d =
      (if retain > 0 then
         (case Get (io 1) ?d i of Inl _ \<Rightarrow> (None, ?d)
          | Inr o1 \<Rightarrow> (case gcResource (io 2) retain ?d (op_apiVersion o1) (op_kind o1) (op_name o1) of
               Inl _ \<Rightarrow> (None, ?d) | Inr d'' \<Rightarrow> (None, d'')))
       else (None, ?d))"
    using assms by (auto simp: Complete_def Let_def)
  show ?thesis
  proof (cases "retain > 0 \<and> isOk (Get (io 1) ?d i)")
    case True
    then obtain o1 where g: "Get (io 1) ?d i = Inr o1" by (auto simp: isOk_iff)
    show ?thesis
    proof (cases "gcResource (io 2) retain ?d (op_apiVersion o1) (op_kind o1) (op_name o1)")
      case (Inl e)
      then show ?thesis using c g True id unfolding Let_def by (intro exI [of _ "\<lambda>_. True"]) simp
    next
      case (Inr d'')
      then show ?thesis using c g True gcResource_rows [OF Inr] unfolding Let_def by auto
    qed
  next
    case False
    then show ?thesis using c id unfolding Let_def
      by (intro exI [of _ "\<lambda>_. True"]) (auto simp: isOk_def split: sum.splits)
  qed
qed

lemma completeOp_terminal:
  assumes "ee_io ee 0 = None" "st \<in> {StatusSucceeded, StatusFailed, StatusCancelled}"
    and "x \<in> set (db_ops (w_db (completeOp dp ee i st msg res w)))" "op_id x = i"
  shows "op_status x = st"
proof -
  obtain P where "snd (Complete (ee_io ee) (ee_now ee) (dp_retain dp) i st msg res (w_db w)) =
      (let d' = updateOps (\<lambda>x. op_id x = i) (terminate_row (ee_now ee) st msg res) (w_db w)
       in d'\<lparr>db_ops := filter P (db_ops d')\<rparr>)"
    using Complete_rows [of "ee_io ee", OF assms(1,2)] by blast
  then have "db_ops (w_db (completeOp dp ee i st msg res w)) =
      filter P (map (\<lambda>x. if op_id x = i then terminate_row (ee_now ee) st msg res x else x) (db_ops (w_db w)))"
    by (simp only: completeOp_def Let_def onDb_sel db_ops_updateOps) simp
  with assms(3) have "x \<in> (\<lambda>x. if op_id x = i then terminate_row (ee_now ee) st msg res x else x) ` set (db_ops (w_db w))"
    unfolding set_filter set_map by (metis (no_types, lifting) filter_is_subset set_map subsetD)
  then obtain y where "x = (if op_id y = i then terminate_row (ee_now ee) st msg res y else y)" by (rule imageE)
  then show ?thesis using assms(4) by (simp split: if_splits)
qed

text \<open>Every path of \<open>execute\<close> ends in the terminal write of the operation.\<close>

definition endsIn :: "'p dispatcher \<Rightarrow> exec_env \<Rightarrow> string \<Rightarrow> 'p world \<Rightarrow> bool" where
  "endsIn dp ee i v \<longleftrightarrow> (\<exists>st msg res w'. v = completeOp dp ee i st msg res w' \<and>
     st \<in> {StatusSucceeded, StatusFailed, StatusCancelled} \<and> (st = StatusCancelled \<longrightarrow> ee_canceled ee))"

lemma endsInI:
  "st \<in> {StatusSucceeded, StatusFailed, StatusCancelled} \<Longrightarrow> (st = StatusCancelled \<Longrightarrow> ee_canceled ee) \<Longrightarrow>
     endsIn dp ee i (completeOp dp ee i st msg res w)"
  unfolding endsIn_def by blast

lemma endsIn_fixed [intro]:
  "endsIn dp ee i (completeOp dp ee i StatusSucceeded msg res w)"
  "endsIn dp ee i (completeOp dp ee i StatusFailed msg res w)"
  by (rule endsInI; simp)+

lemma endsIn_outcome:
  "endsIn dp ee i (case terminalOutcome (ee_canceled ee) e of (st, msg) \<Rightarrow> completeOp dp ee i st msg res w)"
  by (cases "ee_canceled ee") (auto simp: terminalOutcome_def intro: endsInI)

lemma execute_ends: "endsIn dp ee (op_id o1) (execute dp ee o1 w)"
proof -
  have a: "endsIn dp ee (op_id o1) (executeApply dp ee p o1 w)" for p
    unfolding executeApply_def Let_def
    by (split sum.split option.split prod.split; intro conjI allI impI endsIn_fixed endsIn_outcome)+
  have d: "endsIn dp ee (op_id o1) (executeDelete dp ee p o1 w)" for p
    unfolding executeDelete_def Let_def
    by (split option.split prod.split; intro conjI allI impI endsIn_fixed endsIn_outcome)+
  show ?thesis unfolding execute_def using a d by (auto split: sum.split)
qed

subsection \<open>Properties\<close>

text \<open>
  C3. Every executed operation ends: whatever the registry, the provider, the sink and the secrets do, when
  the terminal write reaches the database the operation's row, unless retention has removed it, is
  succeeded, failed or canceled, and canceled only if the user asked for it.
\<close>
theorem executed_op_terminal:
  assumes "ee_io ee 0 = None" "x \<in> set (db_ops (w_db (execute dp ee o1 w)))" "op_id x = op_id o1"
  shows "op_status x \<in> {StatusSucceeded, StatusFailed, StatusCancelled} \<and> IsTerminal x \<and>
    (op_status x = StatusCancelled \<longrightarrow> ee_canceled ee)"
proof -
  obtain st msg res w' where e: "execute dp ee o1 w = completeOp dp ee (op_id o1) st msg res w'"
      "st \<in> {StatusSucceeded, StatusFailed, StatusCancelled}" "st = StatusCancelled \<longrightarrow> ee_canceled ee"
    using execute_ends unfolding endsIn_def by blast
  have "op_status x = st" using completeOp_terminal [of ee, OF assms(1) e(2)] assms(2,3) e(1) by simp
  then show ?thesis using e(2,3) by (auto simp: IsTerminal_def isTerminalStatus_def)
qed

text \<open>A dispatcher with one provider that applies by echoing the manifest, for the examples.\<close>

definition echoProvider :: "string \<Rightarrow> 'p world provider" where
  "echoProvider n = \<lparr>pv_name = n, pv_kinds = [''VM''],
     pv_apply = (\<lambda>r w. (Inr (Some r), w)), pv_get = (\<lambda>k nm w. Inr (Some (bareResource (n @ ''.openctl.io/v1'') k nm))),
     pv_list = (\<lambda>k w. Inr []), pv_delete = (\<lambda>k n w. (None, w)), pv_ownerOf = None, pv_childrenOf = None,
     pv_observedOnly = None, pv_driftSpecs = None, pv_plan = None, pv_advanced = None, pv_actioner = None\<rparr>"

definition sampleEnv :: mirror_env where
  "sampleEnv = \<lparr>me_root = ''/m'', me_marshal = (\<lambda>r. Inr (r_name r)), me_unmarshal = (\<lambda>s. Inl (Plain ''?'')),
     me_hook = None, me_digest = (\<lambda>j. ''h'')\<rparr>"

definition sampleDispatcher :: "unit dispatcher" where
  "sampleDispatcher = \<lparr>dp_registry = [(''p'', echoProvider ''p'')],
     dp_sink = Some (mirrorSink (\<lambda>_. None) (\<lambda>_. None) sampleEnv ''t''), dp_secrets = None, dp_retain = 3\<rparr>"

definition sampleWorld :: "operation list \<Rightarrow> unit world" where
  "sampleWorld ops = \<lparr>w_mirror = \<lparr>mi_db = sampleDb ops, mi_fs = []\<rparr>, w_plat = ()\<rparr>"

definition sampleExec :: exec_env where
  "sampleExec = \<lparr>ee_io = (\<lambda>_. None), ee_now = ''t9'', ee_canceled = False\<rparr>"

definition sampleManifest :: resource where
  "sampleManifest = (bareResource ''p.openctl.io/v1'' ''VM'' ''a'')\<lparr>r_spec := Some [(''cpu'', VFloat 2)]\<rparr>"

definition sampleApply :: operation where
  "sampleApply = (sampleOp ''op-1'' StatusRunning ''t1'')\<lparr>op_apiVersion := ''p.openctl.io/v1'', op_kind := ''VM'',
     op_name := ''a'', op_manifest := Doc sampleManifest\<rparr>"

theorem executed_op_terminal_witness:
  "\<exists>x \<in> set (db_ops (w_db (execute sampleDispatcher sampleExec sampleApply (sampleWorld [sampleApply])))). IsTerminal x"
proof -
  let ?w = "execute sampleDispatcher sampleExec sampleApply (sampleWorld [sampleApply])"
  have "map op_id (db_ops (w_db ?w)) = [''op-1'']" by code_simp
  then obtain x where x: "x \<in> set (db_ops (w_db ?w))" "op_id x = ''op-1''" by auto
  have ok: "ee_io sampleExec 0 = None" by code_simp
  have "op_id sampleApply = ''op-1''" by code_simp
  with x(2) have i: "op_id x = op_id sampleApply" by simp
  from executed_op_terminal [of sampleExec, OF ok x(1) i] x(1) show ?thesis by blast
qed



text \<open>
  C16. Idempotence through the cache: after an apply that missed the cache, reached the provider and was
  saved, applying the same manifest again, with its references resolving to the same values and the provider
  still reporting the resource, returns what the provider reports, without calling the provider's apply and
  without changing the world.
\<close>
theorem reapply_is_cached:
  fixes dp :: "'p dispatcher" and sk :: "'p sink"
  assumes "sk = mirrorSink io dio env now" "dp_sink dp = Some sk"
    and "For (dp_registry dp) (r_apiVersion raw) = Inr p" "pv_plan p = None"
    and "strGet (md_annotations (r_metadata raw)) ''openctl.io/i-know-this-breaks-the-cluster'' \<noteq> ''true''"
    and "resolveManifest dp raw w = Inr x" "tryCacheHitInline dp p raw x w = None" "withSecrets dp x = Inr a"
    and "pv_apply p a w = (Inr res, w1)" "sk_save sk c raw (sk_hash sk x) w1 = (None, w')"
    and "sk_hash sk raw \<noteq> []" "sk_hash sk x \<noteq> []"
    and "resolveManifest dp raw w' = Inr x" "pv_get p (r_kind raw) (r_name raw) w' = Inr (Some obs)"
    and "dp' = dp\<lparr>dp_sink := Some (mirrorSink (\<lambda>_. None) dio' env now')\<rparr>"
  shows "ApplyManifest dp c raw w = (Inr res, w') \<and> ApplyManifest dp' c' raw w' = (Inr (Some obs), w')"
proof
  show "ApplyManifest dp c raw w = (Inr res, w')" using assms(2-10) by (simp add: ApplyManifest_def)
  have hash: "sk_hash (mirrorSink io0 dio0 env now0 :: 'p sink) r = Hash (me_digest env) (Some r)" for io0 dio0 now0 r
    by (simp add: mirrorSink_def)
  have on_file: "hashesOf (w_db w') (keyOf raw) = (Hash (me_digest env) (Some raw), Hash (me_digest env) (Some x))"
    using ms.save_ok [of "(io, dio, now)" env c raw] assms(10) hash by (simp add: assms(1))
  have "sk_loadHashes (mirrorSink (\<lambda>_. None) dio' env now' :: 'p sink) w' (r_apiVersion raw) (r_kind raw) (r_name raw)
      = Inr (Hash (me_digest env) (Some raw), Hash (me_digest env) (Some x))"
    using on_file by (simp add: mirrorSink_def res_simps keyOf_def)
  moreover have "r_kind x = r_kind raw" "r_name x = r_name raw"
    using resolveManifest_fields [OF assms(6)] by simp_all
  ultimately have hit: "tryCacheHitInline dp' p raw x w' = Some obs"
    using assms(4,5,11,12,14,15) hash by (simp add: tryCacheHitInline_Some assms(1))
  have "resolveManifest dp' raw w' = Inr x" using assms(13,15) by (cases "r_spec raw") (simp_all add: resolveManifest_def)
  then show "ApplyManifest dp' c' raw w' = (Inr (Some obs), w')" using hit assms(3,15) by (simp add: ApplyManifest_def)
qed

theorem reapply_is_cached_witness:
  "ApplyManifest sampleDispatcher None sampleManifest
     (snd (ApplyManifest sampleDispatcher None sampleManifest (sampleWorld []))) =
   (Inr (Some (bareResource ''p.openctl.io/v1'' ''VM'' ''a'')),
    snd (ApplyManifest sampleDispatcher None sampleManifest (sampleWorld [])))"
proof -
  let ?sk = "mirrorSink (\<lambda>_. None) (\<lambda>_. None) sampleEnv ''t'' :: unit sink"
  let ?w' = "snd (sk_save ?sk None sampleManifest (sk_hash ?sk sampleManifest) (sampleWorld []))"
  have env: "me_hook sampleEnv = None" by code_simp
  have "ApplyManifest sampleDispatcher None sampleManifest (sampleWorld []) = (Inr (Some sampleManifest), ?w') \<and>
      ApplyManifest sampleDispatcher None sampleManifest ?w' =
        (Inr (Some (bareResource ''p.openctl.io/v1'' ''VM'' ''a'')), ?w')"
  proof (rule reapply_is_cached [where sk = ?sk and io = "\<lambda>_. None" and dio = "\<lambda>_. None" and env = sampleEnv and now = "''t''"
        and p = "echoProvider ''p''" and x = sampleManifest and a = sampleManifest and ?w1.0 = "sampleWorld []"
        and dio' = "\<lambda>_. None" and now' = "''t''"])
    show "For (dp_registry sampleDispatcher) (r_apiVersion sampleManifest) = Inr (echoProvider ''p'')"
      using providerName_of_apiVersion [of "''p''" "''v1''"]
      by (simp add: sampleDispatcher_def For_def sampleManifest_def bareResource_def)
    show "dp_sink sampleDispatcher = Some ?sk" "sampleDispatcher = sampleDispatcher\<lparr>dp_sink := Some ?sk\<rparr>"
      by (simp_all add: sampleDispatcher_def)
  qed (rule refl, code_simp+)
  then show ?thesis by simp
qed

text \<open>
  A cache hit is never stale with respect to intent: when the desired state has been written only
  through the sink, a hit on a manifest means that a manifest with the same identity, the same apply input
  (up to digest collisions and empty maps) and the same resolved references has been saved.
\<close>
theorem cache_hit_sound:
  fixes dp :: "'p dispatcher" and w0 :: "'p world"
  assumes "dp_sink dp = Some (mirrorSink io dio env now)" "db_applied (w_db w0) = []"
    and "tryCacheHitInline dp p raw resolved
           (sinkRun (\<lambda>i. mirrorSink (fst i) (fst (snd i)) env (snd (snd i))) evs w0) = Some r"
    and "wfInput raw" "noEmptyMap_kvs (specObj raw)"
    and "\<forall>i c m h. (i, SaveEv c m h) \<in> set evs \<longrightarrow> wfInput m \<and> noEmptyMap_kvs (specObj m) \<and>
           (me_digest env (hashInput m) = me_digest env (hashInput raw) \<longrightarrow> hashInput m = hashInput raw)"
  shows "\<exists>i c m. (i, SaveEv c m (Hash (me_digest env) (Some resolved))) \<in> set evs \<and> sameIntent m raw"
proof -
  let ?w = "sinkRun (\<lambda>i. mirrorSink (fst i) (fst (snd i)) env (snd (snd i))) evs w0"
  let ?sk = "mirrorSink io dio env now :: 'p sink"
  have "sk_hash ?sk y = Hash (me_digest env) (Some y)" for y by (simp add: mirrorSink_def)
  then obtain a b where l: "sk_loadHashes ?sk ?w (r_apiVersion raw) (r_kind raw) (r_name raw) = Inr (a, b)"
      "a \<noteq> []" and h: "a = Hash (me_digest env) (Some raw)" "b = Hash (me_digest env) (Some resolved)"
    using assms(3) unfolding tryCacheHitInline_Some assms(1) by auto
  have on: "hashesOf (w_db ?w) (keyOf raw) = (a, b)"
    using ms.load [of "(io, dio, now)" env ?w] l(1) by (simp add: keyOf_def)
  have "hashesOf (w_db w0) (keyOf raw) = ([], [])" using assms(2) by (simp add: hashesOf_def findRow_def)
  then obtain i c m where m: "(i, SaveEv c m b) \<in> set evs" "Hash (me_digest env) (Some m) = a"
    using ms.hashes_traceable [OF on] l(2) by auto
  have "me_digest env (hashInput m) = me_digest env (hashInput raw)" using m(2) h(1) by (simp add: Hash_def)
  then have eq: "hashInput m = hashInput raw" using assms(6) m(1) by blast
  have "sameIntent m raw"
    using hashInput_eq [of m raw] eq assms(4-6) m(1) by blast
  then show ?thesis using m(1) h(2) by blast
qed

theorem cache_hit_sound_witness:
  "sameIntent sampleManifest sampleManifest"
proof -
  let ?evs = "[((\<lambda>_. None, \<lambda>_. None, ''t''), SaveEv None sampleManifest (Hash (me_digest sampleEnv) (Some sampleManifest)))]
     :: ((io \<times> io \<times> string) \<times> sink_event) list"
  let ?w = "sinkRun (\<lambda>i. mirrorSink (fst i) (fst (snd i)) sampleEnv (snd (snd i))) ?evs (sampleWorld [])"
  have hit: "tryCacheHitInline sampleDispatcher (echoProvider ''p'') sampleManifest sampleManifest ?w =
      Some (bareResource ''p.openctl.io/v1'' ''VM'' ''a'')" by code_simp
  have wf: "wfInput sampleManifest" "noEmptyMap_kvs (specObj sampleManifest)" by code_simp+
  have "\<exists>i c m. (i, SaveEv c m (Hash (me_digest sampleEnv) (Some sampleManifest))) \<in> set ?evs \<and> sameIntent m sampleManifest"
  proof (rule cache_hit_sound [OF _ _ hit wf])
  qed (use wf in \<open>auto simp: sampleDispatcher_def sampleWorld_def sampleDb_def emptyDb_def\<close>)
  then show ?thesis by simp
qed

end
