(* ===== verification/Drain.thy ===== *)
theory Drain
  imports Dispatcher
begin

text \<open>
  Draining the queue (\<^verbatim>\<open>drain\<close> and \<^verbatim>\<open>drainScheduled\<close> of internal/controller/operations/dispatcher.go): a
  drain leaves nothing pending, and the scheduled drain runs every claimed operation once, in dependency
  order.  Providers are arbitrary functions on the world; the sequential drain needs of them that they do
  not queue top-level operations themselves.
\<close>

definition pendingIds :: "db \<Rightarrow> string list" where
  "pendingIds d = map op_id (filter (\<lambda>x. op_status x = StatusPending) (db_ops d))"

subsection \<open>Claiming\<close>

lemma length_filter_less: "x \<in> set xs \<Longrightarrow> length (filter (\<lambda>y. y \<noteq> x) xs) < length xs"
  by (rule length_filter_less) auto

lemma pendingIds_unpend:
  assumes "\<forall>x. op_status (f x) \<noteq> StatusPending"
  shows "pendingIds (updateOps (\<lambda>x. op_id x = i) f d) = filter (\<lambda>j. j \<noteq> i) (pendingIds d)"
proof -
  have "map op_id (filter (\<lambda>x. op_status x = StatusPending) (map (\<lambda>x. if op_id x = i then f x else x) xs)) =
      filter (\<lambda>j. j \<noteq> i) (map op_id (filter (\<lambda>x. op_status x = StatusPending) xs))" for xs
    by (induction xs) (auto simp: assms)
  then show ?thesis by (simp add: pendingIds_def db_ops_updateOps)
qed

lemma claim_pendingIds:
  assumes "ClaimNextPending io now d = Inr (o1, d')"
  shows "op_id o1 \<in> set (pendingIds d)" "pendingIds d' = filter (\<lambda>i. i \<noteq> op_id o1) (pendingIds d)"
proof -
  obtain o0 rest where
    h: "orderAsc op_submitted (filter (\<lambda>x. op_status x = StatusPending) (db_ops d)) = o0 # rest"
    and o1: "o1 = o0\<lparr>op_status := StatusRunning, op_started := now\<rparr>"
    and d': "d' = updateOps (\<lambda>x. op_id x = op_id o0) (\<lambda>x. x\<lparr>op_status := StatusRunning, op_started := now\<rparr>) d"
    by (rule ClaimNextPending_Inr [OF assms])
  show "op_id o1 \<in> set (pendingIds d)" using find_pending_head [OF h] o1 by (auto simp: pendingIds_def)
  show "pendingIds d' = filter (\<lambda>i. i \<noteq> op_id o1) (pendingIds d)" unfolding d' o1 by (subst pendingIds_unpend) simp_all
qed

lemma claim_none_pending:
  assumes "\<forall>k. io k = None" "ClaimNextPending io now d = Inl e"
  shows "pendingIds d = []"
proof (cases "orderAsc op_submitted (filter (\<lambda>x. op_status x = StatusPending) (db_ops d))")
  case Nil
  then show ?thesis by (simp add: pendingIds_def filter_empty_conv)
next
  case (Cons o0 rest)
  then show ?thesis using assms by (simp add: ClaimNextPending_def Let_def)
qed

definition healthy :: "exec_env \<Rightarrow> bool" where
  "healthy ee \<longleftrightarrow> (\<forall>k. ee_io ee k = None)"

lemma claimBatch_subset:
  "claimBatch ces d = (batch, d') \<Longrightarrow>
     distinct (map op_id batch) \<and> set (map op_id batch) \<subseteq> set (pendingIds d) \<and>
     pendingIds d' = filter (\<lambda>i. i \<notin> set (map op_id batch)) (pendingIds d)"
proof (induction ces arbitrary: d batch)
  case (Cons ce ces)
  show ?case
  proof (cases "ClaimNextPending (ee_io ce) (ee_now ce) d")
    case (Inr p)
    obtain o1 d1 where p: "p = (o1, d1)" by (cases p)
    obtain b where b: "claimBatch ces d1 = (b, d')" "batch = o1 # b"
      using Cons.prems Inr p by (auto split: prod.splits)
    note c = claim_pendingIds [OF Inr [unfolded p]]
    show ?thesis using Cons.IH [OF b(1)] b(2) c by (auto intro!: filter_cong)
  qed (use Cons.prems in simp)
qed simp

lemma claimBatch_all:
  "claimBatch ces d = (batch, d') \<Longrightarrow> \<forall>ce \<in> set ces. healthy ce \<Longrightarrow> length (pendingIds d) < length ces \<Longrightarrow>
     set (map op_id batch) = set (pendingIds d)"
proof (induction ces arbitrary: d batch)
  case (Cons ce ces)
  show ?case
  proof (cases "ClaimNextPending (ee_io ce) (ee_now ce) d")
    case (Inl e)
    then have "pendingIds d = []" using claim_none_pending Cons.prems(2) by (auto simp: healthy_def)
    then show ?thesis using Inl Cons.prems by auto
  next
    case (Inr p)
    obtain o1 d1 where p: "p = (o1, d1)" by (cases p)
    obtain b where b: "claimBatch ces d1 = (b, d')" "batch = o1 # b"
      using Cons.prems Inr p by (auto split: prod.splits)
    note c = claim_pendingIds [OF Inr [unfolded p]]
    have "length (pendingIds d1) < length ces"
      using length_filter_less [OF c(1)] c(2) Cons.prems(3) by simp
    then have "set (map op_id b) = set (pendingIds d1)" using Cons.IH [OF b(1)] Cons.prems(2) by simp
    then show ?thesis using b(2) c by auto
  qed
qed simp

subsection \<open>The scheduled drain\<close>

lemma batchEdges_cases: "batchEdges batch = [] \<or> crossOpEdges batch = Inr (batchEdges batch)"
  by (auto simp: batchEdges_def split: sum.split)

lemma batchEdges_confined:
  "edgeDeps (batchEdges batch) i \<noteq> [] \<Longrightarrow> i \<in> op_id ` set batch"
  "set (edgeDeps (batchEdges batch) i) \<subseteq> op_id ` set batch"
  using batchEdges_cases [of batch] crossOpEdges_confined [of batch "batchEdges batch" i]
  by (auto simp: edgeDeps_def)

lemma batchEdges_acyclic:
  assumes "distinct (map op_id batch)"
  shows "acyclic (depRel (edgeDeps (batchEdges batch)) (map op_id batch))"
proof -
  have "crossOpAcyclic (map op_id batch) (batchEdges batch) \<or> batchEdges batch = []"
    by (auto simp: batchEdges_def split: sum.splits)
  moreover have "crossOpAcyclic (map op_id batch) (batchEdges batch) \<Longrightarrow> ?thesis"
    unfolding crossOpAcyclic_def
    by (subst (asm) eg.kahn_acyclic_iff) (use assms batchEdges_confined in auto)
  moreover have "?thesis" if "batchEdges batch = []"
    using that by (simp add: depRel_def edgeDeps_def acyclic_def)
  ultimately show ?thesis by blast
qed

lemma batchTasks_ids [simp]: "map tk_id (batchTasks dp ees batch edges) = map op_id batch"
  by (simp add: batchTasks_def)

lemma depsOf_absent: "y \<notin> set (map tk_id T) \<Longrightarrow> depsOf T y = []"
  using depsOf_nonempty by blast

lemma batchTasks_deps:
  assumes "distinct (map op_id batch)" "i \<in> op_id ` set batch"
  shows "depsOf (batchTasks dp ees batch edges) i = edgeDeps edges i"
  using assms
proof (induction batch)
  case (Cons o1 batch)
  have step: "depsOf (batchTasks dp ees (o1 # batch) edges) i =
      (if op_id o1 = i then edgeDeps edges i else []) @ depsOf (batchTasks dp ees batch edges) i"
    by (simp add: batchTasks_def depsOf_def)
  show ?case
  proof (cases "op_id o1 = i")
    case True
    then have "i \<notin> set (map tk_id (batchTasks dp ees batch edges))" using Cons.prems(1) unfolding batchTasks_ids by simp
    from depsOf_absent [OF this] show ?thesis using True step by simp
  next
    case False
    then show ?thesis using Cons step by simp
  qed
qed simp

lemma batchTasks_wf:
  assumes "distinct (map op_id batch)"
  shows "wfTasks (batchTasks dp ees batch (batchEdges batch))"
proof -
  have "\<forall>t \<in> set (batchTasks dp ees batch (batchEdges batch)). set (tk_deps t) \<subseteq> op_id ` set batch"
    using batchEdges_confined(2) by (auto simp: batchTasks_def)
  then show ?thesis using assms by (simp add: wfTasks_def)
qed

lemma batchTasks_acyclic:
  assumes "distinct (map op_id batch)"
  shows "acyclic (depRel (depsOf (batchTasks dp ees batch (batchEdges batch))) (map op_id batch))"
proof -
  have "depsOf (batchTasks dp ees batch (batchEdges batch)) (op_id x) = edgeDeps (batchEdges batch) (op_id x)"
    if "x \<in> set batch" for x by (rule batchTasks_deps [OF assms imageI [OF that]])
  then have "depRel (depsOf (batchTasks dp ees batch (batchEdges batch))) (map op_id batch) =
      depRel (edgeDeps (batchEdges batch)) (map op_id batch)"
    by (auto simp: depRel_def)
  then show ?thesis using batchEdges_acyclic [OF assms] by simp
qed

text \<open>
  C38. The scheduled drain serves the whole queue: when claims reach the database and nothing is canceled,
  the operations executed are exactly those that were pending, each once, whatever the concurrency limit and
  the order in which executions finish; and an operation runs only after the operations of the batch it
  depends on.
\<close>
theorem drainScheduled_serves_all:
  assumes "\<forall>ce \<in> set ces. healthy ce" "length (pendingIds (w_db w)) < length ces"
    and "claimBatch ces (w_db w) = (batch, d)"
    and "\<forall>ev \<in> set sched. \<not> snd ev" "length batch \<le> length sched"
    and "drainScheduled dp n ces ees le False sched False w = (lg, w')"
  shows "distinct (map fst lg) \<and> set (map fst lg) = set (pendingIds (w_db w)) \<and>
    (\<forall>i < length lg. \<forall>dep \<in> set (edgeDeps (batchEdges batch) (fst (lg ! i))). dep \<in> set (map fst (take i lg)))"
proof -
  note b = claimBatch_subset [OF assms(3)] claimBatch_all [OF assms(3,1,2)]
  show ?thesis
  proof (cases "batch = []")
    case True
    then show ?thesis using assms(3,6) b by (simp add: drainScheduled_def)
  next
    case False
    let ?T = "batchTasks dp ees batch (batchEdges batch)"
    let ?w1 = "setLabels le (crossOpDependencyLabels batch (batchEdges batch)) (setDb d w)"
    obtain e where r: "RunGraph n ?T False sched False ?w1 = ((e, lg), w')"
      using assms(3,6) False by (auto simp: drainScheduled_def Let_def split: prod.splits)
    have "\<forall>t \<in> set ?T. \<forall>f w. tk_run t = Some f \<longrightarrow> fst (f w) = None" by (auto simp: batchTasks_def)
    moreover have "length ?T \<le> length sched" using assms(5) by (simp add: batchTasks_def)
    ultimately have all: "mset (map fst lg) = mset (map op_id batch)"
      using RunGraph_runs_all [OF batchTasks_wf, of batch dp ees sched n ?w1] batchTasks_acyclic [of batch dp ees]
        b(1) assms(4) r by simp
    then have same: "distinct (map fst lg)" "set (map fst lg) = set (map op_id batch)"
      using b(1) mset_eq_imp_distinct_iff mset_eq_setD by blast+
    have "dep \<in> set (map fst (take i lg))"
      if "i < length lg" "dep \<in> set (edgeDeps (batchEdges batch) (fst (lg ! i)))" for i dep
    proof -
      have "fst (lg ! i) \<in> op_id ` set batch" using batchEdges_confined(1) that(2) by force
      then have "dep \<in> set (depsOf ?T (fst (lg ! i)))" using batchTasks_deps [of batch "fst (lg ! i)" dp ees "batchEdges batch"] b(1) that(2) by simp
      then have "(dep, None) \<in> set (take i lg)" using RunGraph_ordered [OF r] that(1) by blast
      then show ?thesis by force
    qed
    then show ?thesis using same b(2) by simp
  qed
qed

theorem drainScheduled_serves_all_witness:
  "map fst (fst (drainScheduled sampleDispatcher 4 [sampleExec, sampleExec, sampleExec] (\<lambda>_. sampleExec) sampleExec False
      [(0, False), (1, False)] False (sampleWorld [sampleOp ''op-1'' StatusPending ''t1'', sampleOp ''op-2'' StatusPending ''t2''])))
    = [''op-1'', ''op-2''] \<and>
   pendingIds (sampleDb [sampleOp ''op-1'' StatusPending ''t1'', sampleOp ''op-2'' StatusPending ''t2'']) = [''op-1'', ''op-2'']"
proof -
  let ?w = "sampleWorld [sampleOp ''op-1'' StatusPending ''t1'', sampleOp ''op-2'' StatusPending ''t2'']"
  let ?ces = "[sampleExec, sampleExec, sampleExec]" and ?sched = "[(0, False), (1, False)]"
  obtain batch d where b: "claimBatch ?ces (w_db ?w) = (batch, d)" by (cases "claimBatch ?ces (w_db ?w)")
  obtain lg w' where r: "drainScheduled sampleDispatcher 4 ?ces (\<lambda>_. sampleExec) sampleExec False ?sched False ?w = (lg, w')"
    by (cases "drainScheduled sampleDispatcher 4 ?ces (\<lambda>_. sampleExec) sampleExec False ?sched False ?w")
  have n: "length (fst (claimBatch ?ces (w_db ?w))) = 2" "pendingIds (w_db ?w) = [''op-1'', ''op-2'']"
    "map fst (fst (drainScheduled sampleDispatcher 4 ?ces (\<lambda>_. sampleExec) sampleExec False ?sched False ?w)) = [''op-1'', ''op-2'']"
    by code_simp+
  have "\<forall>ce \<in> set ?ces. healthy ce" by (simp add: healthy_def sampleExec_def)
  from drainScheduled_serves_all [OF this _ b _ _ r] n b have "set (map fst lg) = {''op-1'', ''op-2''}" by simp
  then show ?thesis using n by (simp add: sampleWorld_def)
qed

subsection \<open>The sequential drain\<close>

text \<open>What the drain relies on: no provider call and no sink call queues a top-level operation.\<close>

definition quiet :: "'p dispatcher \<Rightarrow> bool" where
  "quiet dp \<longleftrightarrow>
     (\<forall>np \<in> set (dp_registry dp). \<forall>r k n w.
        length (pendingIds (w_db (snd (pv_apply (snd np) r w)))) \<le> length (pendingIds (w_db w)) \<and>
        length (pendingIds (w_db (snd (pv_delete (snd np) k n w)))) \<le> length (pendingIds (w_db w))) \<and>
     (\<forall>sk. dp_sink dp = Some sk \<longrightarrow> (\<forall>c r h w av k n.
        db_ops (w_db (snd (sk_save sk c r h w))) = db_ops (w_db w) \<and>
        db_ops (w_db (snd (sk_delete sk c av k n w))) = db_ops (w_db w)))"

text \<open>Both sinks satisfy their half.\<close>

lemma mirrorSink_quiet:
  "db_ops (w_db (snd (sk_save (mirrorSink io dio env now) c r h w))) = db_ops (w_db w)"
  "db_ops (w_db (snd (sk_delete (mirrorSink io dio env now) c av k n w))) = db_ops (w_db w)"
  by (rule ms.keeps_ops [of "(io, dio, now)" env, simplified, OF prod.collapse [symmetric]])+

abbreviation npending :: "'p world \<Rightarrow> nat" where
  "npending w \<equiv> length (pendingIds (w_db w))"

lemma npending_filter: "length (pendingIds (d\<lparr>db_ops := filter P (db_ops d)\<rparr>)) \<le> length (pendingIds d)"
proof -
  have "length (filter Q (filter P xs)) \<le> length (filter Q xs)" for Q and xs :: "operation list"
    by (induction xs) auto
  then show ?thesis by (simp add: pendingIds_def)
qed

lemma completeOp_npending:
  assumes "st \<in> {StatusSucceeded, StatusFailed, StatusCancelled}"
  shows "npending (completeOp dp ee i st msg res w) \<le> npending w"
proof (cases "ee_io ee 0")
  case None
  let ?d = "updateOps (\<lambda>x. op_id x = i) (terminate_row (ee_now ee) st msg res) (w_db w)"
  obtain P where p: "snd (Complete (ee_io ee) (ee_now ee) (dp_retain dp) i st msg res (w_db w)) = ?d\<lparr>db_ops := filter P (db_ops ?d)\<rparr>"
    using Complete_rows [of "ee_io ee", OF None assms] unfolding Let_def by blast
  have "pendingIds ?d = filter (\<lambda>j. j \<noteq> i) (pendingIds (w_db w))"
    using assms by (intro pendingIds_unpend) (auto simp: terminate_row_def)
  then have "length (pendingIds ?d) \<le> npending w" by simp
  then show ?thesis using npending_filter [of P ?d] p by (simp add: completeOp_def)
next
  case (Some e)
  then show ?thesis using assms by (auto simp: completeOp_def Complete_def res_simps)
qed

lemma labelOp_npending [simp]: "pendingIds (w_db (labelOp ee i l w)) = pendingIds (w_db w)"
proof -
  have "map op_id (filter (\<lambda>x. op_status x = StatusPending) (map (\<lambda>x. if op_id x = i then x\<lparr>op_label := l\<rparr> else x) xs)) =
      map op_id (filter (\<lambda>x. op_status x = StatusPending) xs)" for xs
    by (induction xs) auto
  then show ?thesis
    by (auto simp: labelOp_def SetLabel_def pendingIds_def db_ops_updateOps res_simps split: sum.splits)
qed

lemma For_registered: "For r av = Inr p \<Longrightarrow> \<exists>n. (n, p) \<in> set r"
  by (auto simp: For_def Let_def dest: map_of_SomeD split: if_splits option.splits)

lemma quiet_provider:
  assumes "quiet dp" "For (dp_registry dp) av = Inr p"
  shows "npending (snd (pv_apply p r w)) \<le> npending w" "npending (snd (pv_delete p k n w)) \<le> npending w"
  using assms For_registered [OF assms(2)] unfolding quiet_def by fastforce+

lemma quiet_sink:
  assumes "quiet dp" "dp_sink dp = Some sk"
  shows "pendingIds (w_db (snd (sk_save sk c r h w))) = pendingIds (w_db w)"
    "pendingIds (w_db (snd (sk_delete sk c av k n w))) = pendingIds (w_db w)"
  using assms unfolding quiet_def pendingIds_def by simp_all

lemma ApplyManifest_npending:
  assumes "quiet dp"
  shows "npending (snd (ApplyManifest dp c raw w)) \<le> npending w"
proof (cases "For (dp_registry dp) (r_apiVersion raw)")
  case (Inr p)
  have "npending (snd (case pv_apply p a w of (Inl e, w1) \<Rightarrow> (Inl e, w1)
      | (Inr result, w1) \<Rightarrow> (case dp_sink dp of None \<Rightarrow> (Inr result, w1)
           | Some sk \<Rightarrow> (Inr result, snd (sk_save sk c raw (sk_hash sk x) w1))))) \<le> npending w" for a x
    using quiet_provider(1) [OF assms Inr, of a w] quiet_sink(1) [OF assms]
    by (auto split: prod.split sum.split option.split)
  then show ?thesis using Inr by (auto simp: ApplyManifest_def split: sum.split option.split)
qed (simp add: ApplyManifest_def)

lemma outcome_npending:
  "npending w1 \<le> n \<Longrightarrow>
   npending (case terminalOutcome c e of (st, msg) \<Rightarrow> completeOp dp ee i st msg res w1) \<le> n"
  by (cases c) (auto simp: terminalOutcome_def intro: order_trans [OF completeOp_npending])

lemma settled_npending:
  "npending w1 \<le> n \<Longrightarrow> npending (completeOp dp ee i StatusSucceeded msg res w1) \<le> n"
  "npending w1 \<le> n \<Longrightarrow> npending (completeOp dp ee i StatusFailed msg res w1) \<le> n"
  by (auto intro: order_trans [OF completeOp_npending])

lemma executeApply_npending:
  assumes "quiet dp"
  shows "npending (executeApply dp ee p o1 w) \<le> npending w"
proof -
  have a: "npending w1 \<le> npending w" if "ApplyManifest dp c raw w = (r, w1)" for c raw r w1
    using ApplyManifest_npending [OF assms, of c raw w] that by simp
  have l: "npending (labelOp ee i l w) \<le> npending w" for i l by simp
  show ?thesis unfolding executeApply_def Let_def
    by (split sum.split option.split prod.split;
        (intro conjI allI impI settled_npending outcome_npending order_refl l | erule a)+)+
qed

lemma executeDelete_npending:
  assumes "quiet dp" "For (dp_registry dp) av = Inr p"
  shows "npending (executeDelete dp ee p o1 w) \<le> npending w"
proof -
  obtain r w1 where d: "pv_delete p (op_kind o1) (op_name o1) w = (r, w1)" by (cases "pv_delete p (op_kind o1) (op_name o1) w")
  then have "npending w1 \<le> npending w" using quiet_provider(2) [OF assms] by (metis snd_conv)
  then show ?thesis using d quiet_sink(2) [OF assms(1)] unfolding executeDelete_def Let_def
    by (auto split: option.split intro!: settled_npending outcome_npending)
qed

lemma execute_npending: "quiet dp \<Longrightarrow> npending (execute dp ee o1 w) \<le> npending w"
  unfolding execute_def using executeApply_npending executeDelete_npending
  by (auto split: sum.split intro!: settled_npending)

text \<open>
  C4. The sequential drain empties the queue: when claims reach the database and no provider queues
  top-level operations of its own, one more claim than there are pending operations is enough to leave none
  pending, whatever the executions return and whatever else fails.
\<close>
theorem drain_empties_queue:
  fixes dp :: "'p dispatcher" and w :: "'p world"
  assumes "quiet dp" "\<forall>(ce, ee) \<in> set es. healthy ce" "length (pendingIds (w_db w)) < length es"
  shows "pendingIds (w_db (drain dp es w)) = []"
  using assms(2,3)
proof (induction es arbitrary: w)
  case (Cons env es)
  obtain ce ee where env: "env = (ce, ee)" by (cases env)
  show ?case
  proof (cases "ClaimNextPending (ee_io ce) (ee_now ce) (w_db w)")
    case (Inl e)
    then have "pendingIds (w_db w) = []" using claim_none_pending Cons.prems(1) env by (auto simp: healthy_def)
    then show ?thesis using Inl env by simp
  next
    case (Inr p)
    obtain o1 d where p: "p = (o1, d)" by (cases p)
    note c = claim_pendingIds [OF Inr [unfolded p]]
    have "npending (execute dp ee o1 (setDb d w)) \<le> length (pendingIds d)"
      using execute_npending [OF assms(1), of ee o1 "setDb d w"] by simp
    also have "\<dots> < npending w" using length_filter_less [OF c(1)] c(2) by simp
    finally show ?thesis using Cons env Inr p by simp
  qed
qed simp

lemma sampleDispatcher_quiet: "quiet sampleDispatcher"
  by (simp add: quiet_def sampleDispatcher_def echoProvider_def mirrorSink_quiet)

theorem drain_empties_queue_witness:
  "pendingIds (w_db (drain sampleDispatcher [(sampleExec, sampleExec), (sampleExec, sampleExec)]
     (sampleWorld [sampleOp ''op-1'' StatusPending ''t1'']))) = []"
proof (rule drain_empties_queue [OF sampleDispatcher_quiet])
  show "length (pendingIds (w_db (sampleWorld [sampleOp ''op-1'' StatusPending ''t1'']))) <
      length [(sampleExec, sampleExec), (sampleExec, sampleExec)]" by code_simp
qed (simp add: healthy_def sampleExec_def)

subsection \<open>Cancellation\<close>

text \<open>
  The table of running operations: a cancellation succeeds exactly for an operation between its start and
  its end, marks that operation only, and leaves no mark behind once the execution has returned; an execution
  that was not canceled does not see the mark of another.
\<close>
theorem cancel_window:
  assumes "\<not> i \<in> set (rt_running rt)" "\<not> i \<in> set (rt_userCancelled rt)"
  shows "\<not> fst (CancelRunning i rt) \<and>
    fst (CancelRunning i (beginRun i rt)) \<and>
    i \<in> set (rt_userCancelled (snd (CancelRunning i (beginRun i rt)))) \<and>
    (j \<noteq> i \<longrightarrow> i \<notin> set (rt_userCancelled (snd (CancelRunning j (beginRun i rt))))) \<and>
    set (rt_running (endRun i (snd (CancelRunning i (beginRun i rt))))) = set (rt_running rt) \<and>
    set (rt_userCancelled (endRun i (snd (CancelRunning i (beginRun i rt))))) = set (rt_userCancelled rt)"
  using assms by (auto simp: CancelRunning_def beginRun_def endRun_def)

theorem cancel_window_witness: "fst (CancelRunning ''a'' (beginRun ''a'' \<lparr>rt_running = [], rt_userCancelled = []\<rparr>))"
  using cancel_window [of "''a''" "\<lparr>rt_running = [], rt_userCancelled = []\<rparr>"] by simp

end
