(* ===== verification/Auth.thy ===== *)
theory Auth
  imports DiskMirror
begin

text \<open>
  Authentication and roles: internal/controller/auth (auth.go, principal.go, users.go, sessions.go, oidc.go),
  internal/controller/server/authz.go, session.go, the decision of oidc_http.go and webhook_http.go.
  Random bytes, SHA-256 and HMAC, the YAML decoder, the identity provider and the time format are parameters;
  times are nanoseconds.  The sessions table is a list of rows.
\<close>

datatype code = Unauthenticated | PermissionDenied | InvalidArgument | NotFound | AlreadyExists
  | FailedPrecondition | Internal | Unimplemented

type_synonym rpc_error = "code \<times> string"

subsection \<open>Roles and principals (principal.go)\<close>

abbreviation RoleViewer :: string where "RoleViewer \<equiv> ''viewer''"
abbreviation RoleEditor :: string where "RoleEditor \<equiv> ''editor''"
abbreviation RoleAdmin :: string where "RoleAdmin \<equiv> ''admin''"

definition roleRank :: "string \<Rightarrow> nat" where
  "roleRank r = (if r = RoleViewer then 1 else if r = RoleEditor then 2 else if r = RoleAdmin then 3 else 0)"

definition AtLeast :: "string \<Rightarrow> string \<Rightarrow> bool" where
  "AtLeast r minRole \<longleftrightarrow> roleRank r > 0 \<and> roleRank r \<ge> roleRank minRole"

record principal =
  pr_user :: string
  pr_role :: string
  pr_root :: bool

definition RootPrincipal :: principal where
  "RootPrincipal = \<lparr>pr_user = ''root'', pr_role = RoleAdmin, pr_root = True\<rparr>"

text \<open>authz.go; no principal means that authentication is switched off.\<close>

definition authorize :: "principal option \<Rightarrow> string \<Rightarrow> rpc_error option" where
  "authorize p minRole =
     (case p of
        None \<Rightarrow> None
      | Some pr \<Rightarrow>
          if \<not> AtLeast (pr_role pr) minRole
          then Some (PermissionDenied, ''role '' @ goQuote (pr_role pr) @ '' is not permitted this operation (requires ''
                     @ goQuote minRole @ '' or higher)'')
          else None)"

subsection \<open>Tokens (auth.go)\<close>

definition hexString :: "nat list \<Rightarrow> string" where
  "hexString bs = concat (map hexByte bs)"

text \<open>\<open>rnd\<close>: the random bytes, or the failure of the source.\<close>

definition GenerateToken :: "string + nat list \<Rightarrow> err + string" where
  "GenerateToken rnd = (case rnd of Inl e \<Rightarrow> Inl (Wrap ''read random'' (Plain e)) | Inr bs \<Rightarrow> Inr (hexString bs))"

definition LoadOrCreateToken ::
  "string option \<Rightarrow> string option \<Rightarrow> string + nat list \<Rightarrow> string \<Rightarrow> fs \<Rightarrow> (err + string) \<times> fs" where
  "LoadOrCreateToken rd wr rnd path f =
     (case rd of
        Some e \<Rightarrow> (Inl (Wrap ''read token'' (Plain e)), f)
      | None \<Rightarrow>
          (case fileAt f path of
             Some data \<Rightarrow>
               if trimSpace data = [] then (Inl (Plain (''token file '' @ path @ '' is empty'')), f)
               else (Inr (trimSpace data), f)
           | None \<Rightarrow>
               (case GenerateToken rnd of
                  Inl e \<Rightarrow> (Inl e, f)
                | Inr tok \<Rightarrow>
                    (case wr of
                       Some e \<Rightarrow> (Inl (Wrap ''write token'' (Plain e)), f)
                     | None \<Rightarrow> (Inr tok, putKey f path (tok @ [char_of (10::nat)]))))))"

subsection \<open>Named users (users.go)\<close>

record user =
  us_id :: string
  us_role :: string
  us_token :: string

record user_file_entry =
  uf_name :: string
  uf_role :: string
  uf_tokenFile :: string

text \<open>\<open>ld\<close> stands for \<open>LoadOrCreateToken\<close> on the path of an entry.\<close>

fun loadUserEntries ::
  "(string \<Rightarrow> fs \<Rightarrow> (err + string) \<times> fs) \<Rightarrow> string \<Rightarrow> string \<Rightarrow> nat \<Rightarrow> string list \<Rightarrow> user_file_entry list \<Rightarrow> fs
     \<Rightarrow> (err + user list) \<times> fs" where
  "loadUserEntries ld dir path i seen [] f = (Inr [], f)"
| "loadUserEntries ld dir path i seen (e # es) f =
     (if uf_name e = [] then (Inl (Plain (path @ '': user '' @ digits i @ '' has no name'')), f)
      else if uf_name e = ''root'' then (Inl (Plain (path @ '': user name '' @ goQuote (uf_name e) @ '' is reserved'')), f)
      else if uf_name e \<in> set seen then (Inl (Plain (path @ '': duplicate user name '' @ goQuote (uf_name e))), f)
      else if roleRank (uf_role e) = 0 then
        (Inl (Plain (path @ '': user '' @ goQuote (uf_name e) @ '' has invalid role '' @ goQuote (uf_role e)
                     @ '' (want viewer, editor, or admin)'')), f)
      else if uf_tokenFile e = [] then (Inl (Plain (path @ '': user '' @ goQuote (uf_name e) @ '' has no tokenFile'')), f)
      else
        (case ld (if isAbs (uf_tokenFile e) then uf_tokenFile e else joinPath [dir, uf_tokenFile e]) f of
           (Inl er, f1) \<Rightarrow> (Inl (Wrap (path @ '': user '' @ goQuote (uf_name e) @ '' token'') er), f1)
         | (Inr tok, f1) \<Rightarrow>
             (case loadUserEntries ld dir path (Suc i) (uf_name e # seen) es f1 of
                (Inl er, f2) \<Rightarrow> (Inl er, f2)
              | (Inr us, f2) \<Rightarrow> (Inr (\<lparr>us_id = uf_name e, us_role = uf_role e, us_token = tok\<rparr> # us), f2))))"

definition LoadUsers ::
  "(string \<Rightarrow> fs \<Rightarrow> (err + string) \<times> fs) \<Rightarrow> string option \<Rightarrow> (string \<Rightarrow> err + user_file_entry list) \<Rightarrow> string \<Rightarrow> fs
     \<Rightarrow> (err + user list) \<times> fs" where
  "LoadUsers ld rd parse dir f =
     (let path = joinPath [dir, ''users.yaml''] in
      case rd of
        Some e \<Rightarrow> (Inl (Wrap (''read '' @ path) (Plain e)), f)
      | None \<Rightarrow>
          (case fileAt f path of
             None \<Rightarrow> (Inr [], f)
           | Some data \<Rightarrow>
               (case parse data of
                  Inl e \<Rightarrow> (Inl (Wrap (''parse '' @ path) e), f)
                | Inr es \<Rightarrow> loadUserEntries ld dir path 0 [] es f)))"

subsection \<open>Sessions (sessions.go)\<close>

record session_row =
  sn_id :: string
  sn_user :: string
  sn_hash :: string
  sn_display :: string
  sn_role :: string
  sn_created :: string
  sn_expires :: string

text \<open>The parameters of the store: the digest of a token and the time format with its parser.\<close>

record session_env =
  sv_sha :: "string \<Rightarrow> string"
  sv_format :: "int \<Rightarrow> string"
  sv_parse :: "string \<Rightarrow> int option"

abbreviation DefaultSessionTTL :: int where "DefaultSessionTTL \<equiv> 7 * 24 * 3600 * 1000000000"

definition sessionPrincipal :: "session_row \<Rightarrow> principal" where
  "sessionPrincipal s = \<lparr>pr_user = sn_user s, pr_role = (if roleRank (sn_role s) = 0 then RoleAdmin else sn_role s), pr_root = False\<rparr>"

definition newSessionID :: "nat list \<Rightarrow> string" where
  "newSessionID buf = ''sess-'' @ hexString buf"

definition CreateSession ::
  "session_env \<Rightarrow> string option \<Rightarrow> string + nat list \<Rightarrow> nat list \<Rightarrow> int \<Rightarrow> string \<Rightarrow> string \<Rightarrow> string \<Rightarrow> int
     \<Rightarrow> session_row list \<Rightarrow> err + (session_row \<times> string) \<times> session_row list" where
  "CreateSession env dbf rnd idb now userID displayName role ttl tbl =
     bindE (wrapErr ''generate session token'' (GenerateToken rnd)) (\<lambda>token.
       let row = \<lparr>sn_id = newSessionID idb,
                  sn_user = (if userID = [] then ''default'' else userID),
                  sn_hash = sv_sha env token, sn_display = displayName,
                  sn_role = (if roleRank role = 0 then RoleAdmin else role),
                  sn_created = sv_format env now,
                  sn_expires = sv_format env (now + (if ttl \<le> 0 then DefaultSessionTTL else ttl))\<rparr> in
       bindE (wrapErr ''insert session'' (dbCall dbf)) (\<lambda>_.
         if sn_id row \<in> sn_id ` set tbl \<or> sn_hash row \<in> sn_hash ` set tbl
         then Inl (Wrap ''insert session'' (DbErr ''UNIQUE constraint failed: sessions''))
         else Inr ((row, token), tbl @ [row])))"

definition LookupSession ::
  "session_env \<Rightarrow> string option \<Rightarrow> int \<Rightarrow> string \<Rightarrow> session_row list \<Rightarrow> err + session_row option" where
  "LookupSession env dbf now token tbl =
     (if token = [] then Inr None
      else bindE (wrapErr ''lookup session'' (dbCall dbf)) (\<lambda>_.
        case find (\<lambda>s. sn_hash s = sv_sha env token) tbl of
          None \<Rightarrow> Inr None
        | Some s \<Rightarrow>
            (case sv_parse env (sn_expires s) of
               Some expiry \<Rightarrow> if now > expiry then Inr None else Inr (Some s)
             | None \<Rightarrow> Inr (Some s))))"

definition DeleteSession :: "string option \<Rightarrow> string \<Rightarrow> session_row list \<Rightarrow> err + session_row list" where
  "DeleteSession dbf i tbl = bindE (dbCall dbf) (\<lambda>_. Inr (filter (\<lambda>s. sn_id s \<noteq> i) tbl))"

definition DeleteByToken :: "session_env \<Rightarrow> string option \<Rightarrow> string \<Rightarrow> session_row list \<Rightarrow> err + session_row list" where
  "DeleteByToken env dbf token tbl =
     (if token = [] then Inr tbl
      else bindE (dbCall dbf) (\<lambda>_. Inr (filter (\<lambda>s. sn_hash s \<noteq> sv_sha env token) tbl)))"

text \<open>The sweep compares the texts of the times.\<close>

definition GCExpired :: "session_env \<Rightarrow> string option \<Rightarrow> int \<Rightarrow> session_row list \<Rightarrow> err + nat \<times> session_row list" where
  "GCExpired env dbf now tbl =
     bindE (dbCall dbf) (\<lambda>_.
       let keep = filter (\<lambda>s. \<not> sn_expires s < sv_format env now) tbl in Inr (length tbl - length keep, keep))"

subsection \<open>The validator (auth.go)\<close>

record validator =
  va_expected :: string
  va_users :: "(string \<times> principal) list"
  va_sessions :: bool

definition NewValidator :: "string \<Rightarrow> validator" where
  "NewValidator token = \<lparr>va_expected = token, va_users = [], va_sessions = False\<rparr>"

definition WithUsers :: "user list \<Rightarrow> validator \<Rightarrow> validator" where
  "WithUsers us v = v\<lparr>va_users := map (\<lambda>u. (us_token u, \<lparr>pr_user = us_id u, pr_role = us_role u, pr_root = False\<rparr>)) us\<rparr>"

definition WithSessions :: "validator \<Rightarrow> validator" where
  "WithSessions v = v\<lparr>va_sessions := True\<rparr>"

text \<open>\<open>md\<close>: the values of the authorization header, if there is any metadata.\<close>

definition check ::
  "validator \<Rightarrow> session_env \<Rightarrow> string option \<Rightarrow> int \<Rightarrow> string list option \<Rightarrow> session_row list \<Rightarrow> rpc_error + principal" where
  "check v env dbf now md tbl =
     (case md of
        None \<Rightarrow> Inl (Unauthenticated, ''missing metadata'')
      | Some [] \<Rightarrow> Inl (Unauthenticated, ''missing authorization header'')
      | Some (h # _) \<Rightarrow>
          (case cutPrefix h ''Bearer '' of
             None \<Rightarrow> Inl (Unauthenticated, ''authorization header must start with Bearer'')
           | Some tok \<Rightarrow>
               if tok = va_expected v then Inr RootPrincipal
               else
                 (case map_of (va_users v) tok of
                    Some p \<Rightarrow> Inr p
                  | None \<Rightarrow>
                      if va_sessions v
                      then (case LookupSession env dbf now tok tbl of
                              Inr (Some s) \<Rightarrow> Inr (sessionPrincipal s)
                            | _ \<Rightarrow> Inl (Unauthenticated, ''invalid token''))
                      else Inl (Unauthenticated, ''invalid token''))))"

subsection \<open>Single sign-on (oidc.go)\<close>

record oidc_config =
  oc_roleClaim :: string
  oc_roleMapping :: strmap
  oc_defaultRole :: string
  oc_usernameClaim :: string

definition parseRole :: "string \<Rightarrow> err + string" where
  "parseRole s =
     (if s = RoleViewer \<or> s = RoleEditor \<or> s = RoleAdmin then Inr s
      else Inl (Plain (''unknown role '' @ goQuote s @ '' (want viewer|editor|admin)'')))"

fun parseMapping :: "strmap \<Rightarrow> err + strmap" where
  "parseMapping [] = Inr []"
| "parseMapping ((claim, roleStr) # m) =
     bindE (wrapErr (''roleMapping['' @ goQuote claim @ '']'') (parseRole roleStr)) (\<lambda>role.
     bindE (parseMapping m) (\<lambda>rest. Inr ((claim, role) # rest)))"

text \<open>\<open>disc\<close>: the outcome of contacting the issuer.\<close>

definition NewOIDCAuthenticator :: "string option \<Rightarrow> oidc_config \<Rightarrow> err + oidc_config" where
  "NewOIDCAuthenticator disc cfg =
     (case disc of
        Some e \<Rightarrow> Inl (Wrap ''oidc discovery'' (Plain e))
      | None \<Rightarrow>
          bindE (parseMapping (oc_roleMapping cfg)) (\<lambda>m.
          bindE (if oc_defaultRole cfg = [] then Inr [] else wrapErr ''defaultRole'' (parseRole (oc_defaultRole cfg))) (\<lambda>dr.
            Inr \<lparr>oc_roleClaim = (if oc_roleClaim cfg = [] then ''groups'' else oc_roleClaim cfg), oc_roleMapping = m,
                 oc_defaultRole = dr, oc_usernameClaim = (if oc_usernameClaim cfg = [] then ''email'' else oc_usernameClaim cfg)\<rparr>)))"

definition considerClaim :: "strmap \<Rightarrow> string \<Rightarrow> string \<Rightarrow> string" where
  "considerClaim mapping best v = (case map_of mapping v of None \<Rightarrow> best | Some r \<Rightarrow> if roleRank r > roleRank best then r else best)"

definition claimStrings :: "val \<Rightarrow> string list" where
  "claimStrings v = (case v of VStr s \<Rightarrow> [s] | VArr xs \<Rightarrow> List.map_filter (\<lambda>x. case x of VStr s \<Rightarrow> Some s | _ \<Rightarrow> None) xs | _ \<Rightarrow> [])"

definition mapRole :: "oidc_config \<Rightarrow> obj \<Rightarrow> string" where
  "mapRole a claims = foldl (considerClaim (oc_roleMapping a)) (oc_defaultRole a) (claimStrings (objGet claims (oc_roleClaim a)))"

definition OIDCPrincipal :: "oidc_config \<Rightarrow> obj \<Rightarrow> err + string \<times> string" where
  "OIDCPrincipal a claims =
     (if mapRole a claims = [] then Inl (Plain ''oidc: authenticated but no role assigned'')
      else Inr (strField claims (oc_usernameClaim a), mapRole a claims))"

subsection \<open>The session service (session.go)\<close>

text \<open>Multiplication of an int64 number of seconds by the nanoseconds of a second wraps around.\<close>

definition Login ::
  "session_env \<Rightarrow> string option \<Rightarrow> string + nat list \<Rightarrow> nat list \<Rightarrow> int \<Rightarrow> principal option \<Rightarrow> string \<Rightarrow> int
     \<Rightarrow> session_row list \<Rightarrow> rpc_error + (session_row \<times> string) \<times> session_row list" where
  "Login env dbf rnd idb now p displayName ttlSeconds tbl =
     (let userID = (case p of Some pr \<Rightarrow> if \<not> pr_root pr then pr_user pr else ''default'' | None \<Rightarrow> ''default'');
          role = (case p of Some pr \<Rightarrow> pr_role pr | None \<Rightarrow> RoleAdmin)
      in case CreateSession env dbf rnd idb now userID displayName role (wrap64 (ttlSeconds * 1000000000)) tbl of
           Inl e \<Rightarrow> Inl (Internal, ''create session: '' @ errText e)
         | Inr r \<Rightarrow> Inr r)"

definition bearerFromCtx :: "string list option \<Rightarrow> string" where
  "bearerFromCtx md =
     (case md of Some (h # _) \<Rightarrow> (case cutPrefix h ''Bearer '' of Some tok \<Rightarrow> tok | None \<Rightarrow> []) | _ \<Rightarrow> [])"

definition Logout :: "session_env \<Rightarrow> string option \<Rightarrow> string list option \<Rightarrow> session_row list \<Rightarrow> rpc_error + session_row list" where
  "Logout env dbf md tbl =
     (if bearerFromCtx md = [] then Inr tbl
      else (case DeleteByToken env dbf (bearerFromCtx md) tbl of
              Inl e \<Rightarrow> Inl (Internal, ''delete session: '' @ errText e)
            | Inr t \<Rightarrow> Inr t))"

record whoami_response =
  wr_user :: string
  wr_session :: string
  wr_role :: string

definition WhoAmI ::
  "session_env \<Rightarrow> string option \<Rightarrow> int \<Rightarrow> principal option \<Rightarrow> string list option \<Rightarrow> session_row list \<Rightarrow> whoami_response" where
  "WhoAmI env dbf now p md tbl =
     (let viaPrincipal = (case p of
            Some pr \<Rightarrow> \<lparr>wr_user = (if pr_root pr then [] else pr_user pr), wr_session = [], wr_role = pr_role pr\<rparr>
          | None \<Rightarrow> \<lparr>wr_user = [], wr_session = [], wr_role = RoleAdmin\<rparr>)
      in if bearerFromCtx md = [] then viaPrincipal
         else (case LookupSession env dbf now (bearerFromCtx md) tbl of
                 Inr (Some s) \<Rightarrow> \<lparr>wr_user = sn_user s, wr_session = sn_id s, wr_role = pr_role (sessionPrincipal s)\<rparr>
               | _ \<Rightarrow> viaPrincipal))"

text \<open>
  The end of the single sign-on callback (oidc_http.go): the state must match the cookie, the claims must be
  verified, and a role must be assigned; only then a session is created.
\<close>

definition oidcCallback ::
  "session_env \<Rightarrow> string option \<Rightarrow> string + nat list \<Rightarrow> nat list \<Rightarrow> int \<Rightarrow> oidc_config \<Rightarrow> (string \<Rightarrow> string \<Rightarrow> err + obj)
     \<Rightarrow> string option \<Rightarrow> string option \<Rightarrow> string \<Rightarrow> string \<Rightarrow> string \<Rightarrow> session_row list
     \<Rightarrow> (nat + string) \<times> session_row list" where
  "oidcCallback env dbf rnd idb now a exchange stateCookie verifierCookie stateParam errParam code tbl =
     (case (stateCookie, verifierCookie) of
        (Some st, Some ver) \<Rightarrow>
          if st = [] \<or> stateParam \<noteq> st \<or> ver = [] then (Inl 400, tbl)
          else if errParam \<noteq> [] then (Inl 401, tbl)
          else if code = [] then (Inl 400, tbl)
          else
            (case exchange code ver of
               Inl _ \<Rightarrow> (Inl 401, tbl)
             | Inr claims \<Rightarrow>
                 (case OIDCPrincipal a claims of
                    Inl _ \<Rightarrow> (Inl 403, tbl)
                  | Inr (userID, role) \<Rightarrow>
                      (case CreateSession env dbf rnd idb now userID userID role DefaultSessionTTL tbl of
                         Inl _ \<Rightarrow> (Inl 500, tbl)
                       | Inr ((row, token), tbl') \<Rightarrow> (Inr token, tbl'))))
      | _ \<Rightarrow> (Inl 400, tbl))"

subsection \<open>The push webhook (webhook_http.go)\<close>

definition hexVal :: "char \<Rightarrow> nat option" where
  "hexVal c =
     (let n = of_char c :: nat in
      if 48 \<le> n \<and> n \<le> 57 then Some (n - 48)
      else if 97 \<le> n \<and> n \<le> 102 then Some (n - 87)
      else if 65 \<le> n \<and> n \<le> 70 then Some (n - 55) else None)"

fun decodeHex :: "string \<Rightarrow> nat list option" where
  "decodeHex [] = Some []"
| "decodeHex [c] = None"
| "decodeHex (c # d # s) =
     (case (hexVal c, hexVal d, decodeHex s) of
        (Some a, Some b, Some bs) \<Rightarrow> Some ((16 * a + b) # bs)
      | _ \<Rightarrow> None)"

definition validSignature :: "(string \<Rightarrow> string \<Rightarrow> nat list) \<Rightarrow> string \<Rightarrow> string \<Rightarrow> string \<Rightarrow> bool" where
  "validSignature hmac secret body header =
     (case cutPrefix header ''sha256='' of
        None \<Rightarrow> False
      | Some hx \<Rightarrow> (case decodeHex hx of None \<Rightarrow> False | Some want \<Rightarrow> hmac secret body = want))"

text \<open>The response code and whether the reconcile is triggered; \<open>body\<close> is \<open>Inl\<close> when it cannot be read.\<close>

definition WebhookServeHTTP ::
  "(string \<Rightarrow> string \<Rightarrow> nat list) \<Rightarrow> string \<Rightarrow> string \<Rightarrow> string + string \<Rightarrow> string \<Rightarrow> nat \<times> bool" where
  "WebhookServeHTTP hmac secret method body header =
     (if method \<noteq> ''POST'' then (405, False)
      else (case body of
              Inl _ \<Rightarrow> (400, False)
            | Inr full \<Rightarrow>
                let b = take (5 * 1024 * 1024) full in
                if secret \<noteq> [] \<and> \<not> validSignature hmac secret b header then (401, False)
                else (202, True)))"

subsection \<open>Lemmas\<close>

lemma roleRank_known: "roleRank r > 0 \<longleftrightarrow> r = RoleViewer \<or> r = RoleEditor \<or> r = RoleAdmin"
  by (simp add: roleRank_def)

lemma roleRank_simps [simp]: "roleRank RoleViewer = 1" "roleRank RoleEditor = 2" "roleRank RoleAdmin = 3" "roleRank [] = 0"
  by (simp_all add: roleRank_def)

lemma length_hexString [simp]: "length (hexString bs) = 2 * length bs"
  by (induction bs) (simp_all add: hexString_def hexByte_def)

lemma find_append_new: "x \<notin> f ` set xs \<Longrightarrow> f y = x \<Longrightarrow> find (\<lambda>z. f z = x) (xs @ [y]) = Some y"
  by (induction xs) auto

lemma CreateSession_Inr:
  assumes "CreateSession env dbf rnd idb now userID dn role ttl tbl = Inr ((row, tok), tbl')"
  shows "tbl' = tbl @ [row]" "sn_hash row = sv_sha env tok" "sn_hash row \<notin> sn_hash ` set tbl" "sn_id row \<notin> sn_id ` set tbl"
    "sn_user row = (if userID = [] then ''default'' else userID)" "sn_role row = (if roleRank role = 0 then RoleAdmin else role)"
    "sn_expires row = sv_format env (now + (if ttl \<le> 0 then DefaultSessionTTL else ttl))"
    "\<exists>bs. rnd = Inr bs \<and> tok = hexString bs"
  using assms by (auto simp: CreateSession_def GenerateToken_def Let_def res_simps split: if_splits sum.splits)

lemma Login_Inr:
  assumes "Login env dbf rnd idb now (Some p) dn ttl tbl = Inr ((row, tok), tbl')"
  shows "CreateSession env dbf rnd idb now (if \<not> pr_root p then pr_user p else ''default'') dn (pr_role p) (wrap64 (ttl * 1000000000)) tbl
    = Inr ((row, tok), tbl')"
  using assms by (auto simp: Login_def Let_def split: sum.splits)

lemma check_Inr:
  "check v env dbf now md tbl = Inr p \<longleftrightarrow>
     (\<exists>h hs tok. md = Some (h # hs) \<and> cutPrefix h ''Bearer '' = Some tok \<and>
        (tok = va_expected v \<and> p = RootPrincipal \<or>
         tok \<noteq> va_expected v \<and> map_of (va_users v) tok = Some p \<or>
         tok \<noteq> va_expected v \<and> map_of (va_users v) tok = None \<and> va_sessions v \<and>
         (\<exists>s. LookupSession env dbf now tok tbl = Inr (Some s) \<and> p = sessionPrincipal s)))"
  by (auto simp: check_def split: option.splits list.splits sum.splits if_splits)

lemma LookupSession_Some:
  "LookupSession env dbf now tok tbl = Inr (Some s) \<longleftrightarrow>
     tok \<noteq> [] \<and> dbf = None \<and> find (\<lambda>s. sn_hash s = sv_sha env tok) tbl = Some s \<and>
     (\<forall>expiry. sv_parse env (sn_expires s) = Some expiry \<longrightarrow> now \<le> expiry)"
  by (auto simp: LookupSession_def res_simps split: if_splits option.splits)

subsection \<open>Sessions\<close>

text \<open>
  C35. The life of a session: a caller with a known role who logs in gets a token that, until it expires,
  authenticates as that user (the default user for the root token) with exactly the caller's role and never
  as root; after its expiry, and after a logout with it, the token is refused.
\<close>
theorem session_lifecycle:
  assumes "\<forall>t. sv_parse env (sv_format env t) = Some t"
    and "Login env dbf (Inr bs) idb now (Some p) dn ttl tbl = Inr ((row, tok), tbl')" "length bs = 32" "roleRank (pr_role p) > 0"
    and "va_sessions v" "tok \<noteq> va_expected v" "map_of (va_users v) tok = None"
    and "expiry = now + (if wrap64 (ttl * 1000000000) \<le> 0 then DefaultSessionTTL else wrap64 (ttl * 1000000000))"
  shows "(t \<le> expiry \<longrightarrow> check v env None t (Some [''Bearer '' @ tok]) tbl' =
      Inr \<lparr>pr_user = (if pr_root p \<or> pr_user p = [] then ''default'' else pr_user p), pr_role = pr_role p, pr_root = False\<rparr>) \<and>
    (t > expiry \<longrightarrow> \<not> isOk (check v env None t (Some [''Bearer '' @ tok]) tbl')) \<and>
    (\<exists>tbl''. Logout env None (Some [''Bearer '' @ tok]) tbl' = Inr tbl'' \<and>
       (\<forall>t'. \<not> isOk (check v env None t' (Some [''Bearer '' @ tok]) tbl'')))"
proof -
  note c = CreateSession_Inr [OF Login_Inr [OF assms(2)]]
  have tok: "tok \<noteq> []" using c(8) assms(3) length_hexString by (metis Inr_inject length_0_conv mult_eq_0_iff numeral_neq_zero zero_neq_numeral)
  have f: "find (\<lambda>s. sn_hash s = sv_sha env tok) tbl' = Some row"
    using find_append_new [of "sv_sha env tok" sn_hash tbl row] c(1-3) by simp
  have e: "sv_parse env (sn_expires row) = Some expiry" using c(7) assms(1,8) by simp
  have chk: "check v env None t' (Some [''Bearer '' @ tok]) tb =
      (case LookupSession env None t' tok tb of Inr (Some s) \<Rightarrow> Inr (sessionPrincipal s) | _ \<Rightarrow> Inl (Unauthenticated, ''invalid token''))" for t' tb
    using assms(5-7) cutPrefix_append [of "''Bearer ''" tok] by (simp add: check_def)
  have l: "LookupSession env None t' tok tbl' = (if t' > expiry then Inr None else Inr (Some row))" for t'
    using tok f e by (simp add: LookupSession_def)
  have pr: "sessionPrincipal row = \<lparr>pr_user = (if pr_root p \<or> pr_user p = [] then ''default'' else pr_user p), pr_role = pr_role p, pr_root = False\<rparr>"
    using c(5,6) assms(4) by (auto simp: sessionPrincipal_def)
  have out: "Logout env None (Some [''Bearer '' @ tok]) tbl' = Inr (filter (\<lambda>s. sn_hash s \<noteq> sv_sha env tok) tbl')"
    using tok cutPrefix_append [of "''Bearer ''" tok] by (simp add: Logout_def bearerFromCtx_def DeleteByToken_def)
  have "find (\<lambda>s. sn_hash s = sv_sha env tok) (filter (\<lambda>s. sn_hash s \<noteq> sv_sha env tok) tbl') = None"
    by (simp add: find_None_iff)
  then have gone: "LookupSession env None t' tok (filter (\<lambda>s. sn_hash s \<noteq> sv_sha env tok) tbl') = Inr None" for t'
    using tok by (simp add: LookupSession_def)
  show ?thesis using chk l pr out gone by (simp add: isOk_def)
qed

text \<open>Digest and time format of the examples: the identity, and a unary-free coding of times by their sign and digits.\<close>

definition sampleSessions :: session_env where
  "sampleSessions = \<lparr>sv_sha = id, sv_format = (\<lambda>t. (if t < 0 then CHR ''-'' else CHR ''+'') # replicate (nat \<bar>t\<bar>) CHR ''i''),
     sv_parse = (\<lambda>s. case s of [] \<Rightarrow> None | c # r \<Rightarrow> Some (if c = CHR ''-'' then - int (length r) else int (length r)))\<rparr>"

lemma sampleSessions_times: "\<forall>t. sv_parse sampleSessions (sv_format sampleSessions t) = Some t"
  by (simp add: sampleSessions_def)

theorem session_lifecycle_witness:
  "\<exists>row tok tbl'. Login sampleSessions None (Inr (replicate 32 7)) [1] 0 (Some \<lparr>pr_user = ''bo'', pr_role = RoleViewer, pr_root = False\<rparr>) [] 1 []
      = Inr ((row, tok), tbl') \<and>
    check (WithSessions (NewValidator ''r'')) sampleSessions None 5 (Some [''Bearer '' @ tok]) tbl' =
      Inr \<lparr>pr_user = ''bo'', pr_role = RoleViewer, pr_root = False\<rparr>"
proof -
  let ?p = "\<lparr>pr_user = ''bo'', pr_role = RoleViewer, pr_root = False\<rparr>"
  let ?v = "WithSessions (NewValidator ''r'')"
  obtain row tok tbl' where l: "Login sampleSessions None (Inr (replicate 32 7)) [1] 0 (Some ?p) [] 1 [] = Inr ((row, tok), tbl')"
    by (auto simp: Login_def CreateSession_def GenerateToken_def Let_def)
  have "length tok = 64" using CreateSession_Inr(8) [OF Login_Inr [OF l]] by auto
  then have v: "va_sessions ?v" "tok \<noteq> va_expected ?v" "map_of (va_users ?v) tok = None"
    by (auto simp: WithSessions_def NewValidator_def)
  have "check ?v sampleSessions None 5 (Some [''Bearer '' @ tok]) tbl' = Inr ?p"
    using session_lifecycle [OF sampleSessions_times l _ _ v refl, of 5] by (simp add: roleRank_def wrap64_def)
  then show ?thesis using l by blast
qed

subsection \<open>No escalation\<close>

text \<open>The user and role pairs that the configuration grants.\<close>

definition grants :: "user list \<Rightarrow> oidc_config \<Rightarrow> (string \<times> string) set" where
  "grants us a = {(''default'', RoleAdmin)} \<union> {(us_id u, us_role u) | u. u \<in> set us} \<union>
     {(if u = [] then ''default'' else u, r) | u r claims. OIDCPrincipal a claims = Inr (u, r)}"

text \<open>The session tables that requests can produce, each request authenticated by the validator.\<close>

inductive auth_reach :: "validator \<Rightarrow> session_env \<Rightarrow> oidc_config \<Rightarrow> session_row list \<Rightarrow> bool" for v env a where
  no_sessions: "auth_reach v env a []"
| logs_in: "auth_reach v env a tbl \<Longrightarrow> check v env dbf now md tbl = Inr p \<Longrightarrow>
     Login env dbf' rnd idb now' (Some p) dn ttl tbl = Inr (x, tbl') \<Longrightarrow> auth_reach v env a tbl'"
| signs_on: "auth_reach v env a tbl \<Longrightarrow>
     oidcCallback env dbf rnd idb now a exchange sc vc st er co tbl = (r, tbl') \<Longrightarrow> auth_reach v env a tbl'"
| logs_out: "auth_reach v env a tbl \<Longrightarrow> Logout env dbf md tbl = Inr tbl' \<Longrightarrow> auth_reach v env a tbl'"
| deletes: "auth_reach v env a tbl \<Longrightarrow> DeleteSession dbf i tbl = Inr tbl' \<Longrightarrow> auth_reach v env a tbl'"
| sweeps: "auth_reach v env a tbl \<Longrightarrow> GCExpired env dbf now tbl = Inr (n, tbl') \<Longrightarrow> auth_reach v env a tbl'"

lemma loadUserEntries_valid:
  "loadUserEntries ld dir path i seen es f = (Inr us, f') \<Longrightarrow>
     \<forall>u \<in> set us. roleRank (us_role u) > 0 \<and> us_id u \<noteq> [] \<and> us_id u \<noteq> ''root''"
proof (induction es arbitrary: i seen f us)
  case (Cons e es)
  then obtain tok f1 us' where e: "uf_name e \<noteq> []" "uf_name e \<noteq> ''root''" "roleRank (uf_role e) \<noteq> 0"
      "loadUserEntries ld dir path (Suc i) (uf_name e # seen) es f1 = (Inr us', f')"
      "us = \<lparr>us_id = uf_name e, us_role = uf_role e, us_token = tok\<rparr> # us'"
    by (auto split: if_splits prod.splits sum.splits)
  show ?case using Cons.IH [OF e(4)] e(1-3,5) by simp
qed simp

lemma LoadUsers_valid:
  "LoadUsers ld rd parse dir f = (Inr us, f') \<Longrightarrow> \<forall>u \<in> set us. roleRank (us_role u) > 0 \<and> us_id u \<noteq> [] \<and> us_id u \<noteq> ''root''"
  by (auto simp: LoadUsers_def Let_def dest: loadUserEntries_valid split: option.splits sum.splits)

lemma parseMapping_valid: "parseMapping m = Inr m' \<Longrightarrow> map_of m' c = Some r \<Longrightarrow> roleRank r > 0"
  by (induction m arbitrary: m') (auto simp: parseRole_def res_simps roleRank_def split: if_splits)

lemma parseRole_valid: "parseRole x = Inr r \<Longrightarrow> roleRank r > 0"
  by (auto simp: parseRole_def roleRank_def split: if_splits)

lemma NewOIDC_valid:
  assumes "NewOIDCAuthenticator disc cfg = Inr a"
  shows "map_of (oc_roleMapping a) c = Some r \<Longrightarrow> roleRank r > 0" "oc_defaultRole a = [] \<or> roleRank (oc_defaultRole a) > 0"
proof -
  obtain m dr where "parseMapping (oc_roleMapping cfg) = Inr m" "oc_roleMapping a = m" "oc_defaultRole a = dr"
      "dr = [] \<or> roleRank dr > 0"
    using assms by (auto simp: NewOIDCAuthenticator_def res_simps dest: parseRole_valid split: option.splits if_splits)
  then show "map_of (oc_roleMapping a) c = Some r \<Longrightarrow> roleRank r > 0" "oc_defaultRole a = [] \<or> roleRank (oc_defaultRole a) > 0"
    using parseMapping_valid by auto
qed

lemma mapRole_valid:
  assumes "\<And>c r. map_of m c = Some r \<Longrightarrow> roleRank r > 0" "b = [] \<or> roleRank b > 0"
  shows "foldl (considerClaim m) b cs = [] \<or> roleRank (foldl (considerClaim m) b cs) > 0"
  using assms(2)
proof (induction cs arbitrary: b)
  case (Cons c cs)
  have "considerClaim m b c = [] \<or> roleRank (considerClaim m b c) > 0"
    using Cons.prems assms(1) [of c] by (auto simp: considerClaim_def split: option.splits)
  then show ?case using Cons.IH by simp
qed simp

lemma OIDCPrincipal_rank:
  assumes "NewOIDCAuthenticator disc cfg = Inr a" "OIDCPrincipal a claims = Inr (u, r)"
  shows "roleRank r > 0"
proof -
  have "mapRole a claims = [] \<or> roleRank (mapRole a claims) > 0"
    unfolding mapRole_def using NewOIDC_valid [OF assms(1)] by (intro mapRole_valid)
  then show ?thesis using assms(2) by (auto simp: OIDCPrincipal_def split: if_splits)
qed

lemma default_granted: "(''default'', RoleAdmin) \<in> grants us a"
  by (simp add: grants_def)

definition granted :: "user list \<Rightarrow> oidc_config \<Rightarrow> session_row list \<Rightarrow> bool" where
  "granted us a tbl \<longleftrightarrow> (\<forall>s \<in> set tbl. (sn_user s, sn_role s) \<in> grants us a \<and> roleRank (sn_role s) > 0 \<and> sn_user s \<noteq> [])"

lemma granted_filter: "granted us a tbl \<Longrightarrow> granted us a (filter P tbl)"
  by (simp add: granted_def)

lemma check_granted:
  assumes "v = WithSessions (WithUsers us (NewValidator rt))" "granted us a tbl" "check v env dbf now md tbl = Inr p"
    and "\<forall>u \<in> set us. roleRank (us_role u) > 0 \<and> us_id u \<noteq> [] \<and> us_id u \<noteq> ''root''"
  shows "p = RootPrincipal \<or> \<not> pr_root p \<and> (pr_user p, pr_role p) \<in> grants us a \<and> roleRank (pr_role p) > 0 \<and> pr_user p \<noteq> []"
proof -
  consider "p = RootPrincipal" | tok where "map_of (va_users v) tok = Some p"
    | tok s where "LookupSession env dbf now tok tbl = Inr (Some s)" "p = sessionPrincipal s"
    using assms(3) by (auto simp: check_Inr)
  then show ?thesis
  proof cases
    case 2
    then obtain u where "u \<in> set us" "p = \<lparr>pr_user = us_id u, pr_role = us_role u, pr_root = False\<rparr>"
      using assms(1) by (auto simp: WithSessions_def WithUsers_def dest!: map_of_SomeD)
    then show ?thesis using assms(4) by (auto simp: grants_def)
  next
    case 3
    then have "s \<in> set tbl" by (auto simp: LookupSession_Some find_Some_iff)
    then show ?thesis using 3(2) assms(2) by (auto simp: granted_def sessionPrincipal_def)
  qed simp
qed

lemma CreateSession_granted:
  assumes "granted us a tbl" "CreateSession env dbf rnd idb now u dn r ttl tbl = Inr ((row, tok), tbl')"
    and "(if u = [] then ''default'' else u, r) \<in> grants us a" "roleRank r > 0"
  shows "granted us a tbl'"
  using assms CreateSession_Inr [OF assms(2)] by (auto simp: granted_def)

lemma oidcCallback_cases:
  "oidcCallback env dbf rnd idb now a exchange sc vc st er co tbl = (r, tbl') \<Longrightarrow>
     tbl' = tbl \<or> (\<exists>claims u ro row tok. OIDCPrincipal a claims = Inr (u, ro) \<and>
       CreateSession env dbf rnd idb now u u ro DefaultSessionTTL tbl = Inr ((row, tok), tbl'))"
proof (cases "\<exists>ver claims u ro. vc = Some ver \<and> exchange co ver = Inr claims \<and> OIDCPrincipal a claims = Inr (u, ro)")
  case True
  then obtain ver claims u ro where v: "vc = Some ver" "exchange co ver = Inr claims" "OIDCPrincipal a claims = Inr (u, ro)" by blast
  assume "oidcCallback env dbf rnd idb now a exchange sc vc st er co tbl = (r, tbl')"
  then have "tbl' = tbl \<or> (\<exists>row tok. CreateSession env dbf rnd idb now u u ro DefaultSessionTTL tbl = Inr ((row, tok), tbl'))"
    using v unfolding oidcCallback_def
    by (cases "CreateSession env dbf rnd idb now u u ro DefaultSessionTTL tbl") (auto split: option.splits if_splits)
  then show ?thesis using v(3) by blast
next
  case False
  assume "oidcCallback env dbf rnd idb now a exchange sc vc st er co tbl = (r, tbl')"
  then show ?thesis using False by (auto simp: oidcCallback_def split: option.splits if_splits sum.splits)
qed

lemma auth_reach_granted:
  assumes "auth_reach v env a tbl" "v = WithSessions (WithUsers us (NewValidator rt))" "NewOIDCAuthenticator disc cfg = Inr a"
    and "\<forall>u \<in> set us. roleRank (us_role u) > 0 \<and> us_id u \<noteq> [] \<and> us_id u \<noteq> ''root''"
  shows "granted us a tbl"
  using assms(1)
proof (induction rule: auth_reach.induct)
  case no_sessions
  then show ?case by (simp add: granted_def)
next
  case (logs_in tbl dbf now md p dbf' rnd idb now' dn ttl x tbl')
  obtain row tok where x: "x = (row, tok)" by (cases x)
  let ?u = "if \<not> pr_root p then pr_user p else ''default''"
  have "(if ?u = [] then ''default'' else ?u, pr_role p) \<in> grants us a" "roleRank (pr_role p) > 0"
    using check_granted [OF assms(2) logs_in.IH logs_in.hyps(2) assms(4)]
    by (auto simp: RootPrincipal_def default_granted)
  then show ?case using CreateSession_granted [OF logs_in.IH Login_Inr [OF logs_in.hyps(3) [unfolded x]]] by blast
next
  case (signs_on tbl dbf rnd idb now exchange sc vc st er co r tbl')
  show ?case
  proof (cases "tbl' = tbl")
    case False
    then obtain claims u ro row tok where o: "OIDCPrincipal a claims = Inr (u, ro)"
        "CreateSession env dbf rnd idb now u u ro DefaultSessionTTL tbl = Inr ((row, tok), tbl')"
      using oidcCallback_cases [OF signs_on.hyps(2)] by blast
    have "(if u = [] then ''default'' else u, ro) \<in> grants us a" using o(1) unfolding grants_def by blast
    then show ?thesis using CreateSession_granted [OF signs_on.IH o(2)] OIDCPrincipal_rank [OF assms(3) o(1)] by blast
  qed (use signs_on.IH in simp)
next
  case (logs_out tbl dbf md tbl')
  then show ?case by (auto simp: Logout_def DeleteByToken_def res_simps granted_filter split: if_splits sum.splits)
next
  case (deletes tbl dbf i tbl')
  then show ?case by (auto simp: DeleteSession_def res_simps granted_filter)
next
  case (sweeps tbl dbf now n tbl')
  then show ?case by (auto simp: GCExpired_def Let_def res_simps granted_filter)
qed



subsection \<open>Single sign-on fails closed\<close>

lemma foldl_consider:
  "foldl (considerClaim m) b cs \<in> insert b {r. \<exists>c \<in> set cs. map_of m c = Some r} \<and>
   roleRank b \<le> roleRank (foldl (considerClaim m) b cs) \<and>
   (\<forall>c \<in> set cs. \<forall>r. map_of m c = Some r \<longrightarrow> roleRank r \<le> roleRank (foldl (considerClaim m) b cs))"
proof (induction cs arbitrary: b)
  case (Cons c cs)
  let ?b = "considerClaim m b c"
  have b: "?b \<in> insert b {r. map_of m c = Some r}" "roleRank b \<le> roleRank ?b" "\<forall>r. map_of m c = Some r \<longrightarrow> roleRank r \<le> roleRank ?b"
    by (auto simp: considerClaim_def split: option.splits)
  show ?case using Cons.IH [of ?b] b by (simp, intro conjI) (auto intro: order_trans)
qed simp

text \<open>
  Single sign-on assigns a role only from the configuration: a user without a mapped claim value gets the
  default role, without a default role no session at all; otherwise the role is the most privileged of the
  default and the roles mapped from the claim values, and a known one.
\<close>
theorem oidc_fails_closed:
  assumes "NewOIDCAuthenticator disc cfg = Inr a"
  shows "(OIDCPrincipal a claims = Inr (u, r) \<longrightarrow> roleRank r > 0 \<and>
      (r = oc_defaultRole a \<or> (\<exists>c \<in> set (claimStrings (objGet claims (oc_roleClaim a))). map_of (oc_roleMapping a) c = Some r)) \<and>
      (\<forall>c \<in> set (claimStrings (objGet claims (oc_roleClaim a))). \<forall>r'. map_of (oc_roleMapping a) c = Some r' \<longrightarrow> roleRank r' \<le> roleRank r)) \<and>
    (oc_defaultRole a = [] \<and> (\<forall>c \<in> set (claimStrings (objGet claims (oc_roleClaim a))). map_of (oc_roleMapping a) c = None) \<longrightarrow>
      snd (oidcCallback env dbf rnd idb now a (\<lambda>_ _. Inr claims) sc vc st er co tbl) = tbl)"
proof -
  let ?cs = "claimStrings (objGet claims (oc_roleClaim a))"
  note f = foldl_consider [of "oc_roleMapping a" "oc_defaultRole a" ?cs]
  have "OIDCPrincipal a claims = Inr (u, r) \<Longrightarrow> r = foldl (considerClaim (oc_roleMapping a)) (oc_defaultRole a) ?cs"
    by (auto simp: OIDCPrincipal_def mapRole_def split: if_splits)
  moreover have "\<not> isOk (OIDCPrincipal a claims)" if "oc_defaultRole a = []" "\<forall>c \<in> set ?cs. map_of (oc_roleMapping a) c = None"
    using f that by (auto simp: OIDCPrincipal_def mapRole_def isOk_def)
  then have "snd (oidcCallback env dbf rnd idb now a (\<lambda>_ _. Inr claims) sc vc st er co tbl) = tbl"
    if "oc_defaultRole a = []" "\<forall>c \<in> set ?cs. map_of (oc_roleMapping a) c = None"
    using that by (auto simp: oidcCallback_def isOk_def split: option.splits sum.splits)
  ultimately show ?thesis using f OIDCPrincipal_rank [OF assms] by auto
qed

theorem oidc_fails_closed_witness:
  "\<exists>a. OIDCPrincipal a [(''groups'', VArr [VStr ''ops'', VStr ''dev'']), (''email'', VStr ''bo'')] = Inr (''bo'', RoleEditor) \<and> roleRank RoleEditor > 0"
proof -
  let ?cfg = "\<lparr>oc_roleClaim = [], oc_roleMapping = [(''dev'', RoleViewer), (''ops'', RoleEditor)], oc_defaultRole = [], oc_usernameClaim = []\<rparr>"
  let ?cl = "[(''groups'', VArr [VStr ''ops'', VStr ''dev'']), (''email'', VStr ''bo'')]"
  let ?a = "\<lparr>oc_roleClaim = ''groups'', oc_roleMapping = [(''dev'', RoleViewer), (''ops'', RoleEditor)], oc_defaultRole = [], oc_usernameClaim = ''email''\<rparr>"
  have a: "NewOIDCAuthenticator None ?cfg = Inr ?a" by (simp add: NewOIDCAuthenticator_def parseRole_def)
  have p: "OIDCPrincipal ?a ?cl = Inr (''bo'', RoleEditor)" by code_simp
  show ?thesis using oidc_fails_closed [OF a, of ?cl "''bo''" RoleEditor] p by blast
qed

subsection \<open>Signed pushes\<close>

lemma hexVal_hexDigit: "n < 16 \<Longrightarrow> hexVal (hexDigit n) = Some n"
  by (auto simp: hexVal_def hexDigit_def Let_def)

lemma decodeHex_hexString: "\<forall>b \<in> set bs. b < 256 \<Longrightarrow> decodeHex (hexString bs) = Some bs"
proof (induction bs)
  case (Cons b bs)
  then have "b div 16 mod 16 = b div 16" by (intro mod_less) auto
  then have "hexVal (hexDigit (b div 16 mod 16)) = Some (b div 16)" "hexVal (hexDigit (b mod 16)) = Some (b mod 16)"
    by (simp_all add: hexVal_hexDigit)
  then show ?case using Cons by (simp add: hexString_def hexByte_def)
qed (simp add: hexString_def)

text \<open>
  With a secret configured, the push webhook triggers a reconcile only for a POST whose signature header
  decodes to the HMAC of the body that was read; and the signature a sender computes is accepted.
\<close>
theorem webhook_authenticated:
  assumes "secret \<noteq> []"
  shows "(snd (WebhookServeHTTP hmac secret meth (Inr body) header) \<longrightarrow> meth = ''POST'' \<and>
      (\<exists>hx. header = ''sha256='' @ hx \<and> decodeHex hx = Some (hmac secret (take (5 * 1024 * 1024) body)))) \<and>
    ((\<forall>b \<in> set (hmac secret (take (5 * 1024 * 1024) body)). b < 256) \<longrightarrow>
      snd (WebhookServeHTTP hmac secret ''POST'' (Inr body) (''sha256='' @ hexString (hmac secret (take (5 * 1024 * 1024) body)))))"
proof -
  have sig: "validSignature hmac secret b header \<Longrightarrow> \<exists>hx. header = ''sha256='' @ hx \<and> decodeHex hx = Some (hmac secret b)" for b
    by (auto simp: validSignature_def cutPrefix_Some split: option.splits)
  have "validSignature hmac secret b (''sha256='' @ hexString (hmac secret b))" if "\<forall>x \<in> set (hmac secret b). x < 256" for b
    unfolding validSignature_def cutPrefix_append using decodeHex_hexString [OF that] by simp
  then show ?thesis using sig assms unfolding WebhookServeHTTP_def Let_def by (auto split: if_splits)
qed

theorem webhook_authenticated_witness:
  "snd (WebhookServeHTTP (\<lambda>k b. [1, 255]) ''k'' ''POST'' (Inr ''push'') (''sha256='' @ hexString [1, 255]))"
proof -
  have "''k'' \<noteq> []" by simp
  from webhook_authenticated [OF this, of "\<lambda>k b. [1, 255]" _ "''push''"] show ?thesis by simp
qed

end
