(* ===== verification/Drift.thy ===== *)
theory Drift
  imports Hashing
begin

text \<open>
  Comparing desired and observed specs: internal/controller/server/drift.go (the drift report of the API) and
  internal/controller/reconciler/compare.go (the yes/no test of the periodic reconciler).  Go's rendering of
  floats that are not integers and of composite values is a parameter; it only ever reaches displayed text,
  and the comparison of values of different types in the reconciler.
\<close>

record fmt_env =
  fe_float :: "rat \<Rightarrow> string"
  fe_any :: "val \<Rightarrow> string"

record drift_entry =
  de_path :: string
  de_desired :: string
  de_observed :: string

subsection \<open>The drift report (server/drift.go)\<close>

definition renderValue :: "fmt_env \<Rightarrow> val \<Rightarrow> string" where
  "renderValue fe v =
     (case v of
        VNil \<Rightarrow> ''<unset>''
      | VStr s \<Rightarrow> s
      | VBool b \<Rightarrow> if b then ''true'' else ''false''
      | VInt i \<Rightarrow> showInt i
      | VFloat q \<Rightarrow> if q = of_int \<lfloor>q\<rfloor> then showInt \<lfloor>q\<rfloor> else fe_float fe q
      | _ \<Rightarrow> fe_any fe v)"

text \<open>Equality of interface values compares dynamic types first.\<close>

definition valuesEqual :: "val \<Rightarrow> val \<Rightarrow> bool" where
  "valuesEqual a b =
     (if a = VNil \<and> b = VNil then True
      else (case (numVal a, numVal b) of (Some x, Some y) \<Rightarrow> x = y | _ \<Rightarrow> a = b))"

definition driftAt :: "fmt_env \<Rightarrow> string \<Rightarrow> val \<Rightarrow> val \<Rightarrow> drift_entry" where
  "driftAt fe path desired observed =
     \<lparr>de_path = path, de_desired = renderValue fe desired, de_observed = renderValue fe observed\<rparr>"

fun walk :: "fmt_env \<Rightarrow> string \<Rightarrow> val \<Rightarrow> val \<Rightarrow> drift_entry list"
  and walkKvs :: "fmt_env \<Rightarrow> string \<Rightarrow> (string \<times> val) list \<Rightarrow> obj \<Rightarrow> (string \<times> drift_entry list) list"
  and walkArr :: "fmt_env \<Rightarrow> string \<Rightarrow> nat \<Rightarrow> val list \<Rightarrow> val list \<Rightarrow> drift_entry list" where
  "walk fe path (VObj d) observed =
     (case observed of
        VObj m \<Rightarrow> concat (map snd (sort_key fst (walkKvs fe path d m)))
      | _ \<Rightarrow> [driftAt fe path (VObj d) observed])"
| "walk fe path (VArr d) observed =
     (case observed of
        VArr xs \<Rightarrow>
          (if length d \<noteq> length xs
           then [\<lparr>de_path = path @ ''.length'', de_desired = digits (length d), de_observed = digits (length xs)\<rparr>] else [])
          @ walkArr fe path 0 d xs
      | _ \<Rightarrow> [driftAt fe path (VArr d) observed])"
| "walk fe path VNil observed = (if valuesEqual VNil observed then [] else [driftAt fe path VNil observed])"
| "walk fe path (VBool b) observed = (if valuesEqual (VBool b) observed then [] else [driftAt fe path (VBool b) observed])"
| "walk fe path (VInt i) observed = (if valuesEqual (VInt i) observed then [] else [driftAt fe path (VInt i) observed])"
| "walk fe path (VFloat q) observed = (if valuesEqual (VFloat q) observed then [] else [driftAt fe path (VFloat q) observed])"
| "walk fe path (VStr s) observed = (if valuesEqual (VStr s) observed then [] else [driftAt fe path (VStr s) observed])"
| "walkKvs fe path [] m = []"
| "walkKvs fe path ((k, v) # d) m = (k, walk fe (path @ ''.'' @ k) v (objGet m k)) # walkKvs fe path d m"
| "walkArr fe path i [] xs = []"
| "walkArr fe path i (v # d) [] = []"
| "walkArr fe path i (v # d) (x # xs) =
     walk fe (path @ ''['' @ digits i @ '']'') v x @ walkArr fe path (Suc i) d xs"

definition computeDrift :: "fmt_env \<Rightarrow> obj option \<Rightarrow> obj option \<Rightarrow> drift_entry list" where
  "computeDrift fe desired observed = sort_key de_path (walk fe ''spec'' (specVal desired) (specVal observed))"

subsection \<open>The test of the reconciler (reconciler/compare.go)\<close>

text \<open>The \<^verbatim>\<open>%v\<close> verb.\<close>

definition sprintV :: "fmt_env \<Rightarrow> val \<Rightarrow> string" where
  "sprintV fe v =
     (case v of
        VNil \<Rightarrow> ''<nil>''
      | VStr s \<Rightarrow> s
      | VBool b \<Rightarrow> if b then ''true'' else ''false''
      | VInt i \<Rightarrow> showInt i
      | _ \<Rightarrow> fe_any fe v)"

definition scalarEqual :: "fmt_env \<Rightarrow> val \<Rightarrow> val \<Rightarrow> bool" where
  "scalarEqual fe a b =
     (if a = VNil \<and> b = VNil then True
      else (case (numVal a, numVal b) of (Some x, Some y) \<Rightarrow> x = y | _ \<Rightarrow> sprintV fe a = sprintV fe b))"

fun compareNode :: "fmt_env \<Rightarrow> val \<Rightarrow> val \<Rightarrow> bool"
  and compareKvs :: "fmt_env \<Rightarrow> (string \<times> val) list \<Rightarrow> obj \<Rightarrow> bool"
  and compareArr :: "fmt_env \<Rightarrow> val list \<Rightarrow> val list \<Rightarrow> bool" where
  "compareNode fe (VObj d) observed = (case observed of VObj m \<Rightarrow> compareKvs fe d m | _ \<Rightarrow> False)"
| "compareNode fe (VArr d) observed = (case observed of VArr xs \<Rightarrow> length d = length xs \<and> compareArr fe d xs | _ \<Rightarrow> False)"
| "compareNode fe VNil observed = scalarEqual fe VNil observed"
| "compareNode fe (VBool b) observed = scalarEqual fe (VBool b) observed"
| "compareNode fe (VInt i) observed = scalarEqual fe (VInt i) observed"
| "compareNode fe (VFloat q) observed = scalarEqual fe (VFloat q) observed"
| "compareNode fe (VStr s) observed = scalarEqual fe (VStr s) observed"
| "compareKvs fe [] m = True"
| "compareKvs fe ((k, v) # d) m = (compareNode fe v (objGet m k) \<and> compareKvs fe d m)"
| "compareArr fe [] xs = True"
| "compareArr fe (v # d) xs = (case xs of [] \<Rightarrow> True | x # xs' \<Rightarrow> compareNode fe v x \<and> compareArr fe d xs')"

definition specsEqual :: "fmt_env \<Rightarrow> obj option \<Rightarrow> obj option \<Rightarrow> bool" where
  "specsEqual fe desired observed = compareNode fe (specVal desired) (specVal observed)"

subsection \<open>The rule\<close>

text \<open>
  The loose comparison as a relation: every field the manifest sets is observed with the same value; fields
  it does not set are not looked at; lists agree in length and element by element.
\<close>

inductive conforms :: "val \<Rightarrow> val \<Rightarrow> bool" where
  conf_obj: "(\<And>k v. map_of d k = Some v \<Longrightarrow> conforms v (objGet m k)) \<Longrightarrow> conforms (VObj d) (VObj m)"
| conf_arr: "length d = length xs \<Longrightarrow> (\<And>i. i < length d \<Longrightarrow> conforms (d ! i) (xs ! i)) \<Longrightarrow> conforms (VArr d) (VArr xs)"
| conf_num: "numVal v = Some q \<Longrightarrow> numVal x = Some q \<Longrightarrow> conforms v x"
| conf_same: "v \<in> {VNil, VBool b, VStr s} \<Longrightarrow> conforms v v"

inductive_cases conforms_objE: "conforms (VObj d) x"
inductive_cases conforms_arrE: "conforms (VArr d) x"

lemma conforms_scalar [simp]:
  "conforms VNil x \<longleftrightarrow> x = VNil" "conforms (VBool b) x \<longleftrightarrow> x = VBool b" "conforms (VStr s) x \<longleftrightarrow> x = VStr s"
  "conforms (VInt i) x \<longleftrightarrow> numVal x = Some (of_int i)" "conforms (VFloat q) x \<longleftrightarrow> numVal x = Some q"
  by (auto intro: conforms.intros elim: conforms.cases)

lemma conforms_obj_iff: "conforms (VObj d) x \<longleftrightarrow> (\<exists>m. x = VObj m \<and> (\<forall>k v. map_of d k = Some v \<longrightarrow> conforms v (objGet m k)))"
  by (auto intro: conf_obj elim: conforms_objE)

lemma conforms_arr_iff:
  "conforms (VArr d) x \<longleftrightarrow> (\<exists>xs. x = VArr xs \<and> length d = length xs \<and> (\<forall>i < length d. conforms (d ! i) (xs ! i)))"
  by (auto intro: conf_arr elim: conforms_arrE)

subsection \<open>The report follows the rule\<close>

lemma valuesEqual_conforms:
  "valuesEqual VNil x \<longleftrightarrow> conforms VNil x" "valuesEqual (VBool b) x \<longleftrightarrow> conforms (VBool b) x"
  "valuesEqual (VInt i) x \<longleftrightarrow> conforms (VInt i) x" "valuesEqual (VFloat q) x \<longleftrightarrow> conforms (VFloat q) x"
  "valuesEqual (VStr s) x \<longleftrightarrow> conforms (VStr s) x"
  by (cases x; auto simp: valuesEqual_def)+

lemma walk_Nil:
  "wf_val v \<Longrightarrow> walk fe path v x = [] \<longleftrightarrow> conforms v x"
  "wf_kvs d \<Longrightarrow> (\<forall>ke \<in> set (walkKvs fe path d m). snd ke = []) \<longleftrightarrow> (\<forall>kv \<in> set d. conforms (snd kv) (objGet m (fst kv)))"
  "wf_arr ds \<Longrightarrow> walkArr fe path i ds xs = [] \<longleftrightarrow> (\<forall>j < min (length ds) (length xs). conforms (ds ! j) (xs ! j))"
proof (induction fe path v x and fe path d m and fe path i ds xs rule: walk_walkKvs_walkArr.induct)
  case (1 fe path d x)
  show ?case
  proof (cases x)
    case (VObj m)
    have "distinct (map fst d)" "wf_kvs d" using "1.prems" by auto
    then have "(\<forall>kv \<in> set d. conforms (snd kv) (objGet m (fst kv))) \<longleftrightarrow> (\<forall>k v. map_of d k = Some v \<longrightarrow> conforms v (objGet m k))"
      by (auto dest: map_of_SomeD)
    then show ?thesis using "1.IH" [OF VObj] VObj \<open>wf_kvs d\<close> by (simp add: conforms_obj_iff)
  qed (simp_all add: conforms_obj_iff)
next
  case (2 fe path d x)
  show ?case
  proof (cases x)
    case (VArr xs)
    then show ?thesis using 2 by (auto simp: conforms_arr_iff)
  qed (simp_all add: conforms_arr_iff)
next
  case (12 fe path i v d x xs)
  have "(\<forall>j < min (length (v # d)) (length (x # xs)). conforms ((v # d) ! j) ((x # xs) ! j)) \<longleftrightarrow>
      conforms v x \<and> (\<forall>j < min (length d) (length xs). conforms (d ! j) (xs ! j))"
    by (auto simp: less_Suc_eq_0_disj)
  then show ?case using 12 by simp
qed (simp_all add: valuesEqual_conforms)

text \<open>
  C17. The drift report is exact: it is empty if and only if the observed spec conforms to the desired one,
  that is, every field the manifest sets is observed with that value; whatever else the provider reports.
\<close>
theorem drift_iff_nonconforming:
  assumes "wf_val (specVal desired)"
  shows "computeDrift fe desired observed = [] \<longleftrightarrow> conforms (specVal desired) (specVal observed)"
  using walk_Nil(1) [OF assms] by (simp add: computeDrift_def)

theorem drift_iff_nonconforming_witness:
  "conforms (specVal (Some [(''cpu'', VInt 2)])) (specVal (Some [(''mac'', VStr ''x''), (''cpu'', VFloat 2)]))"
proof -
  have "computeDrift \<lparr>fe_float = (\<lambda>_. []), fe_any = (\<lambda>_. [])\<rparr> (Some [(''cpu'', VInt 2)]) (Some [(''mac'', VStr ''x''), (''cpu'', VFloat 2)]) = []"
    by code_simp
  moreover have "wf_val (specVal (Some [(''cpu'', VInt 2)]))" by code_simp
  ultimately show ?thesis using drift_iff_nonconforming by blast
qed

subsection \<open>Report and test\<close>

lemma valuesEqual_scalarEqual: "valuesEqual a b \<Longrightarrow> scalarEqual fe a b"
  by (auto simp: valuesEqual_def scalarEqual_def split: option.splits)

lemma walk_compare:
  "walk fe path v x = [] \<Longrightarrow> compareNode fe v x"
  "(\<forall>ke \<in> set (walkKvs fe path d m). snd ke = []) \<Longrightarrow> compareKvs fe d m"
  "walkArr fe path i ds xs = [] \<Longrightarrow> compareArr fe ds xs"
  by (induction fe path v x and fe path d m and fe path i ds xs rule: walk_walkKvs_walkArr.induct)
     (auto split: val.splits if_splits intro: valuesEqual_scalarEqual)

text \<open>No scalar of the desired spec meets a value of another type that prints the same.\<close>

definition sameText :: "fmt_env \<Rightarrow> val \<Rightarrow> val \<Rightarrow> bool" where
  "sameText fe a b \<longleftrightarrow> scalarEqual fe a b \<and> \<not> valuesEqual a b"

fun unambiguous :: "fmt_env \<Rightarrow> val \<Rightarrow> val \<Rightarrow> bool"
  and unambiguousKvs :: "fmt_env \<Rightarrow> (string \<times> val) list \<Rightarrow> obj \<Rightarrow> bool"
  and unambiguousArr :: "fmt_env \<Rightarrow> val list \<Rightarrow> val list \<Rightarrow> bool" where
  "unambiguous fe (VObj d) x = (case x of VObj m \<Rightarrow> unambiguousKvs fe d m | _ \<Rightarrow> True)"
| "unambiguous fe (VArr d) x = (case x of VArr xs \<Rightarrow> unambiguousArr fe d xs | _ \<Rightarrow> True)"
| "unambiguous fe VNil x = (\<not> sameText fe VNil x)"
| "unambiguous fe (VBool b) x = (\<not> sameText fe (VBool b) x)"
| "unambiguous fe (VInt i) x = (\<not> sameText fe (VInt i) x)"
| "unambiguous fe (VFloat q) x = (\<not> sameText fe (VFloat q) x)"
| "unambiguous fe (VStr s) x = (\<not> sameText fe (VStr s) x)"
| "unambiguousKvs fe [] m = True"
| "unambiguousKvs fe ((k, v) # d) m = (unambiguous fe v (objGet m k) \<and> unambiguousKvs fe d m)"
| "unambiguousArr fe [] xs = True"
| "unambiguousArr fe (v # d) [] = True"
| "unambiguousArr fe (v # d) (x # xs) = (unambiguous fe v x \<and> unambiguousArr fe d xs)"

lemma compare_walk:
  "compareNode fe v x \<Longrightarrow> unambiguous fe v x \<Longrightarrow> walk fe path v x = []"
  "compareKvs fe d m \<Longrightarrow> unambiguousKvs fe d m \<Longrightarrow> \<forall>ke \<in> set (walkKvs fe path d m). snd ke = []"
  "compareArr fe ds xs \<Longrightarrow> unambiguousArr fe ds xs \<Longrightarrow> walkArr fe path i ds xs = []"
  by (induction fe path v x and fe path d m and fe path i ds xs rule: walk_walkKvs_walkArr.induct)
     (auto simp: sameText_def split: val.splits if_splits)

text \<open>
  The reconciler and the drift report agree: a spec without reported drift is equal for the reconciler,
  and a spec that is equal for the reconciler has no reported drift unless some desired scalar meets a value
  of another type that prints the same.
\<close>
theorem reconciler_agrees_with_report:
  "(computeDrift fe desired observed = [] \<longrightarrow> specsEqual fe desired observed) \<and>
   (unambiguous fe (specVal desired) (specVal observed) \<longrightarrow> specsEqual fe desired observed \<longrightarrow>
      computeDrift fe desired observed = [])"
  using walk_compare(1) compare_walk(1) by (auto simp: computeDrift_def specsEqual_def)

theorem reconciler_agrees_with_report_witness:
  "computeDrift \<lparr>fe_float = (\<lambda>_. []), fe_any = (\<lambda>_. [])\<rparr> (Some [(''cpu'', VInt 2)]) (Some [(''cpu'', VFloat 2)]) = []"
proof -
  let ?fe = "\<lparr>fe_float = (\<lambda>_. []), fe_any = (\<lambda>_. [])\<rparr>"
  have "unambiguous ?fe (specVal (Some [(''cpu'', VInt 2)])) (specVal (Some [(''cpu'', VFloat 2)]))"
    "specsEqual ?fe (Some [(''cpu'', VInt 2)]) (Some [(''cpu'', VFloat 2)])" by code_simp+
  then show ?thesis using reconciler_agrees_with_report by blast
qed

text \<open>
  The two comparisons do differ: a desired number two and an observed text \<^verbatim>\<open>2\<close> are drift for the report
  and equal for the reconciler, so the periodic loop neither logs nor repairs what the API shows as drift.
\<close>
theorem reconciler_blind_to_types:
  "computeDrift fe (Some [(''cpu'', VInt 2)]) (Some [(''cpu'', VStr ''2'')]) \<noteq> [] \<and>
   specsEqual fe (Some [(''cpu'', VInt 2)]) (Some [(''cpu'', VStr ''2'')])"
  by (simp add: computeDrift_def specsEqual_def specVal_def objGet_def valuesEqual_def scalarEqual_def sprintV_def
      showInt_def digits.simps) code_simp

end
