(* ===== verification/GitOps.thy ===== *)
theory GitOps
  imports Sink
begin

text \<open>
  Files back into operations: reconcile.go (the start-up comparison of table and files), watcher.go (a changed
  file becomes an apply, a removed one a delete), prune.go (deleting what the repository no longer has) and
  githook.go of internal/controller/manifests, with the functions that cmd/openctl-controller/main.go passes
  to them (each submits an operation tagged \<^verbatim>\<open>gitops\<close>).  The watcher and the pruner take the submitting function
  as an argument, as in the source.  A walk of the tree may fail after some files: \<open>stopAt\<close>.
\<close>

subsection \<open>Submitting from a file (cmd/openctl-controller/main.go)\<close>

text \<open>The clock, identifier, retention cap and driver failures of one submission.\<close>

record submit_env =
  se_io :: io
  se_now :: string
  se_newid :: string
  se_retain :: int

definition newOperation :: "string \<Rightarrow> string \<Rightarrow> string \<Rightarrow> string \<Rightarrow> doc \<Rightarrow> string \<Rightarrow> operation" where
  "newOperation ty av k n m src =
     \<lparr>op_id = [], op_parent = [], op_type = ty, op_apiVersion = av, op_kind = k, op_name = n, op_label = [],
      op_manifest = m, op_result = NoDoc, op_status = [], op_error = [], op_submitted = [], op_started = [],
      op_completed = [], op_source = src\<rparr>"

definition submitOp :: "submit_env \<Rightarrow> operation \<Rightarrow> mirror \<Rightarrow> err option \<times> mirror" where
  "submitOp se o1 m =
     (case Submit (se_io se) (se_now se) (se_newid se) (se_retain se) o1 (mi_db m) of
        ((_, e), d) \<Rightarrow> (e, m\<lparr>mi_db := d\<rparr>))"

definition gitopsApply :: "submit_env \<Rightarrow> resource \<Rightarrow> mirror \<Rightarrow> err option \<times> mirror" where
  "gitopsApply se r = submitOp se (newOperation TypeApply (r_apiVersion r) (r_kind r) (r_name r) (Doc r) SourceGitOps)"

definition gitopsDelete :: "submit_env \<Rightarrow> string \<Rightarrow> string \<Rightarrow> string \<Rightarrow> mirror \<Rightarrow> err option \<times> mirror" where
  "gitopsDelete se av k n = submitOp se (newOperation TypeDelete av k n NoDoc SourceGitOps)"

subsection \<open>The start-up comparison (reconcile.go)\<close>

record reconcile_report =
  rp_missing :: "manifest_ref list"
  rp_orphans :: "string list"

text \<open>\<open>lio\<close> and \<open>dio\<close>: the failures of the load and of the write for each reference.\<close>

fun reconcileRefs ::
  "mirror_env \<Rightarrow> db \<Rightarrow> (manifest_ref \<Rightarrow> string option) \<Rightarrow> (manifest_ref \<Rightarrow> io) \<Rightarrow> manifest_ref list \<Rightarrow> manifest_ref list
     \<Rightarrow> fs \<Rightarrow> (manifest_ref list \<times> err option) \<times> fs" where
  "reconcileRefs env d lio dio [] missing f = ((missing, None), f)"
| "reconcileRefs env d lio dio (x # xs) missing f =
     (if fileAt f (pathFor (me_root env) (mr_apiVersion x) (mr_kind x) (mr_name x)) \<noteq> None
      then reconcileRefs env d lio dio xs missing f
      else
        (case Load (lio x) d (mr_apiVersion x) (mr_kind x) (mr_name x) of
           Inl e \<Rightarrow> ((missing @ [x], Some (Wrap (''load '' @ mr_kind x @ ''/'' @ mr_name x @ '' for re-materialize'') e)), f)
         | Inr None \<Rightarrow> reconcileRefs env d lio dio xs (missing @ [x]) f
         | Inr (Some r) \<Rightarrow>
             (case writeFile env (dio x) r f of
                Inl e \<Rightarrow> ((missing @ [x], Some (Wrap (''re-materialize '' @ mr_kind x @ ''/'' @ mr_name x) e)), f)
              | Inr f' \<Rightarrow> reconcileRefs env d lio dio xs (missing @ [x]) f')))"

definition walkCut :: "nat option \<Rightarrow> string \<Rightarrow> fs \<Rightarrow> string list" where
  "walkCut stopAt rt f = (case stopAt of None \<Rightarrow> walkYaml rt f | Some n \<Rightarrow> take n (walkYaml rt f))"

definition Reconcile ::
  "mirror_env \<Rightarrow> string option \<Rightarrow> (manifest_ref \<Rightarrow> string option) \<Rightarrow> (manifest_ref \<Rightarrow> io) \<Rightarrow> nat option \<Rightarrow> mirror
     \<Rightarrow> (reconcile_report \<times> err option) \<times> mirror" where
  "Reconcile env f lio dio stopAt m =
     (case ListAll f (mi_db m) of
        Inl e \<Rightarrow> ((\<lparr>rp_missing = [], rp_orphans = []\<rparr>, Some (Wrap ''list applied manifests'' e)), m)
      | Inr refs \<Rightarrow>
          (let expected = map (\<lambda>x. relPath (me_root env) (pathFor (me_root env) (mr_apiVersion x) (mr_kind x) (mr_name x))) refs in
           case reconcileRefs env (mi_db m) lio dio refs [] (mi_fs m) of
             ((missing, Some e), fs') \<Rightarrow> ((\<lparr>rp_missing = missing, rp_orphans = []\<rparr>, Some e), m\<lparr>mi_fs := fs'\<rparr>)
           | ((missing, None), fs') \<Rightarrow>
               ((\<lparr>rp_missing = missing,
                  rp_orphans = filter (\<lambda>rel. rel \<notin> set expected) (map (relPath (me_root env)) (walkCut stopAt (me_root env) fs'))\<rparr>,
                 None), m\<lparr>mi_fs := fs'\<rparr>)))"

subsection \<open>The watcher (watcher.go)\<close>

text \<open>\<^verbatim>\<open>json.Marshal\<close> of a spec, with sorted keys; a nil map is null.\<close>

definition specJson :: "obj option \<Rightarrow> nval" where
  "specJson s = (case s of None \<Rightarrow> NNil | Some m \<Rightarrow> normalize (VObj m))"

definition matchesStored :: "string option \<Rightarrow> db \<Rightarrow> resource \<Rightarrow> err + bool" where
  "matchesStored f d r =
     bindE (Load f d (r_apiVersion r) (r_kind r) (r_name r)) (\<lambda>stored.
       case stored of
         None \<Rightarrow> Inr False
       | Some x \<Rightarrow> Inr (specJson (r_spec x) = specJson (r_spec r)))"

text \<open>\<open>rd\<close> and \<open>lf\<close>: the failures of the read and of the load.  The result says whether an apply was submitted.\<close>

definition applyFileIfChanged ::
  "mirror_env \<Rightarrow> (resource \<Rightarrow> mirror \<Rightarrow> err option \<times> mirror) \<Rightarrow> string option \<Rightarrow> string option \<Rightarrow> string \<Rightarrow> mirror
     \<Rightarrow> bool \<times> mirror" where
  "applyFileIfChanged env ap rd lf path m =
     (case (rd, fileAt (mi_fs m) path) of
        (None, Some data) \<Rightarrow>
          (case me_unmarshal env data of
             Inl _ \<Rightarrow> (False, m)
           | Inr r \<Rightarrow>
               if r_apiVersion r = [] \<or> r_kind r = [] \<or> r_name r = [] then (False, m)
               else if matchesStored lf (mi_db m) r = Inr True then (False, m)
               else (case ap r m of (Some _, m') \<Rightarrow> (False, m') | (None, m') \<Rightarrow> (True, m')))
      | _ \<Rightarrow> (False, m))"

record fs_event =
  ev_name :: string
  ev_create :: bool
  ev_write :: bool
  ev_remove :: bool
  ev_rename :: bool

definition process ::
  "mirror_env \<Rightarrow> (resource \<Rightarrow> mirror \<Rightarrow> err option \<times> mirror)
     \<Rightarrow> (string \<Rightarrow> string \<Rightarrow> string \<Rightarrow> mirror \<Rightarrow> err option \<times> mirror) option
     \<Rightarrow> string option \<Rightarrow> string option \<Rightarrow> fs_event \<Rightarrow> mirror \<Rightarrow> mirror" where
  "process env ap del rd lf ev m =
     (if ev_remove ev \<or> ev_rename ev then
        (case del of
           None \<Rightarrow> m
         | Some dl \<Rightarrow>
             (case parsePathHint (me_root env) (ev_name ev) of
                None \<Rightarrow> m
              | Some (av, k, n) \<Rightarrow> snd (dl av k n m)))
      else snd (applyFileIfChanged env ap rd lf (ev_name ev) m))"

text \<open>
  The debounce table: \<open>handle\<close> replaces the pending event of a path, \<open>fire\<close> is the timer of a path running
  out.  \<open>isDir\<close> says whether the path is a directory.
\<close>

type_synonym pending = "(string \<times> fs_event) list"

definition handle :: "bool \<Rightarrow> fs_event \<Rightarrow> pending \<Rightarrow> pending" where
  "handle isDir ev pend =
     (if ev_create ev \<and> isDir then pend
      else if \<not> hasSuffix (ev_name ev) ''.yaml'' then pend
      else putKey pend (ev_name ev) ev)"

definition fire ::
  "mirror_env \<Rightarrow> (resource \<Rightarrow> mirror \<Rightarrow> err option \<times> mirror)
     \<Rightarrow> (string \<Rightarrow> string \<Rightarrow> string \<Rightarrow> mirror \<Rightarrow> err option \<times> mirror) option
     \<Rightarrow> string option \<Rightarrow> string option \<Rightarrow> string \<Rightarrow> pending \<times> mirror \<Rightarrow> pending \<times> mirror" where
  "fire env ap del rd lf path s =
     (case s of (pend, m) \<Rightarrow>
       case map_of pend path of
         None \<Rightarrow> (pend, m)
       | Some ev \<Rightarrow> (filter (\<lambda>(p, _). p \<noteq> path) pend, process env ap del rd lf ev m))"

fun syncFiles ::
  "mirror_env \<Rightarrow> (string \<Rightarrow> resource \<Rightarrow> mirror \<Rightarrow> err option \<times> mirror) \<Rightarrow> (string \<Rightarrow> string option) \<Rightarrow> (string \<Rightarrow> string option)
     \<Rightarrow> string list \<Rightarrow> mirror \<Rightarrow> mirror" where
  "syncFiles env ap rd lf [] m = m"
| "syncFiles env ap rd lf (p # ps) m =
     syncFiles env ap rd lf ps (snd (applyFileIfChanged env (ap p) (rd p) (lf p) p m))"

definition Sync ::
  "mirror_env \<Rightarrow> (string \<Rightarrow> resource \<Rightarrow> mirror \<Rightarrow> err option \<times> mirror) \<Rightarrow> (string \<Rightarrow> string option) \<Rightarrow> (string \<Rightarrow> string option)
     \<Rightarrow> nat option \<Rightarrow> mirror \<Rightarrow> err option \<times> mirror" where
  "Sync env ap rd lf stopAt m =
     (if stopAt = None then None else Some (Plain ''walk''), syncFiles env ap rd lf (walkCut stopAt (me_root env) (mi_fs m)) m)"

subsection \<open>Pruning (prune.go)\<close>

definition refKey :: "string \<Rightarrow> string \<Rightarrow> string \<Rightarrow> string" where
  "refKey av k n = av @ ''|'' @ k @ ''|'' @ n"

definition isLikelyCompositeChild :: "strmap \<Rightarrow> bool" where
  "isLikelyCompositeChild labels \<longleftrightarrow>
     strGet labels ''openctl.io/owner-kind'' \<noteq> [] \<or> strGet labels ''openctl.io/owner-name'' \<noteq> [] \<or>
     strGet labels ''k3s.openctl.io/cluster'' \<noteq> []"

definition onDiskRefs :: "nat option \<Rightarrow> string \<Rightarrow> fs \<Rightarrow> err + string list" where
  "onDiskRefs stopAt rt f =
     (if stopAt \<noteq> None then Inl (Plain ''walk'')
      else Inr (List.map_filter (\<lambda>p. map_option (\<lambda>(av, k, n). refKey av k n) (parsePathHint rt p)) (walkYaml rt f)))"

fun pruneRefs ::
  "(manifest_ref \<Rightarrow> string \<Rightarrow> string \<Rightarrow> string \<Rightarrow> mirror \<Rightarrow> err option \<times> mirror) \<Rightarrow> (manifest_ref \<Rightarrow> string option)
     \<Rightarrow> string list \<Rightarrow> manifest_ref list \<Rightarrow> mirror \<Rightarrow> manifest_ref list \<times> mirror" where
  "pruneRefs del lf onDisk [] m = ([], m)"
| "pruneRefs del lf onDisk (x # xs) m =
     (if refKey (mr_apiVersion x) (mr_kind x) (mr_name x) \<in> set onDisk then pruneRefs del lf onDisk xs m
      else
        (case Load (lf x) (mi_db m) (mr_apiVersion x) (mr_kind x) (mr_name x) of
           Inl _ \<Rightarrow> pruneRefs del lf onDisk xs m
         | Inr stored \<Rightarrow>
             if (case stored of None \<Rightarrow> False | Some r \<Rightarrow> isLikelyCompositeChild (md_labels (r_metadata r)))
             then pruneRefs del lf onDisk xs m
             else if mr_source x = SourceCLI \<or> mr_source x = SourceUI then pruneRefs del lf onDisk xs m
             else
               (case del x (mr_apiVersion x) (mr_kind x) (mr_name x) m of
                  (Some _, m') \<Rightarrow> pruneRefs del lf onDisk xs m'
                | (None, m') \<Rightarrow>
                    (case pruneRefs del lf onDisk xs m' of (pruned, m'') \<Rightarrow> (x # pruned, m'')))))"

definition Prune ::
  "mirror_env \<Rightarrow> (manifest_ref \<Rightarrow> string \<Rightarrow> string \<Rightarrow> string \<Rightarrow> mirror \<Rightarrow> err option \<times> mirror) option
     \<Rightarrow> string option \<Rightarrow> (manifest_ref \<Rightarrow> string option) \<Rightarrow> nat option \<Rightarrow> mirror \<Rightarrow> (err + manifest_ref list) \<times> mirror" where
  "Prune env del f lf stopAt m =
     (case del of
        None \<Rightarrow> (Inl (Plain ''pruner: delete func is required''), m)
      | Some dl \<Rightarrow>
          (case onDiskRefs stopAt (me_root env) (mi_fs m) of
             Inl e \<Rightarrow> (Inl e, m)
           | Inr onDisk \<Rightarrow>
               (case ListAll f (mi_db m) of
                  Inl e \<Rightarrow> (Inl e, m)
                | Inr refs \<Rightarrow> (case pruneRefs dl lf onDisk refs m of (pruned, m') \<Rightarrow> (Inr pruned, m')))))"

subsection \<open>Commits (githook.go)\<close>

definition toUpperAscii :: "char \<Rightarrow> char" where
  "toUpperAscii c = (let n = of_char c :: nat in if 97 \<le> n \<and> n \<le> 122 then char_of (n - 32) else c)"

definition commitMessage :: "string \<Rightarrow> string \<Rightarrow> string \<Rightarrow> string \<Rightarrow> string" where
  "commitMessage verb kind name source = verb @ '' '' @ kind @ ''/'' @ name @ '' via '' @ map toUpperAscii source"

text \<open>\<open>commit\<close> is \<^verbatim>\<open>Repo.CommitAll\<close>: no error, nothing to commit (\<open>Inl\<close>), or another error (\<open>Inr\<close>).\<close>

definition GitHook ::
  "(string \<Rightarrow> (unit + err) option) \<Rightarrow> (unit \<Rightarrow> err option) \<Rightarrow> bool \<Rightarrow> ctx \<Rightarrow> string \<Rightarrow> resource \<Rightarrow> string \<Rightarrow> err option" where
  "GitHook commit push pushAfterCommit c kind r verb =
     (let source = (if SourceFromContext c = [] then SourceCLI else SourceFromContext c) in
      case commit (commitMessage verb kind (r_name r) source) of
        Some (Inl _) \<Rightarrow> None
      | Some (Inr e) \<Rightarrow> Some e
      | None \<Rightarrow> (if pushAfterCommit then (case push () of Some _ \<Rightarrow> None | None \<Rightarrow> None) else None))"

subsection \<open>Lemmas\<close>

lemma fileAt_put: "fileAt (putKey f p t) q = (if q = p then Some t else fileAt f q)"
  by (simp add: fileAt_def)

lemma fileAt_rm: "fileAt (rmFile f p) q = (if q = p then None else fileAt f q)"
  unfolding fileAt_def rmFile_def by (induction f) auto

lemma writeFile_Inr:
  "writeFile env dio r f = Inr f' \<Longrightarrow>
     \<exists>t. me_marshal env r = Inr t \<and> f' = putKey f (pathFor (me_root env) (r_apiVersion r) (r_kind r) (r_name r)) t"
  by (auto simp: writeFile_def res_simps)

lemma submitOp_frame:
  "db_applied (mi_db (snd (submitOp se o1 m))) = db_applied (mi_db m)" "mi_fs (snd (submitOp se o1 m)) = mi_fs m"
proof -
  have tx: "db_applied d' = db_applied d" if "submitTx io now i o1 d = Inr (o2, d')" for io now i o2 d d'
    using that by (auto simp: submitTx_def insertOp_def Let_def res_simps split: if_splits)
  have "db_applied (snd (Submit io now i rt o1 d)) = db_applied d" for io now i rt d
    using tx by (auto simp: Submit_def gcResource_def res_simps split: sum.splits prod.splits if_splits)
  then show "db_applied (mi_db (snd (submitOp se o1 m))) = db_applied (mi_db m)"
    by (simp add: submitOp_def split: prod.splits) (metis snd_conv)
  show "mi_fs (snd (submitOp se o1 m)) = mi_fs m" by (simp add: submitOp_def split: prod.splits)
qed

lemma Load_eq:
  "Load None d av k n =
     (case findRow amKey (av, k, n) (db_applied d) of
        None \<Rightarrow> Inr None
      | Some row \<Rightarrow> (case am_spec row of
            Inl e \<Rightarrow> Inl (Wrap ''decode spec'' (Plain e))
          | Inr spec \<Rightarrow> Inr (Some \<lparr>r_apiVersion = av, r_kind = k,
              r_metadata = (case am_meta row of Inr (Some m) \<Rightarrow> m | _ \<Rightarrow> bareMetadata n), r_spec = spec, r_status = None\<rparr>)))"
  by (simp add: Load_def LoadWithTime_def Let_def split: option.split sum.split)

lemma Load_Some_fields:
  "Load f d av k n = Inr (Some r) \<Longrightarrow> r_apiVersion r = av \<and> r_kind r = k \<and>
     (\<exists>row. findRow amKey (av, k, n) (db_applied d) = Some row \<and> Inr (r_spec r) = am_spec row \<and>
        r_metadata r = (case am_meta row of Inr (Some m) \<Rightarrow> m | _ \<Rightarrow> bareMetadata n))"
  by (auto simp: Load_def LoadWithTime_def Let_def res_simps split: option.splits sum.splits)

lemma Load_cong: "db_applied d = db_applied d' \<Longrightarrow> Load f d = Load f d'"
  by (intro ext) (simp add: Load_def LoadWithTime_def)

subsection \<open>The start-up comparison restores and never destroys\<close>

text \<open>The metadata column of a row carries the row's name, as every save writes it.\<close>

definition namedRow :: "applied_row \<Rightarrow> bool" where
  "namedRow row \<longleftrightarrow> (case am_meta row of Inr (Some md) \<Rightarrow> md_name md = am_name row | _ \<Rightarrow> True)"

lemma Load_named:
  assumes "Load f d av k n = Inr (Some r)" "\<forall>row \<in> set (db_applied d). namedRow row"
  shows "r_name r = n"
proof -
  obtain row where row: "findRow amKey (av, k, n) (db_applied d) = Some row"
      "r_metadata r = (case am_meta row of Inr (Some m) \<Rightarrow> m | _ \<Rightarrow> bareMetadata n)"
    using Load_Some_fields [OF assms(1)] by blast
  have "namedRow row" "am_name row = n" using findRow_Some [OF row(1)] assms(2) by (auto simp: amKey_def)
  then show ?thesis using row(2) by (auto simp: namedRow_def bareMetadata_def split: sum.splits option.splits)
qed

lemma reconcile_step:
  assumes "\<forall>row \<in> set (db_applied d). namedRow row"
  shows "(\<exists>ms e. reconcileRefs env d lio dio (x # xs) missing f = ((ms, Some e), f)) \<or>
    (\<exists>ms f1. reconcileRefs env d lio dio (x # xs) missing f = reconcileRefs env d lio dio xs ms f1 \<and>
       (\<forall>p t. fileAt f p = Some t \<longrightarrow> fileAt f1 p = Some t) \<and>
       (findRow amKey (mr_apiVersion x, mr_kind x, mr_name x) (db_applied d) \<noteq> None \<longrightarrow>
          fileAt f1 (pathFor (me_root env) (mr_apiVersion x) (mr_kind x) (mr_name x)) \<noteq> None))"
proof (cases "fileAt f (pathFor (me_root env) (mr_apiVersion x) (mr_kind x) (mr_name x))")
  case (Some t)
  then show ?thesis by (intro disjI2 exI [of _ missing] exI [of _ f]) simp
next
  case None
  let ?p = "pathFor (me_root env) (mr_apiVersion x) (mr_kind x) (mr_name x)"
  let ?l = "Load (lio x) d (mr_apiVersion x) (mr_kind x) (mr_name x)"
  consider (err) e where "?l = Inl e" | (absent) "?l = Inr None" | (found) r where "?l = Inr (Some r)"
    by (metis sum.exhaust option.exhaust)
  then show ?thesis
  proof cases
    case absent
    then have "findRow amKey (mr_apiVersion x, mr_kind x, mr_name x) (db_applied d) = None"
      by (auto simp: Load_def LoadWithTime_def Let_def res_simps split: option.splits sum.splits)
    then show ?thesis using None absent by auto
  next
    case (found r)
    show ?thesis
    proof (cases "writeFile env (dio x) r f")
      case (Inr f1)
      then obtain t where "f1 = putKey f ?p t"
        using writeFile_Inr [OF Inr] Load_Some_fields [OF found] Load_named [OF found assms] by auto
      then show ?thesis using None found Inr
        by (intro disjI2 exI [of _ "missing @ [x]"] exI [of _ f1]) (auto simp: fileAt_put)
    qed (use None found in simp)
  qed (use None in simp)
qed

lemma reconcileRefs_effect:
  "reconcileRefs env d lio dio xs missing f = ((ms, e), f') \<Longrightarrow> \<forall>row \<in> set (db_applied d). namedRow row \<Longrightarrow>
     (\<forall>p t. fileAt f p = Some t \<longrightarrow> fileAt f' p = Some t) \<and>
     (e = None \<longrightarrow> (\<forall>x \<in> set xs. findRow amKey (mr_apiVersion x, mr_kind x, mr_name x) (db_applied d) \<noteq> None \<longrightarrow>
        fileAt f' (pathFor (me_root env) (mr_apiVersion x) (mr_kind x) (mr_name x)) \<noteq> None))"
proof (induction xs arbitrary: missing f)
  case (Cons x xs)
  from reconcile_step [OF Cons.prems(2), of env lio dio x xs missing f] show ?case
  proof (elim disjE exE conjE)
    fix ms1 f1
    assume r: "reconcileRefs env d lio dio (x # xs) missing f = reconcileRefs env d lio dio xs ms1 f1"
      and keep: "\<forall>p t. fileAt f p = Some t \<longrightarrow> fileAt f1 p = Some t"
      and there: "findRow amKey (mr_apiVersion x, mr_kind x, mr_name x) (db_applied d) \<noteq> None \<longrightarrow>
        fileAt f1 (pathFor (me_root env) (mr_apiVersion x) (mr_kind x) (mr_name x)) \<noteq> None"
    note ih = Cons.IH [OF _ Cons.prems(2), of ms1 f1]
    have k: "\<forall>p t. fileAt f1 p = Some t \<longrightarrow> fileAt f' p = Some t" using ih Cons.prems(1) r by simp
    then have "\<forall>p. fileAt f1 p \<noteq> None \<longrightarrow> fileAt f' p \<noteq> None" by blast
    then show ?thesis using ih Cons.prems(1) r keep k there by simp
  qed (use Cons.prems in auto)
qed simp

text \<open>
  The start-up comparison never touches the database or an existing file, whatever fails on the way; and
  when it reports no error every managed resource has its file.
\<close>
theorem reconcile_restores:
  assumes "\<forall>row \<in> set (db_applied (mi_db m)). namedRow row"
    and "Reconcile env f lio dio stopAt m = ((rp, e), m')"
  shows "mi_db m' = mi_db m \<and> (\<forall>p t. fileAt (mi_fs m) p = Some t \<longrightarrow> fileAt (mi_fs m') p = Some t) \<and>
    (e = None \<longrightarrow> (\<forall>row \<in> set (db_applied (mi_db m)).
       fileAt (mi_fs m') (pathFor (me_root env) (am_apiVersion row) (am_kind row) (am_name row)) \<noteq> None))"
proof (cases "ListAll f (mi_db m)")
  case (Inl e')
  then show ?thesis using assms(2) by (auto simp: Reconcile_def)
next
  case (Inr refs)
  then have refs: "(\<lambda>x. (mr_apiVersion x, mr_kind x, mr_name x)) ` set refs = amKey ` set (db_applied (mi_db m))"
    by (auto simp: ListAll_def res_simps amKey_def image_image)
  obtain ms e1 f1 where r: "reconcileRefs env (mi_db m) lio dio refs [] (mi_fs m) = ((ms, e1), f1)"
    by (metis prod.exhaust)
  have m': "m' = m\<lparr>mi_fs := f1\<rparr>" "e = e1"
    using assms(2) Inr r by (cases e1; auto simp: Reconcile_def Let_def)+
  note eff = reconcileRefs_effect [OF r assms(1)]
  have "fileAt f1 (pathFor (me_root env) (am_apiVersion row) (am_kind row) (am_name row)) \<noteq> None"
    if ok: "e = None" and row: "row \<in> set (db_applied (mi_db m))" for row
  proof -
    obtain x where x: "x \<in> set refs" "(mr_apiVersion x, mr_kind x, mr_name x) = amKey row"
      using row refs by (metis (no_types, lifting) imageE imageI)
    then have "findRow amKey (mr_apiVersion x, mr_kind x, mr_name x) (db_applied (mi_db m)) \<noteq> None"
      using row by (simp add: findRow_None)
    then show ?thesis using eff ok m'(2) x by (auto simp: amKey_def)
  qed
  then show ?thesis using eff m' by simp
qed

subsection \<open>The watcher does not answer its own mirror\<close>

text \<open>
  Every readable manifest file is where the mirror would put it, and its spec is the one on file; such a tree
  gives the watcher nothing to do.
\<close>

definition inSync :: "mirror_env \<Rightarrow> mirror \<Rightarrow> bool" where
  "inSync env m \<longleftrightarrow> (\<forall>p t r. fileAt (mi_fs m) p = Some t \<longrightarrow> me_unmarshal env t = Inr r \<longrightarrow>
     p = pathFor (me_root env) (r_apiVersion r) (r_kind r) (r_name r) \<and> matchesStored None (mi_db m) r = Inr True)"

text \<open>The YAML codec reads back what it wrote: identity and spec.\<close>

definition yamlCodec :: "mirror_env \<Rightarrow> bool" where
  "yamlCodec env \<longleftrightarrow> (\<forall>r t. me_marshal env r = Inr t \<longrightarrow> (\<exists>r'. me_unmarshal env t = Inr r' \<and>
     keyOf r' = keyOf r \<and> specJson (r_spec r') = specJson (r_spec r)))"

lemma matchesStored_True:
  "matchesStored None d r = Inr True \<longleftrightarrow>
     (\<exists>x. Load None d (r_apiVersion r) (r_kind r) (r_name r) = Inr (Some x) \<and> specJson (r_spec x) = specJson (r_spec r))"
  by (auto simp: matchesStored_def res_simps split: option.splits)

lemma matchesStored_row:
  "matchesStored None d r = Inr True \<longleftrightarrow>
     (\<exists>row s. findRow amKey (keyOf r) (db_applied d) = Some row \<and> am_spec row = Inr s \<and> specJson s = specJson (r_spec r))"
  unfolding matchesStored_True Load_eq keyOf_def by (auto split: option.splits sum.splits)

lemma specJson_stored [simp]: "specJson (map_option jsonObj s) = specJson s"
  by (cases s) (simp_all add: specJson_def)

lemma keyOf_path:
  "keyOf r = keyOf r' \<Longrightarrow> pathFor rt (r_apiVersion r) (r_kind r) (r_name r) = pathFor rt (r_apiVersion r') (r_kind r') (r_name r')"
  by (simp add: keyOf_def)

lemma inSync_save:
  assumes "yamlCodec env" "\<forall>k. dio k = None" "me_marshal env r = Inr t" "inSync env m"
    and "Mirror_SaveWithRefsHash env io dio now c r h m = (e, m')"
  shows "inSync env m'"
proof (cases "SaveWithRefsHash io (me_digest env) now c (Some r) h (mi_db m)")
  case (Inl e')
  then show ?thesis using assms(4,5) by (simp add: Mirror_SaveWithRefsHash_def)
next
  case (Inr d)
  let ?p = "pathFor (me_root env) (r_apiVersion r) (r_kind r) (r_name r)"
  have "writeFile env dio r (mi_fs m) = Inr (putKey (mi_fs m) ?p t)"
    using assms(2,3) by (simp add: writeFile_def sysCall_def)
  then have m': "mi_db m' = d" "mi_fs m' = putKey (mi_fs m) ?p t"
    using assms(5) Inr by (auto simp: Mirror_SaveWithRefsHash_def Let_def split: option.splits)
  have d: "findRow amKey k (db_applied d) =
      (if k = keyOf r then Some (manifestRow (me_digest env) now r h (SourceFromContext c)) else findRow amKey k (db_applied (mi_db m)))" for k
    using SaveWithRefsHash_Inr [OF Inr] by (simp add: keyOf_def amKey_def manifestRow_def)
  have "q = pathFor (me_root env) (r_apiVersion x) (r_kind x) (r_name x) \<and> matchesStored None d x = Inr True"
    if q: "fileAt (putKey (mi_fs m) ?p t) q = Some u" "me_unmarshal env u = Inr x" for q u x
  proof (cases "q = ?p")
    case True
    then have "me_unmarshal env t = Inr x" using q by (simp add: fileAt_put)
    moreover obtain x' where "me_unmarshal env t = Inr x'" "keyOf x' = keyOf r" "specJson (r_spec x') = specJson (r_spec r)"
      using assms(1,3) unfolding yamlCodec_def by blast
    ultimately have "keyOf x = keyOf r" "specJson (r_spec x) = specJson (r_spec r)" by auto
    then show ?thesis using True keyOf_path [of x r] by (auto simp: matchesStored_row d manifestRow_def)
  next
    case False
    then have "q = pathFor (me_root env) (r_apiVersion x) (r_kind x) (r_name x)" "matchesStored None (mi_db m) x = Inr True"
      using q assms(4) by (auto simp: inSync_def fileAt_put)
    moreover from this have "keyOf x \<noteq> keyOf r" using False keyOf_path by metis
    ultimately show ?thesis by (simp add: matchesStored_row d)
  qed
  then show ?thesis unfolding inSync_def m' by blast
qed

lemma inSync_delete:
  assumes "dio = None" "inSync env m" "Mirror_Delete env f dio c av k n m = (e, m')"
  shows "inSync env m'"
proof (cases "Delete f av k n (mi_db m)")
  case (Inl e')
  then show ?thesis using assms(2,3) by (simp add: Mirror_Delete_def)
next
  case (Inr d)
  let ?p = "pathFor (me_root env) av k n"
  have m': "mi_db m' = d" "fileAt (mi_fs m') q = (if q = ?p then None else fileAt (mi_fs m) q)" for q
    using assms(1,3) Inr
    by (auto simp: Mirror_Delete_def removeFile_def sysCall_def Let_def fileAt_rm res_simps split: option.splits if_splits)
  have d: "findRow amKey k' (db_applied d) = (if k' = (av, k, n) then None else findRow amKey k' (db_applied (mi_db m)))" for k'
    using Inr by (simp add: res_simps)
  have "q = pathFor (me_root env) (r_apiVersion x) (r_kind x) (r_name x) \<and> matchesStored None d x = Inr True"
    if q: "fileAt (mi_fs m') q = Some u" "me_unmarshal env u = Inr x" for q u x
  proof -
    have "q \<noteq> ?p" "q = pathFor (me_root env) (r_apiVersion x) (r_kind x) (r_name x)" "matchesStored None (mi_db m) x = Inr True"
      using q assms(2) by (auto simp: inSync_def m'(2) split: if_splits)
    moreover from this have "keyOf x \<noteq> (av, k, n)" by (auto simp: keyOf_def)
    ultimately show ?thesis by (simp add: matchesStored_row d)
  qed
  then show ?thesis unfolding inSync_def m'(1) by blast
qed

lemma inSync_run:
  assumes "yamlCodec env" "inSync env (w_mirror w)"
    and "\<forall>i ev. (i, ev) \<in> set evs \<longrightarrow> (\<forall>k. fst (snd i) k = None)"
    and "\<forall>i c r h. (i, SaveEv c r h) \<in> set evs \<longrightarrow> isOk (me_marshal env r)"
  shows "inSync env (w_mirror (sinkRun (\<lambda>i. mirrorSink (fst i) (fst (snd i)) env (snd (snd i))) evs w))"
  using assms(2-)
proof (induction evs arbitrary: w)
  case (Cons iev evs)
  obtain i ev where iev: "iev = (i, ev)" by (cases iev)
  have dh: "\<forall>k. fst (snd i) k = None" using Cons.prems(2) iev by (metis list.set_intros(1))
  have rest: "\<forall>i ev. (i, ev) \<in> set evs \<longrightarrow> (\<forall>k. fst (snd i) k = None)"
    "\<forall>i c r h. (i, SaveEv c r h) \<in> set evs \<longrightarrow> isOk (me_marshal env r)"
    using Cons.prems(2,3) by (meson list.set_intros(2))+
  show ?case
  proof (cases ev)
    case (SaveEv c r h)
    have "isOk (me_marshal env r)" using Cons.prems(3) iev SaveEv by (metis list.set_intros(1))
    then obtain t where t: "me_marshal env r = Inr t" by (auto simp: isOk_iff)
    obtain e m' where s: "Mirror_SaveWithRefsHash env (fst i) (fst (snd i)) (snd (snd i)) c r h (w_mirror w) = (e, m')"
      by (cases "Mirror_SaveWithRefsHash env (fst i) (fst (snd i)) (snd (snd i)) c r h (w_mirror w)")
    have "inSync env m'" by (rule inSync_save [OF assms(1) dh t Cons.prems(1) s])
    then show ?thesis using Cons.IH [of "w\<lparr>w_mirror := m'\<rparr>", OF _ rest] iev SaveEv s by (simp add: mirrorSink_def)
  next
    case (DeleteEv c av k n)
    obtain e m' where s: "Mirror_Delete env (fst i 0) (fst (snd i) 0) c av k n (w_mirror w) = (e, m')"
      by (cases "Mirror_Delete env (fst i 0) (fst (snd i) 0) c av k n (w_mirror w)")
    have "inSync env m'" by (rule inSync_delete [OF _ Cons.prems(1) s]) (rule dh [rule_format])
    then show ?thesis using Cons.IH [of "w\<lparr>w_mirror := m'\<rparr>", OF _ rest] iev DeleteEv s by (simp add: mirrorSink_def)
  qed
qed simp

lemma inSync_idle: "inSync env m \<Longrightarrow> applyFileIfChanged env ap rd None p m = (False, m)"
  by (auto simp: applyFileIfChanged_def inSync_def split: option.splits sum.splits)

lemma inSync_syncFiles: "inSync env m \<Longrightarrow> syncFiles env ap rd (\<lambda>_. None) ps m = m"
  by (induction ps) (simp_all add: inSync_idle)


text \<open>A codec for the examples: a manifest is written as its name, and read back as a bare resource of that name.\<close>

definition sampleMirrorEnv :: mirror_env where
  "sampleMirrorEnv = \<lparr>me_root = ''/m'', me_marshal = (\<lambda>r. if r = bareResource ''p.io/v1'' ''VM'' (r_name r) then Inr (r_name r) else Inl (Plain ''?'')),
     me_unmarshal = (\<lambda>t. Inr (bareResource ''p.io/v1'' ''VM'' t)), me_hook = None, me_digest = (\<lambda>j. ''h'')\<rparr>"

lemma sampleMirrorEnv_codec: "yamlCodec sampleMirrorEnv"
  by (auto simp: yamlCodec_def sampleMirrorEnv_def split: if_splits intro: arg_cong [where f = keyOf] arg_cong [where f = "\<lambda>x. specJson (r_spec x)"])


subsection \<open>Pruning\<close>

definition refOf :: "applied_row \<Rightarrow> manifest_ref" where
  "refOf row = \<lparr>mr_apiVersion = am_apiVersion row, mr_kind = am_kind row, mr_name = am_name row, mr_source = am_source row\<rparr>"

text \<open>What the guards leave: no file, loadable, not owned by a composite, not applied by hand.\<close>

definition prunable :: "(manifest_ref \<Rightarrow> string option) \<Rightarrow> string list \<Rightarrow> db \<Rightarrow> manifest_ref \<Rightarrow> bool" where
  "prunable lf onDisk d x \<longleftrightarrow>
     refKey (mr_apiVersion x) (mr_kind x) (mr_name x) \<notin> set onDisk \<and>
     (\<exists>stored. Load (lf x) d (mr_apiVersion x) (mr_kind x) (mr_name x) = Inr stored \<and>
        (\<forall>r. stored = Some r \<longrightarrow> \<not> isLikelyCompositeChild (md_labels (r_metadata r)))) \<and>
     mr_source x \<noteq> SourceCLI \<and> mr_source x \<noteq> SourceUI"

lemma pruneRefs_effect:
  assumes "\<And>x av k n m. db_applied (mi_db (snd (del x av k n m))) = db_applied (mi_db m)"
    and "\<And>x av k n m. mi_fs (snd (del x av k n m)) = mi_fs m"
  shows "pruneRefs del lf onDisk xs m = (pruned, m') \<Longrightarrow>
     (\<forall>x \<in> set pruned. x \<in> set xs \<and> prunable lf onDisk (mi_db m) x) \<and>
     db_applied (mi_db m') = db_applied (mi_db m) \<and> mi_fs m' = mi_fs m"
proof (induction xs arbitrary: m pruned)
  case (Cons x xs)
  have keep: "prunable lf onDisk (mi_db m1) = prunable lf onDisk (mi_db m)" if "db_applied (mi_db m1) = db_applied (mi_db m)" for m1
    unfolding prunable_def using Load_cong [OF that] by presburger
  show ?case
  proof (cases "prunable lf onDisk (mi_db m) x")
    case False
    then have "pruneRefs del lf onDisk (x # xs) m = pruneRefs del lf onDisk xs m"
      by (auto simp: prunable_def split: sum.splits option.splits)
    then show ?thesis using Cons by auto
  next
    case True
    obtain e m1 where d: "del x (mr_apiVersion x) (mr_kind x) (mr_name x) m = (e, m1)"
      by (cases "del x (mr_apiVersion x) (mr_kind x) (mr_name x) m")
    obtain pr where pr: "pruneRefs del lf onDisk xs m1 = (pr, m')" "set pruned \<subseteq> insert x (set pr)"
      using Cons.prems True d by (auto simp: prunable_def split: option.splits prod.splits)
    have m1: "db_applied (mi_db m1) = db_applied (mi_db m)" "mi_fs m1 = mi_fs m"
      using assms(1,2) [of x "mr_apiVersion x" "mr_kind x" "mr_name x" m] d by simp_all
    have ih: "\<forall>y \<in> set pr. y \<in> set xs \<and> prunable lf onDisk (mi_db m) y" "db_applied (mi_db m') = db_applied (mi_db m)" "mi_fs m' = mi_fs m"
      using Cons.IH [OF pr(1)] m1 keep [OF m1(1)] by simp_all
    then show ?thesis using pr(2) True by (simp add: subset_iff) blast
  qed
qed simp

lemma set_onDiskRefs:
  "onDiskRefs stopAt rt f = Inr ks \<Longrightarrow> p \<in> set (walkYaml rt f) \<Longrightarrow> parsePathHint rt p = Some (av, k, n) \<Longrightarrow> refKey av k n \<in> set ks"
  by (auto simp: onDiskRefs_def map_filter_set split: if_splits) blast

lemma plain_file_listed:
  assumes "cleanRoot rt" "plainSeg dm" "plainSeg ver" "plainSeg k" "plainSeg n"
    and "fileAt f (pathFor rt (dm @ ''/'' @ ver) k n) \<noteq> None"
  shows "\<exists>p \<in> set (walkYaml rt f). parsePathHint rt p = Some (dm @ ''/'' @ ver, k, n)"
proof -
  let ?p = "pathFor rt (dm @ ''/'' @ ver) k n"
  have "?p \<in> set (map fst f)" using assms(6) by (auto simp: fileAt_def map_of_eq_None_iff)
  then have "?p \<in> set (walkYaml rt f)" using pathFor_is_yaml [OF assms(1)] by (simp add: walkYaml_def)
  then show ?thesis using parsePathHint_pathFor [OF assms(1-5)] by blast
qed

lemma Load_ok: "Load f d av k n = Inr s \<Longrightarrow> Load None d av k n = Inr s"
  by (auto simp: Load_def LoadWithTime_def res_simps)

text \<open>
  C21. The prune is conservative: whatever fails, it leaves files and desired state alone and submits deletes
  only for managed resources that have no file the mirror layout maps to them, are not children of a
  composite, and were not last applied by the command line or the user interface; in particular a resource
  with plain names whose file is on disk is never pruned.
\<close>
theorem prune_spares_desired:
  assumes "Prune env (Some (\<lambda>x. gitopsDelete (se x))) f lf stopAt m = (Inr pruned, m')"
  shows "db_applied (mi_db m') = db_applied (mi_db m) \<and> mi_fs m' = mi_fs m \<and>
    (\<forall>x \<in> set pruned. x \<in> refOf ` set (db_applied (mi_db m)) \<and> mr_source x \<noteq> SourceCLI \<and> mr_source x \<noteq> SourceUI \<and>
       (\<forall>p \<in> set (walkYaml (me_root env) (mi_fs m)).
          parsePathHint (me_root env) p \<noteq> Some (mr_apiVersion x, mr_kind x, mr_name x)) \<and>
       (\<forall>r. Load None (mi_db m) (mr_apiVersion x) (mr_kind x) (mr_name x) = Inr (Some r) \<longrightarrow>
          \<not> isLikelyCompositeChild (md_labels (r_metadata r)))) \<and>
    (\<forall>dm ver k n. cleanRoot (me_root env) \<and> plainSeg dm \<and> plainSeg ver \<and> plainSeg k \<and> plainSeg n \<and>
       fileAt (mi_fs m) (pathFor (me_root env) (dm @ ''/'' @ ver) k n) \<noteq> None \<longrightarrow>
       (dm @ ''/'' @ ver, k, n) \<notin> (\<lambda>x. (mr_apiVersion x, mr_kind x, mr_name x)) ` set pruned)"
proof -
  obtain onDisk refs where o: "onDiskRefs stopAt (me_root env) (mi_fs m) = Inr onDisk" and l: "ListAll f (mi_db m) = Inr refs"
      and r: "pruneRefs (\<lambda>x. gitopsDelete (se x)) lf onDisk refs m = (pruned, m')"
    using assms by (auto simp: Prune_def split: sum.splits prod.splits)
  have refs: "set refs = refOf ` set (db_applied (mi_db m))"
    using l by (auto simp: ListAll_def res_simps refOf_def image_image)
  have eff: "\<forall>x \<in> set pruned. x \<in> set refs \<and> prunable lf onDisk (mi_db m) x"
      "db_applied (mi_db m') = db_applied (mi_db m)" "mi_fs m' = mi_fs m"
    using pruneRefs_effect [OF _ _ r] by (simp_all add: gitopsDelete_def submitOp_frame)
  have nofile: "parsePathHint (me_root env) p \<noteq> Some (mr_apiVersion x, mr_kind x, mr_name x)"
    if "x \<in> set pruned" "p \<in> set (walkYaml (me_root env) (mi_fs m))" for x p
    using set_onDiskRefs [OF o that(2)] eff(1) that(1) by (auto simp: prunable_def)
  have "\<not> isLikelyCompositeChild (md_labels (r_metadata r))"
    if "x \<in> set pruned" "Load None (mi_db m) (mr_apiVersion x) (mr_kind x) (mr_name x) = Inr (Some r)" for x r
    using eff(1) that Load_ok unfolding prunable_def by fastforce
  moreover have "(dm @ ''/'' @ ver, k, n) \<notin> (\<lambda>x. (mr_apiVersion x, mr_kind x, mr_name x)) ` set pruned"
    if "cleanRoot (me_root env)" "plainSeg dm" "plainSeg ver" "plainSeg k" "plainSeg n"
      "fileAt (mi_fs m) (pathFor (me_root env) (dm @ ''/'' @ ver) k n) \<noteq> None" for dm ver k n
    using plain_file_listed [OF that] nofile by fastforce
  ultimately show ?thesis using eff nofile refs by (auto simp: prunable_def)
qed

text \<open>A mirror with two resources applied from the repository, the file of the second one removed.\<close>

definition sampleAppliedRow :: "string \<Rightarrow> string \<Rightarrow> applied_row" where
  "sampleAppliedRow n src = manifestRow (\<lambda>_. ''h'') ''t'' (bareResource ''p.io/v1'' ''VM'' n) [] src"

definition sampleMirror :: "applied_row list \<Rightarrow> fs \<Rightarrow> mirror" where
  "sampleMirror rows f = \<lparr>mi_db = emptyDb\<lparr>db_applied := rows\<rparr>, mi_fs = f\<rparr>"

definition sampleSubmit :: submit_env where
  "sampleSubmit = \<lparr>se_io = (\<lambda>_. None), se_now = ''t'', se_newid = ''op-1'', se_retain = 0\<rparr>"

theorem prune_spares_desired_witness:
  "\<exists>pruned m'. Prune sampleMirrorEnv (Some (\<lambda>x. gitopsDelete sampleSubmit)) None (\<lambda>_. None) None
      (sampleMirror [sampleAppliedRow ''a'' ''gitops'', sampleAppliedRow ''b'' ''gitops''] [(''/m/p.io/v1/VM/a.yaml'', ''a'')])
      = (Inr pruned, m') \<and> map mr_name pruned = [''b''] \<and> mi_fs m' = [(''/m/p.io/v1/VM/a.yaml'', ''a'')]"
proof -
  let ?m = "sampleMirror [sampleAppliedRow ''a'' ''gitops'', sampleAppliedRow ''b'' ''gitops''] [(''/m/p.io/v1/VM/a.yaml'', ''a'')]"
  let ?r = "Prune sampleMirrorEnv (Some (\<lambda>x. gitopsDelete sampleSubmit)) None (\<lambda>_. None) None ?m"
  have "map_option (map mr_name) (case fst ?r of Inl _ \<Rightarrow> None | Inr p \<Rightarrow> Some p) = Some [''b'']" by code_simp
  then obtain pruned where p: "fst ?r = Inr pruned" "map mr_name pruned = [''b'']" by (auto split: sum.splits)
  then have r: "?r = (Inr pruned, snd ?r)" by (metis prod.collapse)
  from prune_spares_desired [OF r] have "mi_fs (snd ?r) = [(''/m/p.io/v1/VM/a.yaml'', ''a'')]"
    by (simp add: sampleMirror_def)
  then show ?thesis using r p(2) by metis
qed

theorem reconcile_restores_witness:
  "fileAt (mi_fs (snd (Reconcile sampleMirrorEnv None (\<lambda>_. None) (\<lambda>_ _. None) None (sampleMirror [sampleAppliedRow ''a'' ''cli''] []))))
     ''/m/p.io/v1/VM/a.yaml'' \<noteq> None"
proof -
  let ?m = "sampleMirror [sampleAppliedRow ''a'' ''cli''] []"
  let ?r = "Reconcile sampleMirrorEnv None (\<lambda>_. None) (\<lambda>_ _. None) None ?m"
  have n: "\<forall>row \<in> set (db_applied (mi_db ?m)). namedRow row" by code_simp
  have e: "snd (fst ?r) = None" by code_simp
  have p: "pathFor (me_root sampleMirrorEnv) ''p.io/v1'' ''VM'' ''a'' = ''/m/p.io/v1/VM/a.yaml''" by code_simp
  have "?r = ((fst (fst ?r), snd (fst ?r)), snd ?r)" by simp
  from reconcile_restores [OF n this] e show ?thesis
    using p by (simp add: sampleMirror_def sampleAppliedRow_def manifestRow_def bareResource_def bareMetadata_def)
qed

end
