(* ===== verification/Reconciler.thy ===== *)
theory Reconciler
  imports Drift GitOps Dispatcher
begin

text \<open>
  internal/controller/reconciler/reconciler.go: the periodic check of every managed resource, its log of drift
  transitions, and the opt-in remediation with exponential backoff.  Times and durations are nanoseconds;
  the zero time is \<open>None\<close>.  One pass takes the clock reading of each resource's check and of its failed
  remediation, and the failures of the calls, from \<open>rec_call\<close>.  A provider whose \<^verbatim>\<open>Get\<close> returns neither a
  resource nor an error, which would panic, is treated as one reporting an empty spec.
\<close>

subsection \<open>State\<close>

abbreviation second :: int where "second \<equiv> 1000000000"

abbreviation AutoReconcileMinBackoff :: int where "AutoReconcileMinBackoff \<equiv> 30 * second"

abbreviation AutoReconcileMaxBackoff :: int where "AutoReconcileMaxBackoff \<equiv> 3600 * second"

record backoff_state =
  bo_next :: "int option"
  bo_current :: int

datatype drift_log = Detected string string | Cleared string

record rec_state =
  rs_drift :: "(string \<times> bool) list"
  rs_backoff :: "(string \<times> backoff_state) list"
  rs_log :: "drift_log list"

record 'p reconciler =
  rc_registry :: "'p world registry"
  rc_fmt :: fmt_env
  rc_autoApply :: "(resource \<Rightarrow> 'p world \<Rightarrow> err option \<times> 'p world) option"

record rec_call =
  rk_load :: "string option"
  rk_now :: int
  rk_failedAt :: int

definition New :: "'p world registry \<Rightarrow> fmt_env \<Rightarrow> int \<Rightarrow> 'p reconciler \<times> rec_state \<times> int" where
  "New reg fe interval =
     (\<lparr>rc_registry = reg, rc_fmt = fe, rc_autoApply = None\<rparr>, \<lparr>rs_drift = [], rs_backoff = [], rs_log = []\<rparr>,
      if interval \<le> 0 then 300 * second else interval)"

definition WithAutoApply ::
  "(resource \<Rightarrow> 'p world \<Rightarrow> err option \<times> 'p world) \<Rightarrow> 'p reconciler \<Rightarrow> 'p reconciler" where
  "WithAutoApply f rc = rc\<lparr>rc_autoApply := Some f\<rparr>"

text \<open>The function main.go injects: submit an apply of the stored manifest.\<close>

definition autoReconcileApply :: "submit_env \<Rightarrow> resource \<Rightarrow> 'p world \<Rightarrow> err option \<times> 'p world" where
  "autoReconcileApply se r w =
     (case submitOp se (newOperation TypeApply (r_apiVersion r) (r_kind r) (r_name r) (Doc r) SourceAutoReconcile) (w_mirror w) of
        (e, m) \<Rightarrow> (e, w\<lparr>w_mirror := m\<rparr>))"

subsection \<open>One resource\<close>

definition shouldAutoReconcile :: "resource \<Rightarrow> bool" where
  "shouldAutoReconcile desired \<longleftrightarrow> strGet (md_annotations (r_metadata desired)) ''openctl.io/autoReconcile'' = ''true''"

definition markAndLogIfChanged :: "string \<Rightarrow> bool \<Rightarrow> string \<Rightarrow> rec_state \<Rightarrow> rec_state" where
  "markAndLogIfChanged key drifted reason st =
     (let st1 = st\<lparr>rs_drift := putKey (rs_drift st) key drifted\<rparr> in
      case map_of (rs_drift st) key of
        None \<Rightarrow> if drifted then st1\<lparr>rs_log := rs_log st @ [Detected key reason]\<rparr> else st1
      | Some prev \<Rightarrow>
          if prev = drifted then st1
          else if drifted then st1\<lparr>rs_log := rs_log st @ [Detected key reason]\<rparr>
          else st1\<lparr>rs_log := rs_log st @ [Cleared key]\<rparr>)"

definition backoffOf :: "rec_state \<Rightarrow> string \<Rightarrow> backoff_state" where
  "backoffOf st key = (case map_of (rs_backoff st) key of None \<Rightarrow> \<lparr>bo_next = None, bo_current = 0\<rparr> | Some b \<Rightarrow> b)"

definition stillWaiting :: "int \<Rightarrow> backoff_state \<Rightarrow> bool" where
  "stillWaiting now b \<longleftrightarrow> (case bo_next b of None \<Rightarrow> False | Some t \<Rightarrow> now - t < 0)"

definition afterFailure :: "int \<Rightarrow> backoff_state \<Rightarrow> backoff_state" where
  "afterFailure failedAt b =
     (let cur = (if bo_current b = 0 then AutoReconcileMinBackoff
                 else if bo_current b * 2 > AutoReconcileMaxBackoff then AutoReconcileMaxBackoff
                 else bo_current b * 2)
      in \<lparr>bo_next = Some (failedAt + cur), bo_current = cur\<rparr>)"

definition tryAutoApply ::
  "(resource \<Rightarrow> 'p world \<Rightarrow> err option \<times> 'p world) \<Rightarrow> rec_call \<Rightarrow> string \<Rightarrow> resource \<Rightarrow> rec_state \<Rightarrow> 'p world
     \<Rightarrow> rec_state \<times> 'p world" where
  "tryAutoApply ap rk key desired st w =
     (let b = backoffOf st key; st1 = st\<lparr>rs_backoff := putKey (rs_backoff st) key b\<rparr> in
      if stillWaiting (rk_now rk) b then (st1, w)
      else
        (case ap desired w of
           (Some e, w') \<Rightarrow> (st1\<lparr>rs_backoff := putKey (rs_backoff st1) key (afterFailure (rk_failedAt rk) b)\<rparr>, w')
         | (None, w') \<Rightarrow> (st1\<lparr>rs_backoff := putKey (rs_backoff st1) key \<lparr>bo_next = None, bo_current = 0\<rparr>\<rparr>, w')))"

definition recKey :: "manifest_ref \<Rightarrow> string" where
  "recKey x = mr_apiVersion x @ ''/'' @ mr_kind x @ ''/'' @ mr_name x"

definition reconcileOne ::
  "'p reconciler \<Rightarrow> rec_call \<Rightarrow> manifest_ref \<Rightarrow> rec_state \<Rightarrow> 'p world \<Rightarrow> rec_state \<times> 'p world" where
  "reconcileOne rc rk x st w =
     (case For (rc_registry rc) (mr_apiVersion x) of
        Inl _ \<Rightarrow> (st, w)
      | Inr p \<Rightarrow>
          (case pv_get p (mr_kind x) (mr_name x) w of
             Inl e \<Rightarrow>
               if isNotFound e then (markAndLogIfChanged (recKey x) True ''missing from provider'' st, w) else (st, w)
           | Inr observed \<Rightarrow>
               (case Load (rk_load rk) (w_db w) (mr_apiVersion x) (mr_kind x) (mr_name x) of
                  Inl _ \<Rightarrow> (st, w)
                | Inr None \<Rightarrow> (st, w)
                | Inr (Some desired) \<Rightarrow>
                    (case DriftSpecs p (mr_kind x) (r_spec desired) (case observed of None \<Rightarrow> None | Some r \<Rightarrow> r_spec r) of
                       (desiredSpec, observedSpec) \<Rightarrow>
                         let drifted = (\<not> specsEqual (rc_fmt rc) desiredSpec observedSpec);
                             st1 = markAndLogIfChanged (recKey x) drifted (if drifted then ''spec drift'' else []) st
                         in (case rc_autoApply rc of
                               Some ap \<Rightarrow>
                                 if drifted \<and> shouldAutoReconcile desired then tryAutoApply ap rk (recKey x) desired st1 w
                                 else (st1, w)
                             | None \<Rightarrow> (st1, w))))))"

fun tickRefs ::
  "'p reconciler \<Rightarrow> (manifest_ref \<Rightarrow> rec_call) \<Rightarrow> manifest_ref list \<Rightarrow> rec_state \<Rightarrow> 'p world \<Rightarrow> rec_state \<times> 'p world" where
  "tickRefs rc rk [] st w = (st, w)"
| "tickRefs rc rk (x # xs) st w =
     (case reconcileOne rc (rk x) x st w of (st', w') \<Rightarrow> tickRefs rc rk xs st' w')"

text \<open>\<open>n\<close>: how many resources are visited before the context is canceled, if it is.\<close>

definition tick ::
  "'p reconciler \<Rightarrow> string option \<Rightarrow> (manifest_ref \<Rightarrow> rec_call) \<Rightarrow> nat option \<Rightarrow> rec_state \<Rightarrow> 'p world
     \<Rightarrow> rec_state \<times> 'p world" where
  "tick rc f rk n st w =
     (case ListAll f (w_db w) of
        Inl _ \<Rightarrow> (st, w)
      | Inr refs \<Rightarrow> tickRefs rc rk (case n of None \<Rightarrow> refs | Some k \<Rightarrow> take k refs) st w)"

subsection \<open>Lemmas\<close>

lemma mark_backoff [simp]: "rs_backoff (markAndLogIfChanged key b reason st) = rs_backoff st"
  by (simp add: markAndLogIfChanged_def Let_def split: option.split)

lemma tryAutoApply_log [simp]:
  "rs_log (fst (tryAutoApply ap rk key r st w)) = rs_log st" "rs_drift (fst (tryAutoApply ap rk key r st w)) = rs_drift st"
  by (auto simp: tryAutoApply_def Let_def split: prod.splits option.splits)

text \<open>One check either marks nothing, only marks the drift state, or marks drift and tries to remediate.\<close>

lemma reconcileOne_cases:
  obtains (idle) "reconcileOne rc rk x st w = (st, w)"
  | (mark) b reason where "reconcileOne rc rk x st w = (markAndLogIfChanged (recKey x) b reason st, w)"
  | (remedy) ap p observed desired where "rc_autoApply rc = Some ap" "For (rc_registry rc) (mr_apiVersion x) = Inr p"
      "pv_get p (mr_kind x) (mr_name x) w = Inr observed"
      "Load (rk_load rk) (w_db w) (mr_apiVersion x) (mr_kind x) (mr_name x) = Inr (Some desired)"
      "\<not> specsEqual (rc_fmt rc) (fst (DriftSpecs p (mr_kind x) (r_spec desired) (case observed of None \<Rightarrow> None | Some r \<Rightarrow> r_spec r)))
          (snd (DriftSpecs p (mr_kind x) (r_spec desired) (case observed of None \<Rightarrow> None | Some r \<Rightarrow> r_spec r)))"
      "shouldAutoReconcile desired"
      "reconcileOne rc rk x st w =
         tryAutoApply ap rk (recKey x) desired (markAndLogIfChanged (recKey x) True ''spec drift'' st) w"
proof (cases "For (rc_registry rc) (mr_apiVersion x)")
  case (Inl e)
  then show ?thesis by (intro idle) (simp add: reconcileOne_def)
next
  case p: (Inr p)
  show ?thesis
  proof (cases "pv_get p (mr_kind x) (mr_name x) w")
    case (Inl e)
    then show ?thesis using p idle mark by (cases "isNotFound e") (simp_all add: reconcileOne_def)
  next
    case o: (Inr observed)
    show ?thesis
    proof (cases "\<exists>desired. Load (rk_load rk) (w_db w) (mr_apiVersion x) (mr_kind x) (mr_name x) = Inr (Some desired)")
      case False
      then show ?thesis using p o by (intro idle) (auto simp: reconcileOne_def split: sum.split option.split)
    next
      case True
      then obtain desired where l: "Load (rk_load rk) (w_db w) (mr_apiVersion x) (mr_kind x) (mr_name x) = Inr (Some desired)" by blast
      let ?ds = "DriftSpecs p (mr_kind x) (r_spec desired) (case observed of None \<Rightarrow> None | Some r \<Rightarrow> r_spec r)"
      obtain a b where ds: "?ds = (a, b)" by (cases ?ds)
      show ?thesis
      proof (cases "\<not> specsEqual (rc_fmt rc) a b \<and> shouldAutoReconcile desired \<and> rc_autoApply rc \<noteq> None")
        case True
        then obtain ap where "rc_autoApply rc = Some ap" by blast
        then show ?thesis using True p o l ds by (intro remedy) (auto simp: reconcileOne_def Let_def)
      next
        case False
        then show ?thesis using p o l ds
          by (intro mark [of "\<not> specsEqual (rc_fmt rc) a b" "if \<not> specsEqual (rc_fmt rc) a b then ''spec drift'' else []"])
             (auto simp: reconcileOne_def Let_def split: option.split)
      qed
    qed
  qed
qed

text \<open>The states the periodic loop can reach, whatever the providers, the clock and the database do.\<close>

inductive rec_reach :: "'p reconciler \<Rightarrow> rec_state \<Rightarrow> bool" for rc :: "'p reconciler" where
  rec_start: "rec_reach rc \<lparr>rs_drift = [], rs_backoff = [], rs_log = []\<rparr>"
| rec_tick: "rec_reach rc st \<Longrightarrow> rec_reach rc (fst (tick rc f rk n st w))"

lemma tickRefs_induct:
  assumes "\<And>rk x st w. P st \<Longrightarrow> P (fst (reconcileOne rc rk x st w))" "P st"
  shows "P (fst (tickRefs rc rk xs st w))"
  using assms(2)
proof (induction xs arbitrary: st w)
  case (Cons x xs)
  then show ?case using assms(1) [of st "rk x" x w] by (simp add: case_prod_beta)
qed simp

lemma rec_reach_invariant:
  assumes "rec_reach rc st" "P \<lparr>rs_drift = [], rs_backoff = [], rs_log = []\<rparr>"
    and "\<And>rk x st w. P st \<Longrightarrow> P (fst (reconcileOne rc rk x st w))"
  shows "P st"
  using assms(1)
proof (induction rule: rec_reach.induct)
  case (rec_tick st f rk n w)
  then show ?case using tickRefs_induct [of P, OF assms(3)] by (auto simp: tick_def split: sum.split)
qed (rule assms(2))

subsection \<open>Backoff\<close>

definition backoffOk :: "backoff_state \<Rightarrow> bool" where
  "backoffOk b \<longleftrightarrow> b = \<lparr>bo_next = None, bo_current = 0\<rparr> \<or>
     (\<exists>j. bo_current b = min AutoReconcileMaxBackoff (AutoReconcileMinBackoff * 2 ^ j)) \<and> bo_next b \<noteq> None"

definition backoffInv :: "rec_state \<Rightarrow> bool" where
  "backoffInv st \<longleftrightarrow> (\<forall>key. backoffOk (backoffOf st key))"

lemma backoffOk_zero [simp]: "backoffOk \<lparr>bo_next = None, bo_current = 0\<rparr>"
  by (simp add: backoffOk_def)

lemma backoffOkI:
  "bo_current b = min AutoReconcileMaxBackoff (AutoReconcileMinBackoff * 2 ^ j) \<Longrightarrow> bo_next b \<noteq> None \<Longrightarrow> backoffOk b"
  unfolding backoffOk_def by blast

lemma afterFailure_next: "bo_next (afterFailure t b) \<noteq> None"
  by (simp add: afterFailure_def Let_def)

lemma min_double:
  fixes a m :: int
  assumes "0 < a" "0 < m"
  shows "(if min m a * 2 > m then m else min m a * 2) = min m (a * 2)"
  using assms by (auto simp: min_def)

lemma delay_pos:
  "0 < min AutoReconcileMaxBackoff (AutoReconcileMinBackoff * 2 ^ j)"
  "AutoReconcileMinBackoff \<le> min AutoReconcileMaxBackoff (AutoReconcileMinBackoff * 2 ^ j)"
  by (simp_all add: min_def)

lemma afterFailure_doubles:
  assumes "bo_current b = min AutoReconcileMaxBackoff (AutoReconcileMinBackoff * 2 ^ j)"
  shows "bo_current (afterFailure t b) = min AutoReconcileMaxBackoff (AutoReconcileMinBackoff * 2 ^ Suc j)"
proof -
  have "0 < bo_current b" unfolding assms by (rule delay_pos(1))
  then have "bo_current b \<noteq> 0" by simp
  then have "bo_current (afterFailure t b) = (if bo_current b * 2 > AutoReconcileMaxBackoff then AutoReconcileMaxBackoff else bo_current b * 2)"
    by (simp only: afterFailure_def Let_def backoff_state.simps if_False)
  also have "\<dots> = min AutoReconcileMaxBackoff (AutoReconcileMinBackoff * 2 ^ j * 2)"
    unfolding assms by (rule min_double) simp_all
  finally show ?thesis by (simp only: power_Suc mult.assoc mult.commute)
qed

lemma afterFailure_first: "bo_current b = 0 \<Longrightarrow> bo_current (afterFailure t b) = min AutoReconcileMaxBackoff (AutoReconcileMinBackoff * 2 ^ 0)"
  by (simp add: afterFailure_def Let_def)

lemma afterFailure_ok: "backoffOk b \<Longrightarrow> backoffOk (afterFailure t b)"
  unfolding backoffOk_def [of b]
  by (elim disjE exE conjE; intro backoffOkI afterFailure_next) (rule afterFailure_first, simp, erule afterFailure_doubles)

lemma backoffOf_put: "backoffOf (st\<lparr>rs_backoff := putKey m key b\<rparr>) key' = (if key' = key then b else backoffOf (st\<lparr>rs_backoff := m\<rparr>) key')"
  by (simp add: backoffOf_def)

lemma tryAutoApply_backoff: "backoffInv st \<Longrightarrow> backoffInv (fst (tryAutoApply ap rk key r st w))"
  by (auto simp: backoffInv_def tryAutoApply_def Let_def backoffOf_put afterFailure_ok split: prod.splits option.splits)

lemma backoffInv_mark [simp]: "backoffInv (markAndLogIfChanged key b reason st) = backoffInv st"
  by (simp add: backoffInv_def backoffOf_def)

lemma reconcileOne_backoff: "backoffInv st \<Longrightarrow> backoffInv (fst (reconcileOne rc rk x st w))"
  by (cases rule: reconcileOne_cases [of rc rk x st w]) (simp_all add: tryAutoApply_backoff)

lemma backoff_streak:
  "bo_current ((afterFailure t ^^ Suc n) \<lparr>bo_next = None, bo_current = 0\<rparr>) = min AutoReconcileMaxBackoff (AutoReconcileMinBackoff * 2 ^ n)"
proof (induction n)
  case 0
  then show ?case using afterFailure_first [of "\<lparr>bo_next = None, bo_current = 0\<rparr>"] by simp
next
  case (Suc n)
  from afterFailure_doubles [OF this] show ?case by simp
qed

text \<open>
  The retry delay of automatic remediation is bounded in every state the loop can reach: a resource is
  either not backing off, or its delay is thirty seconds times a power of two, capped at one hour; and after
  that many failures in a row the delay is exactly that power.
\<close>
theorem backoff_bounded:
  assumes "rec_reach rc st"
  shows "(bo_next (backoffOf st key) = None \<longleftrightarrow> bo_current (backoffOf st key) = 0) \<and>
    (bo_current (backoffOf st key) \<noteq> 0 \<longrightarrow>
       AutoReconcileMinBackoff \<le> bo_current (backoffOf st key) \<and> bo_current (backoffOf st key) \<le> AutoReconcileMaxBackoff) \<and>
    bo_current ((afterFailure t ^^ Suc n) \<lparr>bo_next = None, bo_current = 0\<rparr>) =
      min AutoReconcileMaxBackoff (AutoReconcileMinBackoff * 2 ^ n)"
proof -
  have "backoffInv \<lparr>rs_drift = [], rs_backoff = [], rs_log = []\<rparr>" by (simp add: backoffInv_def backoffOf_def)
  from rec_reach_invariant [OF assms this reconcileOne_backoff] have "backoffOk (backoffOf st key)" by (simp add: backoffInv_def)
  then show ?thesis unfolding backoffOk_def
  proof (elim disjE exE conjE)
    fix j
    assume j: "bo_current (backoffOf st key) = min AutoReconcileMaxBackoff (AutoReconcileMinBackoff * 2 ^ j)"
      and n: "bo_next (backoffOf st key) \<noteq> None"
    have "0 < bo_current (backoffOf st key)" unfolding j by (rule delay_pos(1))
    then have "bo_current (backoffOf st key) \<noteq> 0" by simp
    moreover have "bo_current (backoffOf st key) \<le> AutoReconcileMaxBackoff" unfolding j by (rule min.cobounded1)
    moreover have "AutoReconcileMinBackoff \<le> bo_current (backoffOf st key)" unfolding j by (rule delay_pos(2))
    ultimately show ?thesis using n backoff_streak by blast
  qed (use backoff_streak in simp)
qed

text \<open>A reconciler over the echo provider of the examples, whose remediation always fails.\<close>

definition sampleReconciler :: "unit reconciler" where
  "sampleReconciler = \<lparr>rc_registry = [], rc_fmt = \<lparr>fe_float = (\<lambda>_. []), fe_any = (\<lambda>_. [])\<rparr>,
     rc_autoApply = Some (\<lambda>r w. (Some (Plain ''down''), w))\<rparr>"

theorem backoff_bounded_witness:
  "bo_next (backoffOf \<lparr>rs_drift = [], rs_backoff = [], rs_log = []\<rparr> ''k'') = None"
  using backoff_bounded [OF rec_start [of sampleReconciler], of "''k''"] by (simp add: backoffOf_def)

subsection \<open>Remediation\<close>

text \<open>
  Remediation is opt-in and throttled: a check leaves the world alone unless the loop has a remediation
  function, the provider reports the resource, the stored manifest carries the annotation, the specs differ
  and no backoff is pending; then it is exactly one call of that function on the stored manifest.  With the
  function the controller installs, desired state and files stay as they are.
\<close>
theorem remediation_guarded:
  fixes rc :: "'p reconciler" and w :: "'p world"
  assumes "reconcileOne rc rk x st w = (st', w')" "w' \<noteq> w"
  shows "\<exists>ap p observed desired. rc_autoApply rc = Some ap \<and> For (rc_registry rc) (mr_apiVersion x) = Inr p \<and>
      pv_get p (mr_kind x) (mr_name x) w = Inr observed \<and>
      Load (rk_load rk) (w_db w) (mr_apiVersion x) (mr_kind x) (mr_name x) = Inr (Some desired) \<and>
      shouldAutoReconcile desired \<and> \<not> stillWaiting (rk_now rk) (backoffOf st (recKey x)) \<and>
      w' = snd (ap desired w) \<and>
      (\<forall>se. ap = autoReconcileApply se \<longrightarrow> db_applied (w_db w') = db_applied (w_db w) \<and> mi_fs (w_mirror w') = mi_fs (w_mirror w))"
proof (cases rule: reconcileOne_cases [of rc rk x st w])
  case (remedy ap p observed desired)
  have bo: "backoffOf (markAndLogIfChanged (recKey x) True ''spec drift'' st) (recKey x) = backoffOf st (recKey x)"
    by (simp add: backoffOf_def)
  have t: "tryAutoApply ap rk (recKey x) desired (markAndLogIfChanged (recKey x) True ''spec drift'' st) w = (st', w')"
    using remedy(7) assms(1) by simp
  have wait: "\<not> stillWaiting (rk_now rk) (backoffOf st (recKey x))"
    using t assms(2) bo by (auto simp: tryAutoApply_def Let_def split: if_splits)
  then have w': "w' = snd (ap desired w)"
    using t bo by (auto simp: tryAutoApply_def Let_def split: prod.splits option.splits)
  have "db_applied (w_db w') = db_applied (w_db w) \<and> mi_fs (w_mirror w') = mi_fs (w_mirror w)"
    if "ap = autoReconcileApply se" for se
  proof -
    let ?o = "newOperation TypeApply (r_apiVersion desired) (r_kind desired) (r_name desired) (Doc desired) SourceAutoReconcile"
    have "w_mirror w' = snd (submitOp se ?o (w_mirror w))"
      using w' that by (simp add: autoReconcileApply_def split: prod.splits)
    then show ?thesis using submitOp_frame [of se ?o "w_mirror w"] by simp
  qed
  then show ?thesis using remedy(1-4,6) wait w' by blast
qed (use assms in simp_all)

theorem remediation_guarded_witness:
  "let x = \<lparr>mr_apiVersion = ''p.openctl.io/v1'', mr_kind = ''VM'', mr_name = ''a'', mr_source = []\<rparr>;
       rc = \<lparr>rc_registry = [(''p'', echoProvider ''p'')], rc_fmt = \<lparr>fe_float = (\<lambda>_. []), fe_any = (\<lambda>_. [])\<rparr>,
             rc_autoApply = Some (\<lambda>r w. (None, w\<lparr>w_plat := True\<rparr>))\<rparr>;
       r = (bareResource ''p.openctl.io/v1'' ''VM'' ''a'')\<lparr>r_spec := Some [(''cpu'', VFloat 2)],
              r_metadata := (bareMetadata ''a'')\<lparr>md_annotations := [(''openctl.io/autoReconcile'', ''true'')]\<rparr>\<rparr>;
       w = \<lparr>w_mirror = \<lparr>mi_db = emptyDb\<lparr>db_applied := [manifestRow (\<lambda>_. ''h'') ''t'' r [] ''cli'']\<rparr>, mi_fs = []\<rparr>, w_plat = False\<rparr>
   in \<exists>desired. Load None (w_db w) ''p.openctl.io/v1'' ''VM'' ''a'' = Inr (Some desired) \<and> shouldAutoReconcile desired"
proof -
  let ?x = "\<lparr>mr_apiVersion = ''p.openctl.io/v1'', mr_kind = ''VM'', mr_name = ''a'', mr_source = []\<rparr>"
  let ?rc = "\<lparr>rc_registry = [(''p'', echoProvider ''p'')], rc_fmt = \<lparr>fe_float = (\<lambda>_. []), fe_any = (\<lambda>_. [])\<rparr>,
             rc_autoApply = Some (\<lambda>r w. (None, w\<lparr>w_plat := True\<rparr>))\<rparr> :: bool reconciler"
  let ?r = "(bareResource ''p.openctl.io/v1'' ''VM'' ''a'')\<lparr>r_spec := Some [(''cpu'', VFloat 2)],
              r_metadata := (bareMetadata ''a'')\<lparr>md_annotations := [(''openctl.io/autoReconcile'', ''true'')]\<rparr>\<rparr>"
  let ?w = "\<lparr>w_mirror = \<lparr>mi_db = emptyDb\<lparr>db_applied := [manifestRow (\<lambda>_. ''h'') ''t'' ?r [] ''cli'']\<rparr>, mi_fs = []\<rparr>, w_plat = False\<rparr>"
  let ?rk = "\<lparr>rk_load = None, rk_now = 0, rk_failedAt = 0\<rparr>" and ?st = "\<lparr>rs_drift = [], rs_backoff = [], rs_log = []\<rparr>"
  have "w_plat (snd (reconcileOne ?rc ?rk ?x ?st ?w))" by code_simp
  then have "snd (reconcileOne ?rc ?rk ?x ?st ?w) \<noteq> ?w" by (metis world.select_convs(2))
  from remediation_guarded [OF prod.collapse [symmetric] this] show ?thesis by (simp add: Let_def) blast
qed

subsection \<open>The log of transitions\<close>

text \<open>The entries of one resource, true for a detection.\<close>

definition logOf :: "string \<Rightarrow> drift_log list \<Rightarrow> bool list" where
  "logOf key lg = List.map_filter (\<lambda>l. case l of Detected k _ \<Rightarrow> if k = key then Some True else None
                                          | Cleared k \<Rightarrow> if k = key then Some False else None) lg"

fun alternates :: "bool \<Rightarrow> bool list \<Rightarrow> bool" where
  "alternates b [] = True"
| "alternates b (x # xs) = (x = b \<and> alternates (\<not> b) xs)"

definition logInv :: "string \<Rightarrow> rec_state \<Rightarrow> bool" where
  "logInv key st \<longleftrightarrow> alternates True (logOf key (rs_log st)) \<and>
     (map_of (rs_drift st) key = Some True \<longleftrightarrow> logOf key (rs_log st) \<noteq> [] \<and> last (logOf key (rs_log st)))"

lemma logOf_append: "logOf key (lg @ [l]) = logOf key lg @ logOf key [l]"
  by (simp add: logOf_def List.map_filter_def)

lemma logOf_single:
  "logOf key [Detected k r] = (if k = key then [True] else [])" "logOf key [Cleared k] = (if k = key then [False] else [])"
  by (simp_all add: logOf_def List.map_filter_simps)

lemma alternates_snoc:
  "alternates b (xs @ [y]) \<longleftrightarrow> alternates b xs \<and> y = (if xs = [] then b else \<not> last xs)"
  by (induction b xs rule: alternates.induct) auto

lemma mark_logInv: "logInv key st \<Longrightarrow> logInv key (markAndLogIfChanged k b reason st)"
  by (auto simp: logInv_def markAndLogIfChanged_def Let_def logOf_append logOf_single alternates_snoc split: option.splits if_splits)

lemma reconcileOne_logInv: "logInv key st \<Longrightarrow> logInv key (fst (reconcileOne rc rk x st w))"
  by (cases rule: reconcileOne_cases [of rc rk x st w]) (simp_all add: mark_logInv mark_logInv [unfolded logInv_def] logInv_def)

text \<open>
  Drift is logged by transitions: in every state the loop can reach, the entries of a resource alternate
  between detected and cleared, beginning with detected, and the last one says whether the resource is
  currently marked as drifted.
\<close>
theorem drift_log_alternates:
  assumes "rec_reach rc st"
  shows "alternates True (logOf key (rs_log st)) \<and>
    (map_of (rs_drift st) key = Some True \<longleftrightarrow> logOf key (rs_log st) \<noteq> [] \<and> last (logOf key (rs_log st)))"
proof -
  have "logInv key \<lparr>rs_drift = [], rs_backoff = [], rs_log = []\<rparr>" by (simp add: logInv_def logOf_def List.map_filter_def)
  from rec_reach_invariant [OF assms this reconcileOne_logInv] show ?thesis by (simp add: logInv_def)
qed

theorem drift_log_alternates_witness:
  "alternates True (logOf ''k'' (rs_log \<lparr>rs_drift = [], rs_backoff = [], rs_log = []\<rparr>))"
  using drift_log_alternates [OF rec_start [of sampleReconciler], of "''k''"] by blast

end
