(* ===== verification/Api.thy ===== *)
theory Api
  imports Auth Reconciler
begin

text \<open>
  The request handlers of internal/controller/server: resource.go (apply, delete, get, list, dry run, actions)
  and operation.go (get, list, cancel).  A handler takes the caller's principal, the originator header, the
  failures and clock of its calls and the world, and returns a status error or a response with the new world.
  Schema validation (CUE) and the optional dry-run capability of a provider are parameters of the server.
\<close>

subsection \<open>Wire form\<close>

record wire_meta =
  wm_name :: string
  wm_labels :: strmap
  wm_annotations :: strmap
  wm_ownerRefs :: "resource_ref list"

record wire_resource =
  wi_apiVersion :: string
  wi_kind :: string
  wi_meta :: "wire_meta option"
  wi_spec :: "obj option"
  wi_status :: "obj option"
  wi_children :: "resource_ref list"
  wi_drift :: "drift_entry list"

definition wireName :: "wire_resource \<Rightarrow> string" where
  "wireName p = (case wi_meta p of None \<Rightarrow> [] | Some m \<Rightarrow> wm_name m)"

definition protoToResource :: "wire_resource \<Rightarrow> resource" where
  "protoToResource p =
     \<lparr>r_apiVersion = wi_apiVersion p, r_kind = wi_kind p,
      r_metadata = (case wi_meta p of
          None \<Rightarrow> bareMetadata []
        | Some m \<Rightarrow> (bareMetadata (wm_name m))\<lparr>md_labels := wm_labels m, md_annotations := wm_annotations m\<rparr>),
      r_spec = wi_spec p, r_status = wi_status p\<rparr>"

text \<open>Normalization for \<^verbatim>\<open>structpb\<close> turns every number into a float64.\<close>

definition resourceToProto :: "resource \<Rightarrow> wire_resource" where
  "resourceToProto r =
     \<lparr>wi_apiVersion = r_apiVersion r, wi_kind = r_kind r,
      wi_meta = Some \<lparr>wm_name = r_name r, wm_labels = md_labels (r_metadata r),
                      wm_annotations = md_annotations (r_metadata r), wm_ownerRefs = []\<rparr>,
      wi_spec = map_option jsonObj (r_spec r), wi_status = map_option jsonObj (r_status r),
      wi_children = [], wi_drift = []\<rparr>"

subsection \<open>The server and a call\<close>

record dry_plan =
  dr_children :: "(string \<times> string \<times> string \<times> string) list"
  dr_gates :: "string list"
  dr_summary :: string

record 'p server =
  sr_registry :: "'p world registry"
  sr_async :: bool
  sr_manifests :: bool
  sr_validate :: "resource \<Rightarrow> (string \<times> string) list"
  sr_fmt :: fmt_env
  sr_dryRun :: "string \<Rightarrow> (resource \<Rightarrow> 'p world \<Rightarrow> err + dry_plan option) option"

record call_env =
  ce_principal :: "principal option"
  ce_source :: "string list option"
  ce_submit :: submit_env
  ce_io :: io

definition sourceFromContext :: "string list option \<Rightarrow> string" where
  "sourceFromContext md = (case md of None \<Rightarrow> SourceCLI | Some vs \<Rightarrow> if SourceUI \<in> set vs then SourceUI else SourceCLI)"

definition checkNotForgotten :: "'p server \<Rightarrow> string option \<Rightarrow> 'p world \<Rightarrow> string \<Rightarrow> string \<Rightarrow> string \<Rightarrow> rpc_error option" where
  "checkNotForgotten sv f w av k n =
     (if \<not> sr_manifests sv then None
      else (case IsForgotten f (w_db w) av k n of
              Inl _ \<Rightarrow> Some (Internal, ''cannot check released resource tracking'')
            | Inr forgotten \<Rightarrow>
                if forgotten
                then Some (FailedPrecondition, k @ '' '' @ goQuote n @ '' was forgotten; explicitly adopt it before managing it'')
                else None))"

text \<open>How a failed submission is reported.\<close>

definition submitError :: "string \<Rightarrow> string \<Rightarrow> err \<Rightarrow> rpc_error" where
  "submitError k n e =
     (case rootErr e of
        ForgottenError _ _ _ \<Rightarrow> (FailedPrecondition, errText (rootErr e))
      | ConflictError i \<Rightarrow> (AlreadyExists, ''operation '' @ i @ '' already in flight for '' @ k @ ''/'' @ n)
      | _ \<Rightarrow> (Internal, ''submit op: '' @ errText e))"

definition submitFor :: "submit_env \<Rightarrow> operation \<Rightarrow> 'p world \<Rightarrow> (rpc_error + string) \<times> 'p world" where
  "submitFor se o1 w =
     (case Submit (se_io se) (se_now se) (se_newid se) (se_retain se) o1 (w_db w) of
        ((_, Some e), d) \<Rightarrow> (Inl (submitError (op_kind o1) (op_name o1) e), setDb d w)
      | ((Some op2, None), d) \<Rightarrow> (Inr (op_id op2), setDb d w)
      | ((None, None), d) \<Rightarrow> (Inl (Internal, []), setDb d w))"

subsection \<open>Apply and delete\<close>

definition applyAnnotations :: "bool \<Rightarrow> bool \<Rightarrow> resource \<Rightarrow> resource" where
  "applyAnnotations destructive breaks m =
     (let a0 = md_annotations (r_metadata m);
          a1 = (if destructive then putKey a0 ''openctl.io/allow-destructive'' ''true'' else a0);
          a2 = (if breaks then putKey a1 ''openctl.io/i-know-this-breaks-the-cluster'' ''true'' else a1)
      in m\<lparr>r_metadata := (r_metadata m)\<lparr>md_annotations := a2\<rparr>\<rparr>)"

definition applySync :: "'p server \<Rightarrow> resource \<Rightarrow> 'p world \<Rightarrow> (rpc_error + string) \<times> 'p world" where
  "applySync sv m w =
     (case For (sr_registry sv) (r_apiVersion m) of
        Inl e \<Rightarrow> (Inl (InvalidArgument, errText e), w)
      | Inr p \<Rightarrow>
          (case pv_apply p m w of
             (Inl e, w1) \<Rightarrow> (Inl (Internal, ''apply: '' @ errText e), w1)
           | (Inr _, w1) \<Rightarrow> (Inr [], w1)))"

definition validationText :: "(string \<times> string) list \<Rightarrow> string list" where
  "validationText fes = map (\<lambda>(p, m). if p \<noteq> [] then p @ '': '' @ m else m) fes"

text \<open>The response is the identifier of the operation, empty in the synchronous mode of tests.\<close>

definition Api_Apply ::
  "'p server \<Rightarrow> call_env \<Rightarrow> wire_resource option \<Rightarrow> bool \<Rightarrow> bool \<Rightarrow> 'p world \<Rightarrow> (rpc_error + string) \<times> 'p world" where
  "Api_Apply sv ce req destructive breaks w =
     (case authorize (ce_principal ce) RoleEditor of
        Some e \<Rightarrow> (Inl e, w)
      | None \<Rightarrow>
          (case req of
             None \<Rightarrow> (Inl (InvalidArgument, ''resource is required''), w)
           | Some wire \<Rightarrow>
               (case For (sr_registry sv) (wi_apiVersion wire) of
                  Inl e \<Rightarrow> (Inl (InvalidArgument, errText e), w)
                | Inr p \<Rightarrow>
                    (let m = protoToResource wire in
                     if sr_validate sv m \<noteq> [] then
                       (Inl (InvalidArgument, ''schema validation: '' @ joinWith ''; '' (validationText (sr_validate sv m))), w)
                     else if r_name m = [] then (Inl (InvalidArgument, ''metadata.name is required''), w)
                     else
                       (case checkNotForgotten sv (ce_io ce 0) w (r_apiVersion m) (r_kind m) (r_name m) of
                          Some e \<Rightarrow> (Inl e, w)
                        | None \<Rightarrow>
                            let m1 = applyAnnotations destructive breaks m in
                            if \<not> sr_async sv then applySync sv m1 w
                            else submitFor (ce_submit ce)
                                   (newOperation TypeApply (r_apiVersion m1) (r_kind m1) (r_name m1) (Doc m1)
                                      (sourceFromContext (ce_source ce))) w)))))"

definition Api_Delete ::
  "'p server \<Rightarrow> call_env \<Rightarrow> string \<Rightarrow> string \<Rightarrow> string \<Rightarrow> 'p world \<Rightarrow> (rpc_error + string) \<times> 'p world" where
  "Api_Delete sv ce av k n w =
     (case authorize (ce_principal ce) RoleEditor of
        Some e \<Rightarrow> (Inl e, w)
      | None \<Rightarrow>
          (case For (sr_registry sv) av of
             Inl e \<Rightarrow> (Inl (InvalidArgument, errText e), w)
           | Inr p \<Rightarrow>
               (case checkNotForgotten sv (ce_io ce 0) w av k n of
                  Some e \<Rightarrow> (Inl e, w)
                | None \<Rightarrow>
                    (case OwnerOf (sr_registry sv) k n of
                       Some (ok, on) \<Rightarrow>
                         (Inl (FailedPrecondition, k @ '' '' @ goQuote n @ '' is owned by '' @ ok @ '' '' @ goQuote on
                               @ ''; delete the owner instead''), w)
                     | None \<Rightarrow>
                         if \<not> sr_async sv then
                           (case pv_delete p k n w of
                              (Some e, w1) \<Rightarrow> (Inl (Internal, ''delete: '' @ errText e), w1)
                            | (None, w1) \<Rightarrow> (Inr [], w1))
                         else submitFor (ce_submit ce)
                                (newOperation TypeDelete av k n NoDoc (sourceFromContext (ce_source ce))) w))))"

subsection \<open>Visibility\<close>

text \<open>The owner cache of a list call, and the names applied for its kind; \<open>None\<close> for a single lookup.\<close>

type_synonym owner_cache = "(string \<times> bool) list"

definition ownerKey :: "resource_ref \<Rightarrow> string" where
  "ownerKey rf = rr_apiVersion rf @ ''/'' @ rr_kind rf @ ''/'' @ rr_name rf"

definition ownerManaged ::
  "string option \<Rightarrow> 'p world \<Rightarrow> resource_ref \<Rightarrow> owner_cache option \<Rightarrow> (err + bool) \<times> owner_cache option" where
  "ownerManaged f w owner cache =
     (case (case cache of None \<Rightarrow> None | Some c \<Rightarrow> map_of c (ownerKey owner)) of
        Some v \<Rightarrow> (Inr v, cache)
      | None \<Rightarrow>
          (case Load f (w_db w) (rr_apiVersion owner) (rr_kind owner) (rr_name owner) of
             Inl e \<Rightarrow> (Inl e, cache)
           | Inr desired \<Rightarrow> (Inr (desired \<noteq> None), map_option (\<lambda>c. putKey c (ownerKey owner) (desired \<noteq> None)) cache)))"

definition isManaged ::
  "'p server \<Rightarrow> io \<Rightarrow> 'p world \<Rightarrow> string \<Rightarrow> string \<Rightarrow> string \<Rightarrow> string list option \<Rightarrow> owner_cache option
     \<Rightarrow> (err + bool) \<times> owner_cache option" where
  "isManaged sv io w av k n applied cache =
     (if \<not> sr_manifests sv then (Inr True, cache)
      else if IsObservedOnly (sr_registry sv) av k then (Inr True, cache)
      else
        (case (case applied of
                 Some names \<Rightarrow> Inr (n \<in> set names)
               | None \<Rightarrow> (case Load (io 0) (w_db w) av k n of Inl e \<Rightarrow> Inl e | Inr d \<Rightarrow> Inr (d \<noteq> None))) of
           Inl e \<Rightarrow> (Inl e, cache)
         | Inr True \<Rightarrow> (Inr True, cache)
         | Inr False \<Rightarrow>
             (case OwnerRefOf (sr_registry sv) k n of
                None \<Rightarrow> (Inr False, cache)
              | Some owner \<Rightarrow> ownerManaged (io 1) w owner cache)))"

definition managedScope ::
  "'p server \<Rightarrow> string option \<Rightarrow> 'p world \<Rightarrow> string \<Rightarrow> string \<Rightarrow> err + string list option \<times> owner_cache option" where
  "managedScope sv f w av k =
     (if \<not> sr_manifests sv then Inr (None, None)
      else bindE (ListNames f (w_db w) av k) (\<lambda>names. Inr (Some names, Some [])))"

subsection \<open>Get and list\<close>

definition attachRelationships :: "'p world registry \<Rightarrow> wire_resource \<Rightarrow> wire_resource" where
  "attachRelationships reg out =
     (let k = wi_kind out; n = wireName out;
          o1 = (if ChildrenOf reg k n \<noteq> [] then out\<lparr>wi_children := ChildrenOf reg k n\<rparr> else out)
      in case OwnerRefOf reg k n of
           None \<Rightarrow> o1
         | Some owner \<Rightarrow>
             o1\<lparr>wi_meta := Some ((case wi_meta o1 of
                 None \<Rightarrow> \<lparr>wm_name = n, wm_labels = [], wm_annotations = [], wm_ownerRefs = []\<rparr> | Some md \<Rightarrow> md)\<lparr>wm_ownerRefs := [owner]\<rparr>)\<rparr>)"

definition attachDrift :: "'p server \<Rightarrow> string option \<Rightarrow> 'p world \<Rightarrow> wire_resource \<Rightarrow> resource \<Rightarrow> err + wire_resource" where
  "attachDrift sv f w out observed =
     (if \<not> sr_manifests sv then Inr out
      else bindE (Load f (w_db w) (r_apiVersion observed) (r_kind observed) (r_name observed)) (\<lambda>desired.
        case desired of
          None \<Rightarrow> Inr out
        | Some d \<Rightarrow>
            bindE (For (sr_registry sv) (r_apiVersion observed)) (\<lambda>p.
              case DriftSpecs p (r_kind observed) (r_spec d) (r_spec observed) of
                (ds, os) \<Rightarrow> Inr (out\<lparr>wi_drift := computeDrift (sr_fmt sv) ds os\<rparr>))))"

record get_response =
  gr_resource :: wire_resource
  gr_applied :: "wire_resource option"

definition notFound :: "string \<Rightarrow> string \<Rightarrow> rpc_error" where
  "notFound k n = (NotFound, k @ '' '' @ goQuote n @ '' not found'')"

text \<open>A provider that answers neither a resource nor an error makes the handler panic: \<open>NilDeref\<close>.\<close>

definition Api_Get :: "'p server \<Rightarrow> call_env \<Rightarrow> string \<Rightarrow> string \<Rightarrow> string \<Rightarrow> 'p world \<Rightarrow> rpc_error + get_response" where
  "Api_Get sv ce av k n w =
     (case authorize (ce_principal ce) RoleViewer of
        Some e \<Rightarrow> Inl e
      | None \<Rightarrow>
          (case For (sr_registry sv) av of
             Inl e \<Rightarrow> Inl (InvalidArgument, errText e)
           | Inr p \<Rightarrow>
               (case pv_get p k n w of
                  Inl e \<Rightarrow> if isNotFound e then Inl (notFound k n) else Inl (Internal, ''get: '' @ errText e)
                | Inr r0 \<Rightarrow>
                    (case fst (isManaged sv (ce_io ce) w av k n None None) of
                       Inl e \<Rightarrow> Inl (Internal, ''managed check: '' @ errText e)
                     | Inr managed \<Rightarrow>
                         if \<not> managed then Inl (notFound k n)
                         else
                           (case r0 of
                              None \<Rightarrow> Inl (Internal, errText NilDeref)
                            | Some r \<Rightarrow>
                                let out = resourceToProto r in
                                if \<not> sr_manifests sv
                                then Inr \<lparr>gr_resource = attachRelationships (sr_registry sv) out, gr_applied = None\<rparr>
                                else
                                  (case Load (ce_io ce 2) (w_db w) (r_apiVersion r) (r_kind r) (r_name r) of
                                     Inl e \<Rightarrow> Inl (Internal, ''load applied manifest: '' @ errText e)
                                   | Inr None \<Rightarrow> Inr \<lparr>gr_resource = attachRelationships (sr_registry sv) out, gr_applied = None\<rparr>
                                   | Inr (Some desired) \<Rightarrow>
                                       (case DriftSpecs p (r_kind r) (r_spec desired) (r_spec r) of
                                          (ds, os) \<Rightarrow>
                                            Inr \<lparr>gr_resource = attachRelationships (sr_registry sv)
                                                                 (out\<lparr>wi_drift := computeDrift (sr_fmt sv) ds os\<rparr>),
                                                 gr_applied = Some (attachRelationships (sr_registry sv) (resourceToProto desired))\<rparr>)))))))"

text \<open>\<open>io\<close>: the failures of the calls for each listed resource.\<close>

fun listLoop ::
  "'p server \<Rightarrow> (nat \<Rightarrow> io) \<Rightarrow> 'p world \<Rightarrow> string list option \<Rightarrow> nat \<Rightarrow> resource list \<Rightarrow> owner_cache option
     \<Rightarrow> rpc_error + wire_resource list" where
  "listLoop sv io w applied i [] cache = Inr []"
| "listLoop sv io w applied i (r # rs) cache =
     (case isManaged sv (io i) w (r_apiVersion r) (r_kind r) (r_name r) applied cache of
        (Inl e, _) \<Rightarrow> Inl (Internal, ''managed check: '' @ errText e)
      | (Inr managed, cache') \<Rightarrow>
          if \<not> managed then listLoop sv io w applied (Suc i) rs cache'
          else
            (case attachDrift sv (io i 2) w (resourceToProto r) r of
               Inl e \<Rightarrow> Inl (Internal, ''compute drift: '' @ errText e)
             | Inr out \<Rightarrow>
                 bindE (listLoop sv io w applied (Suc i) rs cache') (\<lambda>rest.
                   Inr (attachRelationships (sr_registry sv) out # rest))))"

definition Api_List :: "'p server \<Rightarrow> call_env \<Rightarrow> (nat \<Rightarrow> io) \<Rightarrow> string \<Rightarrow> string \<Rightarrow> 'p world \<Rightarrow> rpc_error + wire_resource list" where
  "Api_List sv ce io av k w =
     (case authorize (ce_principal ce) RoleViewer of
        Some e \<Rightarrow> Inl e
      | None \<Rightarrow>
          (case For (sr_registry sv) av of
             Inl e \<Rightarrow> Inl (InvalidArgument, errText e)
           | Inr p \<Rightarrow>
               (case pv_list p k w of
                  Inl e \<Rightarrow> Inl (Internal, ''list: '' @ errText e)
                | Inr rs \<Rightarrow>
                    (case managedScope sv (ce_io ce 0) w av k of
                       Inl e \<Rightarrow> Inl (Internal, ''managed scope: '' @ errText e)
                     | Inr (applied, cache) \<Rightarrow> listLoop sv io w applied 0 rs cache))))"

subsection \<open>Dry run and actions\<close>

record dry_response =
  dp_errors :: "string list"
  dp_fieldErrors :: "(string \<times> string) list"
  dp_diff :: "drift_entry list"
  dp_children :: "(string \<times> string \<times> string \<times> string) list"
  dp_gates :: "string list"
  dp_summary :: string

definition emptyDry :: dry_response where
  "emptyDry = \<lparr>dp_errors = [], dp_fieldErrors = [], dp_diff = [], dp_children = [], dp_gates = [], dp_summary = []\<rparr>"

definition summarizeDryRun :: "dry_response \<Rightarrow> string" where
  "summarizeDryRun r =
     (if dp_diff r = [] \<and> dp_children r = [] then ''no-op''
      else if dp_diff r \<noteq> [] then
        (if length (dp_diff r) = 1 then ''would update 1 field'' else ''would update '' @ digits (length (dp_diff r)) @ '' fields'')
      else [])"

definition Api_DryRunApply :: "'p server \<Rightarrow> call_env \<Rightarrow> wire_resource option \<Rightarrow> 'p world \<Rightarrow> rpc_error + dry_response" where
  "Api_DryRunApply sv ce req w =
     (case authorize (ce_principal ce) RoleViewer of
        Some e \<Rightarrow> Inl e
      | None \<Rightarrow>
          (case req of
             None \<Rightarrow> Inl (InvalidArgument, ''resource is required'')
           | Some wire \<Rightarrow>
               let m = protoToResource wire; fes = sr_validate sv m in
               if fes \<noteq> [] then
                 Inr (emptyDry\<lparr>dp_errors := validationText fes, dp_fieldErrors := fes, dp_summary := ''schema validation failed''\<rparr>)
               else if r_name m = [] then
                 Inr (emptyDry\<lparr>dp_errors := [''metadata.name is required''], dp_summary := ''metadata.name is required''\<rparr>)
               else
                 (case For (sr_registry sv) (r_apiVersion m) of
                    Inl e \<Rightarrow> Inl (InvalidArgument, errText e)
                  | Inr p \<Rightarrow>
                      (case (case r_spec m of
                               None \<Rightarrow> Inr None
                             | Some s \<Rightarrow> Refs.Resolve (Some (RegGet (sr_registry sv) w)) (Some s)) of
                         Inl e \<Rightarrow> Inr (emptyDry\<lparr>dp_errors := [errText e], dp_summary := ''unresolved ref''\<rparr>)
                       | Inr spec \<Rightarrow>
                           (case (if sr_manifests sv
                                  then (case Load (ce_io ce 0) (w_db w) (r_apiVersion m) (r_kind m) (r_name m) of
                                          Inl e \<Rightarrow> Inl e
                                        | Inr None \<Rightarrow> Inr []
                                        | Inr (Some d) \<Rightarrow> Inr (computeDrift (sr_fmt sv) (r_spec d) spec))
                                  else Inr []) of
                              Inl e \<Rightarrow> Inl (Internal, ''load applied manifest: '' @ errText e)
                            | Inr diff \<Rightarrow>
                                let resp = emptyDry\<lparr>dp_diff := diff\<rparr> in
                                (case (case sr_dryRun sv (r_apiVersion m) of
                                         None \<Rightarrow> Inr None
                                       | Some dr \<Rightarrow> dr (m\<lparr>r_spec := spec\<rparr>) w) of
                                   Inl e \<Rightarrow> Inl (Internal, ''dry-run: '' @ errText e)
                                 | Inr plan \<Rightarrow>
                                     let resp1 = (case plan of
                                           None \<Rightarrow> resp
                                         | Some pl \<Rightarrow> resp\<lparr>dp_children := dr_children pl, dp_gates := dr_gates pl, dp_summary := dr_summary pl\<rparr>)
                                     in Inr (if dp_summary resp1 = [] then resp1\<lparr>dp_summary := summarizeDryRun resp1\<rparr> else resp1)))))))"

definition Api_ListActions :: "'p server \<Rightarrow> call_env \<Rightarrow> string \<Rightarrow> string \<Rightarrow> rpc_error + string list \<times> action_spec list" where
  "Api_ListActions sv ce av k =
     (case authorize (ce_principal ce) RoleViewer of
        Some e \<Rightarrow> Inl e
      | None \<Rightarrow>
          if av = [] \<or> k = [] then Inl (InvalidArgument, ''api_version and kind are required'')
          else Inr (map as_name (ActionSpecsFor (sr_registry sv) av k), ActionSpecsFor (sr_registry sv) av k))"

definition Api_InvokeAction ::
  "'p server \<Rightarrow> call_env \<Rightarrow> string \<Rightarrow> string \<Rightarrow> string \<Rightarrow> string \<Rightarrow> strmap \<Rightarrow> 'p world
     \<Rightarrow> (rpc_error + action_result) \<times> 'p world" where
  "Api_InvokeAction sv ce av k n action params w =
     (case authorize (ce_principal ce) RoleEditor of
        Some e \<Rightarrow> (Inl e, w)
      | None \<Rightarrow>
          if av = [] \<or> k = [] \<or> n = [] \<or> action = []
          then (Inl (InvalidArgument, ''api_version, kind, resource_name, and action are required''), w)
          else
            (case checkNotForgotten sv (ce_io ce 0) w av k n of
               Some e \<Rightarrow> (Inl e, w)
             | None \<Rightarrow>
                 (case DoAction (sr_registry sv) av k n action params w of
                    (Inl e, w1) \<Rightarrow>
                      if contains (errText e) ''not supported'' \<or> contains (errText e) ''does not support''
                      then (Inl (FailedPrecondition, errText e), w1)
                      else (Inl (Internal, ''action '' @ goQuote action @ '' on '' @ k @ ''/'' @ n @ '': '' @ errText e), w1)
                  | (Inr None, w1) \<Rightarrow> (Inr \<lparr>ar_message = [], ar_url = [], ar_downloadContent = [], ar_downloadFilename = []\<rparr>, w1)
                  | (Inr (Some res), w1) \<Rightarrow> (Inr res, w1))))"

subsection \<open>Operations (operation.go)\<close>

record wire_operation =
  wo_row :: operation
  wo_result :: "wire_resource option"
  wo_manifest :: doc
  wo_kids :: "operation list"

text \<open>The columns of the operation, its result decoded; the manifest only for a single lookup.\<close>

definition opToProto :: "operation \<Rightarrow> err + wire_operation" where
  "opToProto o1 =
     (case op_result o1 of
        NoDoc \<Rightarrow> Inr \<lparr>wo_row = o1\<lparr>op_manifest := NoDoc, op_result := NoDoc\<rparr>, wo_result = None, wo_manifest = NoDoc, wo_kids = []\<rparr>
      | d \<Rightarrow> bindE (wrapErr ''decode result'' (decodeDoc d)) (\<lambda>r.
          Inr \<lparr>wo_row = o1\<lparr>op_manifest := NoDoc, op_result := NoDoc\<rparr>, wo_result = Some (resourceToProto r), wo_manifest = NoDoc, wo_kids = []\<rparr>))"

fun opsToProto :: "operation list \<Rightarrow> rpc_error + wire_operation list" where
  "opsToProto [] = Inr []"
| "opsToProto (o1 # ops) =
     (case opToProto o1 of
        Inl e \<Rightarrow> Inl (Internal, ''encode op '' @ op_id o1 @ '': '' @ errText e)
      | Inr x \<Rightarrow> bindE (opsToProto ops) (\<lambda>xs. Inr (x # xs)))"

definition Api_GetOperation :: "io \<Rightarrow> string \<Rightarrow> bool \<Rightarrow> 'p world \<Rightarrow> rpc_error + wire_operation" where
  "Api_GetOperation io i includeChildren w =
     (if i = [] then Inl (InvalidArgument, ''id is required'')
      else
        (case Get (io 0) (w_db w) i of
           Inl e \<Rightarrow> if e = ErrNoRows then Inl (NotFound, ''operation '' @ i @ '' not found'') else Inl (Internal, ''get: '' @ errText e)
         | Inr o1 \<Rightarrow>
             (case opToProto o1 of
                Inl e \<Rightarrow> Inl (Internal, ''encode: '' @ errText e)
              | Inr pb \<Rightarrow>
                  let pb1 = pb\<lparr>wo_manifest := op_manifest o1\<rparr> in
                  if \<not> includeChildren then Inr pb1
                  else
                    (case ListChildren (io 1) (w_db w) (op_id o1) of
                       Inl e \<Rightarrow> Inl (Internal, ''list children: '' @ errText e)
                     | Inr kids \<Rightarrow>
                         bindE (opsToProto kids) (\<lambda>ks. Inr (pb1\<lparr>wo_kids := map wo_row ks\<rparr>))))))"

definition Api_ListOperations :: "io \<Rightarrow> list_filter \<Rightarrow> 'p world \<Rightarrow> rpc_error + wire_operation list" where
  "Api_ListOperations io flt w =
     (case OpStore.List (io 0) (w_db w) flt of
        Inl e \<Rightarrow> Inl (Internal, ''list: '' @ errText e)
      | Inr ops \<Rightarrow> opsToProto ops)"

text \<open>The caller's principal is not looked at; \<open>canceler\<close> says whether a dispatcher is wired.\<close>

definition Api_CancelOperation ::
  "call_env \<Rightarrow> bool \<Rightarrow> string \<Rightarrow> run_table \<Rightarrow> 'p world \<Rightarrow> (rpc_error + string) \<times> run_table \<times> 'p world" where
  "Api_CancelOperation ce canceler i rt w =
     (if i = [] then (Inl (InvalidArgument, ''id is required''), rt, w)
      else
        (case CancelPending (ce_io ce) (se_now (ce_submit ce)) (w_db w) i of
           (Inl e, d) \<Rightarrow>
             (Inl (if e = ErrNoRows then (NotFound, ''operation '' @ i @ '' not found'') else (Internal, ''cancel: '' @ errText e)),
              rt, setDb d w)
         | (Inr res, d) \<Rightarrow>
             if cr_status res = StatusCancelled then (Inr (cr_status res), rt, setDb d w)
             else if cr_status res = StatusRunning \<and> canceler \<and> fst (CancelRunning i rt)
             then (Inr (cr_status res), snd (CancelRunning i rt), setDb d w)
             else (Inl (FailedPrecondition, ''operation '' @ i @ '' status='' @ cr_status res @ '': '' @ cr_reason res), rt, setDb d w)))"


subsection \<open>The owner cache is transparent\<close>

definition slashFree :: "resource_ref \<Rightarrow> bool" where
  "slashFree rf \<longleftrightarrow> CHR ''/'' \<notin> set (rr_kind rf) \<and> CHR ''/'' \<notin> set (rr_name rf)"

lemma ownerKey_inj:
  assumes "slashFree a" "slashFree b" "ownerKey a = ownerKey b"
  shows "rr_apiVersion a = rr_apiVersion b \<and> rr_kind a = rr_kind b \<and> rr_name a = rr_name b"
proof -
  have ns: "CHR ''/'' \<notin> set (rr_name a)" "CHR ''/'' \<notin> set (rr_name b)" "CHR ''/'' \<notin> set (rr_kind a)" "CHR ''/'' \<notin> set (rr_kind b)"
    using assms(1,2) by (simp_all add: slashFree_def)
  have "(rr_apiVersion a @ CHR ''/'' # rr_kind a) @ CHR ''/'' # rr_name a =
        (rr_apiVersion b @ CHR ''/'' # rr_kind b) @ CHR ''/'' # rr_name b"
    using assms(3) by (simp add: ownerKey_def)
  from append_sep_eq [OF ns(1,2) this]
  have n: "rr_apiVersion a @ CHR ''/'' # rr_kind a = rr_apiVersion b @ CHR ''/'' # rr_kind b \<and> rr_name a = rr_name b" .
  then show ?thesis using append_sep_eq [OF ns(3,4) conjunct1 [OF n]] by simp
qed

text \<open>Every owner the registry names is free of slashes in its kind and name.\<close>

definition plainOwners :: "'p world registry \<Rightarrow> bool" where
  "plainOwners reg \<longleftrightarrow> (\<forall>k n rf. OwnerRefOf reg k n = Some rf \<longrightarrow> slashFree rf)"

definition hasManifest :: "db \<Rightarrow> string \<Rightarrow> string \<Rightarrow> string \<Rightarrow> bool" where
  "hasManifest d av k n \<longleftrightarrow> (av, k, n) \<in> amKey ` set (db_applied d)"

lemma Load_total:
  assumes "applied_inv d"
  obtains r where "Load None d av k n = Inr r" "r \<noteq> None \<longleftrightarrow> hasManifest d av k n"
proof (cases "findRow amKey (av, k, n) (db_applied d)")
  case None
  then have "\<not> hasManifest d av k n" by (simp add: hasManifest_def findRow_None)
  moreover have "Load None d av k n = Inr None" using None by (rule Load_findRow_None)
  ultimately show ?thesis using that by blast
next
  case (Some row)
  then have "rowOk row" "hasManifest d av k n"
    using findRow_Some [OF Some] assms by (auto simp: applied_inv_def hasManifest_def intro: rev_image_eqI)
  then obtain spec where "am_spec row = Inr spec" by (auto simp: rowOk_def split: sum.splits)
  then show ?thesis using Some \<open>hasManifest d av k n\<close> that by (simp add: Load_eq)
qed

definition cacheOk :: "'p world \<Rightarrow> owner_cache option \<Rightarrow> bool" where
  "cacheOk w c \<longleftrightarrow> (\<forall>cs. c = Some cs \<longrightarrow> (\<forall>rf v. slashFree rf \<longrightarrow> map_of cs (ownerKey rf) = Some v \<longrightarrow>
      v = hasManifest (w_db w) (rr_apiVersion rf) (rr_kind rf) (rr_name rf)))"

lemma ownerManaged_cached:
  assumes "applied_inv (w_db w)" "slashFree rf" "cacheOk w c"
  shows "\<exists>c'. ownerManaged None w rf c = (Inr (hasManifest (w_db w) (rr_apiVersion rf) (rr_kind rf) (rr_name rf)), c')
           \<and> cacheOk w c'"
proof (cases "(case c of None \<Rightarrow> None | Some cs \<Rightarrow> map_of cs (ownerKey rf))")
  case (Some v)
  then show ?thesis using assms by (auto simp: ownerManaged_def cacheOk_def split: option.splits)
next
  case None
  obtain r where r: "Load None (w_db w) (rr_apiVersion rf) (rr_kind rf) (rr_name rf) = Inr r"
      "r \<noteq> None \<longleftrightarrow> hasManifest (w_db w) (rr_apiVersion rf) (rr_kind rf) (rr_name rf)"
    using Load_total [OF assms(1)] by blast
  have "cacheOk w (map_option (\<lambda>cs. putKey cs (ownerKey rf) (r \<noteq> None)) c)"
    unfolding cacheOk_def
  proof (intro allI impI)
    fix cs rf' v
    assume a: "map_option (\<lambda>cs. putKey cs (ownerKey rf) (r \<noteq> None)) c = Some cs" "slashFree rf'"
      "map_of cs (ownerKey rf') = Some v"
    then obtain c0 where c0: "c = Some c0" "cs = putKey c0 (ownerKey rf) (r \<noteq> None)" by auto
    show "v = hasManifest (w_db w) (rr_apiVersion rf') (rr_kind rf') (rr_name rf')"
    proof (cases "ownerKey rf' = ownerKey rf")
      case True
      then show ?thesis using a(3) c0(2) r(2) ownerKey_inj [OF a(2) assms(2)] by simp
    next
      case False
      then show ?thesis using a c0 assms(3) by (simp add: cacheOk_def)
    qed
  qed
  then show ?thesis using None r by (simp add: ownerManaged_def)
qed

lemma ListNames_mem:
  "ListNames None d av k = Inr names \<Longrightarrow> n \<in> set names \<longleftrightarrow> hasManifest d av k n"
  by (auto simp: ListNames_def hasManifest_def amKey_def image_iff)

text \<open>Whether a resource is shown: the answer of the single lookup.\<close>

definition shown :: "'p server \<Rightarrow> 'p world \<Rightarrow> string \<Rightarrow> string \<Rightarrow> string \<Rightarrow> bool" where
  "shown sv w av k n \<longleftrightarrow>
     \<not> sr_manifests sv \<or> IsObservedOnly (sr_registry sv) av k \<or> hasManifest (w_db w) av k n \<or>
     (case OwnerRefOf (sr_registry sv) k n of
        None \<Rightarrow> False | Some rf \<Rightarrow> hasManifest (w_db w) (rr_apiVersion rf) (rr_kind rf) (rr_name rf))"

lemma isManaged_shown:
  assumes "applied_inv (w_db w)" "plainOwners (sr_registry sv)" "cacheOk w c"
    and "\<forall>names. applied = Some names \<longrightarrow> ListNames None (w_db w) av k = Inr names"
  shows "\<exists>c'. isManaged sv (\<lambda>_. None) w av k n applied c = (Inr (shown sv w av k n), c') \<and> cacheOk w c'"
proof -
  obtain r where r: "Load None (w_db w) av k n = Inr r" "r \<noteq> None \<longleftrightarrow> hasManifest (w_db w) av k n"
    using Load_total [OF assms(1)] by blast
  have q: "(case applied of Some names \<Rightarrow> Inr (n \<in> set names)
            | None \<Rightarrow> (case Load None (w_db w) av k n of Inl e \<Rightarrow> Inl e | Inr d \<Rightarrow> Inr (d \<noteq> None)))
          = Inr (hasManifest (w_db w) av k n)"
    using r assms(4) by (auto simp: ListNames_mem split: option.splits)
  show ?thesis
  proof (cases "OwnerRefOf (sr_registry sv) k n")
    case None
    then show ?thesis using q assms(3) by (auto simp: isManaged_def shown_def split: bool.splits)
  next
    case (Some rf)
    have "slashFree rf" using assms(2) Some by (simp add: plainOwners_def)
    from ownerManaged_cached [OF assms(1) this assms(3)]
    show ?thesis using q Some assms(3) by (auto simp: isManaged_def shown_def split: bool.splits)
  qed
qed

lemma wireName_attach [simp]: "wireName (attachRelationships reg out) = wireName out"
  by (auto simp: attachRelationships_def wireName_def Let_def split: option.splits)

text \<open>The entry of a shown resource, in a list as in a single lookup.\<close>

definition entryOf :: "'p server \<Rightarrow> 'p world \<Rightarrow> 'p world provider \<Rightarrow> resource \<Rightarrow> wire_resource" where
  "entryOf sv w p r =
     attachRelationships (sr_registry sv)
       (case Load None (w_db w) (r_apiVersion r) (r_kind r) (r_name r) of
          Inr (Some d) \<Rightarrow>
            if sr_manifests sv
            then (resourceToProto r)\<lparr>wi_drift := (case DriftSpecs p (r_kind r) (r_spec d) (r_spec r) of
                     (ds, os) \<Rightarrow> computeDrift (sr_fmt sv) ds os)\<rparr>
            else resourceToProto r
        | _ \<Rightarrow> resourceToProto r)"

lemma attachDrift_entry:
  assumes "applied_inv (w_db w)" "For (sr_registry sv) (r_apiVersion r) = Inr p"
  shows "\<exists>out. attachDrift sv None w (resourceToProto r) r = Inr out \<and>
           attachRelationships (sr_registry sv) out = entryOf sv w p r"
proof -
  obtain x where x: "Load None (w_db w) (r_apiVersion r) (r_kind r) (r_name r) = Inr x"
    using Load_total [OF assms(1)] by blast
  show ?thesis using x assms(2)
    by (cases x) (auto simp: attachDrift_def entryOf_def split: prod.splits)
qed

lemma listLoop_entries:
  assumes "applied_inv (w_db w)" "plainOwners (sr_registry sv)" "For (sr_registry sv) av = Inr p"
    and "\<forall>names. applied = Some names \<longrightarrow> ListNames None (w_db w) av k = Inr names"
    and "\<forall>r \<in> set rs. r_apiVersion r = av \<and> r_kind r = k" "cacheOk w c"
  shows "listLoop sv (\<lambda>_ _. None) w applied i rs c =
           Inr (map (entryOf sv w p) (filter (\<lambda>r. shown sv w av k (r_name r)) rs))"
  using assms(5,6)
proof (induction rs arbitrary: i c)
  case (Cons r rs)
  have r: "r_apiVersion r = av" "r_kind r = k" using Cons.prems(1) by simp_all
  obtain c' where c': "isManaged sv (\<lambda>_. None) w av k (r_name r) applied c = (Inr (shown sv w av k (r_name r)), c')" "cacheOk w c'"
    using isManaged_shown [OF assms(1,2) Cons.prems(2) assms(4)] by blast
  obtain out where out: "attachDrift sv None w (resourceToProto r) r = Inr out"
      "attachRelationships (sr_registry sv) out = entryOf sv w p r"
    using attachDrift_entry [OF assms(1), of sv r p] assms(3) r by auto
  have "\<forall>r \<in> set rs. r_apiVersion r = av \<and> r_kind r = k" using Cons.prems(1) by simp
  note ih = Cons.IH [OF this c'(2)]
  show ?case using r c' out ih by simp
qed simp

lemma Get_entry:
  assumes "applied_inv (w_db w)" "plainOwners (sr_registry sv)" "For (sr_registry sv) av = Inr p"
    and "authorize (ce_principal ce) RoleViewer = None" "ce_io ce = (\<lambda>_. None)"
    and "pv_get p k n w = Inr (Some r)" "r_apiVersion r = av" "r_kind r = k" "r_name r = n"
  shows "map_sum id gr_resource (Api_Get sv ce av k n w) =
           (if shown sv w av k n then Inr (entryOf sv w p r) else Inl (notFound k n))"
proof -
  have c0: "cacheOk w None" by (simp add: cacheOk_def)
  obtain c' where c': "isManaged sv (\<lambda>_. None) w av k n None None = (Inr (shown sv w av k n), c')"
    using isManaged_shown [OF assms(1,2) c0] by blast
  obtain x where x: "Load None (w_db w) av k n = Inr x" using Load_total [OF assms(1)] by blast
  show ?thesis using assms(3-9) c' x
    by (cases x) (auto simp: Api_Get_def entryOf_def Let_def split: prod.splits)
qed


definition listProvider :: "resource list \<Rightarrow> 'p world provider" where
  "listProvider rs = (echoProvider ''p'')\<lparr>pv_list := (\<lambda>k w. Inr rs),
     pv_get := (\<lambda>k n w. Inr (find (\<lambda>r. r_name r = n) rs)),
     pv_ownerOf := Some (\<lambda>k n. if n = ''b'' then Some (''Cluster'', ''a'') else None)\<rparr>"

definition sampleServer :: "resource list \<Rightarrow> unit server" where
  "sampleServer rs = \<lparr>sr_registry = [(''p'', listProvider rs)], sr_async = True, sr_manifests = True,
     sr_validate = (\<lambda>_. []), sr_fmt = \<lparr>fe_float = (\<lambda>_. []), fe_any = (\<lambda>_. [])\<rparr>, sr_dryRun = (\<lambda>_. None)\<rparr>"

definition sampleCall :: "string \<Rightarrow> call_env" where
  "sampleCall role = \<lparr>ce_principal = Some \<lparr>pr_user = ''u'', pr_role = role, pr_root = False\<rparr>, ce_source = None,
     ce_submit = sampleSubmit, ce_io = (\<lambda>_. None)\<rparr>"

definition sampleVms :: "resource list" where
  "sampleVms = map (bareResource ''p.openctl.io/v1'' ''VM'') [''a'', ''b'', ''c'']"

definition appliedWorld :: "applied_row list \<Rightarrow> unit world" where
  "appliedWorld rows = \<lparr>w_mirror = sampleMirror rows [], w_plat = ()\<rparr>"

abbreviation sampleRow :: "string \<Rightarrow> string \<Rightarrow> applied_row" where
  "sampleRow k n \<equiv> manifestRow (\<lambda>_. ''h'') ''t'' (bareResource ''p.openctl.io/v1'' k n) [] SourceCLI"

lemma sample_plainOwners: "plainOwners (sr_registry (sampleServer rs))"
  by (auto simp: plainOwners_def sampleServer_def listProvider_def slashFree_def split: if_splits)


subsection \<open>Accepted submissions\<close>

lemma Submit_ok:
  assumes "Submit io now newid retain o1 d = ((Some op2, None), d')" "ops_inv (db_ops d)"
  shows "op2 = o1\<lparr>op_id := newid, op_status := StatusPending, op_submitted := now\<rparr>"
    and "submitRow op2 \<in> set (db_ops d')" "newid \<notin> op_id ` set (db_ops d)"
    and "\<not> isReleased d (op_apiVersion o1) (op_kind o1) (op_name o1)"
    and "\<forall>x \<in> set (db_ops d). sameResource o1 x \<longrightarrow> \<not> inFlight x"
    and "\<exists>rows. d' = d\<lparr>db_ops := rows\<rparr> \<and> set rows \<subseteq> insert (submitRow op2) (set (db_ops d))"
proof -
  obtain d1 where tx: "submitTx io now newid o1 d = Inr (op2, d1)"
    and d': "d' = d1 \<or> (\<exists>f. gcResource f retain d1 (op_apiVersion op2) (op_kind op2) (op_name op2) = Inr d')"
    using assms(1) by (auto simp: Submit_def split: sum.splits if_splits) blast
  note t = submitTx_Inr [OF tx]
  have ids: "\<forall>x \<in> set (db_ops d). op_id x \<noteq> []" and dist: "distinct (map op_id (db_ops d))"
    using assms(2) by (simp_all add: ops_inv_def)
  have d1: "distinct (map op_id (db_ops d1))" "submitRow op2 \<in> set (db_ops d1)" "\<not> collectable (submitRow op2)"
    using t(1-3) dist by (auto simp: submitRow_def collectable_def)
  show "op2 = o1\<lparr>op_id := newid, op_status := StatusPending, op_submitted := now\<rparr>"
    "newid \<notin> op_id ` set (db_ops d)" "\<not> isReleased d (op_apiVersion o1) (op_kind o1) (op_name o1)"
    by (rule t)+
  show "\<forall>x \<in> set (db_ops d). sameResource o1 x \<longrightarrow> \<not> inFlight x" using conflictCheck_Inr [OF t(4) ids] .
  show "submitRow op2 \<in> set (db_ops d')" using d' d1 gcResource_keeps by blast
  show "\<exists>rows. d' = d\<lparr>db_ops := rows\<rparr> \<and> set rows \<subseteq> insert (submitRow op2) (set (db_ops d))"
  proof -
    obtain P where "d' = d1\<lparr>db_ops := filter P (db_ops d1)\<rparr>"
    proof (cases "d' = d1")
      case True
      then have "d' = d1\<lparr>db_ops := filter (\<lambda>_. True) (db_ops d1)\<rparr>" by simp
      then show thesis by (rule that)
    next
      case False
      then show thesis using d' that by (auto dest!: gcResource_rows)
    qed
    then show ?thesis using t(2) by (intro exI [of _ "filter P (db_ops d @ [submitRow op2])"]) auto
  qed
qed

lemma submitFor_Inr:
  assumes "submitFor se o1 w = (Inr i, w')"
  obtains op2 d' where "Submit (se_io se) (se_now se) (se_newid se) (se_retain se) o1 (w_db w) = ((Some op2, None), d')"
    "i = op_id op2" "w' = setDb d' w"
  using assms by (auto simp: submitFor_def split: prod.splits option.splits)

text \<open>What an accepted request leaves behind: one new pending row, nothing else touched.\<close>

definition enqueued :: "operation \<Rightarrow> string \<Rightarrow> 'p world \<Rightarrow> 'p world \<Rightarrow> bool" where
  "enqueued o1 i w w' \<longleftrightarrow>
     (\<exists>row \<in> set (db_ops (w_db w')). row = o1\<lparr>op_id := i, op_status := StatusPending, op_submitted := op_submitted row\<rparr>
        \<and> set (db_ops (w_db w')) \<subseteq> insert row (set (db_ops (w_db w)))) \<and>
     i \<notin> op_id ` set (db_ops (w_db w)) \<and>
     \<not> isReleased (w_db w) (op_apiVersion o1) (op_kind o1) (op_name o1) \<and>
     (\<forall>x \<in> set (db_ops (w_db w)). sameResource o1 x \<longrightarrow> \<not> inFlight x) \<and>
     (\<exists>rows. w' = setDb ((w_db w)\<lparr>db_ops := rows\<rparr>) w)"

lemma submitFor_enqueued:
  assumes "submitFor se (newOperation ty av k n m src) w = (Inr i, w')" "ops_inv (db_ops (w_db w))"
  shows "enqueued (newOperation ty av k n m src) i w w'"
proof -
  let ?o = "newOperation ty av k n m src"
  obtain op2 d' where s: "Submit (se_io se) (se_now se) (se_newid se) (se_retain se) ?o (w_db w) = ((Some op2, None), d')"
      "i = op_id op2" "w' = setDb d' w"
    using assms(1) by (rule submitFor_Inr)
  note k = Submit_ok [OF s(1) assms(2)]
  have row: "submitRow op2 = ?o\<lparr>op_id := i, op_status := StatusPending, op_submitted := op_submitted (submitRow op2)\<rparr>"
    using k(1) s(2) by (simp add: submitRow_def newOperation_def)
  obtain rows where rows: "d' = (w_db w)\<lparr>db_ops := rows\<rparr>" "set rows \<subseteq> insert (submitRow op2) (set (db_ops (w_db w)))"
    using k(6) by blast
  have i: "i = se_newid se" using k(1) s(2) by simp
  have "\<exists>row \<in> set (db_ops (w_db w')). row = ?o\<lparr>op_id := i, op_status := StatusPending, op_submitted := op_submitted row\<rparr>
        \<and> set (db_ops (w_db w')) \<subseteq> insert row (set (db_ops (w_db w)))"
    using row rows k(2) s(3) by (intro bexI [of _ "submitRow op2"]) simp_all
  moreover have "w' = setDb ((w_db w)\<lparr>db_ops := rows\<rparr>) w" using rows(1) s(3) by simp
  ultimately show ?thesis unfolding enqueued_def using k(3-5) [folded i] by (intro conjI) blast+
qed

text \<open>
  An accepted \<open>Apply\<close> (asynchronous server, any driver failures): the caller is at least an editor, the manifest
  passed validation and has a name, its provider is registered, the resource was neither released nor had it an
  operation in flight, and the only change is one new pending apply operation, under the returned identifier, that
  carries the manifest with the requested gates and an origin of the command line or the interface.
\<close>
theorem apply_accepted:
  assumes "Api_Apply sv ce (Some wire) destructive breaks w = (Inr i, w')" "sr_async sv" "ops_inv (db_ops (w_db w))"
  shows "(authorize (ce_principal ce) RoleEditor = None) \<and>
    (isOk (For (sr_registry sv) (wi_apiVersion wire))) \<and>
    (sr_validate sv (protoToResource wire) = []) \<and>
    (wireName wire \<noteq> []) \<and>
    (\<exists>src. src \<in> {SourceCLI, SourceUI} \<and> enqueued (newOperation TypeApply (wi_apiVersion wire) (wi_kind wire) (wireName wire) (Doc (applyAnnotations destructive breaks (protoToResource wire))) src) i w w')"
proof (intro conjI)
  let ?m = "protoToResource wire"
  let ?m1 = "applyAnnotations destructive breaks ?m"
  have nm: "r_name ?m = wireName wire" "r_apiVersion ?m1 = wi_apiVersion wire" "r_kind ?m1 = wi_kind wire" "r_name ?m1 = wireName wire"
    by (simp_all add: protoToResource_def wireName_def applyAnnotations_def bareMetadata_def Let_def split: option.splits)
  have a: "authorize (ce_principal ce) RoleEditor = None"
    using assms(1) by (cases "authorize (ce_principal ce) RoleEditor") (simp_all add: Api_Apply_def)
  then show "authorize (ce_principal ce) RoleEditor = None" .
  obtain p where p: "For (sr_registry sv) (wi_apiVersion wire) = Inr p"
    using assms(1) a by (cases "For (sr_registry sv) (wi_apiVersion wire)") (simp_all add: Api_Apply_def)
  then show "isOk (For (sr_registry sv) (wi_apiVersion wire))" by simp
  have v: "sr_validate sv ?m = []"
    using assms(1) a p by (cases "sr_validate sv ?m = []") (simp_all add: Api_Apply_def Let_def)
  then show "sr_validate sv ?m = []" .
  have n: "r_name ?m \<noteq> []" using assms(1) a p v by (auto simp: Api_Apply_def Let_def)
  then show "wireName wire \<noteq> []" using nm by simp
  have "submitFor (ce_submit ce) (newOperation TypeApply (wi_apiVersion wire) (wi_kind wire) (wireName wire) (Doc ?m1)
          (sourceFromContext (ce_source ce))) w = (Inr i, w')"
    using assms(1,2) a p v n nm
    by (cases "checkNotForgotten sv (ce_io ce 0) w (r_apiVersion ?m) (r_kind ?m) (r_name ?m)")
       (simp_all add: Api_Apply_def Let_def)
  moreover have "sourceFromContext (ce_source ce) \<in> {SourceCLI, SourceUI}" by (simp add: sourceFromContext_def split: option.split)
  ultimately show "\<exists>src. src \<in> {SourceCLI, SourceUI} \<and>
      enqueued (newOperation TypeApply (wi_apiVersion wire) (wi_kind wire) (wireName wire) (Doc ?m1) src) i w w'"
    by (intro exI conjI) (assumption, rule submitFor_enqueued [OF _ assms(3)])
qed

theorem apply_accepted_witness:
  "\<exists>w'. Api_Apply (sampleServer []) (sampleCall RoleEditor) (Some (resourceToProto (bareResource ''p.openctl.io/v1'' ''VM'' ''x''))) True False
     (appliedWorld []) = (Inr ''op-1'', w') \<and> (\<exists>row \<in> set (db_ops (w_db w')). op_id row = ''op-1'' \<and> op_status row = StatusPending)"
proof -
  let ?r = "Api_Apply (sampleServer []) (sampleCall RoleEditor) (Some (resourceToProto (bareResource ''p.openctl.io/v1'' ''VM'' ''x''))) True False
     (appliedWorld [])"
  have "fst ?r = Inr ''op-1''" by code_simp
  then have a: "?r = (Inr ''op-1'', snd ?r)" by (cases ?r) simp
  have "sr_async (sampleServer [])" "ops_inv (db_ops (w_db (appliedWorld [])))"
    by (simp_all add: sampleServer_def appliedWorld_def sampleMirror_def emptyDb_def ops_inv_def)
  from apply_accepted [OF a this] obtain o1 where "enqueued o1 ''op-1'' (appliedWorld []) (snd ?r)" by blast
  then obtain row where row: "row \<in> set (db_ops (w_db (snd ?r)))"
      "row = o1\<lparr>op_id := ''op-1'', op_status := StatusPending, op_submitted := op_submitted row\<rparr>"
    unfolding enqueued_def by blast
  have "op_id row = ''op-1''" "op_status row = StatusPending"
    using arg_cong [OF row(2), of op_id] arg_cong [OF row(2), of op_status] by simp_all
  then have "\<exists>row \<in> set (db_ops (w_db (snd ?r))). op_id row = ''op-1'' \<and> op_status row = StatusPending"
    using row(1) by blast
  then show ?thesis using a by blast
qed

end
