(* ===== verification/MigrationApi.thy ===== *)
theory MigrationApi
  imports Api
begin

text \<open>
  The migration requests of internal/controller/server/migration.go: exporting a virtual machine as a bundle,
  adopting it at another controller and forgetting it at the source.  They stand on the transactions of the
  theory \<open>Migration\<close> and the projections of \<open>DiskMirror\<close>, and read the platform only to verify the
  identity of the machine.
\<close>

subsection \<open>The server and a call\<close>

text \<open>
  \<open>mg_identity\<close>: the identity reader of the provider with that name, when it has one.  A provider with a planner
  is composite.
\<close>

record 'p mig_server =
  mg_server :: "'p server"
  mg_gitops :: bool
  mg_mirror :: "mirror_env option"
  mg_identity :: "string \<Rightarrow> (resource \<Rightarrow> 'p world \<Rightarrow> err + string) option"
  mg_sha :: "nval \<Rightarrow> string"
  mg_digest :: "json \<Rightarrow> string"

record mig_call =
  mc_principal :: "principal option"
  mc_io :: io
  mc_now :: string
  mc_fresh :: string
  mc_mirrorDb :: "string option"
  mc_disk :: io
  mc_ctx :: ctx

record migration_bundle =
  mb_version :: int
  mb_resource :: "wire_resource option"
  mb_controllerId :: string
  mb_manifestDigest :: string
  mb_identity :: string

definition migrationBundleVersion :: int where
  "migrationBundleVersion = 1"

subsection \<open>Checks\<close>

definition migrationReady :: "'p mig_server \<Rightarrow> rpc_error option" where
  "migrationReady ms =
     (if mg_gitops ms
      then Some (FailedPrecondition, ''disable manifest GitOps watch/pull automation and restart the controller before migration'')
      else if \<not> sr_manifests (mg_server ms)
      then Some (FailedPrecondition, ''migration requires a configured manifest store'')
      else None)"

definition migrationResource ::
  "'p mig_server \<Rightarrow> wire_resource option \<Rightarrow> rpc_error + resource \<times> 'p world provider \<times> (resource \<Rightarrow> 'p world \<Rightarrow> err + string)" where
  "migrationResource ms wire0 =
     (case wire0 of
        None \<Rightarrow> Inl (InvalidArgument, ''complete desired resource is required'')
      | Some wire \<Rightarrow>
          if wi_apiVersion wire = [] \<or> wi_kind wire = [] \<or> wireName wire = [] \<or> wi_spec wire = None
          then Inl (InvalidArgument, ''complete desired resource is required'')
          else if wi_status wire \<noteq> None \<or> wi_drift wire \<noteq> []
          then Inl (InvalidArgument, ''migration accepts desired intent without status or drift'')
          else if wi_children wire \<noteq> [] \<or> (case wi_meta wire of None \<Rightarrow> False | Some md \<Rightarrow> wm_ownerRefs md \<noteq> [])
          then Inl (FailedPrecondition, ''migration does not support owned or composite resources'')
          else
            let manifest = protoToResource wire; reg = sr_registry (mg_server ms) in
            if r_apiVersion manifest \<noteq> ''proxmox.openctl.io/v1'' \<or> r_kind manifest \<noteq> ''VirtualMachine''
            then Inl (FailedPrecondition, ''migration supports only standalone Proxmox VirtualMachine resources'')
            else if sr_validate (mg_server ms) manifest \<noteq> []
            then Inl (InvalidArgument, ''migration manifest failed schema validation'')
            else
              (case For reg (r_apiVersion manifest) of
                 Inl _ \<Rightarrow> Inl (FailedPrecondition, ''migration provider is not configured'')
               | Inr p \<Rightarrow>
                   (case mg_identity ms (pv_name p) of
                      None \<Rightarrow> Inl (FailedPrecondition, ''provider does not support migration identity verification'')
                    | Some ident \<Rightarrow>
                        if pv_plan p \<noteq> None
                        then Inl (FailedPrecondition, ''migration does not support composite providers'')
                        else if OwnerOf reg (r_kind manifest) (r_name manifest) \<noteq> None
                             \<or> ChildrenOf reg (r_kind manifest) (r_name manifest) \<noteq> []
                             \<or> strGet (md_labels (r_metadata manifest)) ''openctl.io/owner-kind'' \<noteq> []
                             \<or> strGet (md_labels (r_metadata manifest)) ''openctl.io/owner-name'' \<noteq> []
                        then Inl (FailedPrecondition, ''migration does not support owned or composite resources'')
                        else Inr (manifest, p, ident))))"

definition validateMigrationBundle :: "(nval \<Rightarrow> string) \<Rightarrow> migration_bundle option \<Rightarrow> rpc_error option" where
  "validateMigrationBundle sha b0 =
     (case b0 of
        None \<Rightarrow> Some (InvalidArgument, ''complete version 1 migration bundle is required'')
      | Some b \<Rightarrow>
          (case mb_resource b of
             None \<Rightarrow> Some (InvalidArgument, ''complete version 1 migration bundle is required'')
           | Some wire \<Rightarrow>
               if mb_version b \<noteq> migrationBundleVersion \<or> mb_controllerId b = [] \<or> mb_manifestDigest b = [] \<or> mb_identity b = []
               then Some (InvalidArgument, ''complete version 1 migration bundle is required'')
               else if MigrationDigest sha (Some (protoToResource wire)) \<noteq> Inr (mb_manifestDigest b)
               then Some (InvalidArgument, ''migration bundle manifest digest does not match'')
               else None))"

definition migrationError :: "err \<Rightarrow> rpc_error" where
  "migrationError e =
     (case rootErr e of
        ForgottenError _ _ _ \<Rightarrow> (FailedPrecondition, errText (rootErr e))
      | ErrMigrationNotFound \<Rightarrow> (NotFound, ''desired resource not found'')
      | ErrMigrationBusy \<Rightarrow> (FailedPrecondition, ''migration requires an idle controller; wait for all pending and running operations to finish'')
      | ErrMigrationUnsupported _ \<Rightarrow> (FailedPrecondition, ''migration requires a standalone VM without managed references, ownership, or opaque provider state'')
      | ErrMigrationConflict _ \<Rightarrow> (FailedPrecondition, ''migration conflicts with current desired intent or source controller; use an unchanged bundle from this source, or export current intent again'')
      | _ \<Rightarrow> (Internal, ''migration manifest store operation failed''))"

definition migrationIdentityError :: "err \<Rightarrow> rpc_error" where
  "migrationIdentityError e =
     (if isNotFound e then (NotFound, ''existing migration VM not found'')
      else (FailedPrecondition, ''cannot verify existing migration VM identity; check provider credentials/context, desired node, and the VM''
              @ [CHR 0x27] @ ''s actual smbios1 UUID''))"

subsection \<open>The three requests\<close>

definition ExportResource ::
  "'p mig_server \<Rightarrow> mig_call \<Rightarrow> string \<Rightarrow> string \<Rightarrow> string \<Rightarrow> 'p world \<Rightarrow> (rpc_error + migration_bundle) \<times> 'p world" where
  "ExportResource ms mc av k n w =
     (case authorize (mc_principal mc) RoleAdmin of
        Some e \<Rightarrow> (Inl e, w)
      | None \<Rightarrow>
          (case migrationReady ms of
             Some e \<Rightarrow> (Inl e, w)
           | None \<Rightarrow>
               if av = [] \<or> k = [] \<or> n = [] then (Inl (InvalidArgument, ''api_version, kind, and name are required''), w)
               else
                 (case ExportMigration (mc_io mc) (mg_sha ms) (mc_fresh mc) av k n (w_db w) of
                    Inl e \<Rightarrow> (Inl (migrationError e), w)
                  | Inr (snapshot, d) \<Rightarrow>
                      let w1 = setDb d w; wire = resourceToProto (ms_resource snapshot) in
                      (case migrationResource ms (Some wire) of
                         Inl e \<Rightarrow> (Inl e, w1)
                       | Inr (manifest, p, ident) \<Rightarrow>
                           (case ident manifest w1 of
                              Inl e \<Rightarrow> (Inl (migrationIdentityError e), w1)
                            | Inr identity \<Rightarrow>
                                if identity = []
                                then (Inl (FailedPrecondition, ''provider returned an empty migration identity''), w1)
                                else (Inr \<lparr>mb_version = migrationBundleVersion, mb_resource = Some wire,
                                          mb_controllerId = ms_controllerID snapshot, mb_manifestDigest = ms_digest snapshot,
                                          mb_identity = identity\<rparr>, w1))))))"

text \<open>What is recorded: the manifest, with the destination's provider context when one is given.\<close>

definition withContext :: "string \<Rightarrow> resource \<Rightarrow> resource" where
  "withContext c m = (if c = [] then m else m\<lparr>r_spec := map_option (\<lambda>s. putKey s ''context'' (VStr c)) (r_spec m)\<rparr>)"

definition adoptChecked ::
  "'p mig_server \<Rightarrow> mig_call \<Rightarrow> resource \<Rightarrow> wire_resource \<Rightarrow> 'p world \<Rightarrow> (rpc_error + wire_resource) \<times> 'p world" where
  "adoptChecked ms mc manifest out w =
     (case Adopt (mc_io mc) (mg_sha ms) (mg_digest ms) (mc_now mc) (Some manifest) (w_db w) of
        Inl e \<Rightarrow> (Inl (migrationError e), w)
      | Inr d \<Rightarrow>
          let w1 = setDb d w in
          (case mg_mirror ms of
             None \<Rightarrow> (Inr out, w1)
           | Some env \<Rightarrow>
               (case Materialize env (mc_mirrorDb mc) (mc_disk mc) (mc_ctx mc) (Some manifest) (w_mirror w1) of
                  (Some _, m) \<Rightarrow>
                    (Inl (Internal, ''VM adoption saved; disk projection failed, retry adoption to repair''), w1\<lparr>w_mirror := m\<rparr>)
                | (None, m) \<Rightarrow> (Inr out, w1\<lparr>w_mirror := m\<rparr>))))"

definition AdoptResource ::
  "'p mig_server \<Rightarrow> mig_call \<Rightarrow> wire_resource option \<Rightarrow> migration_bundle option \<Rightarrow> string \<Rightarrow> 'p world
     \<Rightarrow> (rpc_error + wire_resource) \<times> 'p world" where
  "AdoptResource ms mc res bundle context w =
     (case authorize (mc_principal mc) RoleAdmin of
        Some e \<Rightarrow> (Inl e, w)
      | None \<Rightarrow>
          (case migrationReady ms of
             Some e \<Rightarrow> (Inl e, w)
           | None \<Rightarrow>
               if (res = None) = (bundle = None) then (Inl (InvalidArgument, ''exactly one resource or bundle is required''), w)
               else
                 (case (case bundle of None \<Rightarrow> None | Some b \<Rightarrow> validateMigrationBundle (mg_sha ms) (Some b)) of
                    Some e \<Rightarrow> (Inl e, w)
                  | None \<Rightarrow>
                      (case migrationResource ms (case bundle of None \<Rightarrow> res | Some b \<Rightarrow> mb_resource b) of
                         Inl e \<Rightarrow> (Inl e, w)
                       | Inr (manifest0, p, ident) \<Rightarrow>
                           let manifest = withContext context manifest0 in
                           if context \<noteq> [] \<and> sr_validate (mg_server ms) manifest \<noteq> []
                           then (Inl (InvalidArgument, ''invalid destination provider context''), w)
                           else
                             (case ident manifest w of
                                Inl e \<Rightarrow> (Inl (migrationIdentityError e), w)
                              | Inr identity \<Rightarrow>
                                  if identity = [] \<or> (case bundle of None \<Rightarrow> False | Some b \<Rightarrow> identity \<noteq> mb_identity b)
                                  then (Inl (FailedPrecondition, ''existing VM identity does not match migration bundle''), w)
                                  else
                                    (case pv_get p (r_kind manifest) (r_name manifest) w of
                                       Inr (Some observed) \<Rightarrow>
                                         adoptChecked ms mc manifest
                                           ((resourceToProto observed)\<lparr>wi_drift :=
                                              (case DriftSpecs p (r_kind manifest) (r_spec manifest) (r_spec observed) of
                                                 (ds, os) \<Rightarrow> computeDrift (sr_fmt (mg_server ms)) ds os)\<rparr>) w
                                     | _ \<Rightarrow> (Inl (FailedPrecondition,
                                               ''cannot observe existing VM; retry adoption before forgetting the source''), w)))))))"

definition forgetChecked ::
  "'p mig_server \<Rightarrow> mig_call \<Rightarrow> resource \<Rightarrow> migration_bundle \<Rightarrow> 'p world \<Rightarrow> (rpc_error + unit) \<times> 'p world" where
  "forgetChecked ms mc manifest b w =
     (case Forget (mc_io mc) (mg_sha ms) (mc_now mc) (mc_fresh mc) (Some manifest) (mb_controllerId b) (mb_manifestDigest b) (w_db w) of
        Inl e \<Rightarrow> (Inl (migrationError e), w)
      | Inr d \<Rightarrow>
          let w1 = setDb d w in
          (case mg_mirror ms of
             None \<Rightarrow> (Inr (), w1)
           | Some env \<Rightarrow>
               (case RemoveProjection env (mc_mirrorDb mc) (mc_disk mc 0) (mc_ctx mc)
                       (r_apiVersion manifest) (r_kind manifest) (r_name manifest) (w_mirror w1) of
                  (Some _, m) \<Rightarrow>
                    (Inl (Internal, ''VM tracking released; disk projection failed, retry forget to repair''), w1\<lparr>w_mirror := m\<rparr>)
                | (None, m) \<Rightarrow> (Inr (), w1\<lparr>w_mirror := m\<rparr>))))"

definition ForgetResource ::
  "'p mig_server \<Rightarrow> mig_call \<Rightarrow> migration_bundle option \<Rightarrow> 'p world \<Rightarrow> (rpc_error + unit) \<times> 'p world" where
  "ForgetResource ms mc bundle w =
     (case authorize (mc_principal mc) RoleAdmin of
        Some e \<Rightarrow> (Inl e, w)
      | None \<Rightarrow>
          (case migrationReady ms of
             Some e \<Rightarrow> (Inl e, w)
           | None \<Rightarrow>
               (case validateMigrationBundle (mg_sha ms) bundle of
                  Some e \<Rightarrow> (Inl e, w)
                | None \<Rightarrow>
                    (case bundle of
                       None \<Rightarrow> (Inl (Internal, errText NilDeref), w)
                     | Some b \<Rightarrow>
                         (case migrationResource ms (mb_resource b) of
                            Inl e \<Rightarrow> (Inl e, w)
                          | Inr (manifest, p, ident) \<Rightarrow>
                              (case ident manifest w of
                                 Inl e \<Rightarrow> (Inl (migrationIdentityError e), w)
                               | Inr identity \<Rightarrow>
                                   if identity \<noteq> mb_identity b
                                   then (Inl (FailedPrecondition, ''existing VM identity does not match migration bundle''), w)
                                   else forgetChecked ms mc manifest b w))))))"

subsection \<open>The wire form keeps the desired intent\<close>

text \<open>The metadata fields the wire form has no place for.\<close>

definition plainMeta :: "resource \<Rightarrow> bool" where
  "plainMeta r \<longleftrightarrow> md_namespace (r_metadata r) = [] \<and> md_uid (r_metadata r) = [] \<and> md_createdAt (r_metadata r) = []"

lemma wire_roundtrip:
  "protoToResource (resourceToProto r) =
     (jsonResource r)\<lparr>r_metadata := (r_metadata r)\<lparr>md_namespace := [], md_uid := [], md_createdAt := []\<rparr>\<rparr>"
  by (simp add: protoToResource_def resourceToProto_def jsonResource_def bareMetadata_def)

lemma wire_roundtrip_plain:
  assumes "plainMeta r" "map_option jsonObj (r_spec r) = r_spec r" "r_status r = None"
  shows "protoToResource (resourceToProto r) = r"
  using assms unfolding wire_roundtrip by (simp add: plainMeta_def jsonResource_def)

lemma optObj_json [simp]: "optObj key (map_option jsonObj s) = optObj key s"
  by (cases s) (auto simp: optObj_def simp flip: jsonVal.simps(1) split: if_splits, simp add: jsonObj_map)

lemma resourceDoc_wire_iff:
  "resourceDoc ((protoToResource (resourceToProto r))\<lparr>r_status := None\<rparr>) = resourceDoc (r\<lparr>r_status := None\<rparr>) \<longleftrightarrow> plainMeta r"
proof
  assume eq: "resourceDoc ((protoToResource (resourceToProto r))\<lparr>r_status := None\<rparr>) = resourceDoc (r\<lparr>r_status := None\<rparr>)"
  let ?l = "optMap ''labels'' (md_labels (r_metadata r))" and ?a = "optMap ''annotations'' (md_annotations (r_metadata r))"
  have "?l @ ?a = optField ''namespace'' (md_namespace (r_metadata r)) @ ?l @ ?a
           @ optField ''uid'' (md_uid (r_metadata r)) @ optField ''createdAt'' (md_createdAt (r_metadata r))"
    using eq unfolding resourceDoc_def wire_roundtrip by (simp add: optField_def [of _ "[]"])
  from arg_cong [OF this, of length] show "plainMeta r"
    by (simp add: plainMeta_def optField_def split: if_splits)
next
  assume "plainMeta r"
  then show "resourceDoc ((protoToResource (resourceToProto r))\<lparr>r_status := None\<rparr>) = resourceDoc (r\<lparr>r_status := None\<rparr>)"
    unfolding wire_roundtrip by (simp add: resourceDoc_def plainMeta_def)
qed

subsection \<open>What a successful request went through\<close>

lemma migrationResource_Inr:
  assumes "migrationResource ms wire = Inr (m, p, ident)"
  obtains x where "wire = Some x" "m = protoToResource x" "mg_identity ms (pv_name p) = Some ident"
    "For (sr_registry (mg_server ms)) (r_apiVersion m) = Inr p"
  using assms by (auto simp: migrationResource_def Let_def split: option.splits if_splits sum.splits)

lemma ExportResource_Inr:
  assumes "ExportResource ms mc av k n w = (Inr b, w1)"
  obtains snap d p ident where
    "ExportMigration (mc_io mc) (mg_sha ms) (mc_fresh mc) av k n (w_db w) = Inr (snap, d)" "w1 = setDb d w"
    "migrationReady ms = None"
    "migrationResource ms (Some (resourceToProto (ms_resource snap))) = Inr (protoToResource (resourceToProto (ms_resource snap)), p, ident)"
    "ident (protoToResource (resourceToProto (ms_resource snap))) w1 = Inr (mb_identity b)"
    "b = \<lparr>mb_version = migrationBundleVersion, mb_resource = Some (resourceToProto (ms_resource snap)),
          mb_controllerId = ms_controllerID snap, mb_manifestDigest = ms_digest snap, mb_identity = mb_identity b\<rparr>"
    "mb_identity b \<noteq> []"
proof -
  obtain snap d where e: "ExportMigration (mc_io mc) (mg_sha ms) (mc_fresh mc) av k n (w_db w) = Inr (snap, d)"
    and rd: "migrationReady ms = None"
    using assms by (auto simp: ExportResource_def split: option.splits if_splits sum.splits)
  obtain m p ident where m: "migrationResource ms (Some (resourceToProto (ms_resource snap))) = Inr (m, p, ident)"
    using assms e by (auto simp: ExportResource_def Let_def split: option.splits if_splits sum.splits)
  have mm: "m = protoToResource (resourceToProto (ms_resource snap))" using m by (rule migrationResource_Inr) simp
  have rest: "w1 = setDb d w" "ident m w1 = Inr (mb_identity b)" "mb_identity b \<noteq> []"
      "b = \<lparr>mb_version = migrationBundleVersion, mb_resource = Some (resourceToProto (ms_resource snap)),
          mb_controllerId = ms_controllerID snap, mb_manifestDigest = ms_digest snap, mb_identity = mb_identity b\<rparr>"
    using assms e m by (auto simp: ExportResource_def Let_def split: option.splits if_splits sum.splits)
  show thesis using that [OF e rest(1) rd m [unfolded mm] rest(2) [unfolded mm] rest(4,3)] .
qed

lemma AdoptResource_Inr:
  assumes "AdoptResource ms mc None (Some b) [] w = (Inr out, w1)"
  obtains m p ident d wm where "validateMigrationBundle (mg_sha ms) (Some b) = None"
    "migrationResource ms (mb_resource b) = Inr (m, p, ident)"
    "Adopt (mc_io mc) (mg_sha ms) (mg_digest ms) (mc_now mc) (Some m) (w_db w) = Inr d"
    "w1 = (setDb d w)\<lparr>w_mirror := wm\<rparr>" "mi_db wm = d"
proof -
  have v: "validateMigrationBundle (mg_sha ms) (Some b) = None"
    using assms by (auto simp: AdoptResource_def split: option.splits)
  obtain m p ident where m: "migrationResource ms (mb_resource b) = Inr (m, p, ident)"
    using assms v by (cases "migrationResource ms (mb_resource b)") (auto simp: AdoptResource_def split: option.splits)
  obtain o' where c: "adoptChecked ms mc m o' w = (Inr out, w1)"
    using assms v m by (auto simp: AdoptResource_def withContext_def Let_def split: option.splits if_splits sum.splits)
  obtain d where d: "Adopt (mc_io mc) (mg_sha ms) (mg_digest ms) (mc_now mc) (Some m) (w_db w) = Inr d"
    using c by (cases "Adopt (mc_io mc) (mg_sha ms) (mg_digest ms) (mc_now mc) (Some m) (w_db w)") (simp_all add: adoptChecked_def)
  have "\<exists>wm. w1 = (setDb d w)\<lparr>w_mirror := wm\<rparr> \<and> mi_db wm = d"
  proof (cases "mg_mirror ms")
    case None
    then show ?thesis using c d by (intro exI [of _ "w_mirror (setDb d w)"]) (auto simp: adoptChecked_def)
  next
    case (Some env)
    then show ?thesis using c d
      by (auto simp: adoptChecked_def Let_def Materialize_def split: prod.splits option.splits sum.splits)
  qed
  then show thesis using that [OF v m d] by blast
qed

text \<open>The two documents whose digests the bundle validation compares.\<close>

definition migrationDocs :: "resource \<Rightarrow> nval set" where
  "migrationDocs r = {resourceDoc (r\<lparr>r_status := None\<rparr>), resourceDoc ((protoToResource (resourceToProto r))\<lparr>r_status := None\<rparr>)}"

lemma wire_digest_iff:
  assumes "inj_on sha (migrationDocs r)"
  shows "sha (resourceDoc ((protoToResource (resourceToProto r))\<lparr>r_status := None\<rparr>)) = sha (resourceDoc (r\<lparr>r_status := None\<rparr>))
           \<longleftrightarrow> plainMeta r"
  unfolding resourceDoc_wire_iff [symmetric] by (rule inj_on_eq_iff [OF assms]) (simp_all add: migrationDocs_def)

lemma validateMigrationBundle_None:
  assumes "validateMigrationBundle sha (Some b) = None" "mb_resource b = Some wire"
  shows "mb_controllerId b \<noteq> []" "mb_manifestDigest b \<noteq> []"
    and "mb_manifestDigest b = sha (resourceDoc ((protoToResource wire)\<lparr>r_status := None\<rparr>))"
  using assms by (auto simp: validateMigrationBundle_def MigrationDigest_def split: if_splits)

lemma exported_snapshot:
  assumes "ExportMigration io sha fresh av k n d = Inr (snap, d')" "applied_inv d"
  shows "r_apiVersion (ms_resource snap) = av" "r_kind (ms_resource snap) = k" "r_name (ms_resource snap) = n"
    and "map_option jsonObj (r_spec (ms_resource snap)) = r_spec (ms_resource snap)" "r_status (ms_resource snap) = None"
    and "Load None d av k n = Inr (Some (ms_resource snap))"
    and "ms_digest snap = sha (resourceDoc ((ms_resource snap)\<lparr>r_status := None\<rparr>))"
proof -
  obtain r i where r: "loadMigrationManifest None d av k n = Inr (Some r)"
      "snap = \<lparr>ms_controllerID = i, ms_digest = sha (resourceDoc (r\<lparr>r_status := None\<rparr>)), ms_resource = r\<rparr>"
    using assms(1) by (rule ExportMigration_Inr)
  note l = loadMigrationManifest_Some [OF r(1) assms(2)]
  show "r_apiVersion (ms_resource snap) = av" "r_kind (ms_resource snap) = k" "r_name (ms_resource snap) = n"
    "map_option jsonObj (r_spec (ms_resource snap)) = r_spec (ms_resource snap)" "r_status (ms_resource snap) = None"
    "Load None d av k n = Inr (Some (ms_resource snap))"
    "ms_digest snap = sha (resourceDoc ((ms_resource snap)\<lparr>r_status := None\<rparr>))"
    using l r(2) by simp_all
qed

text \<open>
  A bundle is usable exactly when nothing of the manifest is lost on the wire: with a digest that is never
  empty and does not collide on the manifest and its wire form, the bundle an export returns passes the validation of the adopting and the forgetting
  side if and only if the exported manifest has no namespace, no uid and no creation time (and the controller
  has an identifier).  A resource with a namespace can be exported, but never adopted or forgotten.
\<close>
theorem exported_bundle_usable_iff:
  assumes "ExportResource ms mc av k n w = (Inr b, w1)" "applied_inv (w_db w)"
    and "Load None (w_db w) av k n = Inr (Some r)" "\<forall>x. mg_sha ms x \<noteq> []" "inj_on (mg_sha ms) (migrationDocs r)"
  shows "validateMigrationBundle (mg_sha ms) (Some b) = None \<longleftrightarrow> plainMeta r \<and> mb_controllerId b \<noteq> []"
  using assms(1)
proof (cases rule: ExportResource_Inr)
  case (1 snap d p ident)
  note e = exported_snapshot [OF 1(1) assms(2)]
  have r: "r = ms_resource snap" using e(6) assms(3) by simp
  have b: "mb_version b = migrationBundleVersion" "mb_resource b = Some (resourceToProto r)"
      "mb_manifestDigest b = mg_sha ms (resourceDoc (r\<lparr>r_status := None\<rparr>))"
    using e(7) r by (subst 1(6), simp)+
  have "MigrationDigest (mg_sha ms) (Some (protoToResource (resourceToProto r))) = Inr (mb_manifestDigest b) \<longleftrightarrow> plainMeta r"
    using wire_digest_iff [OF assms(5)] b(3) by (simp add: MigrationDigest_def)
  then show ?thesis using b 1(7) assms(4) by (auto simp: validateMigrationBundle_def)
qed

text \<open>A call of an administrator in which no driver, disk or hook call fails.\<close>

definition smoothCall :: "'p mig_server \<Rightarrow> mig_call \<Rightarrow> bool" where
  "smoothCall ms mc \<longleftrightarrow> authorize (mc_principal mc) RoleAdmin = None \<and> mc_io mc = (\<lambda>_. None) \<and> mc_mirrorDb mc = None \<and>
     mc_disk mc = (\<lambda>_. None) \<and> (\<forall>env. mg_mirror ms = Some env \<longrightarrow> me_hook env = None)"

lemma forgetChecked_smooth:
  assumes "smoothCall ms mc"
    and "Forget (\<lambda>_. None) (mg_sha ms) (mc_now mc) (mc_fresh mc) (Some m) (mb_controllerId b) (mb_manifestDigest b) (w_db w) = Inr d"
  shows "\<exists>wm. forgetChecked ms mc m b w = (Inr (), (setDb d w)\<lparr>w_mirror := wm\<rparr>) \<and> mi_db wm = d"
proof (cases "mg_mirror ms")
  case None
  then show ?thesis using assms
    by (intro exI [of _ "w_mirror (setDb d w)"]) (simp add: forgetChecked_def smoothCall_def)
next
  case (Some env)
  have "isReleased d (r_apiVersion m) (r_kind m) (r_name m)" using Forget_effect(1) [OF assms(2)] by (simp add: isReleased_iff)
  then have f: "IsForgotten None d (r_apiVersion m) (r_kind m) (r_name m) = Inr True"
    by (simp add: IsForgotten_def CheckNotForgotten_def)
  have rm: "\<exists>fs'. removeFile env None av k n fs = Inr fs'" for av k n fs
    by (cases "fileAt fs (pathFor (me_root env) av k n)") (simp_all add: removeFile_def sysCall_def Let_def)
  obtain fs' where fs': "removeFile env None (r_apiVersion m) (r_kind m) (r_name m) (mi_fs (w_mirror w)) = Inr fs'"
    using rm by blast
  have io: "mc_io mc = (\<lambda>_. None)" "mc_mirrorDb mc = None" "mc_disk mc = (\<lambda>_. None)" "me_hook env = None"
    using assms(1) Some by (simp_all add: smoothCall_def)
  have "RemoveProjection env None None (mc_ctx mc) (r_apiVersion m) (r_kind m) (r_name m) (w_mirror (setDb d w))
      = (None, (w_mirror (setDb d w))\<lparr>mi_fs := fs'\<rparr>)"
    using f fs' io(4) by (simp add: RemoveProjection_def runHook_def setDb_def)
  then show ?thesis using Some io assms(2)
    by (intro exI [of _ "(w_mirror (setDb d w))\<lparr>mi_fs := fs'\<rparr>"]) (simp add: forgetChecked_def Let_def)
qed

text \<open>
  C14. The migration protocol end to end: when a source controller's export returned a bundle and a destination
  controller with the same digest adopted it unchanged, then forgetting it at the source succeeds in a call
  without failures; the destination desires exactly the manifest the source desired before, the source desires
  nothing for it and is fenced, and the platform is the same as before on both sides.
\<close>
theorem rpc_handoff:
  assumes "ExportResource ms mc av k n w0 = (Inr b, w1)" "applied_inv (w_db w0)"
    and "AdoptResource ms' mc' None (Some b) [] v0 = (Inr out, v1)" "mg_sha ms' = mg_sha ms"
    and "\<forall>r. Load None (w_db w0) av k n = Inr (Some r) \<longrightarrow> inj_on (mg_sha ms) (migrationDocs r)" "smoothCall ms mc''"
  shows "\<exists>w2. ForgetResource ms mc'' (Some b) w1 = (Inr (), w2) \<and> w_plat w2 = w_plat w0 \<and> w_plat v1 = w_plat v0 \<and>
    Load None (w_db v1) av k n = Load None (w_db w0) av k n \<and> Load None (w_db w2) av k n = Inr None \<and>
    isReleased (w_db w2) av k n \<and> \<not> isReleased (w_db v1) av k n"
  using assms(1)
proof (cases rule: ExportResource_Inr)
  case (1 snap d p ident)
  let ?r = "ms_resource snap"
  note e = exported_snapshot [OF 1(1) assms(2)]
  have b: "mb_resource b = Some (resourceToProto ?r)" "mb_manifestDigest b = ms_digest snap"
      "mb_controllerId b = ms_controllerID snap"
    by (subst 1(6), simp)+
  obtain m q ident' dv wm where ad: "validateMigrationBundle (mg_sha ms) (Some b) = None"
      "migrationResource ms' (mb_resource b) = Inr (m, q, ident')"
      "Adopt (mc_io mc') (mg_sha ms) (mg_digest ms') (mc_now mc') (Some m) (w_db v0) = Inr dv"
      "v1 = (setDb dv v0)\<lparr>w_mirror := wm\<rparr>" "mi_db wm = dv"
    using assms(3) unfolding assms(4) [symmetric] by (rule AdoptResource_Inr)
  note v = validateMigrationBundle_None [OF ad(1) b(1)]
  have "plainMeta ?r"
    using v(3) b(2) e(6,7) assms(5) wire_digest_iff [of "mg_sha ms" ?r] by simp
  then have rt: "protoToResource (resourceToProto ?r) = ?r" using e(4,5) by (rule wire_roundtrip_plain)
  have m: "m = ?r" using ad(2) b(1) rt by (auto elim!: migrationResource_Inr)
  obtain d2 where f: "Forget (\<lambda>_. None) (mg_sha ms) (mc_now mc'') (mc_fresh mc'') (Some ?r) (mb_controllerId b) (mb_manifestDigest b) d = Inr d2"
    using export_forget [OF 1(1) assms(2)] v(1,2) b(2,3) by metis
  obtain wm2 where w2: "forgetChecked ms mc'' ?r b w1 = (Inr (), (setDb d2 w1)\<lparr>w_mirror := wm2\<rparr>)" "mi_db wm2 = d2"
    using forgetChecked_smooth [OF assms(6), of ?r b w1 d2] f 1(2) by auto
  have "ForgetResource ms mc'' (Some b) w1 = (Inr (), (setDb d2 w1)\<lparr>w_mirror := wm2\<rparr>)"
    using assms(6) 1(3,4,5) ad(1) b(1) w2(1) rt by (simp add: ForgetResource_def smoothCall_def)
  moreover have "Load None dv av k n = Load None (w_db w0) av k n"
    using Load_manifestRow [of ?r dv "mg_digest ms'" "mc_now mc'" "[]" SourceCLI] Adopt_Inr(1) [OF ad(3)] m e(1-6)
    by (simp add: jsonResource_def)
  moreover have "\<not> isReleased dv av k n" using Adopt_Inr(1) [OF ad(3)] m e(1-3) by (simp add: isReleased_iff)
  moreover have "isReleased d2 av k n" "Load None d2 av k n = Inr None"
    using Forget_effect(1,2) [OF f] e(1-3) by (simp_all add: isReleased_iff Load_findRow_None findRow_None)
  ultimately show ?thesis using ad(4,5) w2(2) 1(2) by simp
qed

subsection \<open>Examples\<close>

definition sampleMigServer :: "unit mig_server" where
  "sampleMigServer = \<lparr>mg_server = (sampleServer [])\<lparr>sr_registry := [(''proxmox'', echoProvider ''proxmox'')]\<rparr>, mg_gitops = False,
     mg_mirror = None, mg_identity = (\<lambda>p. if p = ''proxmox'' then Some (\<lambda>r w. Inr ''uuid-1'') else None),
     mg_sha = (\<lambda>d. if d = resourceDoc sampleVM then ''dig'' else ''other''), mg_digest = (\<lambda>_. ''h'')\<rparr>"

definition sampleMigCall :: mig_call where
  "sampleMigCall = \<lparr>mc_principal = None, mc_io = (\<lambda>_. None), mc_now = ''t1'', mc_fresh = ''x'', mc_mirrorDb = None,
     mc_disk = (\<lambda>_. None), mc_ctx = None\<rparr>"

definition sampleSourceWorld :: "resource \<Rightarrow> unit world" where
  "sampleSourceWorld r = \<lparr>w_mirror = \<lparr>mi_db = sampleSource\<lparr>db_applied := [manifestRow (\<lambda>_. ''h'') ''t0'' r [] SourceCLI]\<rparr>,
     mi_fs = []\<rparr>, w_plat = ()\<rparr>"

definition sampleBundle :: "resource \<Rightarrow> string \<Rightarrow> migration_bundle" where
  "sampleBundle r dg = \<lparr>mb_version = 1, mb_resource = Some (resourceToProto r), mb_controllerId = ''src'', mb_manifestDigest = dg,
     mb_identity = ''uuid-1''\<rparr>"

abbreviation exportVM :: "resource \<Rightarrow> (rpc_error + migration_bundle) \<times> unit world" where
  "exportVM r \<equiv> ExportResource sampleMigServer sampleMigCall ''proxmox.openctl.io/v1'' ''VirtualMachine'' ''vm1'' (sampleSourceWorld r)"

lemma applied_inv_sampleSourceWorld: "applied_inv (w_db (sampleSourceWorld r))"
  by (simp add: applied_inv_def sampleSourceWorld_def)

text \<open>A machine with a namespace.\<close>

definition nsVM :: resource where
  "nsVM = sampleVM\<lparr>r_metadata := (r_metadata sampleVM)\<lparr>md_namespace := ''team''\<rparr>\<rparr>"

lemma sample_export: "exportVM sampleVM = (Inr (sampleBundle sampleVM ''dig''), sampleSourceWorld sampleVM)"
  by code_simp

lemma ns_export: "exportVM nsVM = (Inr (sampleBundle nsVM ''other''), sampleSourceWorld nsVM)"
  by code_simp

theorem exported_bundle_usable_iff_witness:
  "exportVM nsVM = (Inr (sampleBundle nsVM ''other''), sampleSourceWorld nsVM) \<and>
   validateMigrationBundle (mg_sha sampleMigServer) (Some (sampleBundle nsVM ''other'')) \<noteq> None"
proof -
  have l: "Load None (w_db (sampleSourceWorld nsVM)) ''proxmox.openctl.io/v1'' ''VirtualMachine'' ''vm1'' = Inr (Some nsVM)"
    by code_simp
  have ne: "\<forall>x. mg_sha sampleMigServer x \<noteq> []" by (simp add: sampleMigServer_def)
  have docs: "map (\<lambda>d. mg_sha sampleMigServer d)
      [resourceDoc (nsVM\<lparr>r_status := None\<rparr>), resourceDoc ((protoToResource (resourceToProto nsVM))\<lparr>r_status := None\<rparr>)] = [''other'', ''dig'']"
    by code_simp
  then have "inj_on (mg_sha sampleMigServer) (migrationDocs nsVM)" by (auto simp: migrationDocs_def inj_on_def)
  from exported_bundle_usable_iff [OF ns_export applied_inv_sampleSourceWorld l ne this]
  show ?thesis using ns_export by (simp add: plainMeta_def nsVM_def)
qed

theorem rpc_handoff_witness:
  "\<exists>w2. ForgetResource sampleMigServer sampleMigCall (Some (sampleBundle sampleVM ''dig'')) (sampleSourceWorld sampleVM) = (Inr (), w2) \<and>
     isReleased (w_db w2) ''proxmox.openctl.io/v1'' ''VirtualMachine'' ''vm1''"
proof -
  let ?v0 = "appliedWorld []"
  let ?a = "AdoptResource sampleMigServer sampleMigCall None (Some (sampleBundle sampleVM ''dig'')) [] ?v0"
  have "isOk (fst ?a)" by code_simp
  then obtain out where a: "?a = (Inr out, snd ?a)" by (cases ?a) (auto simp: isOk_iff)
  have l: "Load None (w_db (sampleSourceWorld sampleVM)) ''proxmox.openctl.io/v1'' ''VirtualMachine'' ''vm1'' = Inr (Some sampleVM)"
    by code_simp
  have docs: "resourceDoc (sampleVM\<lparr>r_status := None\<rparr>) = resourceDoc ((protoToResource (resourceToProto sampleVM))\<lparr>r_status := None\<rparr>)"
    by code_simp
  have "\<forall>r. Load None (w_db (sampleSourceWorld sampleVM)) ''proxmox.openctl.io/v1'' ''VirtualMachine'' ''vm1'' = Inr (Some r)
      \<longrightarrow> inj_on (mg_sha sampleMigServer) (migrationDocs r)"
    using l docs by (simp add: migrationDocs_def)
  moreover have "smoothCall sampleMigServer sampleMigCall"
    by (simp add: smoothCall_def sampleMigCall_def sampleMigServer_def authorize_def)
  ultimately show ?thesis
    using rpc_handoff [OF sample_export applied_inv_sampleSourceWorld a] by blast
qed

end
