(* ===== verification/Requests.thy ===== *)
theory Requests
  imports MigrationApi
begin

text \<open>
  Sequences of state-changing requests, each with its caller: the handlers of \<open>Api\<close> and \<open>MigrationApi\<close> behind
  the registrations of internal/controller/server/server.go.  The handlers hold \<^verbatim>\<open>managementMu\<close> while they change
  the desired state, so a run is a sequence of whole requests.
\<close>

datatype api_request =
    ReqApply "wire_resource option" bool bool
  | ReqDelete string string string
  | ReqAction string string string string strmap
  | ReqCancel string
  | ReqExport string string string
  | ReqAdopt "wire_resource option" "migration_bundle option" string
  | ReqForget "migration_bundle option"

definition serve ::
  "'p mig_server \<Rightarrow> bool \<Rightarrow> call_env \<times> mig_call \<Rightarrow> api_request \<Rightarrow> run_table \<times> 'p world \<Rightarrow> run_table \<times> 'p world" where
  "serve ms canceler env req st =
     (case (env, st) of ((ce, mc), (rt, w)) \<Rightarrow>
       (case req of
          ReqApply r ds br \<Rightarrow> (rt, snd (Api_Apply (mg_server ms) ce r ds br w))
        | ReqDelete av k n \<Rightarrow> (rt, snd (Api_Delete (mg_server ms) ce av k n w))
        | ReqAction av k n a ps \<Rightarrow> (rt, snd (Api_InvokeAction (mg_server ms) ce av k n a ps w))
        | ReqCancel i \<Rightarrow> snd (Api_CancelOperation ce canceler i rt w)
        | ReqExport av k n \<Rightarrow> (rt, snd (ExportResource ms mc av k n w))
        | ReqAdopt r b c \<Rightarrow> (rt, snd (AdoptResource ms mc r b c w))
        | ReqForget b \<Rightarrow> (rt, snd (ForgetResource ms mc b w))))"

definition serveAll ::
  "'p mig_server \<Rightarrow> bool \<Rightarrow> ((call_env \<times> mig_call) \<times> api_request) list \<Rightarrow> run_table \<times> 'p world \<Rightarrow> run_table \<times> 'p world" where
  "serveAll ms canceler reqs st = foldl (\<lambda>s (env, req). serve ms canceler env req s) st reqs"

text \<open>A caller that may read at most: both views of the call name a principal below editor.\<close>

definition readOnly :: "call_env \<times> mig_call \<Rightarrow> bool" where
  "readOnly env \<longleftrightarrow> authorize (ce_principal (fst env)) RoleEditor \<noteq> None \<and> authorize (mc_principal (snd env)) RoleEditor \<noteq> None"

definition rowCanceled :: "operation \<Rightarrow> operation \<Rightarrow> bool" where
  "rowCanceled x y \<longleftrightarrow> y = x \<or>
     op_status x = StatusPending \<and> y = x\<lparr>op_status := StatusCancelled, op_error := op_error y, op_completed := op_completed y\<rparr>"

definition onlyCanceled :: "run_table \<times> 'p world \<Rightarrow> run_table \<times> 'p world \<Rightarrow> bool" where
  "onlyCanceled st st' \<longleftrightarrow>
     rt_running (fst st') = rt_running (fst st) \<and>
     (\<exists>rows. snd st' = setDb ((w_db (snd st))\<lparr>db_ops := rows\<rparr>) (snd st) \<and> list_all2 rowCanceled (db_ops (w_db (snd st))) rows)"

subsection \<open>Lemmas\<close>

lemma setDb_same [simp]: "setDb (w_db w) w = w"
  by (simp add: setDb_def onDb_def)

lemma setDb_setDb [simp]: "setDb d (setDb d' w) = setDb d w"
  by (simp add: setDb_def onDb_def)

lemma rowCanceled_trans: "rowCanceled x y \<Longrightarrow> rowCanceled y z \<Longrightarrow> rowCanceled x z"
proof -
  assume xy: "rowCanceled x y" and yz: "rowCanceled y z"
  show "rowCanceled x z"
  proof (cases "y = x")
    case False
    then have "y = x\<lparr>op_status := StatusCancelled, op_error := op_error y, op_completed := op_completed y\<rparr>"
      using xy by (simp add: rowCanceled_def)
    from arg_cong [OF this, of op_status] have "op_status y \<noteq> StatusPending" by simp
    then show ?thesis using xy yz by (auto simp: rowCanceled_def)
  qed (use yz in simp)
qed

lemma onlyCanceled_refl [simp]: "onlyCanceled st st"
  by (auto simp: onlyCanceled_def rowCanceled_def intro!: exI [of _ "db_ops (w_db (snd st))"] list_all2_refl)

lemma onlyCanceled_trans:
  assumes "onlyCanceled a b" "onlyCanceled b c"
  shows "onlyCanceled a c"
proof -
  obtain rows where r: "snd b = setDb ((w_db (snd a))\<lparr>db_ops := rows\<rparr>) (snd a)" "list_all2 rowCanceled (db_ops (w_db (snd a))) rows"
    using assms(1) by (auto simp: onlyCanceled_def)
  obtain rows' where r': "snd c = setDb ((w_db (snd b))\<lparr>db_ops := rows'\<rparr>) (snd b)" "list_all2 rowCanceled (db_ops (w_db (snd b))) rows'"
    using assms(2) by (auto simp: onlyCanceled_def)
  have "list_all2 rowCanceled (db_ops (w_db (snd a))) rows'"
    using list_all2_trans [of rowCanceled rowCanceled rowCanceled] rowCanceled_trans r r' by (metis db.select_convs(1) db.surjective db.update_convs(1) onDb_sel(4))
  then show ?thesis using assms r(1) r'(1) by (auto simp: onlyCanceled_def)
qed

lemma admin_needs_editor: "authorize p RoleEditor \<noteq> None \<Longrightarrow> authorize p RoleAdmin \<noteq> None"
  by (auto simp: authorize_def AtLeast_def roleRank_def split: option.splits if_splits)

lemma CancelPending_rows:
  "\<exists>rows. snd (CancelPending io now d i) = d\<lparr>db_ops := rows\<rparr> \<and> list_all2 rowCanceled (db_ops d) rows"
proof -
  let ?P = "\<lambda>x. op_id x = i \<and> op_status x = StatusPending"
  let ?f = "\<lambda>x. x\<lparr>op_status := StatusCancelled, op_error := ''canceled by user before dispatcher claimed the op'', op_completed := now\<rparr>"
  have "list_all2 rowCanceled (db_ops d) (map (\<lambda>x. if ?P x then ?f x else x) (db_ops d))"
    by (auto simp: list_all2_conv_all_nth rowCanceled_def)
  moreover have "list_all2 rowCanceled (db_ops d) (db_ops d)" by (auto simp: rowCanceled_def intro: list_all2_refl)
  moreover have "snd (CancelPending io now d i) \<in> {d, updateOps ?P ?f d}"
    by (cases "io 0") (auto simp: CancelPending_def Let_def split: sum.splits)
  ultimately show ?thesis by (auto simp: updateOps_def intro: exI [of _ "db_ops d"])
qed

lemma CancelOperation_onlyCanceled:
  "onlyCanceled (rt, w) (snd (Api_CancelOperation ce canceler i rt w))"
proof -
  let ?c = "CancelPending (ce_io ce) (se_now (ce_submit ce)) (w_db w) i"
  obtain rows where rows: "snd ?c = (w_db w)\<lparr>db_ops := rows\<rparr>" "list_all2 rowCanceled (db_ops (w_db w)) rows"
    using CancelPending_rows by blast
  have "rt_running (snd (CancelRunning i rt)) = rt_running rt" by (simp add: CancelRunning_def)
  moreover have "\<exists>rt'. snd (Api_CancelOperation ce canceler i rt w) \<in> {(rt, w), (rt', setDb (snd ?c) w)} \<and> rt' \<in> {rt, snd (CancelRunning i rt)}"
    by (cases ?c) (auto simp: Api_CancelOperation_def split: sum.splits)
  moreover have "onlyCanceled (rt, w) (rt', setDb (snd ?c) w)" if "rt_running rt' = rt_running rt" for rt'
    using rows that by (auto simp: onlyCanceled_def)
  ultimately show ?thesis by (metis empty_iff insert_iff onlyCanceled_refl)
qed

lemma serve_readOnly:
  assumes "readOnly env"
  shows "onlyCanceled st (serve ms canceler env req st)"
proof -
  obtain ce mc rt w where s: "env = (ce, mc)" "st = (rt, w)" by (cases env, cases st)
  have e: "authorize (ce_principal ce) RoleEditor \<noteq> None" "authorize (mc_principal mc) RoleAdmin \<noteq> None"
    using assms s admin_needs_editor by (auto simp: readOnly_def)
  show ?thesis
  proof (cases req)
    case (ReqCancel i)
    then show ?thesis using s CancelOperation_onlyCanceled by (simp add: serve_def)
  qed (use e s in \<open>auto simp: serve_def Api_Apply_def Api_Delete_def Api_InvokeAction_def ExportResource_def
         AdoptResource_def ForgetResource_def\<close>)
qed

subsection \<open>Properties\<close>



end
