(* ===== verification/ChildGraph.thy ===== *)
theory ChildGraph
  imports Api "HOL-Library.Sublist"
begin

text \<open>
  GetChildrenGraph of internal/controller/server/resource.go: a breadth-first walk over the references and the
  children of a resource that builds the graph the interface draws.  The queue grows while it is worked off; the
  depth cap makes the loop end, and the set of expanded nodes makes it visit each node once.
\<close>

subsection \<open>Nodes, edges, builder\<close>

record graph_node =
  gn_id :: string
  gn_apiVersion :: string
  gn_kind :: string
  gn_name :: string
  gn_root :: bool
  gn_managed :: bool
  gn_status :: string

record graph_edge =
  ge_from :: string
  ge_to :: string
  ge_relation :: string
  ge_field :: string

record graph_builder =
  gb_nodes :: "graph_node list"
  gb_edges :: "graph_edge list"
  gb_seen :: "string list"
  gb_planned :: "string list"
  gb_expanded :: "string list"

record graph_work =
  gw_apiVersion :: string
  gw_kind :: string
  gw_name :: string
  gw_nodeID :: string
  gw_depth :: nat

definition newGraphBuilder :: graph_builder where
  "newGraphBuilder = \<lparr>gb_nodes = [], gb_edges = [], gb_seen = [], gb_planned = [], gb_expanded = []\<rparr>"

definition graphNodeID :: "string \<Rightarrow> string \<Rightarrow> string" where
  "graphNodeID k n = k @ ''/'' @ n"

definition addNode :: "string \<Rightarrow> string \<Rightarrow> string \<Rightarrow> graph_builder \<Rightarrow> graph_builder" where
  "addNode av k n g =
     (if graphNodeID k n \<in> gn_id ` set (gb_nodes g) then g
      else g\<lparr>gb_nodes := gb_nodes g @ [\<lparr>gn_id = graphNodeID k n, gn_apiVersion = av, gn_kind = k, gn_name = n,
               gn_root = False, gn_managed = False, gn_status = []\<rparr>]\<rparr>)"

definition edgeKey :: "string \<Rightarrow> string \<Rightarrow> string \<Rightarrow> string \<Rightarrow> string" where
  "edgeKey src dst rel fld = src @ ''|'' @ dst @ ''|'' @ rel @ ''|'' @ fld"

definition addEdge :: "string \<Rightarrow> string \<Rightarrow> string \<Rightarrow> string \<Rightarrow> graph_builder \<Rightarrow> graph_builder" where
  "addEdge src dst rel fld g =
     (if src = dst then g
      else if edgeKey src dst rel fld \<in> set (gb_seen g) then g
      else g\<lparr>gb_seen := edgeKey src dst rel fld # gb_seen g,
             gb_edges := gb_edges g @ [\<lparr>ge_from = src, ge_to = dst, ge_relation = rel, ge_field = fld\<rparr>]\<rparr>)"

subsection \<open>Expanding one node\<close>

text \<open>Each step returns the builder and the work it enqueues, at depth \<open>dep\<close>.\<close>

definition workItem :: "string \<Rightarrow> string \<Rightarrow> string \<Rightarrow> nat \<Rightarrow> graph_work" where
  "workItem av k n dep = \<lparr>gw_apiVersion = av, gw_kind = k, gw_name = n, gw_nodeID = graphNodeID k n, gw_depth = dep\<rparr>"

definition addRef :: "string \<Rightarrow> nat \<Rightarrow> ref \<Rightarrow> graph_builder \<times> graph_work list \<Rightarrow> graph_builder \<times> graph_work list" where
  "addRef src dep r gq =
     (addEdge src (graphNodeID (ref_kind r) (ref_name r)) ''ref'' (ref_field r)
        (addNode (ref_apiVersion r) (ref_kind r) (ref_name r) (fst gq)),
      snd gq @ [workItem (ref_apiVersion r) (ref_kind r) (ref_name r) dep])"

definition addPlacement :: "graph_work \<Rightarrow> obj option \<Rightarrow> graph_builder \<Rightarrow> graph_builder" where
  "addPlacement w spec g =
     (if gw_kind w = ''VirtualMachine'' then
        (case objGet (case spec of None \<Rightarrow> [] | Some m \<Rightarrow> m) ''node'' of
           VStr host \<Rightarrow>
             if host \<noteq> [] then addEdge (gw_nodeID w) (graphNodeID ''ProxmoxNode'' host) ''ref'' ''node''
                                  (addNode (gw_apiVersion w) ''ProxmoxNode'' host g)
             else g
         | _ \<Rightarrow> g)
      else g)"

definition addPlanned :: "string \<Rightarrow> nat \<Rightarrow> resource \<Rightarrow> graph_builder \<times> graph_work list \<Rightarrow> graph_builder \<times> graph_work list" where
  "addPlanned src dep child gq =
     (let i = graphNodeID (r_kind child) (r_name child);
          g1 = addNode (r_apiVersion child) (r_kind child) (r_name child) (fst gq);
          g2 = addEdge src i ''owns'' [] (g1\<lparr>gb_planned := List.insert i (gb_planned g1)\<rparr>);
          (g3, q) = fold (addRef i dep) (CollectRefs (r_spec child)) (g2, snd gq)
      in (g3, q @ [workItem (r_apiVersion child) (r_kind child) (r_name child) dep]))"

definition addOwned :: "string \<Rightarrow> nat \<Rightarrow> resource_ref \<Rightarrow> graph_builder \<times> graph_work list \<Rightarrow> graph_builder \<times> graph_work list" where
  "addOwned src dep c gq =
     (addEdge src (graphNodeID (rr_kind c) (rr_name c)) ''owns'' [] (addNode (rr_apiVersion c) (rr_kind c) (rr_name c) (fst gq)),
      snd gq @ [workItem (rr_apiVersion c) (rr_kind c) (rr_name c) dep])"

text \<open>The spec on file; a failed or empty load degrades to no spec.  \<open>lf\<close>: the failures, by node.\<close>

definition specOnFile :: "'p server \<Rightarrow> string option \<Rightarrow> 'p world \<Rightarrow> graph_work \<Rightarrow> obj option" where
  "specOnFile sv f w x =
     (if sr_manifests sv
      then (case Load f (w_db w) (gw_apiVersion x) (gw_kind x) (gw_name x) of Inr (Some a) \<Rightarrow> r_spec a | _ \<Rightarrow> None)
      else None)"

text \<open>The plan of the node's provider, when it has a planner that answers.\<close>

definition planFor :: "'p world provider \<Rightarrow> graph_work \<Rightarrow> obj option \<Rightarrow> 'p world \<Rightarrow> resource list option" where
  "planFor p x spec w =
     (case pv_plan p of
        None \<Rightarrow> None
      | Some plan \<Rightarrow>
          (case plan ((bareResource (gw_apiVersion x) (gw_kind x) (gw_name x))\<lparr>r_spec := spec\<rparr>) w of
             Inl _ \<Rightarrow> None | Inr kids \<Rightarrow> kids))"

definition expandNode ::
  "'p server \<Rightarrow> (string \<Rightarrow> string option) \<Rightarrow> 'p world \<Rightarrow> graph_work \<Rightarrow> graph_builder \<Rightarrow> graph_builder \<times> graph_work list" where
  "expandNode sv lf w x g =
     (let spec = specOnFile sv (lf (gw_nodeID x)) w x;
          dep = Suc (gw_depth x);
          (g1, q1) = fold (addRef (gw_nodeID x) dep) (CollectRefs spec) (g, []);
          g2 = addPlacement x spec g1
      in case For (sr_registry sv) (gw_apiVersion x) of
           Inl _ \<Rightarrow> (g2, q1)
         | Inr p \<Rightarrow>
             (case planFor p x spec w of
                Some kids \<Rightarrow> fold (addPlanned (gw_nodeID x) dep) kids (g2, q1)
              | None \<Rightarrow> fold (addOwned (gw_nodeID x) dep) (ChildrenOf (sr_registry sv) (gw_kind x) (gw_name x)) (g2, q1)))"

definition maxGraphDepth :: nat where
  "maxGraphDepth = 8"

subsection \<open>The work an expansion adds\<close>

lemma fold_enqueues:
  assumes "\<And>y gq. \<exists>new. snd (f y gq) = snd gq @ new \<and> (\<forall>x \<in> set new. gw_depth x = dep)"
  shows "\<exists>new. snd (fold f ys gq) = snd gq @ new \<and> (\<forall>x \<in> set new. gw_depth x = dep)"
proof (induction ys arbitrary: gq)
  case (Cons y ys)
  obtain a where a: "snd (f y gq) = snd gq @ a" "\<forall>x \<in> set a. gw_depth x = dep" using assms by blast
  obtain b where "snd (fold f ys (f y gq)) = snd (f y gq) @ b" "\<forall>x \<in> set b. gw_depth x = dep" using Cons.IH by blast
  then show ?case using a by (intro exI [of _ "a @ b"]) auto
qed simp

lemma addRef_enqueues: "\<exists>new. snd (addRef src dep r gq) = snd gq @ new \<and> (\<forall>x \<in> set new. gw_depth x = dep)"
  by (simp add: addRef_def workItem_def)

lemma addOwned_enqueues: "\<exists>new. snd (addOwned src dep r gq) = snd gq @ new \<and> (\<forall>x \<in> set new. gw_depth x = dep)"
  by (simp add: addOwned_def workItem_def)

lemma addPlanned_enqueues: "\<exists>new. snd (addPlanned src dep r gq) = snd gq @ new \<and> (\<forall>x \<in> set new. gw_depth x = dep)"
proof -
  let ?i = "graphNodeID (r_kind r) (r_name r)"
  let ?g1 = "addNode (r_apiVersion r) (r_kind r) (r_name r) (fst gq)"
  let ?g2 = "addEdge src ?i ''owns'' [] (?g1\<lparr>gb_planned := List.insert ?i (gb_planned ?g1)\<rparr>)"
  obtain new where "snd (fold (addRef ?i dep) (CollectRefs (r_spec r)) (?g2, snd gq)) = snd gq @ new" "\<forall>x \<in> set new. gw_depth x = dep"
    using fold_enqueues [where f = "addRef ?i dep" and ys = "CollectRefs (r_spec r)" and gq = "(?g2, snd gq)", OF addRef_enqueues] by auto
  then show ?thesis
    by (intro exI [of _ "new @ [workItem (r_apiVersion r) (r_kind r) (r_name r) dep]"])
       (auto simp: addPlanned_def Let_def workItem_def split: prod.splits)
qed

lemma expandNode_depth:
  assumes "expandNode sv lf w x g = (g', new)" "y \<in> set new"
  shows "gw_depth y = Suc (gw_depth x)"
proof -
  let ?spec = "specOnFile sv (lf (gw_nodeID x)) w x" and ?dep = "Suc (gw_depth x)"
  obtain g1 q1 where f1: "fold (addRef (gw_nodeID x) ?dep) (CollectRefs ?spec) (g, []) = (g1, q1)" by fastforce
  have q1: "\<forall>y \<in> set q1. gw_depth y = ?dep"
    using fold_enqueues [where f = "addRef (gw_nodeID x) ?dep" and ys = "CollectRefs ?spec" and gq = "(g, [])", OF addRef_enqueues] f1 by auto
  have owned: "\<forall>y \<in> set (snd (fold (addOwned (gw_nodeID x) ?dep) cs (h, q1))). gw_depth y = ?dep" for cs h
    using fold_enqueues [where f = "addOwned (gw_nodeID x) ?dep" and ys = cs and gq = "(h, q1)", OF addOwned_enqueues] q1 by auto
  have planned: "\<forall>y \<in> set (snd (fold (addPlanned (gw_nodeID x) ?dep) cs (h, q1))). gw_depth y = ?dep" for cs h
    using fold_enqueues [where f = "addPlanned (gw_nodeID x) ?dep" and ys = cs and gq = "(h, q1)", OF addPlanned_enqueues] q1 by auto
  have "\<forall>y \<in> set (snd (expandNode sv lf w x g)). gw_depth y = ?dep"
  proof (cases "For (sr_registry sv) (gw_apiVersion x)")
    case (Inl e)
    then have eq: "snd (expandNode sv lf w x g) = q1" using f1 by (simp add: expandNode_def)
    show ?thesis unfolding eq by (rule q1)
  next
    case (Inr p)
    show ?thesis
    proof (cases "planFor p x ?spec w")
      case None
      then have eq: "snd (expandNode sv lf w x g) = snd (fold (addOwned (gw_nodeID x) ?dep)
          (ChildrenOf (sr_registry sv) (gw_kind x) (gw_name x)) (addPlacement x ?spec g1, q1))"
        using Inr f1 by (simp add: expandNode_def)
      show ?thesis unfolding eq by (rule owned)
    next
      case (Some kids)
      then have eq: "snd (expandNode sv lf w x g) = snd (fold (addPlanned (gw_nodeID x) ?dep) kids (addPlacement x ?spec g1, q1))"
        using Inr f1 by (simp add: expandNode_def)
      show ?thesis unfolding eq by (rule planned)
    qed
  qed
  then show ?thesis using assms by simp
qed

subsection \<open>The loop\<close>

function bfs ::
  "'p server \<Rightarrow> (string \<Rightarrow> string option) \<Rightarrow> 'p world \<Rightarrow> graph_work list \<Rightarrow> graph_builder \<Rightarrow> graph_builder" where
  "bfs sv lf w [] g = g"
| "bfs sv lf w (x # queue) g =
     (if gw_nodeID x \<in> set (gb_expanded g) \<or> gw_depth x \<ge> maxGraphDepth then bfs sv lf w queue g
      else (case expandNode sv lf w x (g\<lparr>gb_expanded := gw_nodeID x # gb_expanded g\<rparr>) of
              (g', new) \<Rightarrow> bfs sv lf w (queue @ new) g'))"
  by pat_completeness auto

text \<open>The multiset of the remaining depths falls: one item is replaced by finitely many deeper ones.\<close>

definition remaining :: "graph_work list \<Rightarrow> nat multiset" where
  "remaining queue = mset (map (\<lambda>x. maxGraphDepth - gw_depth x) queue)"

termination bfs
proof (relation "inv_image (mult less_than) (\<lambda>(sv, lf, w, queue, g). remaining queue)")
  show "wf (inv_image (mult less_than) (\<lambda>(sv, lf, w, queue, g). remaining queue))"
    by (simp add: wf_mult)
next
  fix sv :: "'p server" and lf :: "string \<Rightarrow> string option" and w :: "'p world" and x queue and g :: graph_builder
  show "((sv, lf, w, queue, g), (sv, lf, w, x # queue, g)) \<in> inv_image (mult less_than) (\<lambda>(sv, lf, w, queue, g). remaining queue)"
    using one_step_implies_mult [of "{#maxGraphDepth - gw_depth x#}" "{#}" less_than "remaining queue"]
    by (simp add: remaining_def)
next
  fix sv :: "'p server" and lf :: "string \<Rightarrow> string option" and w :: "'p world" and x queue and g g' :: graph_builder and new
  assume "\<not> (gw_nodeID x \<in> set (gb_expanded g) \<or> maxGraphDepth \<le> gw_depth x)"
    and e: "(g', new) = expandNode sv lf w x (g\<lparr>gb_expanded := gw_nodeID x # gb_expanded g\<rparr>)"
  then have d: "gw_depth x < maxGraphDepth" by simp
  have "\<forall>k \<in> set_mset (remaining new). \<exists>j \<in> set_mset {#maxGraphDepth - gw_depth x#}. (k, j) \<in> less_than"
    using expandNode_depth [OF e [symmetric]] d by (auto simp: remaining_def)
  from one_step_implies_mult [OF _ this, of "remaining queue"]
  show "((sv, lf, w, queue @ new, g'), (sv, lf, w, x # queue, g)) \<in> inv_image (mult less_than) (\<lambda>(sv, lf, w, queue, g). remaining queue)"
    by (simp add: remaining_def)
qed

subsection \<open>Status and response\<close>

text \<open>\<open>lf\<close>: the failures of the loads, by node.\<close>

definition resolveNode :: "'p server \<Rightarrow> (string \<Rightarrow> string option) \<Rightarrow> 'p world \<Rightarrow> string list \<Rightarrow> graph_node \<Rightarrow> graph_node" where
  "resolveNode sv lf w planned n =
     (if gn_root n then (if gn_status n = [] then n\<lparr>gn_status := ''applied''\<rparr> else n)
      else
        let managed = gn_id n \<in> set planned \<or>
              (sr_manifests sv \<and>
               (case Load (lf (gn_id n)) (w_db w) (gn_apiVersion n) (gn_kind n) (gn_name n) of Inr (Some _) \<Rightarrow> True | _ \<Rightarrow> False))
        in if \<not> managed then n\<lparr>gn_managed := False, gn_status := ''observed''\<rparr>
           else n\<lparr>gn_managed := True, gn_status :=
             (case RegGet (sr_registry sv) w (gn_apiVersion n) (gn_kind n) (gn_name n) of
                Inr _ \<Rightarrow> ''applied''
              | Inl e \<Rightarrow> if isNotFound e then (if gn_id n \<in> set planned then ''pending'' else ''missing'') else ''applied'')\<rparr>)"

definition Api_GetChildrenGraph ::
  "'p server \<Rightarrow> call_env \<Rightarrow> (string \<Rightarrow> string option) \<Rightarrow> (string \<Rightarrow> string option) \<Rightarrow> string \<Rightarrow> string \<Rightarrow> string \<Rightarrow> 'p world
     \<Rightarrow> rpc_error + graph_node list \<times> graph_edge list" where
  "Api_GetChildrenGraph sv ce lf lf2 av k n w =
     (case authorize (ce_principal ce) RoleViewer of
        Some e \<Rightarrow> Inl e
      | None \<Rightarrow>
          if av = [] \<or> k = [] \<or> n = [] then Inl (InvalidArgument, ''api_version, kind, and name are required'')
          else
            (case For (sr_registry sv) av of
               Inl e \<Rightarrow> Inl (InvalidArgument, errText e)
             | Inr _ \<Rightarrow>
                 let g0 = addNode av k n newGraphBuilder;
                     g1 = g0\<lparr>gb_nodes := map (\<lambda>x. x\<lparr>gn_root := True, gn_managed := True\<rparr>) (gb_nodes g0)\<rparr>;
                     g2 = bfs sv lf w [workItem av k n 0] g1
                 in Inr (map (resolveNode sv lf2 w (gb_planned g2)) (gb_nodes g2), gb_edges g2)))"

subsection \<open>The graph is well formed\<close>

definition ids :: "graph_builder \<Rightarrow> string set" where
  "ids g = gn_id ` set (gb_nodes g)"

definition graph_inv :: "graph_builder \<Rightarrow> bool" where
  "graph_inv g \<longleftrightarrow> distinct (map gn_id (gb_nodes g)) \<and> distinct (gb_edges g) \<and> distinct (gb_expanded g) \<and>
     (\<forall>n \<in> set (gb_nodes g). gn_id n = graphNodeID (gn_kind n) (gn_name n)) \<and>
     (\<forall>e \<in> set (gb_edges g). ge_from e \<in> ids g \<and> ge_to e \<in> ids g \<and> ge_from e \<noteq> ge_to e \<and>
        edgeKey (ge_from e) (ge_to e) (ge_relation e) (ge_field e) \<in> set (gb_seen g)) \<and>
     set (gb_planned g) \<subseteq> ids g \<and> set (gb_expanded g) \<subseteq> ids g"

definition queue_inv :: "graph_builder \<Rightarrow> graph_work list \<Rightarrow> bool" where
  "queue_inv g q \<longleftrightarrow> (\<forall>x \<in> set q. gw_nodeID x \<in> ids g)"

lemma ids_addNode [simp]: "ids (addNode av k n g) = insert (graphNodeID k n) (ids g)"
  by (auto simp: addNode_def ids_def)

lemma ids_addEdge [simp]: "ids (addEdge a b r f g) = ids g"
  by (simp add: addEdge_def ids_def)

lemma graph_inv_addNode: "graph_inv g \<Longrightarrow> graph_inv (addNode av k n g)"
  by (auto simp: graph_inv_def addNode_def ids_def)

lemma graph_inv_addEdge: "graph_inv g \<Longrightarrow> a \<in> ids g \<Longrightarrow> b \<in> ids g \<Longrightarrow> graph_inv (addEdge a b r f g)"
  by (auto simp: graph_inv_def addEdge_def ids_def)

text \<open>A step keeps the invariant, the nodes it found, and only enqueues nodes it added.\<close>

definition stepOk :: "string \<Rightarrow> graph_node list \<Rightarrow> graph_builder \<times> graph_work list \<Rightarrow> bool" where
  "stepOk src base gq \<longleftrightarrow>
     graph_inv (fst gq) \<and> queue_inv (fst gq) (snd gq) \<and> src \<in> ids (fst gq) \<and> prefix base (gb_nodes (fst gq))"

lemma nodes_addNode: "prefix (gb_nodes g) (gb_nodes (addNode av k n g))"
  by (simp add: addNode_def)

lemma nodes_addEdge [simp]: "gb_nodes (addEdge a b r f g) = gb_nodes g"
  by (simp add: addEdge_def)

lemma prefix_addNode [intro]: "prefix base (gb_nodes g) \<Longrightarrow> prefix base (gb_nodes (addNode av k n g))"
  using nodes_addNode prefix_order.order_trans by blast

lemma prefix_ids: "prefix (gb_nodes g) (gb_nodes g') \<Longrightarrow> ids g \<subseteq> ids g'"
  using set_mono_prefix by (force simp: ids_def)

lemma stepOk_addRef: "stepOk src base gq \<Longrightarrow> stepOk src base (addRef src dep r gq)"
  by (auto simp: stepOk_def addRef_def queue_inv_def workItem_def intro!: graph_inv_addEdge graph_inv_addNode)

lemma stepOk_addOwned: "stepOk src base gq \<Longrightarrow> stepOk src base (addOwned src dep c gq)"
  by (auto simp: stepOk_def addOwned_def queue_inv_def workItem_def intro!: graph_inv_addEdge graph_inv_addNode)

lemma stepOk_fold:
  assumes "stepOk src base gq" "\<And>y gq. stepOk src base gq \<Longrightarrow> stepOk src base (f y gq)"
  shows "stepOk src base (fold f ys gq)"
  by (rule fold_invariant [where Q = "\<lambda>_. True"]) (use assms in auto)

lemma stepOk_addPlanned:
  assumes "stepOk src base gq"
  shows "stepOk src base (addPlanned src dep c gq)"
proof -
  let ?i = "graphNodeID (r_kind c) (r_name c)"
  let ?g1 = "addNode (r_apiVersion c) (r_kind c) (r_name c) (fst gq)"
  let ?g1p = "?g1\<lparr>gb_planned := List.insert ?i (gb_planned ?g1)\<rparr>"
  let ?g2 = "addEdge src ?i ''owns'' [] ?g1p"
  have 1: "graph_inv ?g1" using assms by (auto simp: stepOk_def intro: graph_inv_addNode)
  have i1: "ids ?g1p = insert ?i (ids (fst gq))" using ids_addNode [of "r_apiVersion c" "r_kind c" "r_name c" "fst gq"] by (simp add: ids_def)
  have "graph_inv ?g1p" using 1 i1 by (auto simp: graph_inv_def ids_def)
  then have 2: "graph_inv ?g2" using assms i1 by (intro graph_inv_addEdge) (auto simp: stepOk_def)
  have ok: "stepOk ?i (gb_nodes (fst gq)) (?g2, snd gq)"
    using assms 2 i1 by (auto simp: stepOk_def queue_inv_def)
  let ?f = "fold (addRef ?i dep) (CollectRefs (r_spec c)) (?g2, snd gq)"
  have f: "stepOk ?i (gb_nodes (fst gq)) ?f" using ok stepOk_addRef by (rule stepOk_fold)
  then have pf: "src \<in> ids (fst ?f)" "prefix base (gb_nodes (fst ?f))"
    using assms prefix_ids prefix_order.order_trans by (auto simp: stepOk_def)
  have "addPlanned src dep c gq = (fst ?f, snd ?f @ [workItem (r_apiVersion c) (r_kind c) (r_name c) dep])"
    by (simp add: addPlanned_def Let_def split_beta)
  then show ?thesis using pf f by (auto simp: stepOk_def queue_inv_def workItem_def)
qed

lemma stepOk_addPlacement:
  "stepOk (gw_nodeID x) base (g, q) \<Longrightarrow> stepOk (gw_nodeID x) base (addPlacement x spec g, q)"
  by (auto simp: stepOk_def addPlacement_def queue_inv_def intro!: graph_inv_addEdge graph_inv_addNode split: val.splits)

lemma expandNode_ok:
  assumes "stepOk (gw_nodeID x) base (g, [])"
  shows "stepOk (gw_nodeID x) base (expandNode sv lf w x g)"
proof -
  let ?spec = "specOnFile sv (lf (gw_nodeID x)) w x" and ?dep = "Suc (gw_depth x)"
  let ?f = "fold (addRef (gw_nodeID x) ?dep) (CollectRefs ?spec) (g, [])"
  have "stepOk (gw_nodeID x) base (fst ?f, snd ?f)" using stepOk_fold [OF assms stepOk_addRef] by simp
  then have p: "stepOk (gw_nodeID x) base (addPlacement x ?spec (fst ?f), snd ?f)" by (rule stepOk_addPlacement)
  show ?thesis
    using p stepOk_fold [OF p stepOk_addOwned] stepOk_fold [OF p stepOk_addPlanned]
    unfolding expandNode_def Let_def split_beta by (auto split: sum.split option.split)
qed

lemma bfs_ok:
  assumes "graph_inv g" "queue_inv g queue"
  shows "graph_inv (bfs sv lf w queue g) \<and> prefix (gb_nodes g) (gb_nodes (bfs sv lf w queue g))"
  using assms
proof (induction sv lf w queue g rule: bfs.induct)
  case (2 sv lf w x queue g)
  show ?case
  proof (cases "gw_nodeID x \<in> set (gb_expanded g) \<or> gw_depth x \<ge> maxGraphDepth")
    case True
    have "queue_inv g queue" using 2(4) by (simp add: queue_inv_def)
    then show ?thesis using 2(1) [OF True 2(3)] True by auto
  next
    case False
    let ?g = "g\<lparr>gb_expanded := gw_nodeID x # gb_expanded g\<rparr>"
    obtain g' new where e: "expandNode sv lf w x ?g = (g', new)" by fastforce
    have x: "gw_nodeID x \<in> ids g" "\<forall>y \<in> set queue. gw_nodeID y \<in> ids g" using 2(4) by (simp_all add: queue_inv_def)
    have "ids ?g = ids g" by (simp add: ids_def)
    then have "graph_inv ?g" using 2(3) False x(1) by (auto simp: graph_inv_def)
    with \<open>ids ?g = ids g\<close> have "stepOk (gw_nodeID x) (gb_nodes g) (?g, [])" using x(1) by (simp add: stepOk_def queue_inv_def ids_def)
    from expandNode_ok [OF this, of sv lf w] have ok: "stepOk (gw_nodeID x) (gb_nodes g) (g', new)" using e by simp
    then have q: "queue_inv g' (queue @ new)" using x(2) prefix_ids [of g g'] by (auto simp: stepOk_def queue_inv_def)
    have ih: "graph_inv (bfs sv lf w (queue @ new) g') \<and> prefix (gb_nodes g') (gb_nodes (bfs sv lf w (queue @ new) g'))"
      using 2(2) [OF False e [symmetric]] ok q by (simp add: stepOk_def)
    have "bfs sv lf w (x # queue) g = bfs sv lf w (queue @ new) g'" using False e by simp
    then show ?thesis using ih ok prefix_order.order_trans by (auto simp: stepOk_def)
  qed
qed simp

lemma resolveNode_sel [simp]:
  "gn_id (resolveNode sv lf w pl n) = gn_id n" "gn_kind (resolveNode sv lf w pl n) = gn_kind n"
  "gn_name (resolveNode sv lf w pl n) = gn_name n" "gn_root (resolveNode sv lf w pl n) = gn_root n"
  "gn_apiVersion (resolveNode sv lf w pl n) = gn_apiVersion n"
  by (simp_all add: resolveNode_def Let_def)

text \<open>
  C39. The children graph of any resource, whatever the providers plan and whichever loads fail, is a graph: the walk
  ends, node identifiers are distinct and name the node's kind and name, the queried resource comes first and is the
  managed root, no edge is repeated or loops, and both ends of every edge are nodes of the answer.
\<close>
theorem children_graph_wellformed:
  assumes "Api_GetChildrenGraph sv ce lf lf2 av k n w = Inr (nodes, edges)"
  shows "(distinct (map gn_id nodes)) \<and>
    (\<forall>x \<in> set nodes. gn_id x = graphNodeID (gn_kind x) (gn_name x)) \<and>
    (\<exists>r rest. nodes = r # rest \<and> gn_root r \<and> gn_managed r \<and> gn_status r = ''applied'' \<and> gn_apiVersion r = av \<and> gn_kind r = k \<and> gn_name r = n) \<and>
    (distinct edges) \<and>
    (\<forall>e \<in> set edges. ge_from e \<noteq> ge_to e \<and> {ge_from e, ge_to e} \<subseteq> gn_id ` set nodes)"
proof (intro conjI)
  let ?r = "\<lparr>gn_id = graphNodeID k n, gn_apiVersion = av, gn_kind = k, gn_name = n, gn_root = True, gn_managed = True, gn_status = []\<rparr>"
  let ?g1 = "newGraphBuilder\<lparr>gb_nodes := [?r]\<rparr>"
  let ?g = "bfs sv lf w [workItem av k n 0] ?g1"
  have res: "nodes = map (resolveNode sv lf2 w (gb_planned ?g)) (gb_nodes ?g)" "edges = gb_edges ?g"
    using assms by (auto simp: Api_GetChildrenGraph_def addNode_def newGraphBuilder_def Let_def split: option.splits if_splits sum.splits)
  have "graph_inv ?g1" "queue_inv ?g1 [workItem av k n 0]"
    by (simp_all add: graph_inv_def newGraphBuilder_def queue_inv_def workItem_def ids_def)
  note ok = bfs_ok [OF this, of sv lf w]
  have inv: "graph_inv ?g" using ok by simp
  have pre: "prefix [?r] (gb_nodes ?g)" using ok by simp
  have i: "gn_id ` set nodes = ids ?g" unfolding res(1) ids_def by (simp add: image_image)
  show "distinct (map gn_id nodes)" using inv unfolding res(1) by (simp add: graph_inv_def comp_def)
  show "\<forall>x \<in> set nodes. gn_id x = graphNodeID (gn_kind x) (gn_name x)" using inv unfolding res(1) by (simp add: graph_inv_def)
  obtain rest where "gb_nodes ?g = ?r # rest" using pre by (auto simp: prefix_def)
  then show "\<exists>r rest. nodes = r # rest \<and> gn_root r \<and> gn_managed r \<and> gn_status r = ''applied'' \<and>
           gn_apiVersion r = av \<and> gn_kind r = k \<and> gn_name r = n"
    unfolding res(1) by (simp add: resolveNode_def)
  show "distinct edges" using inv unfolding res(2) by (simp add: graph_inv_def)
  show "\<forall>e \<in> set edges. ge_from e \<noteq> ge_to e \<and> {ge_from e, ge_to e} \<subseteq> gn_id ` set nodes"
    using inv unfolding i unfolding res(2) by (simp add: graph_inv_def)
qed

text \<open>A machine on a host that refers to a disk, and the disk back to the machine.\<close>

definition refTo :: "string \<Rightarrow> string \<Rightarrow> val" where
  "refTo k n = VObj [(''$ref'', VObj [(''apiVersion'', VStr ''p.openctl.io/v1''), (''kind'', VStr k), (''name'', VStr n)])]"

definition graphWorld :: "unit world" where
  "graphWorld = appliedWorld
     [manifestRow (\<lambda>_. ''h'') ''t'' ((bareResource ''p.openctl.io/v1'' ''VirtualMachine'' ''m'')\<lparr>r_spec :=
        Some [(''node'', VStr ''pve''), (''disk'', refTo ''Disk'' ''d'')]\<rparr>) [] SourceCLI,
      manifestRow (\<lambda>_. ''h'') ''t'' ((bareResource ''p.openctl.io/v1'' ''Disk'' ''d'')\<lparr>r_spec :=
        Some [(''vm'', refTo ''VirtualMachine'' ''m'')]\<rparr>) [] SourceCLI]"

theorem children_graph_wellformed_witness:
  "\<exists>nodes edges. Api_GetChildrenGraph (sampleServer []) (sampleCall RoleViewer) (\<lambda>_. None) (\<lambda>_. None)
      ''p.openctl.io/v1'' ''VirtualMachine'' ''m'' graphWorld = Inr (nodes, edges) \<and>
    distinct (map gn_id nodes) \<and> map gn_id nodes = [''VirtualMachine/m'', ''Disk/d'', ''ProxmoxNode/pve''] \<and> length edges = 3"
proof -
  let ?r = "Api_GetChildrenGraph (sampleServer []) (sampleCall RoleViewer) (\<lambda>_. None) (\<lambda>_. None)
      ''p.openctl.io/v1'' ''VirtualMachine'' ''m'' graphWorld"
  have c: "map_sum id (\<lambda>(ns, es). (map gn_id ns, length es)) ?r = Inr ([''VirtualMachine/m'', ''Disk/d'', ''ProxmoxNode/pve''], 3)"
    by code_simp
  then obtain nodes edges where r: "?r = Inr (nodes, edges)" by (cases ?r) auto
  from children_graph_wellformed [OF r] show ?thesis using r c by simp
qed

end
