(* ===== verification/Cluster.thy ===== *)
theory Cluster
  imports Registry
begin

text \<open>
  pkg/k3s/resources/cluster.go: the specification of a k3s cluster, its parser, and what follows from it for
  the nodes: names, placement over provider endpoints and hosts, static addresses, passthrough devices and host
  preparation.  A control plane and a worker pool have the same fields; a worker pool has a name as well.
\<close>

subsection \<open>The specification\<close>

record static_ip_spec =
  si_startIP :: string
  si_gateway :: string
  si_netmask :: string

record network_block =
  nb_bridge :: string
  nb_staticIPs :: "static_ip_spec option"

record network_spec =
  nw_bridge :: string
  nw_dhcp :: bool
  nw_staticIPs :: "static_ip_spec option"
  nw_perContext :: "(string \<times> network_block) list"

record image_spec =
  im_url :: string
  im_template :: string
  im_storage :: string
  im_diskStorage :: string

record size_spec =
  sz_cpus :: int
  sz_memoryMB :: int
  sz_diskGB :: int

record placement_target =
  pt_context :: string
  pt_node :: string

record pci_device =
  pd_device :: string
  pd_mapping :: string
  pd_primaryGPU :: bool
  pd_mdev :: string

record gpu_spec =
  gp_devices :: "pci_device list"
  gp_efiStorage :: string
  gp_cpuType :: string

record node_prep_spec =
  np_packages :: "string list"
  np_runcmd :: "string list"

record compute_spec =
  cm_provider :: string
  cm_context :: string
  cm_image :: image_spec
  cm_default :: size_spec
  cm_nodes :: "string list"

record control_plane_spec =
  pl_count :: int
  pl_size :: "size_spec option"
  pl_context :: string
  pl_nodes :: "string list"
  pl_targets :: "placement_target list"
  pl_gpu :: "gpu_spec option"
  pl_nodePrep :: "node_prep_spec option"

record worker_spec = control_plane_spec +
  wk_name :: string

record nodes_spec =
  nd_controlPlane :: control_plane_spec
  nd_workers :: "worker_spec list"

record k3s_spec =
  ks_version :: string
  ks_clusterCIDR :: string
  ks_serviceCIDR :: string
  ks_extraArgs :: "string list"

record ssh_spec =
  sh_user :: string
  sh_privateKeyPath :: string
  sh_publicKeys :: "string list"

record cluster_spec =
  cs_compute :: compute_spec
  cs_nodes :: nodes_spec
  cs_network :: network_spec
  cs_k3s :: k3s_spec
  cs_ssh :: ssh_spec

subsection \<open>Reading untyped fields\<close>

text \<open>The comma-ok type assertions of the parser; a field of another type is as good as absent.\<close>

definition objField :: "obj \<Rightarrow> string \<Rightarrow> obj option" where
  "objField m k = (case objGet m k of VObj o1 \<Rightarrow> Some o1 | _ \<Rightarrow> None)"

definition arrField :: "obj \<Rightarrow> string \<Rightarrow> val list" where
  "arrField m k = (case objGet m k of VArr xs \<Rightarrow> xs | _ \<Rightarrow> [])"

text \<open>\<^verbatim>\<open>int(f)\<close> of a float64 in the range of int truncates; an integer decoded as \<^verbatim>\<open>int\<close> is not a float64.\<close>

definition truncRat :: "rat \<Rightarrow> int" where
  "truncRat q = (if q < 0 then \<lceil>q\<rceil> else \<lfloor>q\<rfloor>)"

definition intField :: "obj \<Rightarrow> string \<Rightarrow> int" where
  "intField m k = (case objGet m k of VFloat q \<Rightarrow> truncRat q | _ \<Rightarrow> 0)"

definition boolField :: "obj \<Rightarrow> string \<Rightarrow> bool" where
  "boolField m k = (case objGet m k of VBool b \<Rightarrow> b | _ \<Rightarrow> False)"

definition stringsOf :: "val list \<Rightarrow> string list" where
  "stringsOf xs = List.map_filter (\<lambda>v. case v of VStr s \<Rightarrow> Some s | _ \<Rightarrow> None) xs"

definition objsOf :: "val list \<Rightarrow> obj list" where
  "objsOf xs = List.map_filter (\<lambda>v. case v of VObj m \<Rightarrow> Some m | _ \<Rightarrow> None) xs"

definition parseStringSlice :: "val \<Rightarrow> string list" where
  "parseStringSlice v = (case v of VArr items \<Rightarrow> stringsOf items | _ \<Rightarrow> [])"

definition parsePlacementTargets :: "val \<Rightarrow> placement_target list" where
  "parsePlacementTargets v =
     (case v of
        VArr items \<Rightarrow>
          filter (\<lambda>t. \<not> (pt_context t = [] \<and> pt_node t = []))
            (map (\<lambda>m. \<lparr>pt_context = strField m ''context'', pt_node = strField m ''node''\<rparr>) (objsOf items))
      | _ \<Rightarrow> [])"

definition parseSizeSpec :: "obj \<Rightarrow> size_spec" where
  "parseSizeSpec m = \<lparr>sz_cpus = intField m ''cpus'', sz_memoryMB = intField m ''memoryMB'', sz_diskGB = intField m ''diskGB''\<rparr>"

definition parseGPUSpec :: "obj \<Rightarrow> gpu_spec" where
  "parseGPUSpec m =
     \<lparr>gp_devices = map (\<lambda>d. \<lparr>pd_device = strField d ''device'', pd_mapping = strField d ''mapping'',
                             pd_primaryGPU = boolField d ''primaryGPU'', pd_mdev = strField d ''mdev''\<rparr>)
                    (objsOf (arrField m ''devices'')),
      gp_efiStorage = strField m ''efiStorage'', gp_cpuType = strField m ''cpuType''\<rparr>"

definition parseNodePrepSpec :: "obj \<Rightarrow> node_prep_spec" where
  "parseNodePrepSpec m = \<lparr>np_packages = stringsOf (arrField m ''packages''), np_runcmd = stringsOf (arrField m ''runcmd'')\<rparr>"

definition parseStaticIPs :: "obj \<Rightarrow> static_ip_spec" where
  "parseStaticIPs s = \<lparr>si_startIP = strField s ''startIP'', si_gateway = strField s ''gateway'', si_netmask = strField s ''netmask''\<rparr>"

definition parsePerContext :: "obj \<Rightarrow> (string \<times> network_block) list" where
  "parsePerContext pc =
     List.map_filter (\<lambda>(ctx, raw). case raw of
         VObj b \<Rightarrow> Some (ctx, \<lparr>nb_bridge = strField b ''bridge'', nb_staticIPs = map_option parseStaticIPs (objField b ''staticIPs'')\<rparr>)
       | _ \<Rightarrow> None) pc"

subsection \<open>ParseClusterSpec\<close>

definition emptyImage :: image_spec where
  "emptyImage = \<lparr>im_url = [], im_template = [], im_storage = [], im_diskStorage = []\<rparr>"

definition zeroSize :: size_spec where
  "zeroSize = \<lparr>sz_cpus = 0, sz_memoryMB = 0, sz_diskGB = 0\<rparr>"

definition emptyCompute :: compute_spec where
  "emptyCompute = \<lparr>cm_provider = [], cm_context = [], cm_image = emptyImage, cm_default = zeroSize, cm_nodes = []\<rparr>"

definition emptyPool :: control_plane_spec where
  "emptyPool = \<lparr>pl_count = 0, pl_size = None, pl_context = [], pl_nodes = [], pl_targets = [], pl_gpu = None, pl_nodePrep = None\<rparr>"

definition emptyNetwork :: network_spec where
  "emptyNetwork = \<lparr>nw_bridge = [], nw_dhcp = False, nw_staticIPs = None, nw_perContext = []\<rparr>"

definition emptyK3s :: k3s_spec where
  "emptyK3s = \<lparr>ks_version = [], ks_clusterCIDR = [], ks_serviceCIDR = [], ks_extraArgs = []\<rparr>"

definition emptySSH :: ssh_spec where
  "emptySSH = \<lparr>sh_user = [], sh_privateKeyPath = [], sh_publicKeys = []\<rparr>"

definition parseImage :: "obj \<Rightarrow> image_spec" where
  "parseImage m = \<lparr>im_url = strField m ''url'', im_template = strField m ''template'', im_storage = strField m ''storage'',
     im_diskStorage = strField m ''diskStorage''\<rparr>"

definition parseCompute :: "obj \<Rightarrow> compute_spec" where
  "parseCompute m =
     \<lparr>cm_provider = strField m ''provider'', cm_context = strField m ''context'',
      cm_image = (case objField m ''image'' of None \<Rightarrow> emptyImage | Some i \<Rightarrow> parseImage i),
      cm_default = (case objField m ''default'' of None \<Rightarrow> zeroSize | Some d \<Rightarrow> parseSizeSpec d),
      cm_nodes = parseStringSlice (objGet m ''nodes'')\<rparr>"

definition parsePool :: "obj \<Rightarrow> control_plane_spec" where
  "parsePool m =
     \<lparr>pl_count = intField m ''count'', pl_size = map_option parseSizeSpec (objField m ''size''),
      pl_context = strField m ''context'', pl_nodes = parseStringSlice (objGet m ''nodes''),
      pl_targets = parsePlacementTargets (objGet m ''targets''), pl_gpu = map_option parseGPUSpec (objField m ''gpu''),
      pl_nodePrep = map_option parseNodePrepSpec (objField m ''nodePrep'')\<rparr>"

definition parseWorker :: "obj \<Rightarrow> worker_spec" where
  "parseWorker m = control_plane_spec.extend (parsePool m) \<lparr>wk_name = strField m ''name''\<rparr>"

definition parseNodes :: "obj \<Rightarrow> nodes_spec" where
  "parseNodes m =
     \<lparr>nd_controlPlane = (case objField m ''controlPlane'' of None \<Rightarrow> emptyPool | Some cp \<Rightarrow> parsePool cp),
      nd_workers = map parseWorker (objsOf (arrField m ''workers''))\<rparr>"

text \<open>
  DHCP is the default; it is switched off by the field, by a static range with a first address, and by any
  network block of a context.
\<close>

definition parseNetwork :: "obj option \<Rightarrow> network_spec" where
  "parseNetwork n =
     (case n of
        None \<Rightarrow> \<lparr>nw_bridge = ''vmbr0'', nw_dhcp = True, nw_staticIPs = None, nw_perContext = []\<rparr>
      | Some m \<Rightarrow>
          let dhcp0 = (case objGet m ''dhcp'' of VBool b \<Rightarrow> b | VStr s \<Rightarrow> s \<noteq> ''false'' | _ \<Rightarrow> True);
              static = map_option parseStaticIPs (objField m ''staticIPs'');
              dhcp1 = (case static of None \<Rightarrow> dhcp0 | Some s \<Rightarrow> if si_startIP s \<noteq> [] then False else dhcp0);
              per = (case objField m ''perContext'' of None \<Rightarrow> [] | Some pc \<Rightarrow> parsePerContext pc)
          in \<lparr>nw_bridge = (case objGet m ''bridge'' of VStr b \<Rightarrow> b | _ \<Rightarrow> ''vmbr0''),
              nw_dhcp = (if per \<noteq> [] then False else dhcp1), nw_staticIPs = static, nw_perContext = per\<rparr>)"

definition parseK3s :: "obj \<Rightarrow> k3s_spec" where
  "parseK3s m = \<lparr>ks_version = strField m ''version'', ks_clusterCIDR = strField m ''clusterCIDR'',
     ks_serviceCIDR = strField m ''serviceCIDR'', ks_extraArgs = stringsOf (arrField m ''extraArgs'')\<rparr>"

definition parseSSH :: "obj \<Rightarrow> ssh_spec" where
  "parseSSH m = \<lparr>sh_user = strField m ''user'', sh_privateKeyPath = strField m ''privateKeyPath'',
     sh_publicKeys = stringsOf (arrField m ''publicKeys'')\<rparr>"

text \<open>The parser has no error case; without a spec every field is the zero value, the network's as well.\<close>

definition ParseClusterSpec :: "resource \<Rightarrow> cluster_spec" where
  "ParseClusterSpec r =
     (case r_spec r of
        None \<Rightarrow> \<lparr>cs_compute = emptyCompute, cs_nodes = \<lparr>nd_controlPlane = emptyPool, nd_workers = []\<rparr>,
                 cs_network = emptyNetwork, cs_k3s = emptyK3s, cs_ssh = emptySSH\<rparr>
      | Some m \<Rightarrow>
          \<lparr>cs_compute = (case objField m ''compute'' of None \<Rightarrow> emptyCompute | Some c \<Rightarrow> parseCompute c),
           cs_nodes = (case objField m ''nodes'' of None \<Rightarrow> \<lparr>nd_controlPlane = emptyPool, nd_workers = []\<rparr> | Some n \<Rightarrow> parseNodes n),
           cs_network = parseNetwork (objField m ''network''),
           cs_k3s = (case objField m ''k3s'' of None \<Rightarrow> emptyK3s | Some k \<Rightarrow> parseK3s k),
           cs_ssh = (case objField m ''ssh'' of None \<Rightarrow> emptySSH | Some s \<Rightarrow> parseSSH s)\<rparr>)"

subsection \<open>Node names and placement\<close>

definition poolName :: "worker_spec \<Rightarrow> string" where
  "poolName w = (if wk_name w = [] then ''worker'' else wk_name w)"

definition nodeName :: "string \<Rightarrow> string \<Rightarrow> nat \<Rightarrow> string" where
  "nodeName cluster pool i = cluster @ ''-'' @ pool @ ''-'' @ digits i"

definition poolNodes :: "string \<Rightarrow> string \<Rightarrow> int \<Rightarrow> string list" where
  "poolNodes cluster pool cnt = map (nodeName cluster pool) [0..<nat cnt]"

definition NodeNames :: "string \<Rightarrow> cluster_spec \<Rightarrow> string list \<times> string list" where
  "NodeNames cluster spec =
     (poolNodes cluster ''cp'' (pl_count (nd_controlPlane (cs_nodes spec))),
      concat (map (\<lambda>w. poolNodes cluster (poolName w) (pl_count w)) (nd_workers (cs_nodes spec))))"

definition resolvePoolTargets ::
  "placement_target list \<Rightarrow> string \<Rightarrow> string list \<Rightarrow> string \<Rightarrow> string list \<Rightarrow> placement_target list" where
  "resolvePoolTargets targets poolContext poolHosts computeContext computeNodes =
     (let ctx = (if poolContext = [] then computeContext else poolContext) in
      if targets \<noteq> [] then
        map (\<lambda>t. \<lparr>pt_context = (if pt_context t = [] then ctx else pt_context t), pt_node = pt_node t\<rparr>) targets
      else
        let hosts = (if poolHosts = [] then computeNodes else poolHosts) in
        if hosts = [] then (if ctx = [] then [] else [\<lparr>pt_context = ctx, pt_node = []\<rparr>])
        else map (\<lambda>h. \<lparr>pt_context = ctx, pt_node = h\<rparr>) hosts)"

definition poolTargets :: "cluster_spec \<Rightarrow> 'x control_plane_spec_scheme \<Rightarrow> placement_target list" where
  "poolTargets spec p = resolvePoolTargets (pl_targets p) (pl_context p) (pl_nodes p)
     (cm_context (cs_compute spec)) (cm_nodes (cs_compute spec))"

text \<open>Round robin over the targets of one pool.\<close>

definition placePool ::
  "string \<Rightarrow> string \<Rightarrow> int \<Rightarrow> placement_target list \<Rightarrow> (string \<times> placement_target) list \<Rightarrow> (string \<times> placement_target) list" where
  "placePool cluster pool cnt targets out =
     (if targets = [] then out
      else foldl (\<lambda>acc i. putKey acc (nodeName cluster pool i) (targets ! (i mod length targets))) out [0..<nat cnt])"

definition PlacementTargets :: "string \<Rightarrow> cluster_spec \<Rightarrow> (string \<times> placement_target) list" where
  "PlacementTargets cluster spec =
     foldl (\<lambda>acc w. placePool cluster (poolName w) (pl_count w) (poolTargets spec w) acc)
       (placePool cluster ''cp'' (pl_count (nd_controlPlane (cs_nodes spec))) (poolTargets spec (nd_controlPlane (cs_nodes spec))) [])
       (nd_workers (cs_nodes spec))"

text \<open>Looking a node up in the placement; an absent node has the zero target.\<close>

definition placementOf :: "(string \<times> placement_target) list \<Rightarrow> string \<Rightarrow> placement_target" where
  "placementOf p n = (case map_of p n of None \<Rightarrow> \<lparr>pt_context = [], pt_node = []\<rparr> | Some t \<Rightarrow> t)"

definition BridgeForContext :: "network_spec \<Rightarrow> string \<Rightarrow> string" where
  "BridgeForContext n ctx =
     (case map_of (nw_perContext n) ctx of
        Some b \<Rightarrow> if nb_bridge b \<noteq> [] then nb_bridge b else nw_bridge n
      | None \<Rightarrow> nw_bridge n)"

subsection \<open>The pool of a node, devices and preparation\<close>

text \<open>The walk over the worker pools by a running index; a count may be negative.\<close>

fun workerAt :: "int \<Rightarrow> worker_spec list \<Rightarrow> worker_spec option" where
  "workerAt i [] = None"
| "workerAt i (p # ps) = (if i < pl_count p then Some p else workerAt (i - pl_count p) ps)"

definition GPUForNode :: "int \<Rightarrow> int \<Rightarrow> cluster_spec \<Rightarrow> gpu_spec option" where
  "GPUForNode i cpCount spec =
     (if i < cpCount then pl_gpu (nd_controlPlane (cs_nodes spec))
      else (case workerAt (i - cpCount) (nd_workers (cs_nodes spec)) of None \<Rightarrow> None | Some p \<Rightarrow> pl_gpu p))"

definition NodePrepForNode :: "int \<Rightarrow> int \<Rightarrow> cluster_spec \<Rightarrow> node_prep_spec option" where
  "NodePrepForNode i cpCount spec =
     (if i < cpCount then pl_nodePrep (nd_controlPlane (cs_nodes spec))
      else (case workerAt (i - cpCount) (nd_workers (cs_nodes spec)) of None \<Rightarrow> None | Some p \<Rightarrow> pl_nodePrep p))"

definition pciEntry :: "pci_device \<Rightarrow> obj" where
  "pciEntry d =
     (let m0 = [(''pcie'', VBool True)];
          m1 = (if pd_mapping d \<noteq> [] then putKey m0 ''mapping'' (VStr (pd_mapping d)) else putKey m0 ''device'' (VStr (pd_device d)));
          m2 = (if pd_primaryGPU d then putKey m1 ''primaryGPU'' (VBool True) else m1)
      in if pd_mdev d \<noteq> [] then putKey m2 ''mdev'' (VStr (pd_mdev d)) else m2)"

definition ApplyGPUToVMSpec :: "obj \<Rightarrow> gpu_spec option \<Rightarrow> obj" where
  "ApplyGPUToVMSpec vm gpu =
     (case gpu of
        None \<Rightarrow> vm
      | Some g \<Rightarrow>
          let m1 = putKey (putKey vm ''machine'' (VStr ''q35'')) ''bios'' (VStr ''ovmf'');
              ty = VStr (if gp_cpuType g = [] then ''host'' else gp_cpuType g);
              m2 = putKey m1 ''cpu'' (case objField m1 ''cpu'' of Some cpu \<Rightarrow> VObj (putKey cpu ''type'' ty) | None \<Rightarrow> VObj [(''type'', ty)]);
              m3 = (if gp_efiStorage g \<noteq> [] then putKey m2 ''efiDisk'' (VObj [(''storage'', VStr (gp_efiStorage g)), (''type'', VStr ''4m'')]) else m2);
              ds = filter (\<lambda>d. \<not> (pd_device d = [] \<and> pd_mapping d = [])) (gp_devices g)
          in if ds \<noteq> [] then putKey m3 ''hostPCI'' (VArr (map (VObj \<circ> pciEntry) ds)) else m3)"

definition ApplyNodePrepToVMSpec :: "obj \<Rightarrow> node_prep_spec option \<Rightarrow> obj" where
  "ApplyNodePrepToVMSpec vm np0 =
     (case np0 of
        None \<Rightarrow> vm
      | Some np \<Rightarrow>
          if np_packages np = [] \<and> np_runcmd np = [] then vm
          else
            let ci0 = (case objField vm ''cloudInit'' of Some ci \<Rightarrow> ci | None \<Rightarrow> []);
                ci1 = (if np_packages np \<noteq> [] then putKey ci0 ''packages'' (VArr (map VStr (np_packages np))) else ci0);
                ci2 = (if np_runcmd np \<noteq> [] then putKey ci1 ''runcmd'' (VArr (map VStr (np_runcmd np))) else ci1)
            in putKey vm ''cloudInit'' (VObj ci2))"

subsection \<open>Static addresses\<close>

text \<open>
  \<^verbatim>\<open>fmt.Sscanf(ip, "%d.%d.%d.%d")\<close>: each verb skips (ASCII) blanks, takes an optional sign and digits, and fails when the
  number does not fit an int; what follows the last number is ignored.
\<close>

definition isBlank :: "char \<Rightarrow> bool" where
  "isBlank c \<longleftrightarrow> (let n = of_char c :: nat in n = 32 \<or> n = 9 \<or> n = 11 \<or> n = 12 \<or> n = 13)"

definition isDigitChar :: "char \<Rightarrow> bool" where
  "isDigitChar c \<longleftrightarrow> (let n = of_char c :: nat in 48 \<le> n \<and> n \<le> 57)"

definition numOf :: "string \<Rightarrow> nat" where
  "numOf s = foldl (\<lambda>a c. 10 * a + (of_char c - 48)) 0 s"

definition scanInt :: "string \<Rightarrow> (int \<times> string) option" where
  "scanInt s0 =
     (let s = dropWhile isBlank s0;
          neg = (case s of c # _ \<Rightarrow> c = CHR ''-'' | [] \<Rightarrow> False);
          t = (case s of c # r \<Rightarrow> if c = CHR ''-'' \<or> c = CHR ''+'' then r else s | [] \<Rightarrow> s);
          ds = takeWhile isDigitChar t;
          v = (if neg then - int (numOf ds) else int (numOf ds))
      in if ds = [] \<or> v < - (2 ^ 63) \<or> v \<ge> 2 ^ 63 then None else Some (v, dropWhile isDigitChar t))"

definition scanDot :: "string \<Rightarrow> string option" where
  "scanDot s = (case s of c # r \<Rightarrow> if c = CHR ''.'' then Some r else None | [] \<Rightarrow> None)"

type_synonym quad = "int \<times> int \<times> int \<times> int"

definition scanQuad :: "string \<Rightarrow> quad option" where
  "scanQuad s =
     Option.bind (scanInt s) (\<lambda>(a, s1). Option.bind (scanDot s1) (\<lambda>s2.
     Option.bind (scanInt s2) (\<lambda>(b, s3). Option.bind (scanDot s3) (\<lambda>s4.
     Option.bind (scanInt s4) (\<lambda>(c, s5). Option.bind (scanDot s5) (\<lambda>s6.
     Option.bind (scanInt s6) (\<lambda>(d, _). Some (a, b, c, d))))))))"

fun showQuad :: "quad \<Rightarrow> string" where
  "showQuad (a, b, c, d) = showInt a @ ''.'' @ showInt b @ ''.'' @ showInt c @ ''.'' @ showInt d"

definition incrementIP :: "string \<Rightarrow> err + string" where
  "incrementIP ip =
     (case scanQuad ip of
        None \<Rightarrow> Inl (Plain (''invalid IP address: '' @ ip))
      | Some (a, b, c, d) \<Rightarrow>
          let d1 = wrap64 (d + 1) in
          if d1 > 254 then
            (let c1 = wrap64 (c + 1) in
             if c1 > 255 then Inl (Plain ''IP range exhausted'') else Inr (showQuad (a, b, c1, 1)))
          else Inr (showQuad (a, b, c, d1)))"

fun allocateFrom :: "(string \<Rightarrow> string) \<Rightarrow> string list \<Rightarrow> string \<Rightarrow> strmap \<Rightarrow> err + strmap" where
  "allocateFrom msg [] cur ips = Inr ips"
| "allocateFrom msg (n # ns) cur ips =
     (case incrementIP cur of
        Inl e \<Rightarrow> Inl (Wrap (msg n) e)
      | Inr nxt \<Rightarrow> allocateFrom msg ns nxt (putKey ips n cur))"

definition groupByContext :: "(string \<times> placement_target) list \<Rightarrow> string list \<Rightarrow> (string \<times> string list) list" where
  "groupByContext placement ns =
     foldl (\<lambda>acc n. let ctx = pt_context (placementOf placement n) in
              putKey acc ctx ((case map_of acc ctx of None \<Rightarrow> [] | Some xs \<Rightarrow> xs) @ [n])) [] ns"

text \<open>
  Go ranges over the groups in no particular order; the allocations do not depend on it, only which error is
  reported does.  Here it is the order in which contexts first occur.
\<close>

fun allocateGroups :: "cluster_spec \<Rightarrow> (string \<times> string list) list \<Rightarrow> strmap \<Rightarrow> err + strmap" where
  "allocateGroups spec [] ips = Inr ips"
| "allocateGroups spec ((ctx, ns) # gs) ips =
     (let missing = Inl (Plain (''network.perContext has no staticIPs block for context '' @ goQuote ctx
                          @ '' (nodes: ['' @ joinWith '' '' ns @ ''])'')) in
      case map_of (nw_perContext (cs_network spec)) ctx of
        None \<Rightarrow> missing
      | Some block \<Rightarrow>
          (case nb_staticIPs block of
             None \<Rightarrow> missing
           | Some st \<Rightarrow>
               if si_startIP st = [] then missing
               else bindE (allocateFrom (\<lambda>n. ''allocate IP for '' @ n @ '' in context '' @ goQuote ctx) (sort ns) (si_startIP st) ips)
                      (\<lambda>ips'. allocateGroups spec gs ips')))"

definition allNodeNames :: "string \<Rightarrow> cluster_spec \<Rightarrow> string list" where
  "allNodeNames cluster spec = fst (NodeNames cluster spec) @ snd (NodeNames cluster spec)"

definition allocateIPsPerContext :: "string \<Rightarrow> cluster_spec \<Rightarrow> err + strmap" where
  "allocateIPsPerContext cluster spec =
     allocateGroups spec (groupByContext (PlacementTargets cluster spec) (allNodeNames cluster spec)) []"

text \<open>The empty map stands for Go's nil map of the DHCP mode.\<close>

definition AllocateIPs :: "string \<Rightarrow> cluster_spec \<Rightarrow> err + strmap" where
  "AllocateIPs cluster spec =
     (if nw_perContext (cs_network spec) \<noteq> [] then allocateIPsPerContext cluster spec
      else
        (case nw_staticIPs (cs_network spec) of
           None \<Rightarrow> Inr []
         | Some st \<Rightarrow>
             if nw_dhcp (cs_network spec) then Inr []
             else allocateFrom (\<lambda>n. ''failed to allocate IP for '' @ n) (allNodeNames cluster spec) (si_startIP st) []))"

subsection \<open>Lemmas: numbers and names\<close>

lemma of_char_digit: "k < 10 \<Longrightarrow> (of_char (char_of (48 + k) :: char) :: nat) = 48 + k"
  by (simp add: of_char_of take_bit_eq_mod)

lemma digits_ne [simp]: "digits n \<noteq> []"
  by (subst digits.simps) simp

lemma digits_digit: "c \<in> set (digits n) \<Longrightarrow> isDigitChar c"
proof (induction n rule: digits.induct)
  case (1 n)
  show ?case
  proof (cases "n < 10")
    case True
    then show ?thesis using "1.prems" by (subst (asm) digits.simps) (simp add: isDigitChar_def of_char_digit)
  next
    case False
    have "c \<in> set (digits (n div 10)) \<or> c = char_of (48 + n mod 10)"
      using "1.prems" False by (subst (asm) digits.simps) auto
    then show ?thesis using "1.IH" [OF False] by (auto simp: isDigitChar_def of_char_digit)
  qed
qed

lemma numOf_snoc: "numOf (s @ [c]) = 10 * numOf s + (of_char c - 48)"
  by (simp add: numOf_def)

lemma numOf_digits [simp]: "numOf (digits n) = n"
proof (induction n rule: digits.induct)
  case (1 n)
  show ?case
  proof (cases "n < 10")
    case True
    then show ?thesis by (subst digits.simps) (simp add: numOf_def of_char_digit)
  next
    case False
    then have "numOf (digits n) = 10 * numOf (digits (n div 10)) + n mod 10"
      by (subst digits.simps) (simp add: numOf_snoc of_char_digit)
    then show ?thesis using "1.IH" [OF False] by simp
  qed
qed

lemma digits_inj: "digits m = digits n \<longleftrightarrow> m = n"
  by (metis numOf_digits)

lemma dash_not_digit: "CHR ''-'' \<notin> set (digits n)"
  using digits_digit [of "CHR ''-''" n] by (auto simp: isDigitChar_def)

lemma nodeName_inj: "nodeName cl p i = nodeName cl q j \<longleftrightarrow> p = q \<and> i = j"
  using append_sep_eq [OF dash_not_digit dash_not_digit, of "cl @ ''-'' @ p" i "cl @ ''-'' @ q" j]
  by (auto simp: nodeName_def digits_inj)

lemma set_poolNodes: "set (poolNodes cl p k) = nodeName cl p ` {0..<nat k}"
  by (simp add: poolNodes_def)

lemma length_poolNodes [simp]: "length (poolNodes cl p k) = nat k"
  by (simp add: poolNodes_def)

lemma distinct_poolNodes [simp]: "distinct (poolNodes cl p k)"
  by (auto simp: poolNodes_def distinct_map inj_on_def nodeName_inj)

lemma pool_of_nodeName: "nodeName cl p i \<in> set (poolNodes cl q k) \<longleftrightarrow> p = q \<and> i < nat k"
  by (auto simp: set_poolNodes nodeName_inj image_iff)

lemma poolNodes_disjoint: "p \<noteq> q \<Longrightarrow> set (poolNodes cl p k) \<inter> set (poolNodes cl q l) = {}"
  by (auto simp: set_poolNodes nodeName_inj)

lemma digit_chars: "char_of (48 :: nat) = CHR ''0''" "char_of (49 :: nat) = CHR ''1''" "char_of (50 :: nat) = CHR ''2''"
  by code_simp+

text \<open>The pools of a cluster, the control plane first, with the names their nodes carry.\<close>

definition poolNames :: "cluster_spec \<Rightarrow> string list" where
  "poolNames spec = ''cp'' # map poolName (nd_workers (cs_nodes spec))"

lemma distinct_concat_pools:
  "distinct (map poolName ws) \<Longrightarrow> distinct (concat (map (\<lambda>w. poolNodes cl (poolName w) (pl_count w)) ws))"
proof (induction ws)
  case (Cons w ws)
  have "set (poolNodes cl (poolName w) (pl_count w)) \<inter> set (poolNodes cl (poolName v) (pl_count v)) = {}" if "v \<in> set ws" for v
    using Cons.prems that by (intro poolNodes_disjoint) auto
  then show ?case using Cons by (auto simp: disjoint_iff)
qed simp

lemma distinct_allNodeNames:
  assumes "distinct (poolNames spec)"
  shows "distinct (allNodeNames cl spec)"
proof -
  have "set (poolNodes cl ''cp'' k) \<inter> set (poolNodes cl (poolName v) (pl_count v)) = {}" if "v \<in> set (nd_workers (cs_nodes spec))" for v k
    using assms that by (intro poolNodes_disjoint) (auto simp: poolNames_def)
  then show ?thesis
    using assms distinct_concat_pools [of "nd_workers (cs_nodes spec)" cl]
    by (auto simp: allNodeNames_def NodeNames_def poolNames_def disjoint_iff)
qed

subsection \<open>Lemmas: addresses\<close>

lemma digits_head: "digits n = c # s \<Longrightarrow> isDigitChar c"
  using digits_digit [of c n] by simp

lemma takeWhile_digits: "(\<forall>c r. rest = c # r \<longrightarrow> \<not> isDigitChar c) \<Longrightarrow>
  takeWhile isDigitChar (digits n @ rest) = digits n \<and> dropWhile isDigitChar (digits n @ rest) = rest"
  using digits_digit by (cases rest) (auto simp: takeWhile_append2 dropWhile_append2)

lemma not_blank_digit: "isDigitChar c \<Longrightarrow> \<not> isBlank c \<and> c \<noteq> CHR ''-'' \<and> c \<noteq> CHR ''+''"
  by (auto simp: isDigitChar_def isBlank_def Let_def)

lemma scanInt_digits:
  assumes "int n < 2 ^ 63" "\<forall>c r. rest = c # r \<longrightarrow> \<not> isDigitChar c"
  shows "scanInt (digits n @ rest) = Some (int n, rest)"
proof -
  obtain c s where ds: "digits n = c # s" using digits_ne [of n] by (cases "digits n") auto
  have c: "\<not> isBlank c" "c \<noteq> CHR ''-''" "c \<noteq> CHR ''+''" using not_blank_digit [OF digits_head [OF ds]] by auto
  have drop0: "dropWhile isBlank (digits n @ rest) = digits n @ rest" using ds c by simp
  show ?thesis
    unfolding scanInt_def drop0 Let_def using takeWhile_digits [OF assms(2), of n] ds c assms(1) numOf_digits [of n] by simp
qed

definition octetsOk :: "quad \<Rightarrow> bool" where
  "octetsOk q = (case q of (a, b, c, d) \<Rightarrow> 0 \<le> a \<and> a \<le> 255 \<and> 0 \<le> b \<and> b \<le> 255 \<and> 0 \<le> c \<and> c \<le> 255 \<and> 0 \<le> d \<and> d \<le> 255)"

lemma scanInt_octet:
  assumes "0 \<le> a" "a \<le> 255"
  shows "scanInt (showInt a @ CHR ''.'' # r) = Some (a, CHR ''.'' # r)" "scanInt (showInt a) = Some (a, [])"
  using assms scanInt_digits [of "nat a" "CHR ''.'' # r"] scanInt_digits [of "nat a" "[]"]
  by (simp_all add: showInt_def isDigitChar_def)

lemma scanQuad_showQuad: "octetsOk q \<Longrightarrow> scanQuad (showQuad q) = Some q"
  by (cases q) (simp add: octetsOk_def scanQuad_def scanInt_octet scanDot_def)

lemma showQuad_inj: "octetsOk p \<Longrightarrow> octetsOk q \<Longrightarrow> showQuad p = showQuad q \<longleftrightarrow> p = q"
  by (metis scanQuad_showQuad option.inject)

text \<open>
  The addresses \<open>a.b.c.d\<close> with a last octet from 1 to 254 are numbered by \<open>254 c + d - 1\<close>; \<open>hostAt\<close> is the address
  of a number, and one step of the allocator adds one to it.
\<close>

definition hostAt :: "int \<Rightarrow> int \<Rightarrow> int \<Rightarrow> quad" where
  "hostAt a b h = (a, b, h div 254, h mod 254 + 1)"

definition hostLimit :: int where
  "hostLimit = 256 * 254"

lemma octetsOk_hostAt:
  assumes "0 \<le> a" "a \<le> 255" "0 \<le> b" "b \<le> 255" "0 \<le> h" "h < hostLimit"
  shows "octetsOk (hostAt a b h)"
proof -
  have "h div 254 < 256" using assms by (simp add: hostLimit_def)
  moreover have "0 \<le> h mod 254" "h mod 254 < 254" by simp_all
  ultimately show ?thesis using assms by (auto simp: octetsOk_def hostAt_def pos_imp_zdiv_nonneg_iff)
qed

lemma hostAt_inj: "hostAt a b h = hostAt a b k \<longleftrightarrow> h = k"
  by (auto simp: hostAt_def) (metis div_mult_mod_eq)

lemma hostAt_number: "1 \<le> d \<Longrightarrow> d \<le> 254 \<Longrightarrow> hostAt a b (254 * c + d - 1) = (a, b, c, d)"
proof -
  assume d: "1 \<le> d" "d \<le> 254"
  have "(254 * c + (d - 1)) div 254 = c" "(254 * c + (d - 1)) mod 254 = d - 1" using d by simp_all
  then show ?thesis by (simp add: hostAt_def algebra_simps)
qed

lemma incrementIP_hostAt:
  assumes "0 \<le> a" "a \<le> 255" "0 \<le> b" "b \<le> 255" "0 \<le> h" "h < hostLimit"
  shows "incrementIP (showQuad (hostAt a b h)) =
    (if h + 1 < hostLimit then Inr (showQuad (hostAt a b (h + 1))) else Inl (Plain ''IP range exhausted''))"
proof -
  let ?c = "h div 254" and ?d = "h mod 254 + 1"
  have d: "1 \<le> ?d" "?d \<le> 254" by (simp_all add: add1_zle_eq)
  have c: "0 \<le> ?c" "?c < 256" using assms by (simp_all add: hostLimit_def pos_imp_zdiv_nonneg_iff)
  have h: "h = 254 * ?c + ?d - 1" by simp
  have w: "wrap64 (?d + 1) = ?d + 1" "wrap64 (?c + 1) = ?c + 1" using c d by (auto intro!: wrap64_id)
  have e: "incrementIP (showQuad (hostAt a b h)) =
      (if ?d + 1 > 254 then (if ?c + 1 > 255 then Inl (Plain ''IP range exhausted'') else Inr (showQuad (a, b, ?c + 1, 1)))
       else Inr (showQuad (a, b, ?c, ?d + 1)))"
    using scanQuad_showQuad [OF octetsOk_hostAt [OF assms]] w
    by (simp add: incrementIP_def hostAt_def Let_def del: showQuad.simps)
  show ?thesis
  proof (cases "?d + 1 > 254")
    case True
    then have "?d = 254" using d by simp
    then have "h + 1 = 254 * (?c + 1)" using h by simp
    then have "h + 1 < hostLimit \<longleftrightarrow> \<not> ?c + 1 > 255" using c unfolding hostLimit_def by arith
    moreover have "hostAt a b (h + 1) = (a, b, ?c + 1, 1)"
      unfolding \<open>h + 1 = 254 * (?c + 1)\<close> using hostAt_number [of 1 a b "?c + 1"] by (simp add: add.commute)
    ultimately show ?thesis unfolding e using True by simp
  next
    case False
    have n: "254 * ?c + (?d + 1) - 1 = h + 1" using h by simp
    have "hostAt a b (254 * ?c + (?d + 1) - 1) = (a, b, ?c, ?d + 1)" using False d by (intro hostAt_number) auto
    then have "hostAt a b (h + 1) = (a, b, ?c, ?d + 1)" unfolding n .
    moreover have "h + 1 < hostLimit" using h c False unfolding hostLimit_def by linarith
    ultimately show ?thesis unfolding e using False by (simp only: if_True if_False not_False_eq_True)
  qed
qed

definition rangeOk :: "int \<Rightarrow> int \<Rightarrow> int \<Rightarrow> bool" where
  "rangeOk a b h \<longleftrightarrow> 0 \<le> a \<and> a \<le> 255 \<and> 0 \<le> b \<and> b \<le> 255 \<and> 0 \<le> h \<and> h < hostLimit"

definition addrAt :: "int \<Rightarrow> int \<Rightarrow> int \<Rightarrow> string" where
  "addrAt a b h = showQuad (hostAt a b h)"

lemma incrementIP_addrAt: "rangeOk a b h \<Longrightarrow> incrementIP (addrAt a b h) =
    (if h + 1 < hostLimit then Inr (addrAt a b (h + 1)) else Inl (Plain ''IP range exhausted''))"
  unfolding rangeOk_def addrAt_def by (intro incrementIP_hostAt) auto

lemma addrAt_inj: "rangeOk a b h \<Longrightarrow> rangeOk a b k \<Longrightarrow> addrAt a b h = addrAt a b k \<longleftrightarrow> h = k"
  unfolding rangeOk_def addrAt_def by (subst showQuad_inj) (auto intro!: octetsOk_hostAt simp: hostAt_inj)

lemma putKey_fresh: "k \<notin> fst ` set m \<Longrightarrow> putKey m k v = m @ [(k, v)]"
  by (induction m) auto

text \<open>What one range yields: consecutive addresses in the order of the nodes, or the error at the node that uses the last one.\<close>

lemma allocateFrom_addrAt:
  assumes "rangeOk a b h" "distinct ns" "set ns \<inter> fst ` set ips = {}"
  shows "allocateFrom msg ns (addrAt a b h) ips =
    (if h + int (length ns) < hostLimit
     then Inr (ips @ zip ns (map (\<lambda>i. addrAt a b (h + int i)) [0..<length ns]))
     else Inl (Wrap (msg (ns ! nat (hostLimit - h - 1))) (Plain ''IP range exhausted'')))"
  using assms
proof (induction ns arbitrary: h ips)
  case Nil
  then show ?case by (simp add: rangeOk_def)
next
  case (Cons n ns)
  note inc = incrementIP_addrAt [OF Cons.prems(1)]
  have fresh: "putKey ips n (addrAt a b h) = ips @ [(n, addrAt a b h)]" using Cons.prems(3) by (intro putKey_fresh) auto
  show ?case
  proof (cases "h + 1 < hostLimit")
    case True
    then have r: "rangeOk a b (h + 1)" using Cons.prems(1) by (simp add: rangeOk_def)
    have d: "distinct ns" "set ns \<inter> fst ` set (ips @ [(n, addrAt a b h)]) = {}" using Cons.prems(2,3) by auto
    have m: "map (\<lambda>i. addrAt a b (h + int i)) [0..<length (n # ns)] =
        addrAt a b h # map (\<lambda>i. addrAt a b (h + 1 + int i)) [0..<length ns]"
      by (simp add: upt_conv_Cons map_Suc_upt [symmetric] ac_simps del: upt_Suc)
    have k: "nat (hostLimit - h - 1) = Suc (nat (hostLimit - (h + 1) - 1))" using True by simp
    show ?thesis unfolding m k using True inc fresh Cons.IH [OF r d] by (simp add: ac_simps)
  next
    case False
    then have "h = hostLimit - 1" using Cons.prems(1) by (simp add: rangeOk_def)
    then show ?thesis using inc by simp
  qed
qed

subsection \<open>Lemmas: placement\<close>

lemma map_of_placePool:
  "map_of (placePool cl p k T out) (nodeName cl q i) =
     (if T \<noteq> [] \<and> q = p \<and> i < nat k then Some (T ! (i mod length T)) else map_of out (nodeName cl q i))"
proof -
  have "map_of (foldl (\<lambda>acc i. putKey acc (nodeName cl p i) (T ! (i mod length T))) out [0..<m]) (nodeName cl q i) =
      (if q = p \<and> i < m then Some (T ! (i mod length T)) else map_of out (nodeName cl q i))" for m
    by (induction m) (auto simp: nodeName_inj less_Suc_eq)
  note this [of "nat k"]
  then show ?thesis by (auto simp: placePool_def)
qed

lemma find_no_key: "q \<notin> f ` set xs \<Longrightarrow> find (\<lambda>y. f y = q) xs = None"
  by (induction xs) auto

lemma map_of_placeWorkers:
  assumes "distinct (map poolName ws)"
  shows "map_of (foldl (\<lambda>acc w. placePool cl (poolName w) (pl_count w) (f w) acc) out ws) (nodeName cl q i) =
     (case find (\<lambda>w. poolName w = q) ws of
        None \<Rightarrow> map_of out (nodeName cl q i)
      | Some w \<Rightarrow> if f w \<noteq> [] \<and> i < nat (pl_count w) then Some (f w ! (i mod length (f w))) else map_of out (nodeName cl q i))"
  using assms
proof (induction ws arbitrary: out)
  case (Cons w ws)
  have "find (\<lambda>w. poolName w = q) ws = None" if "poolName w = q" using Cons.prems that by (intro find_no_key) auto
  then show ?case using Cons by (auto simp: map_of_placePool split: option.splits)
qed simp

lemma find_key: "distinct (map f xs) \<Longrightarrow> x \<in> set xs \<Longrightarrow> find (\<lambda>y. f y = f x) xs = Some x"
  by (induction xs) auto

text \<open>How many of the first \<open>k\<close> indexes a round robin over \<open>n\<close> targets sends to target \<open>j\<close>.\<close>

definition roundRobinLoad :: "nat \<Rightarrow> nat \<Rightarrow> nat \<Rightarrow> nat" where
  "roundRobinLoad k n j = length (filter (\<lambda>i. i mod n = j) [0..<k])"

lemma roundRobinLoad_eq: "j < n \<Longrightarrow> roundRobinLoad k n j = (k + (n - Suc j)) div n"
proof (induction k)
  case (Suc k)
  have "Suc (k + (n - Suc j)) mod n = 0 \<longleftrightarrow> k mod n = j"
  proof -
    have "Suc (k + (n - Suc j)) = k + (n - j)" using Suc.prems by simp
    moreover have "(k + (n - j)) mod n = 0 \<longleftrightarrow> (k mod n + (n - j)) mod n = 0" by (simp add: mod_add_left_eq)
    moreover have "(k mod n + (n - j)) mod n = 0 \<longleftrightarrow> k mod n = j"
    proof -
      have b: "k mod n < n" using Suc.prems by (intro mod_less_divisor) simp
      show ?thesis
      proof (cases "k mod n < j")
        case True
        then have "k mod n + (n - j) < n" using Suc.prems by simp
        then show ?thesis using True Suc.prems by simp
      next
        case False
        then have "k mod n + (n - j) = (k mod n - j) + n" using Suc.prems by simp
        moreover have "k mod n - j < n" using b by simp
        ultimately have "(k mod n + (n - j)) mod n = k mod n - j" by (metis mod_add_self2 mod_less)
        then show ?thesis using False by simp
      qed
    qed
    ultimately show ?thesis by (simp only:)
  qed
  then show ?case using Suc by (simp add: roundRobinLoad_def div_Suc)
qed (simp add: roundRobinLoad_def)

lemma roundRobinLoad_balanced:
  assumes "i < n" "j < n"
  shows "roundRobinLoad k n i \<le> Suc (roundRobinLoad k n j)"
proof -
  have "(k + (n - Suc i)) div n \<le> (k + (n - Suc j) + n) div n" using assms by (intro div_le_mono) simp
  also have "\<dots> = Suc ((k + (n - Suc j)) div n)" using assms div_add_self2 [of n "k + (n - Suc j)"] by linarith
  finally show ?thesis using assms by (simp add: roundRobinLoad_eq)
qed

subsection \<open>Properties\<close>

text \<open>
  Every node gets one name: distinct pools have distinct node names (dashes in a pool name do no harm, because an
  index has none), and there are as many as the counts say.
\<close>
theorem node_names_unique:
  assumes "distinct (poolNames spec)"
  shows "distinct (allNodeNames cl spec) \<and>
    length (allNodeNames cl spec) =
      nat (pl_count (nd_controlPlane (cs_nodes spec))) + (\<Sum>w\<leftarrow>nd_workers (cs_nodes spec). nat (pl_count w))"
  using distinct_allNodeNames [OF assms] by (simp add: allNodeNames_def NodeNames_def length_concat comp_def)

definition samplePool :: "int \<Rightarrow> control_plane_spec" where
  "samplePool k = emptyPool\<lparr>pl_count := k\<rparr>"

definition sampleWorker :: "string \<Rightarrow> int \<Rightarrow> worker_spec" where
  "sampleWorker n k = control_plane_spec.extend (samplePool k) \<lparr>wk_name = n\<rparr>"

definition sampleCluster :: cluster_spec where
  "sampleCluster =
     \<lparr>cs_compute = emptyCompute\<lparr>cm_provider := ''proxmox''\<rparr>,
      cs_nodes = \<lparr>nd_controlPlane = samplePool 1, nd_workers = [sampleWorker [] 2, sampleWorker ''gpu-a'' 1]\<rparr>,
      cs_network = emptyNetwork\<lparr>nw_staticIPs := Some \<lparr>si_startIP = addrAt 10 0 253, si_gateway = ''10.0.0.1'', si_netmask = ''16''\<rparr>\<rparr>,
      cs_k3s = emptyK3s, cs_ssh = emptySSH\<rparr>"

lemmas sample_defs = sampleCluster_def sampleWorker_def samplePool_def emptyPool_def emptyNetwork_def emptyCompute_def
  emptyK3s_def emptySSH_def control_plane_spec.defs

lemma sampleCluster_pools: "poolNames sampleCluster = [''cp'', ''worker'', ''gpu-a'']"
  by (simp add: poolNames_def poolName_def sample_defs)

theorem node_names_unique_witness:
  "distinct (poolNames sampleCluster) \<and> distinct (allNodeNames ''dev'' sampleCluster)"
  using node_names_unique [of sampleCluster "''dev''"] by (simp add: sampleCluster_pools)

text \<open>
  C33. Static addressing: a range that starts at the address of number h gives node i the address of number h + i, so
  no two nodes share one and no last octet is 0 or 255; the allocation fails exactly when h plus the number of
  nodes reaches the limit, one node earlier than the range is used up, since the address after the last node is
  computed as well.
\<close>
theorem static_addresses:
  assumes "nw_perContext (cs_network spec) = []" "\<not> nw_dhcp (cs_network spec)"
    and "nw_staticIPs (cs_network spec) = Some st" "si_startIP st = addrAt a b h" "rangeOk a b h"
    and "distinct (poolNames spec)"
  shows "let ns = allNodeNames cl spec; addrs = map (\<lambda>i. addrAt a b (h + int i)) [0..<length ns] in
     AllocateIPs cl spec =
       (if h + int (length ns) < hostLimit then Inr (zip ns addrs)
        else Inl (Wrap (''failed to allocate IP for '' @ ns ! nat (hostLimit - h - 1)) (Plain ''IP range exhausted'')))
     \<and> (h + int (length ns) < hostLimit \<longrightarrow> distinct addrs)"
proof -
  let ?ns = "allNodeNames cl spec"
  have "AllocateIPs cl spec = allocateFrom (\<lambda>n. ''failed to allocate IP for '' @ n) ?ns (addrAt a b h) []"
    using assms(1-4) unfolding AllocateIPs_def by (simp only: if_False not_True_eq_False option.case simp_thms if_True)
  moreover have "distinct (map (\<lambda>i. addrAt a b (h + int i)) [0..<length ?ns])" if l: "h + int (length ?ns) < hostLimit"
  proof -
    have "rangeOk a b (h + int i)" if "i < length ?ns" for i using l that assms(5) by (simp add: rangeOk_def)
    then show ?thesis by (auto simp: distinct_map inj_on_def addrAt_inj)
  qed
  ultimately show ?thesis
    using allocateFrom_addrAt [OF assms(5) distinct_allNodeNames [OF assms(6), of cl], of "[]"] by (simp add: Let_def)
qed

theorem static_addresses_witness:
  "map_of (projr (AllocateIPs ''dev'' sampleCluster)) ''dev-worker-1'' = Some ''10.0.1.2''"
proof -
  have n: "allNodeNames ''dev'' sampleCluster = [''dev-cp-0'', ''dev-worker-0'', ''dev-worker-1'', ''dev-gpu-a-0'']"
    by (simp add: allNodeNames_def NodeNames_def poolNodes_def poolName_def nodeName_def sample_defs numeral_2_eq_2 digits.simps digit_chars)
  have r: "rangeOk 10 0 253" by (simp add: rangeOk_def hostLimit_def)
  have a: "addrAt 10 0 255 = ''10.0.1.2''" by (simp add: addrAt_def hostAt_def showInt_def digits.simps digit_chars)
  have nw: "cs_network sampleCluster = emptyNetwork\<lparr>nw_staticIPs := Some \<lparr>si_startIP = addrAt 10 0 253, si_gateway = ''10.0.0.1'', si_netmask = ''16''\<rparr>\<rparr>"
    by (simp add: sampleCluster_def)
  have "AllocateIPs ''dev'' sampleCluster =
      Inr (zip (allNodeNames ''dev'' sampleCluster) (map (\<lambda>i. addrAt 10 0 (253 + int i)) [0..<4]))"
    using static_addresses [of sampleCluster "\<lparr>si_startIP = addrAt 10 0 253, si_gateway = ''10.0.0.1'', si_netmask = ''16''\<rparr>" 10 0 253 "''dev''"]
      r sampleCluster_pools by (simp add: nw emptyNetwork_def hostLimit_def Let_def n upt_rec)
  then show ?thesis unfolding n by (simp add: upt_rec a)
qed

text \<open>
  Placement: node i of a pool is placed on target i modulo the number of targets of that pool, whatever the other
  pools are, a node of a pool without targets is left to the defaults, and no target of a pool gets more than one
  node above another (three control planes over three endpoints land one each).
\<close>
theorem placement_round_robin:
  assumes "distinct (poolNames spec)"
  shows "(\<forall>i. map_of (PlacementTargets cl spec) (nodeName cl ''cp'' i) =
        (let T = poolTargets spec (nd_controlPlane (cs_nodes spec)) in
         if T \<noteq> [] \<and> i < nat (pl_count (nd_controlPlane (cs_nodes spec))) then Some (T ! (i mod length T)) else None))
    \<and> (\<forall>w \<in> set (nd_workers (cs_nodes spec)). \<forall>i. map_of (PlacementTargets cl spec) (nodeName cl (poolName w) i) =
        (let T = poolTargets spec w in
         if T \<noteq> [] \<and> i < nat (pl_count w) then Some (T ! (i mod length T)) else None))
    \<and> (\<forall>k n i j. i < n \<and> j < n \<longrightarrow> roundRobinLoad k n i \<le> Suc (roundRobinLoad k n j))"
proof (intro conjI allI ballI)
  have d: "distinct (map poolName (nd_workers (cs_nodes spec)))" and cp: "''cp'' \<notin> set (map poolName (nd_workers (cs_nodes spec)))"
    using assms by (auto simp: poolNames_def)
  show "map_of (PlacementTargets cl spec) (nodeName cl ''cp'' i) =
        (let T = poolTargets spec (nd_controlPlane (cs_nodes spec)) in
         if T \<noteq> [] \<and> i < nat (pl_count (nd_controlPlane (cs_nodes spec))) then Some (T ! (i mod length T)) else None)" for i
  proof -
    have "find (\<lambda>w. poolName w = ''cp'') (nd_workers (cs_nodes spec)) = None" using cp by (intro find_no_key) simp
    then show ?thesis by (simp add: PlacementTargets_def map_of_placeWorkers [OF d] map_of_placePool Let_def)
  qed
  show "map_of (PlacementTargets cl spec) (nodeName cl (poolName w) i) =
        (let T = poolTargets spec w in if T \<noteq> [] \<and> i < nat (pl_count w) then Some (T ! (i mod length T)) else None)"
    if w: "w \<in> set (nd_workers (cs_nodes spec))" for w i
  proof -
    have "find (\<lambda>v. poolName v = poolName w) (nd_workers (cs_nodes spec)) = Some w" using d w by (rule find_key)
    moreover have "poolName w \<noteq> ''cp''" using cp w by (metis image_eqI list.set_map)
    ultimately show ?thesis by (simp add: PlacementTargets_def map_of_placeWorkers [OF d] map_of_placePool Let_def)
  qed
  show "i < n \<and> j < n \<longrightarrow> roundRobinLoad k n i \<le> Suc (roundRobinLoad k n j)" for k n i j
    by (simp add: roundRobinLoad_balanced)
qed

theorem placement_round_robin_witness:
  "map_of (PlacementTargets ''dev'' (sampleCluster\<lparr>cs_compute := emptyCompute\<lparr>cm_nodes := [''pve1'', ''pve2'']\<rparr>\<rparr>)) ''dev-cp-0'' =
     Some \<lparr>pt_context = [], pt_node = ''pve1''\<rparr>"
proof -
  let ?s = "sampleCluster\<lparr>cs_compute := emptyCompute\<lparr>cm_nodes := [''pve1'', ''pve2'']\<rparr>\<rparr>"
  have p: "distinct (poolNames ?s)" using sampleCluster_pools by (simp add: poolNames_def)
  have n: "nodeName ''dev'' ''cp'' 0 = ''dev-cp-0''" by (simp add: nodeName_def digits.simps digit_chars)
  have "poolTargets ?s (nd_controlPlane (cs_nodes ?s)) =
      [\<lparr>pt_context = [], pt_node = ''pve1''\<rparr>, \<lparr>pt_context = [], pt_node = ''pve2''\<rparr>]"
    by (simp add: poolTargets_def resolvePoolTargets_def sample_defs)
  then show ?thesis
    using placement_round_robin [OF p, of "''dev''", THEN conjunct1, rule_format, of 0] unfolding n
    by (simp add: Let_def sampleCluster_def samplePool_def)
qed

end
