(* ===== verification/K3sState.thy ===== *)
theory K3sState
  imports Cluster
begin

text \<open>
  The files the k3s provider keeps below the home directory, and the certificate bundle of a cluster:
  internal/controller/providers/k3s/clusterstate.go and the persistence parts of provider.go, node_ops.go and
  agent_ops.go, pkg/k3s/agent/certs/certs.go.

  A world is an extension of \<open>k3s_files\<close>: one association list per directory, keyed by the name the file carries,
  and for every file the error that reading or writing it gives.  A state file is represented by what its readers
  take out of it; writing it applies \<open>yamlObj\<close>, because a float64 without a fraction is written as an integer and
  read back as one.
\<close>

subsection \<open>Files\<close>

datatype k3s_file = ClusterFile string | NodeFile string | AgentFile string | BundleDir string | KubeconfigFile string

record child_ref =
  cr_provider :: string
  cr_kind :: string
  cr_name :: string

record cluster_doc =
  cd_metadata :: "obj option"
  cd_spec :: "obj option"
  cd_status :: "obj option"
  cd_children :: "child_ref list"

text \<open>Times are kept as the text of their RFC 3339 form; the empty text is the zero time.\<close>

record node_state =
  ns_name :: string
  ns_vmName :: string
  ns_vmIP :: string
  ns_role :: string
  ns_installed :: bool
  ns_nodeToken :: string
  ns_kubeconfig :: string
  ns_installedAt :: string

record agent_install_state =
  ai_name :: string
  ai_vmName :: string
  ai_vmIP :: string
  ai_clusterName :: string
  ai_arch :: string
  ai_init :: string
  ai_installed :: bool
  ai_installedAt :: string

record k3s_files =
  kf_home :: string
  kf_now :: string
  kf_rdErr :: "k3s_file \<Rightarrow> err option"
  kf_wrErr :: "k3s_file \<Rightarrow> err option"
  kf_clusters :: "(string \<times> cluster_doc) list"
  kf_nodes :: "(string \<times> node_state) list"
  kf_agents :: "(string \<times> agent_install_state) list"
  kf_bundles :: "(string \<times> strmap) list"
  kf_kubeconfigs :: strmap

fun dropKey :: "('k \<times> 'v) list \<Rightarrow> 'k \<Rightarrow> ('k \<times> 'v) list" where
  "dropKey [] k = []"
| "dropKey ((a, b) # m) k = (if a = k then dropKey m k else (a, b) # dropKey m k)"

text \<open>
  yaml.v3 prints a float64 with the shortest \<^verbatim>\<open>%g\<close>: below a million an integral value has neither a point nor an
  exponent, and reading it back gives an int.
\<close>

fun yamlVal :: "val \<Rightarrow> val" and yamlObj :: "(string \<times> val) list \<Rightarrow> obj" and yamlArr :: "val list \<Rightarrow> val list" where
  "yamlVal (VObj m) = VObj (yamlObj m)"
| "yamlVal (VArr xs) = VArr (yamlArr xs)"
| "yamlVal VNil = VNil"
| "yamlVal (VBool b) = VBool b"
| "yamlVal (VInt i) = VInt i"
| "yamlVal (VFloat q) = (if q = of_int \<lfloor>q\<rfloor> \<and> \<bar>q\<bar> < 1000000 then VInt \<lfloor>q\<rfloor> else VFloat q)"
| "yamlVal (VStr s) = VStr s"
| "yamlObj [] = []"
| "yamlObj ((k, v) # m) = (k, yamlVal v) # yamlObj m"
| "yamlArr [] = []"
| "yamlArr (v # xs) = yamlVal v # yamlArr xs"

definition stateDir :: "('a) k3s_files_scheme \<Rightarrow> string" where
  "stateDir w = joinPath [kf_home w, ''.openctl'', ''state'', ''k3s'']"

definition clusterBundleDir :: "('a) k3s_files_scheme \<Rightarrow> string \<Rightarrow> string" where
  "clusterBundleDir w name = joinPath [stateDir w, name]"

subsection \<open>Cluster state (provider.go)\<close>

text \<open>A missing file is no state.\<close>

definition readCluster :: "string \<Rightarrow> 'a k3s_files_scheme \<Rightarrow> err + cluster_doc option" where
  "readCluster name w =
     (case map_of (kf_clusters w) name of
        None \<Rightarrow> Inr None
      | Some d \<Rightarrow> (case kf_rdErr w (ClusterFile name) of Some e \<Rightarrow> Inl e | None \<Rightarrow> Inr (Some d)))"

definition writeCluster :: "string \<Rightarrow> cluster_doc \<Rightarrow> 'a k3s_files_scheme \<Rightarrow> err option \<times> 'a k3s_files_scheme" where
  "writeCluster name d w =
     (case kf_wrErr w (ClusterFile name) of
        Some e \<Rightarrow> (Some e, w)
      | None \<Rightarrow> (None, w\<lparr>kf_clusters := putKey (kf_clusters w) name
                   (d\<lparr>cd_metadata := map_option yamlObj (cd_metadata d), cd_spec := map_option yamlObj (cd_spec d),
                      cd_status := map_option yamlObj (cd_status d)\<rparr>)\<rparr>))"

definition clusterResource :: "string \<Rightarrow> obj option \<Rightarrow> obj option \<Rightarrow> resource" where
  "clusterResource name spec status =
     \<lparr>r_apiVersion = ''k3s.openctl.io/v1'', r_kind = ''Cluster'', r_metadata = bareMetadata name, r_spec = spec, r_status = status\<rparr>"

definition loadState :: "string \<Rightarrow> 'a k3s_files_scheme \<Rightarrow> err + resource option" where
  "loadState name w =
     (case readCluster name w of
        Inl e \<Rightarrow> Inl e
      | Inr None \<Rightarrow> Inr None
      | Inr (Some d) \<Rightarrow> Inr (Some (clusterResource name (cd_spec d) (cd_status d))))"

text \<open>Unlike \<open>loadState\<close>, this treats a missing file as an error.\<close>

definition readChildren :: "string \<Rightarrow> 'a k3s_files_scheme \<Rightarrow> err + child_ref list" where
  "readChildren name w =
     (case readCluster name w of
        Inl e \<Rightarrow> Inl e
      | Inr None \<Rightarrow> Inl (Plain (''open '' @ joinPath [stateDir w, name @ ''.yaml''] @ '': no such file or directory''))
      | Inr (Some d) \<Rightarrow> Inr (cd_children d))"

text \<open>\<^verbatim>\<open>current, _ := readChildren(name)\<close>\<close>

definition childrenOrNone :: "string \<Rightarrow> 'a k3s_files_scheme \<Rightarrow> child_ref list" where
  "childrenOrNone name w = (case readChildren name w of Inl _ \<Rightarrow> [] | Inr cs \<Rightarrow> cs)"

text \<open>The state files are visited in the order of their names.\<close>

definition k3sOwnerOf :: "'a k3s_files_scheme \<Rightarrow> string \<Rightarrow> string \<Rightarrow> (string \<times> string) option" where
  "k3sOwnerOf w kind name =
     map_option (\<lambda>cl. (''Cluster'', cl))
       (find (\<lambda>cl. case readChildren cl w of Inl _ \<Rightarrow> False
                   | Inr cs \<Rightarrow> (\<exists>c \<in> set cs. cr_kind c = kind \<and> cr_name c = name)) (sort (map fst (kf_clusters w))))"

definition k3sChildrenOf :: "'a k3s_files_scheme \<Rightarrow> string \<Rightarrow> string \<Rightarrow> resource_ref list" where
  "k3sChildrenOf w kind name =
     (if kind \<noteq> ''Cluster'' then []
      else map (\<lambda>c. \<lparr>rr_apiVersion = cr_provider c @ ''.openctl.io/v1'', rr_kind = cr_kind c, rr_name = cr_name c\<rparr>)
             (childrenOrNone name w))"

definition listClusters :: "'a k3s_files_scheme \<Rightarrow> resource list" where
  "listClusters w =
     List.map_filter (\<lambda>cl. case loadState cl w of Inl _ \<Rightarrow> None | Inr r \<Rightarrow> r) (sort (map fst (kf_clusters w)))"

definition updateAgentEndpoints :: "cluster_doc \<Rightarrow> strmap \<Rightarrow> string list \<Rightarrow> cluster_doc" where
  "updateAgentEndpoints doc add remove =
     (case cd_status doc of
        None \<Rightarrow> doc
      | Some status \<Rightarrow>
          (case objField status ''outputs'' of
             None \<Rightarrow> doc
           | Some outputs \<Rightarrow>
               (case objField outputs ''agent'' of
                  None \<Rightarrow> doc
                | Some agent \<Rightarrow>
                    let e0 = (case objField agent ''endpoints'' of Some e \<Rightarrow> e | None \<Rightarrow> []);
                        e1 = foldl dropKey e0 remove;
                        e2 = foldl (\<lambda>m (n, ip). putKey m n (VStr ip)) e1 add
                    in doc\<lparr>cd_status := Some (putKey status ''outputs'' (VObj (putKey outputs ''agent''
                             (VObj (putKey agent ''endpoints'' (VObj e2))))))\<rparr>)))"

definition rewriteState ::
  "string \<Rightarrow> obj option \<Rightarrow> child_ref list \<Rightarrow> strmap \<Rightarrow> string list \<Rightarrow> 'a k3s_files_scheme \<Rightarrow> err option \<times> 'a k3s_files_scheme" where
  "rewriteState name spec keep addEndpoints removedNames w =
     (case readCluster name w of
        Inl e \<Rightarrow> (Some e, w)
      | Inr None \<Rightarrow> (Some (Plain (''open '' @ joinPath [stateDir w, name @ ''.yaml''] @ '': no such file or directory'')), w)
      | Inr (Some d) \<Rightarrow>
          let d1 = d\<lparr>cd_spec := spec, cd_children := keep,
                     cd_metadata := map_option (\<lambda>md. putKey md ''updatedAt'' (VStr (kf_now w))) (cd_metadata d)\<rparr>;
              d2 = (if addEndpoints \<noteq> [] \<or> removedNames \<noteq> [] then updateAgentEndpoints d1 addEndpoints removedNames else d1)
          in writeCluster name d2 w)"

subsection \<open>The agent endpoints of a cluster (clusterstate.go)\<close>

definition readAgentEndpoints :: "resource \<Rightarrow> strmap" where
  "readAgentEndpoints r =
     (case r_status r of
        None \<Rightarrow> []
      | Some st \<Rightarrow>
          (case objField st ''outputs'' of
             None \<Rightarrow> []
           | Some outputs \<Rightarrow>
               (case objField outputs ''agent'' of
                  None \<Rightarrow> []
                | Some agent \<Rightarrow>
                    (case objField agent ''endpoints'' of
                       None \<Rightarrow> []
                     | Some es \<Rightarrow> List.map_filter (\<lambda>(n, v). case v of VStr ip \<Rightarrow> if ip \<noteq> [] then Some (n, ip) else None | _ \<Rightarrow> None) es))))"

subsection \<open>Node and agent state (node_ops.go, agent_ops.go)\<close>

definition loadNodeState :: "string \<Rightarrow> 'a k3s_files_scheme \<Rightarrow> err + node_state option" where
  "loadNodeState name w =
     (case map_of (kf_nodes w) name of
        None \<Rightarrow> Inr None
      | Some s \<Rightarrow> (case kf_rdErr w (NodeFile name) of Some e \<Rightarrow> Inl e | None \<Rightarrow> Inr (Some s)))"

definition saveNodeState :: "node_state \<Rightarrow> 'a k3s_files_scheme \<Rightarrow> err option \<times> 'a k3s_files_scheme" where
  "saveNodeState s w =
     (case kf_wrErr w (NodeFile (ns_name s)) of
        Some e \<Rightarrow> (Some e, w)
      | None \<Rightarrow> (None, w\<lparr>kf_nodes := putKey (kf_nodes w) (ns_name s) s\<rparr>))"

definition removeNodeState :: "string \<Rightarrow> 'a k3s_files_scheme \<Rightarrow> err option \<times> 'a k3s_files_scheme" where
  "removeNodeState name w =
     (case map_of (kf_nodes w) name of
        None \<Rightarrow> (None, w)
      | Some _ \<Rightarrow> (case kf_wrErr w (NodeFile name) of
                    Some e \<Rightarrow> (Some e, w)
                  | None \<Rightarrow> (None, w\<lparr>kf_nodes := dropKey (kf_nodes w) name\<rparr>)))"

text \<open>The state of a node when it can be read and exists.\<close>

definition nodeStateOf :: "string \<Rightarrow> 'a k3s_files_scheme \<Rightarrow> node_state option" where
  "nodeStateOf name w = (case loadNodeState name w of Inl _ \<Rightarrow> None | Inr s \<Rightarrow> s)"

definition saveK3sNodeKubeconfig :: "string \<Rightarrow> string \<Rightarrow> 'a k3s_files_scheme \<Rightarrow> err option \<times> 'a k3s_files_scheme" where
  "saveK3sNodeKubeconfig name contents w =
     (case kf_wrErr w (KubeconfigFile name) of
        Some e \<Rightarrow> (Some e, w)
      | None \<Rightarrow> (None, w\<lparr>kf_kubeconfigs := putKey (kf_kubeconfigs w) name contents\<rparr>))"

definition nodeStateToResource :: "string \<Rightarrow> resource option \<Rightarrow> node_state \<Rightarrow> resource" where
  "nodeStateToResource name manifest s =
     (let spec = (case manifest of None \<Rightarrow> [] | Some m \<Rightarrow> objOr (r_spec m));
          st0 = [(''installed'', VBool (ns_installed s)), (''vmName'', VStr (ns_vmName s)), (''vmIP'', VStr (ns_vmIP s))];
          st1 = (if ns_nodeToken s \<noteq> [] then putKey st0 ''nodeToken'' (VStr (ns_nodeToken s)) else st0);
          st2 = (if ns_installedAt s \<noteq> [] then putKey st1 ''installedAt'' (VStr (ns_installedAt s)) else st1);
          st3 = (if ns_kubeconfig s \<noteq> [] then putKey st2 ''hasKubeconfig'' (VBool True) else st2)
      in \<lparr>r_apiVersion = ''k3s.openctl.io/v1'', r_kind = ''K3sNode'', r_metadata = bareMetadata name,
          r_spec = Some spec, r_status = Some st3\<rparr>)"

definition getK3sNode :: "string \<Rightarrow> 'a k3s_files_scheme \<Rightarrow> err + resource" where
  "getK3sNode name w =
     (case loadNodeState name w of
        Inl e \<Rightarrow> Inl e
      | Inr None \<Rightarrow> Inl (Plain (''K3sNode '' @ goQuote name @ '' not found''))
      | Inr (Some s) \<Rightarrow> Inr (nodeStateToResource name None s))"

definition listK3sNodes :: "'a k3s_files_scheme \<Rightarrow> resource list" where
  "listK3sNodes w = List.map_filter (\<lambda>n. map_option (nodeStateToResource n None) (nodeStateOf n w)) (sort (map fst (kf_nodes w)))"

definition loadAgentInstallState :: "string \<Rightarrow> 'a k3s_files_scheme \<Rightarrow> err + agent_install_state option" where
  "loadAgentInstallState name w =
     (case map_of (kf_agents w) name of
        None \<Rightarrow> Inr None
      | Some s \<Rightarrow> (case kf_rdErr w (AgentFile name) of Some e \<Rightarrow> Inl e | None \<Rightarrow> Inr (Some s)))"

definition saveAgentInstallState :: "agent_install_state \<Rightarrow> 'a k3s_files_scheme \<Rightarrow> err option \<times> 'a k3s_files_scheme" where
  "saveAgentInstallState s w =
     (case kf_wrErr w (AgentFile (ai_name s)) of
        Some e \<Rightarrow> (Some e, w)
      | None \<Rightarrow> (None, w\<lparr>kf_agents := putKey (kf_agents w) (ai_name s) s\<rparr>))"

definition removeAgentInstallState :: "string \<Rightarrow> 'a k3s_files_scheme \<Rightarrow> err option \<times> 'a k3s_files_scheme" where
  "removeAgentInstallState name w =
     (case map_of (kf_agents w) name of
        None \<Rightarrow> (None, w)
      | Some _ \<Rightarrow> (case kf_wrErr w (AgentFile name) of
                    Some e \<Rightarrow> (Some e, w)
                  | None \<Rightarrow> (None, w\<lparr>kf_agents := dropKey (kf_agents w) name\<rparr>)))"

definition agentInstallStateToResource :: "string \<Rightarrow> resource option \<Rightarrow> agent_install_state \<Rightarrow> resource" where
  "agentInstallStateToResource name manifest s =
     (let spec = (case manifest of None \<Rightarrow> [] | Some m \<Rightarrow> objOr (r_spec m));
          st0 = [(''installed'', VBool (ai_installed s)), (''vmName'', VStr (ai_vmName s)), (''vmIP'', VStr (ai_vmIP s)),
                 (''clusterName'', VStr (ai_clusterName s))];
          st1 = (if ai_arch s \<noteq> [] then putKey st0 ''arch'' (VStr (ai_arch s)) else st0);
          st2 = (if ai_init s \<noteq> [] then putKey st1 ''init'' (VStr (ai_init s)) else st1);
          st3 = (if ai_installedAt s \<noteq> [] then putKey st2 ''installedAt'' (VStr (ai_installedAt s)) else st2)
      in \<lparr>r_apiVersion = ''k3s.openctl.io/v1'', r_kind = ''AgentInstall'', r_metadata = bareMetadata name,
          r_spec = Some spec, r_status = Some st3\<rparr>)"

definition getAgentInstall :: "string \<Rightarrow> 'a k3s_files_scheme \<Rightarrow> err + resource" where
  "getAgentInstall name w =
     (case loadAgentInstallState name w of
        Inl e \<Rightarrow> Inl e
      | Inr None \<Rightarrow> Inl (Plain (''AgentInstall '' @ goQuote name @ '' not found''))
      | Inr (Some s) \<Rightarrow> Inr (agentInstallStateToResource name None s))"

definition listAgentInstalls :: "'a k3s_files_scheme \<Rightarrow> resource list" where
  "listAgentInstalls w =
     List.map_filter (\<lambda>n. case loadAgentInstallState n w of Inl _ \<Rightarrow> None | Inr s \<Rightarrow> map_option (agentInstallStateToResource n None) s)
       (sort (map fst (kf_agents w)))"

subsection \<open>The certificate bundle (certs.go)\<close>

text \<open>
  Key generation, signing and the parsing of addresses and PEM blocks are the crypto libraries': \<open>cy_ca\<close> makes a CA
  for a cluster, \<open>cy_client\<close> the controller's leaf, \<open>cy_leaf\<close> a node's leaf; \<open>cy_parseCA\<close> is the error, if any, of
  reading a CA certificate and its key back, with its message prefix.
\<close>

record node_identity =
  ni_name :: string
  ni_ip :: string

record cert_bundle =
  bd_caCert :: string
  bd_caKey :: string
  bd_clientCert :: string
  bd_clientKey :: string
  bd_serverCerts :: "(string \<times> string \<times> string) list"

record crypto =
  cy_ca :: "string \<Rightarrow> err + string \<times> string"
  cy_client :: "string \<Rightarrow> string \<Rightarrow> err + string \<times> string"
  cy_leaf :: "string \<Rightarrow> string \<Rightarrow> node_identity \<Rightarrow> err + string \<times> string"
  cy_parseCA :: "string \<Rightarrow> string \<Rightarrow> err option"
  cy_validIP :: "string \<Rightarrow> bool"

fun mintAll ::
  "crypto \<Rightarrow> (string \<Rightarrow> string) \<Rightarrow> string \<Rightarrow> string \<Rightarrow> node_identity list \<Rightarrow> (string \<times> string \<times> string) list \<Rightarrow> err + (string \<times> string \<times> string) list" where
  "mintAll cy msg ca key [] certs = Inr certs"
| "mintAll cy msg ca key (n # ns) certs =
     (if \<not> cy_validIP cy (ni_ip n) then Inl (Plain (''node '' @ goQuote (ni_name n) @ '' has invalid IP '' @ goQuote (ni_ip n)))
      else (case cy_leaf cy ca key n of
              Inl e \<Rightarrow> Inl (Wrap (msg (ni_name n)) e)
            | Inr ck \<Rightarrow> mintAll cy msg ca key ns (putKey certs (ni_name n) ck)))"

definition GenerateBundle :: "crypto \<Rightarrow> string \<Rightarrow> node_identity list \<Rightarrow> err + cert_bundle" where
  "GenerateBundle cy cluster nodes =
     (case cy_ca cy cluster of
        Inl e \<Rightarrow> Inl (Wrap ''generate CA'' e)
      | Inr (ca, key) \<Rightarrow>
          (case cy_client cy ca key of
             Inl e \<Rightarrow> Inl (Wrap ''generate client cert'' e)
           | Inr (cc, ck) \<Rightarrow>
               bindE (mintAll cy (\<lambda>n. ''generate server cert for '' @ n) ca key nodes [])
                 (\<lambda>certs. Inr \<lparr>bd_caCert = ca, bd_caKey = key, bd_clientCert = cc, bd_clientKey = ck, bd_serverCerts = certs\<rparr>)))"

definition MintServerCerts :: "crypto \<Rightarrow> node_identity list \<Rightarrow> cert_bundle \<Rightarrow> err + cert_bundle" where
  "MintServerCerts cy nodes b =
     (if nodes = [] then Inr b
      else
        (case cy_parseCA cy (bd_caCert b) (bd_caKey b) of
           Some e \<Rightarrow> Inl e
         | None \<Rightarrow>
             bindE (mintAll cy (\<lambda>n. ''mint server cert for '' @ n) (bd_caCert b) (bd_caKey b) nodes (bd_serverCerts b))
               (\<lambda>certs. Inr (b\<lparr>bd_serverCerts := certs\<rparr>))))"

text \<open>The bundle directory of a cluster is a map from file names to contents.\<close>

fun serverFiles :: "(string \<times> string \<times> string) list \<Rightarrow> strmap" where
  "serverFiles [] = []"
| "serverFiles ((n, c, k) # cs) = (n @ ''-server.pem'', c) # (n @ ''-server.key'', k) # serverFiles cs"

definition bundleFiles :: "cert_bundle \<Rightarrow> strmap" where
  "bundleFiles b =
     [(''ca.pem'', bd_caCert b), (''ca.key'', bd_caKey b), (''client.pem'', bd_clientCert b), (''client.key'', bd_clientKey b)]
     @ serverFiles (bd_serverCerts b)"

definition bundleWriteTo :: "string \<Rightarrow> cert_bundle \<Rightarrow> 'a k3s_files_scheme \<Rightarrow> err option \<times> 'a k3s_files_scheme" where
  "bundleWriteTo name b w =
     (case kf_wrErr w (BundleDir name) of
        Some e \<Rightarrow> (Some e, w)
      | None \<Rightarrow>
          (None, w\<lparr>kf_bundles := putKey (kf_bundles w) name
             (foldl (\<lambda>d (f, c). putKey d f c) (case map_of (kf_bundles w) name of None \<Rightarrow> [] | Some d \<Rightarrow> d) (bundleFiles b))\<rparr>))"

definition bundleRead :: "strmap \<Rightarrow> string \<Rightarrow> err + string" where
  "bundleRead d f = (case map_of d f of Some c \<Rightarrow> Inr c | None \<Rightarrow> Inl (Wrap (''read '' @ f) (Plain ''no such file or directory'')))"

fun loadServerCerts :: "strmap \<Rightarrow> string list \<Rightarrow> (string \<times> string \<times> string) list \<Rightarrow> err + (string \<times> string \<times> string) list" where
  "loadServerCerts d [] certs = Inr certs"
| "loadServerCerts d (f # fs) certs =
     (if hasSuffix f ''-server.pem'' then
        (let n = take (length f - length ''-server.pem'') f in
         bindE (bundleRead d f) (\<lambda>c. bindE (bundleRead d (n @ ''-server.key''))
           (\<lambda>k. loadServerCerts d fs (putKey certs n (c, k)))))
      else loadServerCerts d fs certs)"

definition LoadBundle :: "string \<Rightarrow> 'a k3s_files_scheme \<Rightarrow> err + cert_bundle" where
  "LoadBundle name w =
     (case kf_rdErr w (BundleDir name) of
        Some e \<Rightarrow> Inl e
      | None \<Rightarrow>
          let d = (case map_of (kf_bundles w) name of None \<Rightarrow> [] | Some x \<Rightarrow> x) in
          bindE (bundleRead d ''ca.pem'') (\<lambda>ca. bindE (bundleRead d ''ca.key'') (\<lambda>key.
          bindE (bundleRead d ''client.pem'') (\<lambda>cc. bindE (bundleRead d ''client.key'') (\<lambda>ck.
          bindE (loadServerCerts d (sort (map fst d)) []) (\<lambda>certs.
            Inr \<lparr>bd_caCert = ca, bd_caKey = key, bd_clientCert = cc, bd_clientKey = ck, bd_serverCerts = certs\<rparr>))))))"

subsection \<open>Lemmas\<close>

lemma map_of_dropKey [simp]: "map_of (dropKey m k) = (map_of m)(k := None)"
  by (induction m) (auto simp: fun_eq_iff)

lemma map_of_foldl_dropKey: "map_of (foldl dropKey m ks) k = (if k \<in> set ks then None else map_of m k)"
  by (induction ks arbitrary: m) auto

lemma map_of_foldl_putKey: "map_of (foldl (\<lambda>d (f, c). putKey d f c) d xs) = map_of d ++ map_of (rev xs)"
  by (induction xs arbitrary: d) (auto simp: fun_eq_iff map_add_def split: option.splits)

lemma hasSuffix_pem: "hasSuffix (n @ ''-server.pem'') ''-server.pem''"
  by simp

text \<open>What the search for server certificates finds: one entry for every \<open>-server.pem\<close> file.\<close>

lemma loadServerCerts_found:
  assumes "set fs \<subseteq> dom (map_of d)" "\<forall>n. n @ ''-server.pem'' \<in> set fs \<longrightarrow> n @ ''-server.key'' \<in> dom (map_of d)"
  shows "\<exists>r. loadServerCerts d fs certs = Inr r \<and>
    (\<forall>n. map_of r n = (if n @ ''-server.pem'' \<in> set fs
       then Some (the (map_of d (n @ ''-server.pem'')), the (map_of d (n @ ''-server.key''))) else map_of certs n))"
  using assms
proof (induction fs arbitrary: certs)
  case (Cons f fs)
  show ?case
  proof (cases "hasSuffix f ''-server.pem''")
    case True
    then obtain n where n: "f = n @ ''-server.pem''" by (auto simp: hasSuffix_iff)
    then have t: "take (length f - length ''-server.pem'') f = n" by simp
    obtain c where c: "map_of d f = Some c" using Cons.prems(1) by auto
    obtain k where k: "map_of d (n @ ''-server.key'') = Some k" using Cons.prems(2) n by force
    have p: "set fs \<subseteq> dom (map_of d)" "\<forall>n. n @ ''-server.pem'' \<in> set fs \<longrightarrow> n @ ''-server.key'' \<in> dom (map_of d)"
      using Cons.prems by auto
    obtain r where r: "loadServerCerts d fs (putKey certs n (c, k)) = Inr r"
      "\<forall>m. map_of r m = (if m @ ''-server.pem'' \<in> set fs
         then Some (the (map_of d (m @ ''-server.pem'')), the (map_of d (m @ ''-server.key''))) else map_of (putKey certs n (c, k)) m)"
      using Cons.IH [OF p, of "putKey certs n (c, k)"] by blast
    have "loadServerCerts d (f # fs) certs = Inr r"
      unfolding loadServerCerts.simps Let_def t using True c k r(1) by (simp add: bundleRead_def)
    moreover have "map_of r m = (if m @ ''-server.pem'' \<in> set (f # fs)
        then Some (the (map_of d (m @ ''-server.pem'')), the (map_of d (m @ ''-server.key''))) else map_of certs m)" for m
      using r(2) [rule_format, of m] c k n by (cases "m = n") auto
    ultimately show ?thesis by blast
  next
    case False
    then have "n @ ''-server.pem'' \<noteq> f" for n using hasSuffix_pem by metis
    moreover have "\<exists>r. loadServerCerts d fs certs = Inr r \<and>
        (\<forall>n. map_of r n = (if n @ ''-server.pem'' \<in> set fs
           then Some (the (map_of d (n @ ''-server.pem'')), the (map_of d (n @ ''-server.key''))) else map_of certs n))"
      using Cons.prems by (intro Cons.IH) auto
    ultimately show ?thesis using False by simp
  qed
qed simp

lemma fst_serverFiles: "fst ` set (serverFiles cs) = (\<lambda>n. n @ ''-server.pem'') ` fst ` set cs \<union> (\<lambda>n. n @ ''-server.key'') ` fst ` set cs"
  by (induction cs rule: serverFiles.induct) auto

lemma serverFile_names: "n @ ''-server.pem'' \<noteq> m @ ''-server.key''" "n @ ''-server.pem'' \<notin> {''ca.pem'', ''ca.key'', ''client.pem'', ''client.key''}"
  "n @ ''-server.key'' \<notin> {''ca.pem'', ''ca.key'', ''client.pem'', ''client.key''}"
proof -
  show "n @ ''-server.pem'' \<noteq> m @ ''-server.key''"
  proof
    assume "n @ ''-server.pem'' = m @ ''-server.key''"
    from arg_cong [OF this, of last] show False by simp
  qed
  have l: "length y \<le> 10" if "y \<in> {''ca.pem'', ''ca.key'', ''client.pem'', ''client.key''}" for y :: string
    using that by auto
  show "n @ ''-server.pem'' \<notin> {''ca.pem'', ''ca.key'', ''client.pem'', ''client.key''}"
    "n @ ''-server.key'' \<notin> {''ca.pem'', ''ca.key'', ''client.pem'', ''client.key''}"
    by (rule notI, drule l, simp)+
qed

lemma distinct_serverFiles: "distinct (map fst cs) \<Longrightarrow> distinct (map fst (serverFiles cs))"
proof (induction cs rule: serverFiles.induct)
  case (2 n c k cs)
  have "n \<notin> fst ` set cs" using "2.prems" by simp
  then have "n @ ''-server.pem'' \<notin> fst ` set (serverFiles cs)" "n @ ''-server.key'' \<notin> fst ` set (serverFiles cs)"
    unfolding fst_serverFiles using serverFile_names(1) by auto
  then show ?case using 2 serverFile_names(1) [of n n] by simp
qed simp

lemma distinct_bundleFiles:
  assumes "distinct (map fst (bd_serverCerts b))"
  shows "distinct (map fst (bundleFiles b))"
  using distinct_serverFiles [OF assms] fst_serverFiles [of "bd_serverCerts b"] serverFile_names(2,3)
  by (auto simp: bundleFiles_def)

text \<open>A bundle directory in which every certificate has its key, and the certificates it holds.\<close>

definition wfBundleDir :: "strmap \<Rightarrow> bool" where
  "wfBundleDir d \<longleftrightarrow> (\<forall>n. n @ ''-server.pem'' \<in> dom (map_of d) \<longrightarrow> n @ ''-server.key'' \<in> dom (map_of d))"

definition certsIn :: "strmap \<Rightarrow> string \<Rightarrow> (string \<times> string) option" where
  "certsIn d n = (if n @ ''-server.pem'' \<in> dom (map_of d)
     then Some (the (map_of d (n @ ''-server.pem'')), the (map_of d (n @ ''-server.key''))) else None)"

definition dirOf :: "string \<Rightarrow> 'a k3s_files_scheme \<Rightarrow> strmap" where
  "dirOf name w = (case map_of (kf_bundles w) name of None \<Rightarrow> [] | Some d \<Rightarrow> d)"

lemma LoadBundle_dir:
  assumes "kf_rdErr w (BundleDir name) = None" "wfBundleDir (dirOf name w)"
    and "map_of (dirOf name w) ''ca.pem'' = Some ca" "map_of (dirOf name w) ''ca.key'' = Some key"
    and "map_of (dirOf name w) ''client.pem'' = Some cc" "map_of (dirOf name w) ''client.key'' = Some ck"
  shows "\<exists>certs. LoadBundle name w =
      Inr \<lparr>bd_caCert = ca, bd_caKey = key, bd_clientCert = cc, bd_clientKey = ck, bd_serverCerts = certs\<rparr> \<and>
    map_of certs = certsIn (dirOf name w)"
proof -
  let ?d = "dirOf name w" and ?fs = "sort (map fst (dirOf name w))"
  have "set ?fs = dom (map_of ?d)" by (simp add: dom_map_of_conv_image_fst)
  then obtain r where r: "loadServerCerts ?d ?fs [] = Inr r" "\<forall>n. map_of r n = certsIn ?d n"
    using loadServerCerts_found [of ?fs ?d "[]"] assms(2) by (auto simp: wfBundleDir_def certsIn_def)
  have "LoadBundle name w = Inr \<lparr>bd_caCert = ca, bd_caKey = key, bd_clientCert = cc, bd_clientKey = ck, bd_serverCerts = r\<rparr>"
    unfolding LoadBundle_def Let_def dirOf_def [symmetric] using assms(1,3-6) r(1) by (simp add: bundleRead_def)
  then show ?thesis using r(2) by blast
qed

lemma map_of_rev_distinct: "distinct (map fst xs) \<Longrightarrow> map_of (rev xs) = map_of xs"
  by (subst map_of_inject_set) (auto simp: rev_map [symmetric])

lemma dirOf_written:
  assumes "kf_wrErr w (BundleDir name) = None" "distinct (map fst (bd_serverCerts b))"
  shows "map_of (dirOf name (snd (bundleWriteTo name b w))) = map_of (dirOf name w) ++ map_of (bundleFiles b)"
  using assms distinct_bundleFiles [of b]
  by (simp add: bundleWriteTo_def dirOf_def map_of_foldl_putKey map_of_rev_distinct)

lemma map_of_serverFiles:
  assumes "distinct (map fst cs)"
  shows "map_of (serverFiles cs) (n @ ''-server.pem'') = map_option fst (map_of cs n)"
    "map_of (serverFiles cs) (n @ ''-server.key'') = map_option snd (map_of cs n)"
proof (atomize (full), use assms in \<open>induction cs rule: serverFiles.induct\<close>)
  case (2 m c k cs)
  then show ?case using serverFile_names(1) [of n m] serverFile_names(1) [of m n] by auto
qed simp

lemma map_of_bundleFiles:
  assumes "distinct (map fst (bd_serverCerts b))"
  shows "map_of (bundleFiles b) (n @ ''-server.pem'') = map_option fst (map_of (bd_serverCerts b) n)"
    "map_of (bundleFiles b) (n @ ''-server.key'') = map_option snd (map_of (bd_serverCerts b) n)"
    "map_of (bundleFiles b) ''ca.pem'' = Some (bd_caCert b)" "map_of (bundleFiles b) ''ca.key'' = Some (bd_caKey b)"
    "map_of (bundleFiles b) ''client.pem'' = Some (bd_clientCert b)" "map_of (bundleFiles b) ''client.key'' = Some (bd_clientKey b)"
  using map_of_serverFiles [OF assms, of n] serverFile_names(2) [of n] serverFile_names(3) [of n]
  by (auto simp: bundleFiles_def map_add_def)

lemma certsIn_merge:
  assumes "map_of d = map_of d0 ++ map_of (bundleFiles b)" "distinct (map fst (bd_serverCerts b))" "wfBundleDir d0"
  shows "wfBundleDir d" "certsIn d = certsIn d0 ++ map_of (bd_serverCerts b)"
proof -
  note m = map_of_bundleFiles(1,2) [OF assms(2)]
  show "wfBundleDir d" unfolding wfBundleDir_def
  proof (intro allI impI)
    fix n assume a: "n @ ''-server.pem'' \<in> dom (map_of d)"
    show "n @ ''-server.key'' \<in> dom (map_of d)"
    proof (cases "map_of (bd_serverCerts b) n")
      case None
      then have "n @ ''-server.pem'' \<in> dom (map_of d0)" using a m [of n] unfolding assms(1) by (simp add: domIff map_add_def)
      then show ?thesis using assms(3) unfolding assms(1) wfBundleDir_def by auto
    next
      case (Some ck)
      then show ?thesis using m(2) [of n] unfolding assms(1) by (simp add: domIff map_add_def)
    qed
  qed
  show "certsIn d = certsIn d0 ++ map_of (bd_serverCerts b)"
  proof
    fix n
    show "certsIn d n = (certsIn d0 ++ map_of (bd_serverCerts b)) n"
      using m [of n] unfolding certsIn_def assms(1) by (cases "map_of (bd_serverCerts b) n") (auto simp: map_add_def domIff)
  qed
qed

text \<open>
  Writing a certificate bundle and loading it: the authority and the client pair come back as they are, and the
  server certificates are those of the directory overridden by those of the bundle.
\<close>
lemma LoadBundle_written:
  assumes "kf_wrErr w (BundleDir name) = None" "kf_rdErr w (BundleDir name) = None"
    and "distinct (map fst (bd_serverCerts b))" "wfBundleDir (dirOf name w)"
  shows "\<exists>certs. LoadBundle name (snd (bundleWriteTo name b w)) = Inr (b\<lparr>bd_serverCerts := certs\<rparr>) \<and>
    map_of certs = certsIn (dirOf name w) ++ map_of (bd_serverCerts b)"
proof -
  let ?w = "snd (bundleWriteTo name b w)"
  note d = dirOf_written [OF assms(1,3)] and m = map_of_bundleFiles(3-6) [OF assms(3)]
  have r: "kf_rdErr ?w (BundleDir name) = None" using assms(1,2) by (simp add: bundleWriteTo_def)
  have "\<exists>certs. LoadBundle name ?w = Inr \<lparr>bd_caCert = bd_caCert b, bd_caKey = bd_caKey b, bd_clientCert = bd_clientCert b,
      bd_clientKey = bd_clientKey b, bd_serverCerts = certs\<rparr> \<and> map_of certs = certsIn (dirOf name ?w)"
    by (rule LoadBundle_dir [OF r certsIn_merge(1) [OF d assms(3,4)]]) (simp_all add: d m map_add_def)
  then show ?thesis using certsIn_merge(2) [OF d assms(3,4)] by (cases b) auto
qed

text \<open>A home directory without any of the files, for examples.\<close>

definition emptyFiles :: k3s_files where
  "emptyFiles = \<lparr>kf_home = ''/root'', kf_now = [], kf_rdErr = (\<lambda>_. None), kf_wrErr = (\<lambda>_. None), kf_clusters = [], kf_nodes = [],
     kf_agents = [], kf_bundles = [], kf_kubeconfigs = []\<rparr>"

end
