(* ===== verification/K3sPlan.thy ===== *)
theory K3sPlan
  imports K3sState Graph
begin

text \<open>
  How a Cluster becomes work: internal/controller/providers/k3s/cluster_plan.go (the child manifests) and
  cluster_apply_plan.go (their dependency graph, run by \<open>RunGraph\<close>, and the state written around it).
\<close>

subsection \<open>The children of a cluster (cluster_plan.go)\<close>

definition sizeForNode :: "int \<Rightarrow> int \<Rightarrow> cluster_spec \<Rightarrow> size_spec" where
  "sizeForNode i cpCount spec =
     (let def = cm_default (cs_compute spec); cp = pl_size (nd_controlPlane (cs_nodes spec)) in
      if i < cpCount then (case cp of Some s \<Rightarrow> s | None \<Rightarrow> def)
      else (case workerAt (i - cpCount) (nd_workers (cs_nodes spec)) of
              None \<Rightarrow> def
            | Some p \<Rightarrow> (case pl_size p of Some s \<Rightarrow> s | None \<Rightarrow> def)))"

definition roleForIndex :: "int \<Rightarrow> int \<Rightarrow> string" where
  "roleForIndex i cpCount = (if i < cpCount then ''control-plane'' else ''worker'')"

definition ownerLabels :: "string \<Rightarrow> strmap" where
  "ownerLabels cl = [(''openctl.io/owner-kind'', ''Cluster''), (''openctl.io/owner-name'', cl)]"

definition vmIpConfig :: "string \<Rightarrow> cluster_spec \<Rightarrow> obj" where
  "vmIpConfig staticIP spec =
     (case nw_staticIPs (cs_network spec) of
        Some st \<Rightarrow>
          if staticIP \<noteq> [] then
            [(''net0'', VObj [(''ip'', VStr (staticIP @ ''/'' @ si_netmask st)), (''gateway'', VStr (si_gateway st))])]
          else [(''net0'', VObj [(''ip'', VStr ''dhcp'')])]
      | None \<Rightarrow> [(''net0'', VObj [(''ip'', VStr ''dhcp'')])])"

text \<open>A nil slice of keys is written as null.\<close>

definition strList :: "string list \<Rightarrow> val" where
  "strList xs = (if xs = [] then VNil else VArr (map VStr xs))"

definition vmBaseSpec :: "size_spec \<Rightarrow> string \<Rightarrow> placement_target \<Rightarrow> cluster_spec \<Rightarrow> obj" where
  "vmBaseSpec sz staticIP target spec =
     [(''startOnCreate'', VBool True),
      (''agent'', VObj [(''enabled'', VBool True)]),
      (''cpu'', VObj [(''cores'', VInt (sz_cpus sz))]),
      (''memory'', VObj [(''size'', VInt (sz_memoryMB sz))]),
      (''disks'', VArr [VObj [(''name'', VStr ''scsi0''), (''size'', VStr (showInt (sz_diskGB sz) @ ''G''))]]),
      (''networks'', VArr [VObj [(''name'', VStr ''net0''),
          (''bridge'', VStr (BridgeForContext (cs_network spec) (pt_context target))), (''model'', VStr ''virtio'')]]),
      (''cloudInit'', VObj [(''user'', VStr (sh_user (cs_ssh spec))), (''sshKeys'', strList (sh_publicKeys (cs_ssh spec))),
          (''ipConfig'', VObj (vmIpConfig staticIP spec))])]"

definition withPlacement :: "placement_target \<Rightarrow> obj \<Rightarrow> obj" where
  "withPlacement target m =
     (let m1 = (if pt_context target \<noteq> [] then putKey m ''context'' (VStr (pt_context target)) else m)
      in if pt_node target \<noteq> [] then putKey m1 ''node'' (VStr (pt_node target)) else m1)"

definition withImage :: "image_spec \<Rightarrow> obj \<Rightarrow> obj" where
  "withImage im m =
     (if im_url im \<noteq> [] then
        (let c0 = [(''url'', VStr (im_url im))];
             c1 = (if im_storage im \<noteq> [] then putKey c0 ''storage'' (VStr (im_storage im)) else c0);
             c2 = (if im_diskStorage im \<noteq> [] then putKey c1 ''diskStorage'' (VStr (im_diskStorage im)) else c1)
         in putKey m ''cloudImage'' (VObj c2))
      else if im_template im \<noteq> [] then putKey m ''template'' (VObj [(''name'', VStr (im_template im))])
      else m)"

definition buildVMManifest ::
  "string \<Rightarrow> string \<Rightarrow> int \<Rightarrow> int \<Rightarrow> size_spec \<Rightarrow> string \<Rightarrow> placement_target \<Rightarrow> cluster_spec \<Rightarrow> resource" where
  "buildVMManifest cl node i cpCount sz staticIP target spec =
     (let m0 = vmBaseSpec sz staticIP target spec;
          m1 = withImage (cm_image (cs_compute spec)) (withPlacement target m0);
          m2 = ApplyGPUToVMSpec m1 (GPUForNode i cpCount spec);
          m3 = ApplyNodePrepToVMSpec m2 (NodePrepForNode i cpCount spec)
      in \<lparr>r_apiVersion = cm_provider (cs_compute spec) @ ''.openctl.io/v1'', r_kind = ''VirtualMachine'',
          r_metadata = (bareMetadata node)\<lparr>md_labels :=
            [(''k3s.openctl.io/cluster'', cl), (''k3s.openctl.io/role'', roleForIndex i cpCount)] @ ownerLabels cl\<rparr>,
          r_spec = Some m3, r_status = None\<rparr>)"

definition planRef :: "string \<Rightarrow> string \<Rightarrow> string \<Rightarrow> string \<Rightarrow> val" where
  "planRef av k n field =
     VObj [(''$ref'', VObj ([(''apiVersion'', VStr av), (''kind'', VStr k), (''name'', VStr n)]
       @ (if field = [] then [] else [(''field'', VStr field)])))]"

definition sshBlock :: "cluster_spec \<Rightarrow> val" where
  "sshBlock spec = VObj [(''user'', VStr (sh_user (cs_ssh spec))), (''privateKeyPath'', VStr (sh_privateKeyPath (cs_ssh spec)))]"

definition vmRefOf :: "cluster_spec \<Rightarrow> string \<Rightarrow> val" where
  "vmRefOf spec node = planRef (cm_provider (cs_compute spec) @ ''.openctl.io/v1'') ''VirtualMachine'' node []"

text \<open>The fields a K3sNode has only when the cluster sets them.\<close>

definition nodeOptional :: "string \<Rightarrow> cluster_spec \<Rightarrow> obj \<Rightarrow> obj" where
  "nodeOptional ip spec m0 =
     (let m1 = (if ks_version (cs_k3s spec) \<noteq> [] then putKey m0 ''version'' (VStr (ks_version (cs_k3s spec))) else m0);
          m2 = (if ks_extraArgs (cs_k3s spec) \<noteq> [] then putKey m1 ''extraArgs'' (VArr (map VStr (ks_extraArgs (cs_k3s spec)))) else m1)
      in if ip \<noteq> [] then putKey m2 ''vmIP'' (VStr ip) else m2)"

definition buildK3sNodeManifest ::
  "string \<Rightarrow> string \<Rightarrow> string \<Rightarrow> string \<Rightarrow> string \<Rightarrow> cluster_spec \<Rightarrow> resource" where
  "buildK3sNodeManifest cl node role firstCP staticIP spec =
     (let m0 = [(''vmRef'', vmRefOf spec node), (''role'', VStr role),
                (''joinFrom'', planRef ''k3s.openctl.io/v1'' ''K3sNode'' firstCP ''status.nodeToken''),
                (''joinURLFrom'', planRef ''k3s.openctl.io/v1'' ''K3sNode'' firstCP ''status.vmIP''),
                (''ssh'', sshBlock spec)]
      in \<lparr>r_apiVersion = ''k3s.openctl.io/v1'', r_kind = ''K3sNode'',
          r_metadata = (bareMetadata node)\<lparr>md_labels := ownerLabels cl\<rparr>, r_spec = Some (nodeOptional staticIP spec m0), r_status = None\<rparr>)"

definition buildAgentInstallManifest :: "string \<Rightarrow> string \<Rightarrow> string \<Rightarrow> cluster_spec \<Rightarrow> resource" where
  "buildAgentInstallManifest cl node staticIP spec =
     (let m0 = [(''vmRef'', vmRefOf spec node), (''clusterName'', VStr cl), (''ssh'', sshBlock spec)];
          m1 = (if staticIP \<noteq> [] then putKey m0 ''vmIP'' (VStr staticIP) else m0)
      in \<lparr>r_apiVersion = ''k3s.openctl.io/v1'', r_kind = ''AgentInstall'',
          r_metadata = (bareMetadata (node @ ''-agent''))\<lparr>md_labels := ownerLabels cl\<rparr>, r_spec = Some m1, r_status = None\<rparr>)"

text \<open>The JSON round trip of a spec; strings, numbers and nested maps and slices always marshal.\<close>

definition normalizeSpec :: "resource \<Rightarrow> resource" where
  "normalizeSpec r = r\<lparr>r_spec := map_option jsonObj (r_spec r)\<rparr>"

text \<open>The allocation error is dropped: \<^verbatim>\<open>nodeIPs, _ := AllocateIPs(...)\<close>.\<close>

definition planIPs :: "string \<Rightarrow> cluster_spec \<Rightarrow> strmap" where
  "planIPs cl spec = (case AllocateIPs cl spec of Inl _ \<Rightarrow> [] | Inr ips \<Rightarrow> ips)"

text \<open>The K3sNode of node \<open>i\<close>: the first server loses its join fields and, with more control planes, starts etcd.\<close>

definition k3sNodeChild :: "string \<Rightarrow> cluster_spec \<Rightarrow> string list \<Rightarrow> nat \<Rightarrow> string \<Rightarrow> resource" where
  "k3sNodeChild cl spec cps i node =
     (let role = (if i \<ge> length cps then ''agent'' else ''server'');
          k = buildK3sNodeManifest cl node role (hd cps) (strGet (planIPs cl spec) node) spec
      in if i = 0 \<and> role = ''server'' then
           k\<lparr>r_spec := map_option (\<lambda>m. let m1 = dropKey (dropKey m ''joinFrom'') ''joinURLFrom'' in
               if length cps > 1 then putKey m1 ''clusterInit'' (VBool True) else m1) (r_spec k)\<rparr>
         else k)"

definition vmChild :: "string \<Rightarrow> cluster_spec \<Rightarrow> string list \<Rightarrow> nat \<Rightarrow> string \<Rightarrow> resource" where
  "vmChild cl spec cps i node =
     buildVMManifest cl node (int i) (int (length cps)) (sizeForNode (int i) (int (length cps)) spec)
       (strGet (planIPs cl spec) node) (placementOf (PlacementTargets cl spec) node) spec"

definition agentChild :: "string \<Rightarrow> cluster_spec \<Rightarrow> string \<Rightarrow> resource" where
  "agentChild cl spec node = buildAgentInstallManifest cl node (strGet (planIPs cl spec) node) spec"

definition planChildren :: "string \<Rightarrow> cluster_spec \<Rightarrow> resource list" where
  "planChildren cl spec =
     (let cps = fst (NodeNames cl spec); ns = allNodeNames cl spec; idx = enumerate 0 ns in
      map normalizeSpec (map (\<lambda>(i, n). vmChild cl spec cps i n) idx @ map (\<lambda>(i, n). k3sNodeChild cl spec cps i n) idx
        @ map (agentChild cl spec) ns))"

definition Plan :: "resource \<Rightarrow> err + resource list" where
  "Plan manifest =
     (if r_kind manifest \<noteq> ''Cluster'' then
        Inl (Plain (''k3s Planner: only Cluster kind is composable (got '' @ goQuote (r_kind manifest) @ '')''))
      else if r_name manifest = [] then Inl (Plain ''metadata.name is required'')
      else
        (let spec = ParseClusterSpec manifest in
         if fst (NodeNames (r_name manifest) spec) = [] then Inl (Plain ''cluster must have at least one control plane node'')
         else Inr (planChildren (r_name manifest) spec)))"

subsection \<open>The bundle and the state file (cluster_apply_plan.go)\<close>

text \<open>\<^verbatim>\<open>sort.Slice\<close> by name; two nodes never record the same VM name.\<close>

fun nodeIdentities :: "string list \<Rightarrow> 'a k3s_files_scheme \<Rightarrow> err + node_identity list" where
  "nodeIdentities [] w = Inr []"
| "nodeIdentities (n # ns) w =
     (case loadNodeState n w of
        Inl e \<Rightarrow> Inl (Wrap (''load K3sNode state for '' @ n) e)
      | Inr None \<Rightarrow> Inl (Plain (''K3sNode '' @ n @ '' has no observed IP in state''))
      | Inr (Some s) \<Rightarrow>
          if ns_vmIP s = [] then Inl (Plain (''K3sNode '' @ n @ '' has no observed IP in state''))
          else bindE (nodeIdentities ns w) (\<lambda>ids. Inr (\<lparr>ni_name = ns_vmName s, ni_ip = ns_vmIP s\<rparr> # ids)))"

definition persistBundle :: "string \<Rightarrow> string \<Rightarrow> cert_bundle \<Rightarrow> 'a k3s_files_scheme \<Rightarrow> err option \<times> 'a k3s_files_scheme" where
  "persistBundle msg cl b w = (case bundleWriteTo cl b w of (Some e, w') \<Rightarrow> (Some (Wrap msg e), w') | (None, w') \<Rightarrow> (None, w'))"

text \<open>Any failure to load the bundle leads to a fresh one.\<close>

definition materializeClusterCABundle ::
  "crypto \<Rightarrow> string \<Rightarrow> string list \<Rightarrow> 'a k3s_files_scheme \<Rightarrow> err option \<times> 'a k3s_files_scheme" where
  "materializeClusterCABundle cy cl nodes w =
     (case nodeIdentities nodes w of
        Inl e \<Rightarrow> (Some e, w)
      | Inr ids0 \<Rightarrow>
          let ids = sort_key ni_name ids0 in
          (case LoadBundle cl w of
             Inr b \<Rightarrow>
               let missing = filter (\<lambda>n. map_of (bd_serverCerts b) (ni_name n) = None) ids in
               if missing \<noteq> [] then
                 (case MintServerCerts cy missing b of
                    Inl e \<Rightarrow> (Some (Wrap ''mint missing certs'' e), w)
                  | Inr b1 \<Rightarrow> persistBundle ''persist extended bundle'' cl b1 w)
               else (None, w)
           | Inl _ \<Rightarrow>
               (case GenerateBundle cy cl ids of
                  Inl e \<Rightarrow> (Some (Wrap ''generate bundle'' e), w)
                | Inr b \<Rightarrow> persistBundle ''persist bundle'' cl b w)))"

definition vmChildRef :: "string \<Rightarrow> child_ref" where
  "vmChildRef n = \<lparr>cr_provider = ''proxmox'', cr_kind = ''VirtualMachine'', cr_name = n\<rparr>"

definition stateDoc :: "string \<Rightarrow> obj option \<Rightarrow> obj \<Rightarrow> child_ref list \<Rightarrow> 'a k3s_files_scheme \<Rightarrow> cluster_doc" where
  "stateDoc name spec status children w =
     \<lparr>cd_metadata = Some [(''name'', VStr name), (''provider'', VStr ''k3s''), (''createdAt'', VStr (kf_now w)), (''updatedAt'', VStr (kf_now w))],
      cd_spec = spec, cd_status = Some status, cd_children = children\<rparr>"

definition saveClusterStateStub ::
  "string \<Rightarrow> obj option \<Rightarrow> string list \<Rightarrow> string \<Rightarrow> string \<Rightarrow> 'a k3s_files_scheme \<Rightarrow> err option \<times> 'a k3s_files_scheme" where
  "saveClusterStateStub name spec vms phase message w =
     writeCluster name (stateDoc name spec [(''phase'', VStr phase), (''message'', VStr message)] (map vmChildRef vms) w) w"

definition kubeconfigPath :: "string \<Rightarrow> 'a k3s_files_scheme \<Rightarrow> string" where
  "kubeconfigPath node w = joinPath [kf_home w, ''.openctl'', ''k3s'', node, ''kubeconfig'']"

definition agentOutputs :: "string \<Rightarrow> strmap \<Rightarrow> obj" where
  "agentOutputs dir endpoints =
     [(''bundleDir'', VStr dir), (''caPath'', VStr (joinPath [dir, ''ca.pem''])),
      (''clientCertPath'', VStr (joinPath [dir, ''client.pem''])), (''clientKeyPath'', VStr (joinPath [dir, ''client.key''])),
      (''port'', VInt 9443), (''endpoints'', VObj (map (\<lambda>(n, ip). (n, VStr ip)) endpoints))]"

definition nodeEndpoints :: "string list \<Rightarrow> 'a k3s_files_scheme \<Rightarrow> strmap" where
  "nodeEndpoints nodes w =
     foldl (\<lambda>m n. case nodeStateOf n w of None \<Rightarrow> m | Some s \<Rightarrow> putKey m (ns_vmName s) (ns_vmIP s)) [] nodes"

definition clusterOutputs :: "string \<Rightarrow> string list \<Rightarrow> node_state \<Rightarrow> 'a k3s_files_scheme \<Rightarrow> obj" where
  "clusterOutputs name nodes cp w =
     [(''kubeconfigPath'', VStr (kubeconfigPath (hd nodes) w)), (''serverIP'', VStr (ns_vmIP cp)),
      (''agent'', VObj (agentOutputs (clusterBundleDir w name) (nodeEndpoints nodes w)))]"

definition saveClusterStateFromChildren ::
  "string \<Rightarrow> obj option \<Rightarrow> string list \<Rightarrow> string list \<Rightarrow> 'a k3s_files_scheme \<Rightarrow> (err + resource) \<times> 'a k3s_files_scheme" where
  "saveClusterStateFromChildren name spec vms nodes w =
     (case loadNodeState (hd nodes) w of
        Inl e \<Rightarrow> (Inl (Wrap ''load first-CP state'' e), w)
      | Inr None \<Rightarrow> (Inl (Plain (''no state for first CP '' @ hd nodes)), w)
      | Inr (Some cp) \<Rightarrow>
          let outputs = clusterOutputs name nodes cp w;
              status = [(''phase'', VStr ''Ready''), (''message'', VStr ''Cluster is ready''), (''outputs'', VObj outputs)]
          in (case writeCluster name (stateDoc name spec status (map vmChildRef vms) w) w of
                (Some e, w') \<Rightarrow> (Inl e, w')
              | (None, w') \<Rightarrow> (Inr (clusterResource name spec (Some [(''phase'', VStr ''Ready''), (''outputs'', VObj outputs)])), w')))"

subsection \<open>The task graph (cluster_apply_plan.go)\<close>

text \<open>The dispatcher the provider finds in its context.\<close>

record 'w child_dispatcher =
  ch_apply :: "resource \<Rightarrow> 'w \<Rightarrow> (err + resource option) \<times> 'w"
  ch_delete :: "resource \<Rightarrow> 'w \<Rightarrow> err option \<times> 'w"

abbreviation taskStateStub :: string where
  "taskStateStub \<equiv> ''@state-stub''"

abbreviation taskCABundle :: string where
  "taskCABundle \<equiv> ''@ca-bundle''"

definition ofKind :: "string \<Rightarrow> resource list \<Rightarrow> resource list" where
  "ofKind k cs = filter (\<lambda>c. r_kind c = k) cs"

definition applyChildTask :: "'w child_dispatcher \<Rightarrow> (string \<times> string list) list \<Rightarrow> string list \<Rightarrow> resource \<Rightarrow> 'w task" where
  "applyChildTask cd refEdges extraDeps child =
     \<lparr>tk_id = ChildKey child, tk_deps = extraDeps @ edgeDeps refEdges (ChildKey child),
      tk_run = Some (\<lambda>w. case ch_apply cd child w of
         (Inl e, w') \<Rightarrow> (Some (Wrap (''apply '' @ r_kind child @ '' '' @ r_name child) e), w')
       | (Inr _, w') \<Rightarrow> (None, w'))\<rparr>"

definition stepTask :: "string \<Rightarrow> string list \<Rightarrow> string \<Rightarrow> ('w \<Rightarrow> err option \<times> 'w) \<Rightarrow> 'w task" where
  "stepTask i deps msg f =
     \<lparr>tk_id = i, tk_deps = deps,
      tk_run = Some (\<lambda>w. case f w of (Some e, w') \<Rightarrow> (Some (Wrap msg e), w') | (None, w') \<Rightarrow> (None, w'))\<rparr>"

definition clusterTasks ::
  "crypto \<Rightarrow> 'a k3s_files_scheme child_dispatcher \<Rightarrow> string \<Rightarrow> obj option \<Rightarrow> resource list \<Rightarrow> 'a k3s_files_scheme task list" where
  "clusterTasks cy cd name spec children =
     (let vms = ofKind ''VirtualMachine'' children; nodes = ofKind ''K3sNode'' children;
          agents = ofKind ''AgentInstall'' children; edges = RefChildEdges children
      in map (applyChildTask cd edges []) vms
         @ [stepTask taskStateStub (map ChildKey vms) ''save interim cluster state''
              (saveClusterStateStub name spec (map (\<lambda>r. r_name r) vms) ''Provisioning'' ''VMs created; installing k3s'')]
         @ map (applyChildTask cd edges [taskStateStub]) nodes
         @ [stepTask taskCABundle (map ChildKey nodes) ''materialize CA bundle''
              (materializeClusterCABundle cy name (map (\<lambda>r. r_name r) nodes))]
         @ map (applyChildTask cd edges [taskCABundle]) agents)"

text \<open>\<open>atoi\<close> is \<^verbatim>\<open>strconv.Atoi\<close>; \<open>env\<close> the value of OPENCTL_APPLY_CONCURRENCY.\<close>

definition applyConcurrency :: "(string \<Rightarrow> int option) \<Rightarrow> string \<Rightarrow> int" where
  "applyConcurrency atoi env =
     (if env \<noteq> [] then (case atoi env of Some n \<Rightarrow> if n > 0 then n else 1 | None \<Rightarrow> 1) else 1)"

text \<open>\<open>c0\<close>, \<open>sched\<close> and \<open>c1\<close> are the arguments of \<open>RunGraph\<close>.\<close>

definition applyClusterViaPlan ::
  "crypto \<Rightarrow> 'a k3s_files_scheme child_dispatcher \<Rightarrow> int \<Rightarrow> bool \<Rightarrow> (nat \<times> bool) list \<Rightarrow> bool \<Rightarrow> resource \<Rightarrow>
   'a k3s_files_scheme \<Rightarrow> (err + resource) \<times> 'a k3s_files_scheme" where
  "applyClusterViaPlan cy cd conc c0 sched c1 manifest w =
     (case Plan manifest of
        Inl e \<Rightarrow> (Inl (Wrap ''plan'' e), w)
      | Inr children \<Rightarrow>
          let name = r_name manifest; vms = ofKind ''VirtualMachine'' children; nodes = ofKind ''K3sNode'' children in
          if vms = [] then (Inl (Plain ''plan produced no VirtualMachine children''), w)
          else if nodes = [] then (Inl (Plain ''plan produced no K3sNode children''), w)
          else
            (case RunGraph conc (clusterTasks cy cd name (r_spec manifest) children) c0 sched c1 w of
               ((Some e, _), w') \<Rightarrow> (Inl e, w')
             | ((None, _), w') \<Rightarrow>
                 saveClusterStateFromChildren name (r_spec manifest) (map (\<lambda>r. r_name r) vms) (map (\<lambda>r. r_name r) nodes) w'))"

subsection \<open>Lemmas: the references of the children\<close>

lemma hasMarker_json:
  "hasMarker mk (jsonVal v) = hasMarker mk v"
  "hasMarker_kvs mk (jsonObj m) = hasMarker_kvs mk m \<and> (map_of (jsonObj m) mk = None) = (map_of m mk = None)"
  "hasMarker_arr mk (jsonArr xs) = hasMarker_arr mk xs"
  by (induction v and m and xs rule: jsonVal_jsonObj_jsonArr.induct) auto

lemma hasMarker_putKey: "\<not> hasMarker mk v \<Longrightarrow> \<not> hasMarker_kvs mk m \<Longrightarrow> \<not> hasMarker_kvs mk (putKey m k v)"
  by (induction m) (auto split: if_splits)

definition unmarked :: "obj \<Rightarrow> bool" where
  "unmarked m \<longleftrightarrow> \<not> hasMarker RefMarker (VObj m)"

lemma unmarked_putKey: "unmarked m \<Longrightarrow> k \<noteq> RefMarker \<Longrightarrow> \<not> hasMarker RefMarker v \<Longrightarrow> unmarked (putKey m k v)"
  by (auto simp: unmarked_def hasMarker_putKey)

lemma unmarked_putKey_if:
  "unmarked m \<Longrightarrow> k \<noteq> RefMarker \<Longrightarrow> \<not> hasMarker RefMarker v \<Longrightarrow> unmarked (if b then putKey m k v else m)"
  by (simp add: unmarked_putKey)

lemma unmarked_field: "unmarked m \<Longrightarrow> objField m k = Some o1 \<Longrightarrow> unmarked o1"
  by (auto simp: unmarked_def objField_def objGet_def split: val.splits option.splits dest: hasMarker_entry)

lemma hasMarker_strs: "\<not> hasMarker_arr mk (map VStr xs)"
  by (induction xs) auto

lemma CollectRefs_unmarked: "unmarked m \<Longrightarrow> CollectRefs (Some (jsonObj m)) = []"
  using rw.visit_unmarked(1) [of "VObj (jsonObj m)"] hasMarker_json(1) [of RefMarker "VObj m"]
  by (simp add: unmarked_def CollectRefs_def)

lemma unmarked_withPlacement: "unmarked m \<Longrightarrow> unmarked (withPlacement t m)"
  by (auto simp: withPlacement_def Let_def RefMarker_def intro!: unmarked_putKey)

lemma unmarked_withImage: "unmarked m \<Longrightarrow> unmarked (withImage im m)"
  by (auto simp: withImage_def Let_def RefMarker_def hasMarker_putKey intro!: unmarked_putKey)

lemma unmarked_pciEntry: "\<not> hasMarker RefMarker (VObj (pciEntry d))"
  unfolding unmarked_def [symmetric]
  by (auto simp: pciEntry_def Let_def intro!: unmarked_putKey) (auto simp: unmarked_def RefMarker_def)

lemma hasMarker_pciEntries: "\<not> hasMarker_arr RefMarker (map (VObj \<circ> pciEntry) ds)"
  using unmarked_pciEntry by (induction ds) auto

lemma unmarked_ApplyGPU:
  assumes "unmarked m"
  shows "unmarked (ApplyGPUToVMSpec m g)"
proof (cases g)
  case (Some gs)
  let ?m1 = "putKey (putKey m ''machine'' (VStr ''q35'')) ''bios'' (VStr ''ovmf'')"
  let ?ty = "VStr (if gp_cpuType gs = [] then ''host'' else gp_cpuType gs)"
  let ?cpu = "case objField ?m1 ''cpu'' of Some cpu \<Rightarrow> VObj (putKey cpu ''type'' ?ty) | None \<Rightarrow> VObj [(''type'', ?ty)]"
  have m1: "unmarked ?m1" using assms by (simp add: unmarked_putKey RefMarker_def)
  have cpu: "\<not> hasMarker RefMarker ?cpu"
  proof (cases "objField ?m1 ''cpu''")
    case None
    then show ?thesis by (simp add: RefMarker_def)
  next
    case (Some cpu)
    then have "unmarked (putKey cpu ''type'' ?ty)"
      using unmarked_field [OF m1 Some] by (simp add: unmarked_putKey RefMarker_def)
    then show ?thesis using Some by (simp add: unmarked_def)
  qed
  define m2 where "m2 = putKey ?m1 ''cpu'' ?cpu"
  have "unmarked m2" unfolding m2_def by (rule unmarked_putKey [OF m1 _ cpu]) (simp add: RefMarker_def)
  then have "unmarked (ApplyGPUToVMSpec m (Some gs))"
    unfolding ApplyGPUToVMSpec_def Let_def option.case m2_def [symmetric]
    by (intro unmarked_putKey_if) (simp_all add: RefMarker_def hasMarker_pciEntries [unfolded RefMarker_def])
  then show ?thesis using Some by simp
qed (use assms in \<open>simp add: ApplyGPUToVMSpec_def\<close>)

lemma unmarked_ApplyNodePrep:
  assumes "unmarked m"
  shows "unmarked (ApplyNodePrepToVMSpec m np0)"
proof (cases np0)
  case (Some np)
  let ?ci = "case objField m ''cloudInit'' of Some ci \<Rightarrow> ci | None \<Rightarrow> []"
  have ci: "unmarked ?ci"
    using assms unmarked_field [OF assms, of "''cloudInit''"] by (auto simp: unmarked_def split: option.splits)
  have "unmarked (if np_packages np \<noteq> [] then putKey ?ci ''packages'' (VArr (map VStr (np_packages np))) else ?ci)"
    by (rule unmarked_putKey_if [OF ci]) (simp_all add: RefMarker_def hasMarker_strs)
  then have "unmarked (if np_runcmd np \<noteq> [] then putKey (if np_packages np \<noteq> [] then putKey ?ci ''packages'' (VArr (map VStr (np_packages np))) else ?ci)
      ''runcmd'' (VArr (map VStr (np_runcmd np))) else (if np_packages np \<noteq> [] then putKey ?ci ''packages'' (VArr (map VStr (np_packages np))) else ?ci))"
    (is "unmarked ?c2") by (rule unmarked_putKey_if) (simp_all add: RefMarker_def hasMarker_strs)
  then have "unmarked (putKey m ''cloudInit'' (VObj ?c2))"
    unfolding unmarked_def [of ?c2] by (rule unmarked_putKey [OF assms, rotated]) (simp add: RefMarker_def)
  then show ?thesis using Some assms by (simp add: ApplyNodePrepToVMSpec_def Let_def)
qed (use assms in \<open>simp add: ApplyNodePrepToVMSpec_def\<close>)

lemma unmarked_vmBaseSpec: "unmarked (vmBaseSpec sz ip t spec)"
  by (simp add: vmBaseSpec_def unmarked_def RefMarker_def strList_def vmIpConfig_def hasMarker_strs split: option.splits)

lemma vmChild_refs: "CollectRefs (r_spec (normalizeSpec (vmChild cl spec cps i n))) = []"
  unfolding vmChild_def buildVMManifest_def normalizeSpec_def Let_def
  by (simp add: CollectRefs_unmarked unmarked_ApplyNodePrep unmarked_ApplyGPU unmarked_withImage unmarked_withPlacement
        unmarked_vmBaseSpec)

text \<open>The reference a placeholder stands for, and the placeholders of a node and of an agent.\<close>

definition refRec :: "string \<Rightarrow> string \<Rightarrow> string \<Rightarrow> string \<Rightarrow> ref" where
  "refRec av k n f = \<lparr>ref_apiVersion = av, ref_kind = k, ref_name = n, ref_field = f\<rparr>"

lemma visit_refTo:
  "av \<noteq> [] \<Longrightarrow> k \<noteq> [] \<Longrightarrow> n \<noteq> [] \<Longrightarrow> visit_val extractRef (jsonVal (planRef av k n f)) = [refRec av k n f]"
  by (simp add: planRef_def extractRef_def RefMarker_def strField_def objGet_def refRec_def)

lemma visit_jsonStrs: "visit_arr extractRef (jsonArr (map VStr xs)) = []"
  by (induction xs) auto

lemma set_CollectRefs_json:
  "map_of m RefMarker = None \<Longrightarrow> set (CollectRefs (Some (jsonObj m))) = set (visit_kvs extractRef (jsonObj m))"
  using hasMarker_json(2) [of RefMarker m] extractRef_None [of "jsonObj m"] by (simp add: set_CollectRefs)

abbreviation vmVersion :: "cluster_spec \<Rightarrow> string" where
  "vmVersion spec \<equiv> cm_provider (cs_compute spec) @ ''.openctl.io/v1''"

lemma visit_vmRefOf: "n \<noteq> [] \<Longrightarrow> visit_val extractRef (jsonVal (vmRefOf spec n)) = [refRec (vmVersion spec) ''VirtualMachine'' n []]"
  by (simp add: vmRefOf_def visit_refTo)

lemma visit_sshBlock: "visit_val extractRef (jsonVal (sshBlock spec)) = []"
  by (simp add: sshBlock_def extractRef_def RefMarker_def)

text \<open>Optional fields without placeholders do not change what is collected.\<close>

lemma visit_put_if:
  "k \<notin> fst ` set m \<Longrightarrow> visit_val ex (jsonVal v) = [] \<Longrightarrow>
   visit_kvs ex (jsonObj (if b then putKey m k v else m)) = visit_kvs ex (jsonObj m)"
proof -
  assume a: "k \<notin> fst ` set m" "visit_val ex (jsonVal v) = []"
  then have "visit_kvs ex (jsonObj (putKey m k v)) = visit_kvs ex (jsonObj m)" by (induction m) auto
  then show ?thesis by simp
qed

lemma notin_put_if: "x \<notin> fst ` set m \<Longrightarrow> x \<noteq> k \<Longrightarrow> x \<notin> fst ` set (if b then putKey m k v else m)"
  by simp

lemma map_of_put_if: "map_of m x = None \<Longrightarrow> x \<noteq> k \<Longrightarrow> map_of (if b then putKey m k v else m) x = None"
  by simp

lemma visit_nodeOptional:
  assumes "''version'' \<notin> fst ` set m" "''extraArgs'' \<notin> fst ` set m" "''vmIP'' \<notin> fst ` set m"
  shows "visit_kvs extractRef (jsonObj (nodeOptional ip spec m)) = visit_kvs extractRef (jsonObj m)"
  unfolding nodeOptional_def Let_def
  by (subst visit_put_if visit_put_if visit_put_if, (intro notin_put_if assms; simp), simp add: visit_jsonStrs)+ simp

lemma dropKey_putKey: "x \<noteq> k \<Longrightarrow> dropKey (putKey m k v) x = putKey (dropKey m x) k v"
  by (induction m) auto

lemma nodeOptional_dropKey:
  "x \<notin> {''version'', ''extraArgs'', ''vmIP''} \<Longrightarrow> dropKey (nodeOptional ip spec m) x = nodeOptional ip spec (dropKey m x)"
  by (simp add: nodeOptional_def dropKey_putKey)

lemma map_of_nodeOptional:
  "x \<notin> {''version'', ''extraArgs'', ''vmIP''} \<Longrightarrow> map_of (nodeOptional ip spec m) x = map_of m x"
  by (simp add: nodeOptional_def)

lemma k3sNodeChild_refs:
  assumes "n \<noteq> []" "cps \<noteq> []" "hd cps \<noteq> []"
  shows "set (CollectRefs (r_spec (normalizeSpec (k3sNodeChild cl spec cps i n)))) =
    insert (refRec (vmVersion spec) ''VirtualMachine'' n [])
      (if i = 0 then {} else {refRec ''k3s.openctl.io/v1'' ''K3sNode'' (hd cps) ''status.nodeToken'',
                             refRec ''k3s.openctl.io/v1'' ''K3sNode'' (hd cps) ''status.vmIP''})"
proof (cases "i = 0")
  case True
  let ?m = "nodeOptional (strGet (planIPs cl spec) n) spec [(''vmRef'', vmRefOf spec n), (''role'', VStr ''server''), (''ssh'', sshBlock spec)]"
  have "r_spec (normalizeSpec (k3sNodeChild cl spec cps i n)) = Some (jsonObj (if 1 < length cps then putKey ?m ''clusterInit'' (VBool True) else ?m))"
    using assms True by (simp add: k3sNodeChild_def buildK3sNodeManifest_def normalizeSpec_def nodeOptional_dropKey)
  moreover have "''clusterInit'' \<notin> fst ` set ?m"
    using map_of_nodeOptional [of "''clusterInit''" "strGet (planIPs cl spec) n" spec "[(''vmRef'', vmRefOf spec n), (''role'', VStr ''server''), (''ssh'', sshBlock spec)]"]
    by (simp add: map_of_eq_None_iff)
  ultimately show ?thesis
    using True assms(1) by (simp add: set_CollectRefs_json visit_put_if map_of_nodeOptional RefMarker_def visit_nodeOptional visit_vmRefOf visit_sshBlock
        del: if_split)
next
  case False
  then show ?thesis
    using assms by (simp add: k3sNodeChild_def buildK3sNodeManifest_def normalizeSpec_def set_CollectRefs_json map_of_nodeOptional RefMarker_def
      visit_nodeOptional visit_vmRefOf visit_sshBlock visit_refTo)
qed

lemma agentChild_refs:
  "n \<noteq> [] \<Longrightarrow> set (CollectRefs (r_spec (normalizeSpec (agentChild cl spec n)))) = {refRec (vmVersion spec) ''VirtualMachine'' n []}"
  unfolding agentChild_def buildAgentInstallManifest_def normalizeSpec_def Let_def
  by (simp add: set_CollectRefs_json RefMarker_def visit_vmRefOf visit_sshBlock)

lemma set_childDeps:
  "set (childDeps present c) =
     {dep. dep \<in> (\<lambda>x. ref_kind x @ ''/'' @ ref_name x) ` set (CollectRefs (r_spec c)) \<and> dep \<noteq> ChildKey c \<and> dep \<in> set present}"
  by (auto simp: childDeps_def)

subsection \<open>Lemmas: the children\<close>

lemma child_sel [simp]:
  "r_kind (vmChild cl spec cps i n) = ''VirtualMachine''" "r_name (vmChild cl spec cps i n) = n"
  "r_kind (k3sNodeChild cl spec cps i n) = ''K3sNode''" "r_name (k3sNodeChild cl spec cps i n) = n"
  "r_kind (agentChild cl spec n) = ''AgentInstall''" "r_name (agentChild cl spec n) = n @ ''-agent''"
  "r_kind (normalizeSpec r) = r_kind r" "r_metadata (normalizeSpec r) = r_metadata r"
  by (simp_all add: vmChild_def buildVMManifest_def k3sNodeChild_def buildK3sNodeManifest_def agentChild_def
        buildAgentInstallManifest_def normalizeSpec_def bareMetadata_def Let_def)

lemma ChildKey_child [simp]:
  "ChildKey (normalizeSpec (vmChild cl spec cps i n)) = ''VirtualMachine/'' @ n"
  "ChildKey (normalizeSpec (k3sNodeChild cl spec cps i n)) = ''K3sNode/'' @ n"
  "ChildKey (normalizeSpec (agentChild cl spec n)) = ''AgentInstall/'' @ n @ ''-agent''"
  by (simp_all add: ChildKey_def)

definition planVMs :: "string \<Rightarrow> cluster_spec \<Rightarrow> resource list" where
  "planVMs cl spec = map (\<lambda>(i, n). normalizeSpec (vmChild cl spec (fst (NodeNames cl spec)) i n)) (enumerate 0 (allNodeNames cl spec))"

definition planNodes :: "string \<Rightarrow> cluster_spec \<Rightarrow> resource list" where
  "planNodes cl spec = map (\<lambda>(i, n). normalizeSpec (k3sNodeChild cl spec (fst (NodeNames cl spec)) i n)) (enumerate 0 (allNodeNames cl spec))"

definition planAgents :: "string \<Rightarrow> cluster_spec \<Rightarrow> resource list" where
  "planAgents cl spec = map (\<lambda>n. normalizeSpec (agentChild cl spec n)) (allNodeNames cl spec)"

lemma planChildren_eq: "planChildren cl spec = planVMs cl spec @ planNodes cl spec @ planAgents cl spec"
  by (simp add: planChildren_def planVMs_def planNodes_def planAgents_def Let_def comp_def case_prod_unfold)

lemma map_enumerate_snd: "map (\<lambda>x. f (snd x)) (enumerate k xs) = map f xs"
  by (induction xs arbitrary: k) auto

lemma plan_keys [simp]:
  "map ChildKey (planVMs cl spec) = map (\<lambda>n. ''VirtualMachine/'' @ n) (allNodeNames cl spec)"
  "map ChildKey (planNodes cl spec) = map (\<lambda>n. ''K3sNode/'' @ n) (allNodeNames cl spec)"
  "map ChildKey (planAgents cl spec) = map (\<lambda>n. ''AgentInstall/'' @ n @ ''-agent'') (allNodeNames cl spec)"
  "map (\<lambda>r. r_name r) (planVMs cl spec) = allNodeNames cl spec"
  "map (\<lambda>r. r_name r) (planNodes cl spec) = allNodeNames cl spec"
  using map_enumerate_snd [of "\<lambda>n. ''VirtualMachine/'' @ n" 0 "allNodeNames cl spec"]
    map_enumerate_snd [of "\<lambda>n. ''K3sNode/'' @ n" 0 "allNodeNames cl spec"]
    map_enumerate_snd [of "\<lambda>n. n" 0 "allNodeNames cl spec"]
  by (simp_all add: planVMs_def planNodes_def planAgents_def comp_def case_prod_unfold)

lemma plan_kind:
  "c \<in> set (planVMs cl spec) \<Longrightarrow> r_kind c = ''VirtualMachine''"
  "c \<in> set (planNodes cl spec) \<Longrightarrow> r_kind c = ''K3sNode''"
  "c \<in> set (planAgents cl spec) \<Longrightarrow> r_kind c = ''AgentInstall''"
  by (auto simp: planVMs_def planNodes_def planAgents_def)

lemma ofKind_all: "(\<And>c. c \<in> set cs \<Longrightarrow> r_kind c = k) \<Longrightarrow> ofKind k' cs = (if k = k' then cs else [])"
  by (auto simp: ofKind_def filter_id_conv filter_empty_conv)

lemma plan_kinds:
  "ofKind ''VirtualMachine'' (planChildren cl spec) = planVMs cl spec"
  "ofKind ''K3sNode'' (planChildren cl spec) = planNodes cl spec"
  "ofKind ''AgentInstall'' (planChildren cl spec) = planAgents cl spec"
proof -
  have a: "ofKind k (xs @ ys) = ofKind k xs @ ofKind k ys" for k xs ys by (simp add: ofKind_def)
  have "ofKind k (planVMs cl spec) = (if ''VirtualMachine'' = k then planVMs cl spec else [])"
    "ofKind k (planNodes cl spec) = (if ''K3sNode'' = k then planNodes cl spec else [])"
    "ofKind k (planAgents cl spec) = (if ''AgentInstall'' = k then planAgents cl spec else [])" for k
    by (rule ofKind_all, erule plan_kind)+
  then show "ofKind ''VirtualMachine'' (planChildren cl spec) = planVMs cl spec"
    "ofKind ''K3sNode'' (planChildren cl spec) = planNodes cl spec"
    "ofKind ''AgentInstall'' (planChildren cl spec) = planAgents cl spec"
    unfolding planChildren_eq a by simp_all
qed

lemma distinct_plan_keys:
  assumes "distinct (allNodeNames cl spec)"
  shows "distinct (map ChildKey (planChildren cl spec))"
  using assms by (auto simp: planChildren_eq distinct_map inj_on_def)

subsection \<open>Lemmas: the dependencies of the children\<close>

lemma edgeDeps_putKey: "edgeDeps (putKey es k ds) y = (if y = k then ds else edgeDeps es y)"
  by (simp add: edgeDeps_def)

lemma edgeDeps_fold:
  assumes "distinct (map ChildKey cs)" "c \<in> set cs" "edgeDeps es (ChildKey c) = []"
  shows "edgeDeps (foldl (\<lambda>edges c. let deps = childDeps present c in if deps \<noteq> [] then putKey edges (ChildKey c) deps else edges) es cs) (ChildKey c) =
    childDeps present c"
  using assms
proof (induction cs arbitrary: es)
  case (Cons d cs)
  let ?f = "\<lambda>edges c. let deps = childDeps present c in if deps \<noteq> [] then putKey edges (ChildKey c) deps else edges"
  show ?case
  proof (cases "c = d")
    case True
    have keep: "ChildKey c \<notin> ChildKey ` set cs \<Longrightarrow> edgeDeps (foldl ?f es' cs) (ChildKey c) = edgeDeps es' (ChildKey c)" for es'
      by (induction cs arbitrary: es') (auto simp: Let_def edgeDeps_putKey)
    show ?thesis using Cons.prems keep [of "?f es d"] True by (simp add: Let_def edgeDeps_putKey)
  next
    case False
    then have "c \<in> set cs" "ChildKey c \<noteq> ChildKey d" using Cons.prems by (auto simp: image_iff)
    then show ?thesis using Cons.IH [of "?f es d"] Cons.prems by (simp add: Let_def edgeDeps_putKey)
  qed
qed simp

lemma RefChildEdges_deps:
  "distinct (map ChildKey cs) \<Longrightarrow> c \<in> set cs \<Longrightarrow> edgeDeps (RefChildEdges cs) (ChildKey c) = childDeps (map ChildKey cs) c"
  unfolding RefChildEdges_def by (rule edgeDeps_fold) (simp_all add: edgeDeps_def)

lemma allNodeNames_ne: "n \<in> set (allNodeNames cl spec) \<Longrightarrow> n \<noteq> []"
  by (auto simp: allNodeNames_def NodeNames_def set_poolNodes nodeName_def)

text \<open>A cluster whose node names are distinct and which has a control plane.\<close>

definition planOk :: "string \<Rightarrow> cluster_spec \<Rightarrow> bool" where
  "planOk cl spec \<longleftrightarrow> distinct (poolNames spec) \<and> fst (NodeNames cl spec) \<noteq> []"

abbreviation firstCP :: "string \<Rightarrow> cluster_spec \<Rightarrow> string" where
  "firstCP cl spec \<equiv> hd (fst (NodeNames cl spec))"

lemma firstCP_first:
  assumes "planOk cl spec"
  shows "firstCP cl spec \<in> set (allNodeNames cl spec)" "allNodeNames cl spec \<noteq> []" "allNodeNames cl spec ! 0 = firstCP cl spec"
    "firstCP cl spec \<noteq> []" "distinct (allNodeNames cl spec)"
proof -
  have c: "fst (NodeNames cl spec) \<noteq> []" using assms by (simp add: planOk_def)
  show "firstCP cl spec \<in> set (allNodeNames cl spec)" using c by (simp add: allNodeNames_def)
  then show "firstCP cl spec \<noteq> []" by (rule allNodeNames_ne)
  show "allNodeNames cl spec \<noteq> []" "allNodeNames cl spec ! 0 = firstCP cl spec"
    using c by (auto simp: allNodeNames_def nth_append hd_conv_nth)
  show "distinct (allNodeNames cl spec)" using assms by (intro distinct_allNodeNames) (simp add: planOk_def)
qed

lemma plan_deps:
  assumes "planOk cl spec" "i < length (allNodeNames cl spec)"
  defines "n \<equiv> allNodeNames cl spec ! i" and "edges \<equiv> RefChildEdges (planChildren cl spec)"
  shows "edgeDeps edges (''VirtualMachine/'' @ n) = []"
    and "set (edgeDeps edges (''K3sNode/'' @ n)) = insert (''VirtualMachine/'' @ n) (if i = 0 then {} else {''K3sNode/'' @ firstCP cl spec})"
    and "set (edgeDeps edges (''AgentInstall/'' @ n @ ''-agent'')) = {''VirtualMachine/'' @ n}"
proof -
  let ?ns = "allNodeNames cl spec" and ?cps = "fst (NodeNames cl spec)" and ?cs = "planChildren cl spec"
  note f = firstCP_first [OF assms(1)]
  have cps: "?cps \<noteq> []" using assms(1) by (simp add: planOk_def)
  have n: "n \<in> set ?ns" using assms(2) by (simp add: n_def)
  note n = n allNodeNames_ne [OF n]
  have idx: "(i, n) \<in> set (enumerate 0 ?ns)" using assms(2) by (simp add: in_set_enumerate_eq n_def)
  let ?vm = "normalizeSpec (vmChild cl spec ?cps i n)" and ?kn = "normalizeSpec (k3sNodeChild cl spec ?cps i n)"
    and ?ag = "normalizeSpec (agentChild cl spec n)"
  have mem: "?vm \<in> set ?cs" "?kn \<in> set ?cs" "?ag \<in> set ?cs"
    using idx n(1) by (force simp: planChildren_eq planVMs_def planNodes_def planAgents_def)+
  note d = RefChildEdges_deps [OF distinct_plan_keys [OF f(5)]]
  have keys: "set (map ChildKey ?cs) = (\<lambda>n. ''VirtualMachine/'' @ n) ` set ?ns \<union> (\<lambda>n. ''K3sNode/'' @ n) ` set ?ns
      \<union> (\<lambda>n. ''AgentInstall/'' @ n @ ''-agent'') ` set ?ns"
    by (simp only: planChildren_eq map_append plan_keys set_append set_map Un_assoc)
  have first: "i \<noteq> 0 \<Longrightarrow> n \<noteq> firstCP cl spec"
    using f(2,3,5) assms(2) nth_eq_iff_index_eq [of ?ns i 0] by (auto simp: n_def)
  show "edgeDeps edges (''VirtualMachine/'' @ n) = []"
    using d [OF mem(1)] by (simp add: edges_def childDeps_def vmChild_refs)
  show "set (edgeDeps edges (''K3sNode/'' @ n)) = insert (''VirtualMachine/'' @ n) (if i = 0 then {} else {''K3sNode/'' @ firstCP cl spec})"
    using d [OF mem(2)] n f(1) first keys k3sNodeChild_refs [OF n(2) cps f(4), of cl spec i]
    by (auto simp: edges_def set_childDeps refRec_def)
  show "set (edgeDeps edges (''AgentInstall/'' @ n @ ''-agent'')) = {''VirtualMachine/'' @ n}"
    using d [OF mem(3)] n keys agentChild_refs [OF n(2), of cl spec] by (auto simp: edges_def set_childDeps refRec_def)
qed

subsection \<open>Lemmas: the task graph\<close>

lemma depsOf_task:
  assumes "distinct (map tk_id T)" "t \<in> set T"
  shows "depsOf T (tk_id t) = tk_deps t"
proof -
  have none: "x \<notin> tk_id ` set ts \<Longrightarrow> depsOf ts x = []" for x and ts :: "'a task list" by (induction ts) (auto simp: depsOf_def)
  show ?thesis using assms
  proof (induction T)
    case (Cons u T)
    have "depsOf (u # T) (tk_id t) = (if tk_id u = tk_id t then tk_deps u else []) @ depsOf T (tk_id t)" by (simp add: depsOf_def)
    then show ?case using Cons none [of "tk_id t" T] by (auto simp: image_iff)
  qed simp
qed

lemma topo_append:
  "topo deps (xs @ ys) \<longleftrightarrow> topo deps xs \<and> (\<forall>j < length ys. set (deps (ys ! j)) \<subseteq> set xs \<union> set (take j ys))"
proof -
  have "topo deps (xs @ ys) \<longleftrightarrow> (\<forall>i < length xs + length ys. set (deps ((xs @ ys) ! i)) \<subseteq> set (take i (xs @ ys)))"
    by (simp add: topo_def)
  also have "\<dots> \<longleftrightarrow> (\<forall>i < length xs. set (deps (xs ! i)) \<subseteq> set (take i xs)) \<and>
      (\<forall>j < length ys. set (deps (ys ! j)) \<subseteq> set xs \<union> set (take j ys))"
  proof (intro iffI conjI allI impI)
    fix i assume a: "\<forall>i < length xs + length ys. set (deps ((xs @ ys) ! i)) \<subseteq> set (take i (xs @ ys))"
    show "i < length xs \<Longrightarrow> set (deps (xs ! i)) \<subseteq> set (take i xs)" using a [rule_format, of i] by (simp add: nth_append)
    show "i < length ys \<Longrightarrow> set (deps (ys ! i)) \<subseteq> set xs \<union> set (take i ys)"
      using a [rule_format, of "length xs + i"] by simp
  next
    fix i assume a: "(\<forall>i < length xs. set (deps (xs ! i)) \<subseteq> set (take i xs)) \<and>
      (\<forall>j < length ys. set (deps (ys ! j)) \<subseteq> set xs \<union> set (take j ys))" "i < length xs + length ys"
    show "set (deps ((xs @ ys) ! i)) \<subseteq> set (take i (xs @ ys))"
    proof (cases "i < length xs")
      case False
      then show ?thesis using a(1) [THEN conjunct2, rule_format, of "i - length xs"] a(2) by (simp add: nth_append)
    qed (use a in \<open>simp add: nth_append\<close>)
  qed
  finally show ?thesis by (simp add: topo_def)
qed

lemma topo_snoc: "topo deps (xs @ [y]) \<longleftrightarrow> topo deps xs \<and> set (deps y) \<subseteq> set xs"
  by (auto simp: topo_append)

abbreviation planTasks ::
  "crypto \<Rightarrow> 'a k3s_files_scheme child_dispatcher \<Rightarrow> string \<Rightarrow> cluster_spec \<Rightarrow> obj option \<Rightarrow> 'a k3s_files_scheme task list" where
  "planTasks cy cd cl spec sp \<equiv> clusterTasks cy cd cl sp (planChildren cl spec)"

abbreviation vmKeys :: "string \<Rightarrow> cluster_spec \<Rightarrow> string list" where
  "vmKeys cl spec \<equiv> map (\<lambda>n. ''VirtualMachine/'' @ n) (allNodeNames cl spec)"

abbreviation nodeKeys :: "string \<Rightarrow> cluster_spec \<Rightarrow> string list" where
  "nodeKeys cl spec \<equiv> map (\<lambda>n. ''K3sNode/'' @ n) (allNodeNames cl spec)"

abbreviation agentKeys :: "string \<Rightarrow> cluster_spec \<Rightarrow> string list" where
  "agentKeys cl spec \<equiv> map (\<lambda>n. ''AgentInstall/'' @ n @ ''-agent'') (allNodeNames cl spec)"

lemma task_sel [simp]:
  "tk_id (applyChildTask cd es ex c) = ChildKey c" "tk_deps (applyChildTask cd es ex c) = ex @ edgeDeps es (ChildKey c)"
  "tk_id (stepTask i ds m f) = i" "tk_deps (stepTask i ds m f) = ds"
  by (simp_all add: applyChildTask_def stepTask_def)

lemma planTasks_ids:
  "map tk_id (planTasks cy cd cl spec sp) =
     vmKeys cl spec @ [taskStateStub] @ nodeKeys cl spec @ [taskCABundle] @ agentKeys cl spec"
proof -
  have m: "map tk_id (map (applyChildTask cd es ex) cs) = map ChildKey cs" for es ex cs by simp
  show ?thesis unfolding clusterTasks_def Let_def plan_kinds map_append m plan_keys list.map task_sel by (rule refl)
qed

lemma distinct_planTasks:
  assumes "distinct (allNodeNames cl spec)"
  shows "distinct (map tk_id (planTasks cy cd cl spec sp))"
  unfolding planTasks_ids using assms by (auto simp: distinct_map inj_on_def)

lemma planTasks_deps:
  assumes "planOk cl spec" and T_def: "T = planTasks cy cd cl spec sp"
  shows "n \<in> set (allNodeNames cl spec) \<Longrightarrow> depsOf T (''VirtualMachine/'' @ n) = []"
    and "depsOf T taskStateStub = vmKeys cl spec"
    and "i < length (allNodeNames cl spec) \<Longrightarrow> set (depsOf T (''K3sNode/'' @ allNodeNames cl spec ! i)) =
      {taskStateStub, ''VirtualMachine/'' @ allNodeNames cl spec ! i} \<union> (if i = 0 then {} else {''K3sNode/'' @ firstCP cl spec})"
    and "depsOf T taskCABundle = nodeKeys cl spec"
    and "n \<in> set (allNodeNames cl spec) \<Longrightarrow> set (depsOf T (''AgentInstall/'' @ n @ ''-agent'')) = {taskCABundle, ''VirtualMachine/'' @ n}"
proof -
  let ?ns = "allNodeNames cl spec" and ?es = "RefChildEdges (planChildren cl spec)"
  have d: "t \<in> set T \<Longrightarrow> depsOf T (tk_id t) = tk_deps t" for t
    unfolding T_def by (rule depsOf_task [OF distinct_planTasks [OF firstCP_first(5) [OF assms(1)]]])
  have vm: "c \<in> set (planVMs cl spec) \<Longrightarrow> depsOf T (ChildKey c) = edgeDeps ?es (ChildKey c)" for c
    using d [of "applyChildTask cd ?es [] c"] by (simp add: T_def clusterTasks_def Let_def plan_kinds)
  have kn: "c \<in> set (planNodes cl spec) \<Longrightarrow> depsOf T (ChildKey c) = taskStateStub # edgeDeps ?es (ChildKey c)" for c
    using d [of "applyChildTask cd ?es [taskStateStub] c"] by (simp add: T_def clusterTasks_def Let_def plan_kinds)
  have ag: "c \<in> set (planAgents cl spec) \<Longrightarrow> depsOf T (ChildKey c) = taskCABundle # edgeDeps ?es (ChildKey c)" for c
    using d [of "applyChildTask cd ?es [taskCABundle] c"] by (simp add: T_def clusterTasks_def Let_def plan_kinds)
  have keys: "ChildKey ` set (planVMs cl spec) = set (vmKeys cl spec)" "ChildKey ` set (planNodes cl spec) = set (nodeKeys cl spec)"
      "ChildKey ` set (planAgents cl spec) = set (agentKeys cl spec)"
    using plan_keys(1-3) [of cl spec] by (metis list.set_map)+
  show "depsOf T (''VirtualMachine/'' @ n) = []" if n: "n \<in> set ?ns"
  proof -
    obtain i where "i < length ?ns" "n = ?ns ! i" using n by (auto simp: in_set_conv_nth)
    moreover have "''VirtualMachine/'' @ n \<in> ChildKey ` set (planVMs cl spec)" unfolding keys using n by simp
    ultimately show ?thesis using vm plan_deps(1) [OF assms(1), of i] by auto
  qed
  show "set (depsOf T (''K3sNode/'' @ ?ns ! i)) =
      {taskStateStub, ''VirtualMachine/'' @ ?ns ! i} \<union> (if i = 0 then {} else {''K3sNode/'' @ firstCP cl spec})" if "i < length ?ns"
  proof -
    have "''K3sNode/'' @ ?ns ! i \<in> ChildKey ` set (planNodes cl spec)" unfolding keys using that by simp
    then have "depsOf T (''K3sNode/'' @ ?ns ! i) = taskStateStub # edgeDeps ?es (''K3sNode/'' @ ?ns ! i)" using kn by auto
    then show ?thesis using plan_deps(2) [OF assms(1) that] by auto
  qed
  show "set (depsOf T (''AgentInstall/'' @ n @ ''-agent'')) = {taskCABundle, ''VirtualMachine/'' @ n}" if n: "n \<in> set ?ns"
  proof -
    obtain i where i: "i < length ?ns" "n = ?ns ! i" using n by (auto simp: in_set_conv_nth)
    have "''AgentInstall/'' @ n @ ''-agent'' \<in> ChildKey ` set (planAgents cl spec)" unfolding keys using n by simp
    then have "depsOf T (''AgentInstall/'' @ n @ ''-agent'') = taskCABundle # edgeDeps ?es (''AgentInstall/'' @ n @ ''-agent'')" using ag by auto
    then show ?thesis using plan_deps(3) [OF assms(1) i(1)] i(2) by auto
  qed
  have steps: "\<exists>t \<in> set T. tk_id t = taskStateStub \<and> tk_deps t = vmKeys cl spec"
      "\<exists>t \<in> set T. tk_id t = taskCABundle \<and> tk_deps t = nodeKeys cl spec"
    unfolding T_def clusterTasks_def Let_def plan_kinds by (force simp del: list.map)+
  show "depsOf T taskStateStub = vmKeys cl spec" using steps(1) d by metis
  show "depsOf T taskCABundle = nodeKeys cl spec" using steps(2) d by metis
qed

lemma planTasks_topo:
  assumes "planOk cl spec" and T: "T = planTasks cy cd cl spec sp"
  shows "topo (depsOf T) (map tk_id T)"
proof -
  let ?ns = "allNodeNames cl spec"
  note d = planTasks_deps [OF assms] and f = firstCP_first [OF assms(1)]
  have t0: "topo (depsOf T) (vmKeys cl spec)" using d(1) by (auto simp: topo_def)
  have "topo (depsOf T) (vmKeys cl spec @ [taskStateStub])" unfolding topo_snoc d(2) by (rule conjI [OF t0 subset_refl])
  moreover have "set (depsOf T (nodeKeys cl spec ! j)) \<subseteq> set (vmKeys cl spec @ [taskStateStub]) \<union> set (take j (nodeKeys cl spec))"
    if "j < length (nodeKeys cl spec)" for j
  proof -
    have "''K3sNode/'' @ firstCP cl spec \<in> set (take j (nodeKeys cl spec))" if "j \<noteq> 0"
      using that f(2,3) by (auto simp: take_map in_set_conv_nth intro!: image_eqI [of _ _ "?ns ! 0"] exI [of _ 0])
    then show ?thesis using that d(3) [of j] by auto
  qed
  ultimately have t1: "topo (depsOf T) ((vmKeys cl spec @ [taskStateStub]) @ nodeKeys cl spec)" (is "topo _ ?xs")
    unfolding topo_append [of _ _ "nodeKeys cl spec"] by blast
  have t2: "topo (depsOf T) (?xs @ [taskCABundle])" (is "topo _ ?ys")
    unfolding topo_snoc [of _ _ taskCABundle] d(4) by (rule conjI [OF t1]) auto
  have "set (depsOf T (agentKeys cl spec ! j)) \<subseteq> set ?ys \<union> set (take j (agentKeys cl spec))" if "j < length (agentKeys cl spec)" for j
    using that d(5) [of "?ns ! j"] by auto
  then have "topo (depsOf T) (?ys @ agentKeys cl spec)" unfolding topo_append [of _ _ "agentKeys cl spec"] using t2 by blast
  then show ?thesis unfolding T planTasks_ids by (simp only: append_assoc)
qed

lemma planTasks_wf:
  assumes "planOk cl spec" and T: "T = planTasks cy cd cl spec sp"
  shows "wfTasks T" "acyclic (depRel (depsOf T) (map tk_id T))"
proof -
  have dist: "distinct (map tk_id T)" unfolding T by (rule distinct_planTasks [OF firstCP_first(5) [OF assms(1)]])
  note topo = planTasks_topo [OF assms]
  have "set (tk_deps t) \<subseteq> set (map tk_id T)" if t: "t \<in> set T" for t
  proof -
    obtain i where i: "i < length T" "t = T ! i" using t by (auto simp: in_set_conv_nth)
    then have "set (depsOf T (tk_id t)) \<subseteq> set (take i (map tk_id T))" using topo by (simp add: topo_def)
    then show ?thesis using depsOf_task [OF dist t] set_take_subset [of i "map tk_id T"] by simp
  qed
  then show "wfTasks T" using dist by (simp add: wfTasks_def)
  show "acyclic (depRel (depsOf T) (map tk_id T))" by (rule tg.topo_acyclic [OF topo dist]) simp
qed

subsection \<open>Lemmas: a run in which nothing fails\<close>

definition ioOk :: "'a k3s_files_scheme \<Rightarrow> bool" where
  "ioOk w \<longleftrightarrow> (\<forall>f. kf_rdErr w f = None) \<and> (\<forall>f. kf_wrErr w f = None)"

text \<open>A node whose install has been recorded with an address.\<close>

definition recorded :: "crypto \<Rightarrow> string \<Rightarrow> 'a k3s_files_scheme \<Rightarrow> bool" where
  "recorded cy n w \<longleftrightarrow> (\<exists>s. map_of (kf_nodes w) n = Some s \<and> ns_vmIP s \<noteq> [] \<and> cy_validIP cy (ns_vmIP s))"

text \<open>
  What the cluster apply relies on: a child that is dispatched is applied, the record of a K3sNode is written by its
  apply and not undone by later ones, and the files stay accessible.
\<close>

definition provisions :: "crypto \<Rightarrow> 'a k3s_files_scheme child_dispatcher \<Rightarrow> bool" where
  "provisions cy cd \<longleftrightarrow>
     (\<forall>r w. ioOk w \<longrightarrow> (\<exists>x w'. ch_apply cd r w = (Inr x, w') \<and> ioOk w' \<and> (\<forall>n. recorded cy n w \<longrightarrow> recorded cy n w') \<and>
        (r_kind r = ''K3sNode'' \<longrightarrow> recorded cy (r_name r) w')))"

definition cryptoOk :: "crypto \<Rightarrow> bool" where
  "cryptoOk cy \<longleftrightarrow> (\<forall>c. isOk (cy_ca cy c)) \<and> (\<forall>a b. isOk (cy_client cy a b)) \<and> (\<forall>a b n. isOk (cy_leaf cy a b n)) \<and>
     (\<forall>a b. cy_parseCA cy a b = None)"

lemma nodeIdentities_recorded:
  assumes "ioOk w" "\<forall>n \<in> set ns. recorded cy n w"
  shows "\<exists>ids. nodeIdentities ns w = Inr ids \<and> (\<forall>i \<in> set ids. cy_validIP cy (ni_ip i))"
  using assms(2)
proof (induction ns)
  case (Cons n ns)
  then obtain s ids where "map_of (kf_nodes w) n = Some s" "ns_vmIP s \<noteq> []" "cy_validIP cy (ns_vmIP s)"
    "nodeIdentities ns w = Inr ids" "\<forall>i \<in> set ids. cy_validIP cy (ni_ip i)" by (auto simp: recorded_def)
  then show ?case using assms(1) by (simp add: loadNodeState_def ioOk_def)
qed simp

lemma isOk_bindE_Inr [simp]: "isOk (bindE r (\<lambda>c. Inr (g c))) = isOk r"
  by (cases r) simp_all

lemma mintAll_ok:
  assumes "cryptoOk cy" "\<forall>n \<in> set ns. cy_validIP cy (ni_ip n)"
  shows "isOk (mintAll cy msg ca key ns certs)"
  using assms(2)
proof (induction ns arbitrary: certs)
  case (Cons n ns)
  obtain ck where "cy_leaf cy ca key n = Inr ck" using assms(1) unfolding cryptoOk_def isOk_iff by metis
  then show ?case using Cons by simp
qed simp

lemma bundleWriteTo_ok:
  "ioOk w \<Longrightarrow> fst (bundleWriteTo cl b w) = None \<and> ioOk (snd (bundleWriteTo cl b w)) \<and> kf_nodes (snd (bundleWriteTo cl b w)) = kf_nodes w"
  by (simp add: bundleWriteTo_def ioOk_def)

lemma materialize_ok:
  assumes "cryptoOk cy" "ioOk w" "\<forall>n \<in> set ns. recorded cy n w"
  shows "fst (materializeClusterCABundle cy cl ns w) = None \<and> ioOk (snd (materializeClusterCABundle cy cl ns w)) \<and>
    kf_nodes (snd (materializeClusterCABundle cy cl ns w)) = kf_nodes w"
proof -
  obtain ids where ids: "nodeIdentities ns w = Inr ids" "\<forall>i \<in> set (sort_key ni_name ids). cy_validIP cy (ni_ip i)"
    using nodeIdentities_recorded [OF assms(2,3)] by auto
  have persist: "fst (persistBundle m cl b w) = None \<and> ioOk (snd (persistBundle m cl b w)) \<and> kf_nodes (snd (persistBundle m cl b w)) = kf_nodes w" for m b
    using bundleWriteTo_ok [OF assms(2), of cl b] by (auto simp: persistBundle_def split: prod.splits option.splits)
  show ?thesis
  proof (cases "LoadBundle cl w")
    case (Inr b)
    let ?ms = "filter (\<lambda>n. map_of (bd_serverCerts b) (ni_name n) = None) (sort_key ni_name ids)"
    have "\<forall>n \<in> set ?ms. cy_validIP cy (ni_ip n)" using ids(2) by simp
    from mintAll_ok [OF assms(1) this] have "isOk (MintServerCerts cy ?ms b)"
      using assms(1) by (simp add: MintServerCerts_def cryptoOk_def)
    then show ?thesis using ids(1) Inr persist assms(2) by (auto simp: materializeClusterCABundle_def Let_def isOk_iff)
  next
    case (Inl e)
    obtain ca key cc ck where "cy_ca cy cl = Inr (ca, key)" "cy_client cy ca key = Inr (cc, ck)"
      using assms(1) unfolding cryptoOk_def isOk_iff by (metis surj_pair)
    with mintAll_ok [OF assms(1) ids(2)] have "isOk (GenerateBundle cy cl (sort_key ni_name ids))"
      by (simp add: GenerateBundle_def)
    then show ?thesis using ids(1) Inl persist by (auto simp: materializeClusterCABundle_def Let_def isOk_iff)
  qed
qed

lemma writeCluster_ok:
  "ioOk w \<Longrightarrow> fst (writeCluster cl d w) = None \<and> ioOk (snd (writeCluster cl d w)) \<and> kf_nodes (snd (writeCluster cl d w)) = kf_nodes w"
  by (simp add: writeCluster_def ioOk_def)

lemma runTask_mem:
  assumes "distinct (map tk_id T)" "t \<in> set T" "tk_run t = Some f"
  shows "runTask T (tk_id t) w = f w"
proof -
  have "find (\<lambda>u. tk_id u = tk_id t) T = Some t" by (rule find_key [OF assms(1,2)])
  then show ?thesis using assms(3) by (simp add: runTask_def)
qed

text \<open>The relation between the tasks done and the world.\<close>

definition planProgress :: "crypto \<Rightarrow> string list \<Rightarrow> string set \<Rightarrow> 'a k3s_files_scheme \<Rightarrow> bool" where
  "planProgress cy ns dn w \<longleftrightarrow> ioOk w \<and> (\<forall>n \<in> set ns. ''K3sNode/'' @ n \<in> dn \<longrightarrow> recorded cy n w)"

lemma childTask_progress:
  assumes "provisions cy cd" "planProgress cy ns dn w"
    and "t = applyChildTask cd es ex c" "tk_run t = Some f" "\<And>n. ChildKey c = ''K3sNode/'' @ n \<Longrightarrow> r_kind c = ''K3sNode'' \<and> r_name c = n"
  shows "fst (f w) = None \<and> planProgress cy ns (insert (ChildKey c) dn) (snd (f w))"
proof -
  obtain x w' where w': "ch_apply cd c w = (Inr x, w')" "ioOk w'" "\<forall>n. recorded cy n w \<longrightarrow> recorded cy n w'"
      "r_kind c = ''K3sNode'' \<longrightarrow> recorded cy (r_name c) w'"
    using assms(1,2) unfolding provisions_def planProgress_def by blast
  have f: "f w = (None, w')" using assms(3,4) w'(1) by (auto simp: applyChildTask_def)
  have "recorded cy n w'" if "n \<in> set ns" "''K3sNode/'' @ n \<in> insert (ChildKey c) dn" for n
  proof (cases "ChildKey c = ''K3sNode/'' @ n")
    case True
    then show ?thesis using assms(5) [OF True] w'(4) by simp
  next
    case False
    then show ?thesis using assms(2) that w'(3) by (auto simp: planProgress_def)
  qed
  then show ?thesis using f w'(2) by (simp add: planProgress_def)
qed

lemma stepTask_run: "tk_run (stepTask i ds msg f) = Some g \<Longrightarrow> fst (f w) = None \<Longrightarrow> g w = (None, snd (f w))"
  by (auto simp: stepTask_def split: prod.splits option.splits)

lemma planProgress_same_nodes:
  assumes "planProgress cy ns dn w" "ioOk w'" "kf_nodes w' = kf_nodes w" "\<And>n. k \<noteq> ''K3sNode/'' @ n"
  shows "planProgress cy ns (insert k dn) w'"
  using assms(1-3) assms(4) [symmetric] by (auto simp: planProgress_def recorded_def)

lemma planTasks_step:
  assumes "planOk cl spec" and T: "T = planTasks cy cd cl spec sp" and "provisions cy cd" "cryptoOk cy"
    and J: "planProgress cy (allNodeNames cl spec) dn w" and i: "i \<in> set (map tk_id T)" and deps: "set (depsOf T i) \<subseteq> dn"
  shows "fst (runTask T i w) = None \<and> planProgress cy (allNodeNames cl spec) (insert i dn) (snd (runTask T i w))"
proof -
  let ?ns = "allNodeNames cl spec"
  have dist: "distinct (map tk_id T)" unfolding T by (rule distinct_planTasks [OF firstCP_first(5) [OF assms(1)]])
  have io: "ioOk w" using J by (simp add: planProgress_def)
  obtain t where t: "t \<in> set T" "i = tk_id t" using i by auto
  consider (child) es ex c where "t = applyChildTask cd es ex c" "c \<in> set (planChildren cl spec)"
    | (stub) "t = stepTask taskStateStub (map ChildKey (planVMs cl spec)) ''save interim cluster state''
        (saveClusterStateStub cl sp ?ns ''Provisioning'' ''VMs created; installing k3s'')"
    | (ca) "t = stepTask taskCABundle (map ChildKey (planNodes cl spec)) ''materialize CA bundle'' (materializeClusterCABundle cy cl ?ns)"
    using t(1) unfolding T clusterTasks_def Let_def plan_kinds plan_keys(4,5) by (auto simp: planChildren_eq)
  then show ?thesis
  proof cases
    case child
    obtain f where f: "tk_run t = Some f" by (simp add: child(1) applyChildTask_def)
    have "r_kind c = ''K3sNode'' \<and> r_name c = n" if "ChildKey c = ''K3sNode/'' @ n" for n
      using that plan_kind [of c cl spec] child(2) by (auto simp: ChildKey_def planChildren_eq)
    then show ?thesis
      using childTask_progress [OF assms(3) J child(1) f] runTask_mem [OF dist t(1) f, of w] t(2) child(1) by simp
  next
    case stub
    let ?f = "saveClusterStateStub cl sp ?ns ''Provisioning'' ''VMs created; installing k3s''"
    obtain g where g: "tk_run t = Some g" by (simp add: stub stepTask_def)
    have "fst (?f w) = None" "ioOk (snd (?f w))" "kf_nodes (snd (?f w)) = kf_nodes w"
      using writeCluster_ok [OF io] unfolding saveClusterStateStub_def by blast+
    moreover have "planProgress cy ?ns (insert taskStateStub dn) (snd (?f w))"
      by (rule planProgress_same_nodes [OF J]) (use calculation in simp_all)
    moreover have "runTask T i w = (None, snd (?f w))"
      using stepTask_run [OF g [unfolded stub], of w] runTask_mem [OF dist t(1) g, of w] t(2) calculation(1) by simp
    moreover have "i = taskStateStub" using t(2) stub by simp
    ultimately show ?thesis by simp
  next
    case ca
    let ?f = "materializeClusterCABundle cy cl ?ns"
    obtain g where g: "tk_run t = Some g" by (simp add: ca stepTask_def)
    have "depsOf T i = nodeKeys cl spec" using planTasks_deps(4) [OF assms(1) T] t(2) ca by simp
    then have "\<forall>n \<in> set ?ns. recorded cy n w" using deps J by (auto simp: planProgress_def)
    then have "fst (?f w) = None" "ioOk (snd (?f w))" "kf_nodes (snd (?f w)) = kf_nodes w"
      using materialize_ok [OF assms(4) io] by blast+
    moreover have "planProgress cy ?ns (insert taskCABundle dn) (snd (?f w))"
      by (rule planProgress_same_nodes [OF J]) (use calculation in simp_all)
    moreover have "runTask T i w = (None, snd (?f w))"
      using stepTask_run [OF g [unfolded ca], of w] runTask_mem [OF dist t(1) g, of w] t(2) calculation(1) by simp
    moreover have "i = taskCABundle" using t(2) ca by simp
    ultimately show ?thesis by simp
  qed
qed

lemma planTasks_run:
  assumes "planOk cl spec" and T: "T = planTasks cy cd cl spec sp" and "provisions cy cd" "cryptoOk cy" "ioOk w"
    and "\<forall>ev \<in> set sched. \<not> snd ev" "2 + 3 * length (allNodeNames cl spec) \<le> length sched"
  obtains lg v where "RunGraph conc T False sched False w = ((None, lg), v)"
    "planProgress cy (allNodeNames cl spec) (set (map tk_id T)) v" "set (map fst lg) = set (map tk_id T)"
proof -
  let ?ns = "allNodeNames cl spec"
  have "length T = length (map tk_id T)" by simp
  also have "\<dots> = 2 + 3 * length ?ns" unfolding T planTasks_ids by simp
  finally have len: "length T \<le> length sched" using assms(7) by simp
  have J0: "planProgress cy ?ns {} w" using assms(5) by (simp add: planProgress_def)
  show ?thesis
    by (rule RunGraph_rule [where J = "planProgress cy ?ns", OF planTasks_wf [OF assms(1) T] assms(6) len J0])
       (use planTasks_step [OF assms(1) T assms(3,4)] that in blast)+
qed

subsection \<open>Lemmas: the authority of a cluster\<close>

lemma loadServerCerts_wf: "loadServerCerts d fs certs = Inr r \<Longrightarrow> n @ ''-server.pem'' \<in> set fs \<Longrightarrow> n @ ''-server.key'' \<in> dom (map_of d)"
proof (induction fs arbitrary: certs)
  case (Cons f fs)
  show ?case
  proof (cases "hasSuffix f ''-server.pem''")
    case True
    have t: "take (length f - length ''-server.pem'') f = n" if "f = n @ ''-server.pem''" for n using that by simp
    show ?thesis using Cons True t [of n]
      by (auto simp: bindE_Inr bundleRead_def Let_def domIff simp del: append.simps split: option.splits if_splits)
  next
    case False
    then have "f \<noteq> n @ ''-server.pem''" using hasSuffix_pem by metis
    then show ?thesis using Cons False by auto
  qed
qed simp

lemma loadServerCerts_distinct: "loadServerCerts d fs certs = Inr r \<Longrightarrow> distinct (map fst certs) \<Longrightarrow> distinct (map fst r)"
  by (induction fs arbitrary: certs) (auto simp: bindE_Inr Let_def split: if_splits)

lemma LoadBundle_Inr:
  assumes "LoadBundle cl w = Inr b"
  shows "wfBundleDir (dirOf cl w)" "map_of (bd_serverCerts b) = certsIn (dirOf cl w)" "distinct (map fst (bd_serverCerts b))"
    "kf_rdErr w (BundleDir cl) = None"
proof -
  let ?d = "dirOf cl w"
  show rd: "kf_rdErr w (BundleDir cl) = None" using assms by (auto simp: LoadBundle_def split: option.splits)
  obtain ca key cc ck certs where r: "map_of ?d ''ca.pem'' = Some ca" "map_of ?d ''ca.key'' = Some key" "map_of ?d ''client.pem'' = Some cc"
      "map_of ?d ''client.key'' = Some ck" and certs: "loadServerCerts ?d (sort (map fst ?d)) [] = Inr certs" and b: "bd_serverCerts b = certs"
    using assms rd unfolding LoadBundle_def Let_def dirOf_def [symmetric]
    by (auto simp: bindE_Inr bundleRead_def split: option.splits)
  show wf: "wfBundleDir ?d"
    unfolding wfBundleDir_def using loadServerCerts_wf [OF certs] by (simp add: dom_map_of_conv_image_fst)
  show "map_of (bd_serverCerts b) = certsIn ?d" using LoadBundle_dir [OF rd wf r] assms by auto
  show "distinct (map fst (bd_serverCerts b))" using loadServerCerts_distinct [OF certs] b by simp
qed

lemma mintAll_extends:
  assumes "mintAll cy msg ca key ns certs = Inr r"
  shows "n \<notin> ni_name ` set ns \<Longrightarrow> map_of r n = map_of certs n" "n \<in> ni_name ` set ns \<Longrightarrow> map_of r n \<noteq> None"
    "distinct (map fst certs) \<Longrightarrow> distinct (map fst r)"
proof -
  have "(n \<notin> ni_name ` set ns \<longrightarrow> map_of r n = map_of certs n) \<and> (n \<in> ni_name ` set ns \<longrightarrow> map_of r n \<noteq> None) \<and>
      (distinct (map fst certs) \<longrightarrow> distinct (map fst r))"
    using assms
  proof (induction ns arbitrary: certs)
    case (Cons m ns)
    then obtain ck where "mintAll cy msg ca key ns (putKey certs (ni_name m) ck) = Inr r"
      by (auto split: if_splits sum.splits)
    from Cons.IH [OF this] show ?case by (cases "n \<in> ni_name ` set ns") auto
  qed simp
  then show "n \<notin> ni_name ` set ns \<Longrightarrow> map_of r n = map_of certs n" "n \<in> ni_name ` set ns \<Longrightarrow> map_of r n \<noteq> None"
    "distinct (map fst certs) \<Longrightarrow> distinct (map fst r)" by auto
qed

lemma nodeIdentities_covers:
  "nodeIdentities ns w = Inr ids \<Longrightarrow> n \<in> set ns \<Longrightarrow> \<exists>s. nodeStateOf n w = Some s \<and> ns_vmName s \<in> ni_name ` set ids"
  by (induction ns arbitrary: ids) (auto simp: bindE_Inr nodeStateOf_def split: sum.splits option.splits if_splits)

lemma map_add_absorbs: "f \<subseteq>\<^sub>m g \<Longrightarrow> f ++ g = g"
proof
  fix x assume "f \<subseteq>\<^sub>m g"
  then show "(f ++ g) x = g x" by (cases "f x") (auto simp: map_le_def map_add_def dom_def split: option.splits)
qed

text \<open>Minting what is missing: what the bundle has is kept, and every identity is covered.\<close>

lemma MintServerCerts_missing:
  assumes "MintServerCerts cy (filter (\<lambda>n. map_of (bd_serverCerts b) (ni_name n) = None) ids) b = Inr b1"
    and "distinct (map fst (bd_serverCerts b))"
  shows "b1 = b\<lparr>bd_serverCerts := bd_serverCerts b1\<rparr>" "map_of (bd_serverCerts b) \<subseteq>\<^sub>m map_of (bd_serverCerts b1)"
    "ni_name ` set ids \<subseteq> dom (map_of (bd_serverCerts b1))" "distinct (map fst (bd_serverCerts b1))"
proof -
  let ?ms = "filter (\<lambda>n. map_of (bd_serverCerts b) (ni_name n) = None) ids"
  have "b1 = b\<lparr>bd_serverCerts := bd_serverCerts b1\<rparr> \<and> map_of (bd_serverCerts b) \<subseteq>\<^sub>m map_of (bd_serverCerts b1) \<and>
    ni_name ` set ids \<subseteq> dom (map_of (bd_serverCerts b1)) \<and> distinct (map fst (bd_serverCerts b1))"
  proof (cases "?ms = []")
    case True
    then have "b1 = b" using assms(1) by (simp add: MintServerCerts_def)
    then show ?thesis using True assms(2) by (auto simp: filter_empty_conv)
  next
    case False
    then obtain msg cs where cs: "mintAll cy msg (bd_caCert b) (bd_caKey b) ?ms (bd_serverCerts b) = Inr cs"
      and b1: "b1 = b\<lparr>bd_serverCerts := cs\<rparr>"
      using assms(1) unfolding MintServerCerts_def by (auto simp: bindE_Inr split: option.splits)
    note m = mintAll_extends [OF cs]
    have keep: "map_of cs n = Some c" if "map_of (bd_serverCerts b) n = Some c" for n c
    proof -
      have "n \<notin> ni_name ` set ?ms" using that by auto
      then show ?thesis using m(1) [of n] that by simp
    qed
    have cover: "ni_name i \<in> dom (map_of cs)" if "i \<in> set ids" for i
    proof (cases "map_of (bd_serverCerts b) (ni_name i)")
      case None
      then have "ni_name i \<in> ni_name ` set ?ms" using that by auto
      then show ?thesis using m(2) by auto
    next
      case (Some c)
      show ?thesis using keep [OF Some] by (rule domI)
    qed
    have "map_of (bd_serverCerts b) a = map_of cs a" if "a \<in> dom (map_of (bd_serverCerts b))" for a
      using keep domD [OF that] by metis
    then have "map_of (bd_serverCerts b) \<subseteq>\<^sub>m map_of cs" by (simp add: map_le_def)
    moreover have "ni_name ` set ids \<subseteq> dom (map_of cs)" using cover by (rule image_subsetI)
    ultimately show ?thesis using b1 m(3) assms(2) by simp
  qed
  then show "b1 = b\<lparr>bd_serverCerts := bd_serverCerts b1\<rparr>" "map_of (bd_serverCerts b) \<subseteq>\<^sub>m map_of (bd_serverCerts b1)"
    "ni_name ` set ids \<subseteq> dom (map_of (bd_serverCerts b1))" "distinct (map fst (bd_serverCerts b1))" by blast+
qed

subsection \<open>Properties\<close>

text \<open>The example: a cluster with one control plane and two workers, and a dispatcher that records every install.\<close>

definition sampleClusterManifest :: resource where
  "sampleClusterManifest = (bareResource ''k3s.openctl.io/v1'' ''Cluster'' ''dev'')\<lparr>r_spec := Some
     [(''nodes'', VObj [(''controlPlane'', VObj [(''count'', VFloat 1)]), (''workers'', VArr [VObj [(''count'', VFloat 2)]])])]\<rparr>"

definition sampleChildDispatcher :: "k3s_files child_dispatcher" where
  "sampleChildDispatcher =
     \<lparr>ch_apply = (\<lambda>r w. (Inr None, if r_kind r = ''K3sNode''
         then w\<lparr>kf_nodes := putKey (kf_nodes w) (r_name r) \<lparr>ns_name = r_name r, ns_vmName = r_name r, ns_vmIP = ''10.0.0.1'', ns_role = ''server'',
            ns_installed = True, ns_nodeToken = [], ns_kubeconfig = [], ns_installedAt = []\<rparr>\<rparr> else w)),
      ch_delete = (\<lambda>r w. (None, w))\<rparr>"

definition sampleCrypto :: crypto where
  "sampleCrypto = \<lparr>cy_ca = (\<lambda>c. Inr (''ca'', ''key'')), cy_client = (\<lambda>a b. Inr (''cert'', ''key'')), cy_leaf = (\<lambda>a b n. Inr (''cert'', ''key'')),
     cy_parseCA = (\<lambda>a b. None), cy_validIP = (\<lambda>s. s \<noteq> [])\<rparr>"

lemma sampleClusterManifest_nodes:
  "allNodeNames ''dev'' (ParseClusterSpec sampleClusterManifest) = [''dev-cp-0'', ''dev-worker-0'', ''dev-worker-1'']"
  "poolNames (ParseClusterSpec sampleClusterManifest) = [''cp'', ''worker'']"
  "fst (NodeNames ''dev'' (ParseClusterSpec sampleClusterManifest)) = [''dev-cp-0'']"
  "r_name sampleClusterManifest = ''dev''" "r_kind sampleClusterManifest = ''Cluster''"
proof -
  have n: "cs_nodes (ParseClusterSpec sampleClusterManifest) =
      \<lparr>nd_controlPlane = emptyPool\<lparr>pl_count := 1\<rparr>, nd_workers = [control_plane_spec.extend (emptyPool\<lparr>pl_count := 2\<rparr>) \<lparr>wk_name = []\<rparr>]\<rparr>"
    by (simp add: sampleClusterManifest_def bareResource_def ParseClusterSpec_def objField_def objGet_def parseNodes_def parsePool_def parseWorker_def
        arrField_def objsOf_def List.map_filter_simps intField_def truncRat_def strField_def parseStringSlice_def parsePlacementTargets_def emptyPool_def)
  show "allNodeNames ''dev'' (ParseClusterSpec sampleClusterManifest) = [''dev-cp-0'', ''dev-worker-0'', ''dev-worker-1'']"
    "poolNames (ParseClusterSpec sampleClusterManifest) = [''cp'', ''worker'']"
    "fst (NodeNames ''dev'' (ParseClusterSpec sampleClusterManifest)) = [''dev-cp-0'']"
    by (simp_all add: allNodeNames_def NodeNames_def n poolNames_def poolName_def poolNodes_def nodeName_def emptyPool_def control_plane_spec.defs
        numeral_2_eq_2 digits.simps digit_chars)
  show "r_name sampleClusterManifest = ''dev''" "r_kind sampleClusterManifest = ''Cluster''"
    by (simp_all add: sampleClusterManifest_def bareResource_def bareMetadata_def)
qed

lemma sampleClusterManifest_plan: "Plan sampleClusterManifest = Inr (planChildren ''dev'' (ParseClusterSpec sampleClusterManifest))"
  using sampleClusterManifest_nodes(3-5) by (simp add: Plan_def)

lemma sample_provisions: "provisions sampleCrypto sampleChildDispatcher" "cryptoOk sampleCrypto" "ioOk emptyFiles"
  by (auto simp: provisions_def sampleChildDispatcher_def recorded_def sampleCrypto_def ioOk_def cryptoOk_def emptyFiles_def)



text \<open>
  C22. Order of a cluster apply: in every run of the task graph, whatever fails, however results interleave and whenever the
  context is canceled, a k3s install starts only after its VM and the interim state file are done, a joining node only
  after the first control plane, the interim state file only after every VM, and an agent only after the CA bundle,
  which needs every k3s install.
\<close>
theorem cluster_apply_order:
  assumes "planOk cl spec"
    and "RunGraph conc (clusterTasks cy cd cl sp (planChildren cl spec)) c0 sched c1 w = ((e, lg), w')"
    and "i < length lg"
  shows "let before = set (take i lg); ns = allNodeNames cl spec in
     (\<forall>n \<in> set ns. fst (lg ! i) = ''K3sNode/'' @ n \<longrightarrow>
         (''VirtualMachine/'' @ n, None) \<in> before \<and> (taskStateStub, None) \<in> before \<and>
         (n \<noteq> firstCP cl spec \<longrightarrow> (''K3sNode/'' @ firstCP cl spec, None) \<in> before))
   \<and> (fst (lg ! i) = taskStateStub \<longrightarrow> (\<forall>n \<in> set ns. (''VirtualMachine/'' @ n, None) \<in> before))
   \<and> (fst (lg ! i) = taskCABundle \<longrightarrow> (\<forall>n \<in> set ns. (''K3sNode/'' @ n, None) \<in> before))
   \<and> (\<forall>n \<in> set ns. fst (lg ! i) = ''AgentInstall/'' @ n @ ''-agent'' \<longrightarrow> (taskCABundle, None) \<in> before)"
proof -
  let ?T = "clusterTasks cy cd cl sp (planChildren cl spec)" and ?ns = "allNodeNames cl spec"
  note d = planTasks_deps [OF assms(1) refl, where cy = cy and cd = cd and sp = sp] and f = firstCP_first [OF assms(1)]
  have before: "(y, None) \<in> set (take i lg)" if "y \<in> set (depsOf ?T (fst (lg ! i)))" for y
    using RunGraph_ordered [OF assms(2)] assms(3) that by blast
  have node: "(''VirtualMachine/'' @ n, None) \<in> set (take i lg) \<and> (taskStateStub, None) \<in> set (take i lg) \<and>
      (n \<noteq> firstCP cl spec \<longrightarrow> (''K3sNode/'' @ firstCP cl spec, None) \<in> set (take i lg))"
    if n: "n \<in> set ?ns" and k: "fst (lg ! i) = ''K3sNode/'' @ n" for n
  proof -
    obtain j where j: "j < length ?ns" "n = ?ns ! j" using n by (auto simp: in_set_conv_nth)
    have "j \<noteq> 0" if "n \<noteq> firstCP cl spec" using that f(3) j(2) by metis
    then show ?thesis using before d(3) [OF j(1)] k j(2) by auto
  qed
  have ag: "(taskCABundle, None) \<in> set (take i lg)" if "n \<in> set ?ns" "fst (lg ! i) = ''AgentInstall/'' @ n @ ''-agent''" for n
    using before d(5) [OF that(1)] that(2) by simp
  show ?thesis unfolding Let_def using node ag before d(2,4) by auto
qed

theorem cluster_apply_order_witness:
  "\<exists>lg w' i. RunGraph 2 (clusterTasks sampleCrypto sampleChildDispatcher ''dev'' None (planChildren ''dev'' (ParseClusterSpec sampleClusterManifest)))
      False (replicate 11 (1, False)) False emptyFiles = ((None, lg), w') \<and> i < length lg \<and> fst (lg ! i) = taskCABundle \<and>
    (''K3sNode/dev-worker-1'', None) \<in> set (take i lg)"
proof -
  let ?spec = "ParseClusterSpec sampleClusterManifest"
  have ok: "planOk ''dev'' ?spec" using sampleClusterManifest_nodes by (simp add: planOk_def)
  obtain lg v where run: "RunGraph 2 (clusterTasks sampleCrypto sampleChildDispatcher ''dev'' None (planChildren ''dev'' ?spec))
      False (replicate 11 (1, False)) False emptyFiles = ((None, lg), v)"
    and all: "set (map fst lg) = set (map tk_id (clusterTasks sampleCrypto sampleChildDispatcher ''dev'' None (planChildren ''dev'' ?spec)))"
    by (rule planTasks_run [OF ok refl sample_provisions, where conc = 2 and sp = None and sched = "replicate 11 (1, False)"])
       (use sampleClusterManifest_nodes in auto)
  have "taskCABundle \<in> set (map fst lg)" unfolding all planTasks_ids by simp
  then obtain i where "i < length lg" "fst (lg ! i) = taskCABundle" by (auto simp: in_set_conv_nth)
  then show ?thesis
    using cluster_apply_order [OF ok run, of i] run sampleClusterManifest_nodes(1) by (auto simp: Let_def)
qed



text \<open>
  C24. The authority of a cluster survives: when a bundle can be loaded, materializing it again keeps the CA and the client
  pair and every server certificate it holds, and adds one for each node of the plan that has none, so that agents
  installed earlier keep trusting the controller and the others.
\<close>
theorem ca_bundle_stable:
  assumes "LoadBundle cl w = Inr b" "materializeClusterCABundle cy cl ns w = (None, w')" "kf_wrErr w (BundleDir cl) = None"
  shows "\<exists>b'. LoadBundle cl w' = Inr b' \<and> bd_caCert b' = bd_caCert b \<and> bd_caKey b' = bd_caKey b \<and>
    bd_clientCert b' = bd_clientCert b \<and> bd_clientKey b' = bd_clientKey b \<and>
    (\<forall>n c. map_of (bd_serverCerts b) n = Some c \<longrightarrow> map_of (bd_serverCerts b') n = Some c) \<and>
    (\<forall>n \<in> set ns. \<exists>s c. nodeStateOf n w = Some s \<and> map_of (bd_serverCerts b') (ns_vmName s) = Some c)"
proof -
  note l = LoadBundle_Inr [OF assms(1)]
  obtain ids where ids: "nodeIdentities ns w = Inr ids" using assms(2) by (auto simp: materializeClusterCABundle_def split: sum.splits)
  let ?ids = "sort_key ni_name ids"
  let ?ms = "filter (\<lambda>n. map_of (bd_serverCerts b) (ni_name n) = None) ?ids"
  have covered: "\<exists>s. nodeStateOf n w = Some s \<and> ns_vmName s \<in> ni_name ` set ?ids" if "n \<in> set ns" for n
    using nodeIdentities_covers [OF ids that] by simp
  obtain b1 where b1: "MintServerCerts cy ?ms b = Inr b1" and w': "?ms = [] \<and> b1 = b \<and> w' = w \<or> w' = snd (bundleWriteTo cl b1 w)"
    using assms(2) ids assms(1) unfolding materializeClusterCABundle_def Let_def persistBundle_def
    by (auto simp: MintServerCerts_def split: if_splits sum.splits prod.splits option.splits)
  note m = MintServerCerts_missing [OF b1 l(3)]
  obtain certs where load: "LoadBundle cl w' = Inr (b\<lparr>bd_serverCerts := certs\<rparr>)" and certs: "map_of certs = map_of (bd_serverCerts b1)"
  proof (cases "w' = w \<and> b1 = b")
    case True
    then show ?thesis using that [of "bd_serverCerts b"] assms(1) by simp
  next
    case False
    then have "w' = snd (bundleWriteTo cl b1 w)" using w' by blast
    then obtain cs where "LoadBundle cl w' = Inr (b1\<lparr>bd_serverCerts := cs\<rparr>)" "map_of cs = map_of (bd_serverCerts b) ++ map_of (bd_serverCerts b1)"
      using LoadBundle_written [OF assms(3) l(4) m(4) l(1)] l(2) by auto
    moreover have "map_of (bd_serverCerts b) ++ map_of (bd_serverCerts b1) = map_of (bd_serverCerts b1)" by (rule map_add_absorbs [OF m(2)])
    moreover have "b1\<lparr>bd_serverCerts := cs\<rparr> = b\<lparr>bd_serverCerts := cs\<rparr>" for cs by (subst m(1)) simp
    ultimately show ?thesis using that [of cs] by simp
  qed
  have "\<exists>s c. nodeStateOf n w = Some s \<and> map_of certs (ns_vmName s) = Some c" if "n \<in> set ns" for n
    using covered [OF that] m(3) certs by (metis (no_types, lifting) domD subsetD)
  then show ?thesis using load certs m(2) by (auto simp: map_le_def dom_def)
qed

definition sampleCertBundle :: cert_bundle where
  "sampleCertBundle = \<lparr>bd_caCert = ''c0'', bd_caKey = ''k0'', bd_clientCert = ''c1'', bd_clientKey = ''k1'', bd_serverCerts = []\<rparr>"

definition bundledFiles :: k3s_files where
  "bundledFiles = emptyFiles\<lparr>kf_bundles := [(''dev'', bundleFiles sampleCertBundle)]\<rparr>"

theorem ca_bundle_stable_witness:
  "\<exists>b'. LoadBundle ''dev'' (snd (materializeClusterCABundle sampleCrypto ''dev'' [''n0'']
      (snd (ch_apply sampleChildDispatcher (bareResource [] ''K3sNode'' ''n0'') bundledFiles)))) = Inr b' \<and> bd_caCert b' = ''c0'' \<and>
    (\<exists>c. map_of (bd_serverCerts b') ''n0'' = Some c)"
proof -
  let ?w = "snd (ch_apply sampleChildDispatcher (bareResource [] ''K3sNode'' ''n0'') bundledFiles)"
  have w: "ioOk ?w" and r: "recorded sampleCrypto ''n0'' ?w"
    by (simp_all add: sampleChildDispatcher_def bundledFiles_def emptyFiles_def ioOk_def recorded_def sampleCrypto_def bareResource_def bareMetadata_def)
  have l: "LoadBundle ''dev'' ?w = Inr sampleCertBundle"
    by code_simp
  have "materializeClusterCABundle sampleCrypto ''dev'' [''n0''] ?w = (None, snd (materializeClusterCABundle sampleCrypto ''dev'' [''n0''] ?w))"
    using materialize_ok [OF sample_provisions(2) w, of "[''n0'']" "''dev''"] r by (simp add: prod_eq_iff)
  from ca_bundle_stable [OF l this] w
  obtain b' where b': "LoadBundle ''dev'' (snd (materializeClusterCABundle sampleCrypto ''dev'' [''n0''] ?w)) = Inr b'" "bd_caCert b' = ''c0''"
      "\<exists>s c. nodeStateOf ''n0'' ?w = Some s \<and> map_of (bd_serverCerts b') (ns_vmName s) = Some c"
    by (auto simp: ioOk_def sampleCertBundle_def)
  then show ?thesis
    by (auto simp: nodeStateOf_def loadNodeState_def sampleChildDispatcher_def bareResource_def bareMetadata_def bundledFiles_def emptyFiles_def)
qed

text \<open>
  Two worker pools of one name, for instance two without a name, give two children the same key: the graph is refused
  and nothing is applied.
\<close>
theorem same_pool_twice_refused:
  assumes "Plan manifest = Inr children"
    and "nd_workers (cs_nodes (ParseClusterSpec manifest)) = ws1 @ p # ws2 @ q # ws3"
    and "poolName p = poolName q" "0 < pl_count p" "0 < pl_count q"
  shows "\<exists>e. applyClusterViaPlan cy cd conc c0 sched c1 manifest w = (Inl e, w)"
proof -
  let ?cl = "r_name manifest" and ?spec = "ParseClusterSpec manifest"
  let ?T = "clusterTasks cy cd ?cl (r_spec manifest) (planChildren ?cl ?spec)"
  have c: "children = planChildren ?cl ?spec" and cps: "fst (NodeNames ?cl ?spec) \<noteq> []"
    using assms(1) by (auto simp: Plan_def Let_def split: if_splits)
  have in1: "nodeName ?cl (poolName p) 0 \<in> set (poolNodes ?cl (poolName p) (pl_count p))"
      and in2: "nodeName ?cl (poolName p) 0 \<in> set (poolNodes ?cl (poolName q) (pl_count q))"
    using assms(3-5) by (simp_all add: pool_of_nodeName)
  have "\<not> distinct (allNodeNames ?cl ?spec)"
  proof
    assume "distinct (allNodeNames ?cl ?spec)"
    then have "set (poolNodes ?cl (poolName p) (pl_count p)) \<inter> set (poolNodes ?cl (poolName q) (pl_count q)) = {}"
      unfolding allNodeNames_def NodeNames_def assms(2) by auto
    then show False using in1 in2 by blast
  qed
  then have "\<not> distinct (vmKeys ?cl ?spec)" by (simp add: distinct_map)
  then have "\<not> wfTasks ?T" unfolding wfTasks_def planTasks_ids by (metis distinct_append)
  then obtain e where run: "RunGraph conc ?T c0 sched c1 w = ((Some e, []), w)"
    using RunGraph_cases [of conc ?T c0 sched c1 w] by metis
  have "allNodeNames ?cl ?spec \<noteq> []" using cps by (simp add: allNodeNames_def)
  then have "planVMs ?cl ?spec \<noteq> []" "planNodes ?cl ?spec \<noteq> []"
    using plan_keys(4,5) [of ?cl ?spec] by (metis list.map_disc_iff)+
  then show ?thesis using assms(1) run by (simp add: applyClusterViaPlan_def c plan_kinds Let_def)
qed

definition samePoolsManifest :: resource where
  "samePoolsManifest = (bareResource ''k3s.openctl.io/v1'' ''Cluster'' ''dev'')\<lparr>r_spec := Some
     [(''nodes'', VObj [(''controlPlane'', VObj [(''count'', VFloat 1)]), (''workers'', VArr [VObj [(''count'', VFloat 1)], VObj [(''count'', VFloat 1)]])])]\<rparr>"

theorem same_pool_twice_refused_witness:
  "\<exists>e. applyClusterViaPlan sampleCrypto sampleChildDispatcher 1 False [(0, False)] False samePoolsManifest emptyFiles = (Inl e, emptyFiles)"
proof -
  let ?pool = "control_plane_spec.extend (emptyPool\<lparr>pl_count := 1\<rparr>) \<lparr>wk_name = []\<rparr>"
  have n: "cs_nodes (ParseClusterSpec samePoolsManifest) = \<lparr>nd_controlPlane = emptyPool\<lparr>pl_count := 1\<rparr>, nd_workers = [] @ ?pool # [] @ ?pool # []\<rparr>"
    by (simp add: samePoolsManifest_def bareResource_def ParseClusterSpec_def objField_def objGet_def parseNodes_def parsePool_def parseWorker_def
        arrField_def objsOf_def List.map_filter_simps intField_def truncRat_def strField_def parseStringSlice_def parsePlacementTargets_def emptyPool_def)
  have "Plan samePoolsManifest = Inr (planChildren ''dev'' (ParseClusterSpec samePoolsManifest))"
    unfolding Plan_def Let_def NodeNames_def n by (simp add: samePoolsManifest_def bareResource_def bareMetadata_def poolNodes_def)
  then show ?thesis
    by (rule same_pool_twice_refused [of _ _ "[]" ?pool "[]" ?pool "[]"]) (simp_all add: n emptyPool_def control_plane_spec.defs)
qed

subsection \<open>Addresses in the plan\<close>

text \<open>The address a manifest asks for: on the first interface of a VM, and in the field that tells the installers where to connect.\<close>

definition vmAddress :: "resource \<Rightarrow> string" where
  "vmAddress c =
     (case objField (objOr (r_spec c)) ''cloudInit'' of
        None \<Rightarrow> []
      | Some ci \<Rightarrow> (case objField ci ''ipConfig'' of
            None \<Rightarrow> []
          | Some ic \<Rightarrow> (case objField ic ''net0'' of None \<Rightarrow> [] | Some net \<Rightarrow> strField net ''ip'')))"

definition installAddress :: "resource \<Rightarrow> string" where
  "installAddress c = strField (objOr (r_spec c)) ''vmIP''"

lemma map_of_json: "map_of (jsonObj m) k = map_option jsonVal (map_of m k)"
  by (induction m) auto

lemma objField_json: "objField (jsonObj m) k = map_option jsonObj (objField m k)"
  by (cases "map_of m k" rule: option.exhaust) (auto simp: objField_def objGet_def map_of_json split: val.splits elim!: jsonVal.elims)

lemma strField_json: "strField (jsonObj m) k = strField m k"
  by (auto simp: strField_def objGet_def map_of_json split: val.splits option.splits elim!: jsonVal.elims)

lemma objField_putKey: "objField (putKey m k v) x = (if x = k then (case v of VObj o1 \<Rightarrow> Some o1 | _ \<Rightarrow> None) else objField m x)"
  by (simp add: objField_def objGet_def)

definition ipConfigOf :: "obj \<Rightarrow> obj option" where
  "ipConfigOf m = Option.bind (objField m ''cloudInit'') (\<lambda>ci. objField ci ''ipConfig'')"

lemma ipConfig_kept:
  "ipConfigOf (withPlacement t m) = ipConfigOf m" "ipConfigOf (withImage im m) = ipConfigOf m" "ipConfigOf (ApplyGPUToVMSpec m g) = ipConfigOf m"
  by (auto simp: ipConfigOf_def withPlacement_def withImage_def ApplyGPUToVMSpec_def Let_def objField_putKey split: option.splits)

lemma ipConfig_nodePrep: "objField m ''cloudInit'' \<noteq> None \<Longrightarrow> ipConfigOf (ApplyNodePrepToVMSpec m np) = ipConfigOf m"
  by (auto simp: ipConfigOf_def ApplyNodePrepToVMSpec_def Let_def objField_putKey split: option.splits)

lemma cloudInit_kept:
  "objField (withPlacement t m) ''cloudInit'' = objField m ''cloudInit''" "objField (withImage im m) ''cloudInit'' = objField m ''cloudInit''"
  "objField (ApplyGPUToVMSpec m g) ''cloudInit'' = objField m ''cloudInit''"
  by (auto simp: withPlacement_def withImage_def ApplyGPUToVMSpec_def Let_def objField_putKey split: option.splits)

lemma vmAddress_json:
  "vmAddress \<lparr>r_apiVersion = av, r_kind = k, r_metadata = md, r_spec = Some (jsonObj m), r_status = st\<rparr> =
     (case ipConfigOf m of None \<Rightarrow> [] | Some ic \<Rightarrow> (case objField ic ''net0'' of None \<Rightarrow> [] | Some net \<Rightarrow> strField net ''ip''))"
  by (auto simp: vmAddress_def ipConfigOf_def objOr_def objField_json strField_json split: option.splits)

lemma vmAddress_vmChild:
  "vmAddress (normalizeSpec (vmChild cl spec cps i n)) =
     (case nw_staticIPs (cs_network spec) of
        Some st \<Rightarrow> if strGet (planIPs cl spec) n \<noteq> [] then strGet (planIPs cl spec) n @ ''/'' @ si_netmask st else ''dhcp''
      | None \<Rightarrow> ''dhcp'')"
proof -
  let ?ip = "strGet (planIPs cl spec) n" and ?t = "placementOf (PlacementTargets cl spec) n"
    and ?sz = "sizeForNode (int i) (int (length cps)) spec"
  let ?m = "vmBaseSpec ?sz ?ip ?t spec"
  have ci: "objField ?m ''cloudInit'' = Some [(''user'', VStr (sh_user (cs_ssh spec))), (''sshKeys'', strList (sh_publicKeys (cs_ssh spec))),
      (''ipConfig'', VObj (vmIpConfig ?ip spec))]"
    by (simp add: vmBaseSpec_def objField_def objGet_def)
  then have ic: "ipConfigOf ?m = Some (vmIpConfig ?ip spec)" by (simp add: ipConfigOf_def) (simp add: objField_def objGet_def)
  have "vmAddress (normalizeSpec (vmChild cl spec cps i n)) =
      (case objField (vmIpConfig ?ip spec) ''net0'' of None \<Rightarrow> [] | Some net \<Rightarrow> strField net ''ip'')"
    unfolding vmChild_def buildVMManifest_def normalizeSpec_def Let_def
    by (simp add: vmAddress_json ipConfig_nodePrep cloudInit_kept ci ipConfig_kept ic)
  then show ?thesis by (simp add: vmIpConfig_def objField_def objGet_def strField_def split: option.splits)
qed

lemma installAddress_json:
  "installAddress \<lparr>r_apiVersion = av, r_kind = k, r_metadata = md, r_spec = Some (jsonObj m), r_status = st\<rparr> = strField m ''vmIP''"
  by (simp add: installAddress_def objOr_def strField_json)

lemma strField_putKey: "strField (putKey m k v) x = (if x = k then (case v of VStr s \<Rightarrow> s | _ \<Rightarrow> []) else strField m x)"
  by (simp add: strField_def objGet_def)

lemma strField_dropKey: "x \<noteq> k \<Longrightarrow> strField (dropKey m k) x = strField m x"
  by (simp add: strField_def objGet_def)

lemma strField_nodeOptional: "strField m ''vmIP'' = [] \<Longrightarrow> strField (nodeOptional ip spec m) ''vmIP'' = ip"
  by (simp add: nodeOptional_def Let_def strField_putKey)

lemma installAddress_children:
  "installAddress (normalizeSpec (k3sNodeChild cl spec cps i n)) = strGet (planIPs cl spec) n"
  "installAddress (normalizeSpec (agentChild cl spec n)) = strGet (planIPs cl spec) n"
proof -
  have "strField (nodeOptional ip spec [(''vmRef'', a), (''role'', b), (''joinFrom'', c), (''joinURLFrom'', d), (''ssh'', e)]) ''vmIP'' = ip" for ip a b c d e
    by (rule strField_nodeOptional) (simp add: strField_def objGet_def)
  then show "installAddress (normalizeSpec (k3sNodeChild cl spec cps i n)) = strGet (planIPs cl spec) n"
    by (simp add: k3sNodeChild_def buildK3sNodeManifest_def normalizeSpec_def Let_def installAddress_json strField_putKey strField_dropKey)
  have "strField [(''vmRef'', a), (''clusterName'', b), (''ssh'', c)] ''vmIP'' = []" for a b c by (simp add: strField_def objGet_def)
  then show "installAddress (normalizeSpec (agentChild cl spec n)) = strGet (planIPs cl spec) n"
    unfolding agentChild_def buildAgentInstallManifest_def normalizeSpec_def Let_def
    by (simp add: installAddress_json strField_putKey del: putKey.simps)
qed

text \<open>
  The addresses of a plan: the installers of a node are told the address the allocator gave it.  Its VM is configured
  with the same address when the range is the cluster's own, but with DHCP when the address comes from the range of a
  placement context, because the VM manifest looks at the cluster's range only.
\<close>
theorem plan_addresses:
  assumes "Plan manifest = Inr children" "c \<in> set children"
  shows "let spec = ParseClusterSpec manifest; ip = (\<lambda>n. strGet (planIPs (r_name manifest) spec) n) in
    (\<forall>n. ChildKey c = ''K3sNode/'' @ n \<or> ChildKey c = ''AgentInstall/'' @ n @ ''-agent'' \<longrightarrow> installAddress c = ip n) \<and>
    (\<forall>n. ChildKey c = ''VirtualMachine/'' @ n \<longrightarrow> vmAddress c =
       (case nw_staticIPs (cs_network spec) of
          Some st \<Rightarrow> if ip n \<noteq> [] then ip n @ ''/'' @ si_netmask st else ''dhcp''
        | None \<Rightarrow> ''dhcp''))"
proof -
  let ?cl = "r_name manifest" and ?spec = "ParseClusterSpec manifest"
  have "c \<in> set (planChildren ?cl ?spec)" using assms by (auto simp: Plan_def Let_def split: if_splits)
  then consider (vm) i m where "c = normalizeSpec (vmChild ?cl ?spec (fst (NodeNames ?cl ?spec)) i m)"
    | (node) i m where "c = normalizeSpec (k3sNodeChild ?cl ?spec (fst (NodeNames ?cl ?spec)) i m)"
    | (agent) m where "c = normalizeSpec (agentChild ?cl ?spec m)"
    by (auto simp: planChildren_eq planVMs_def planNodes_def planAgents_def)
  then show ?thesis
  proof cases
    case vm
    then show ?thesis by (simp add: Let_def vmAddress_vmChild)
  next
    case node
    then show ?thesis by (simp add: Let_def installAddress_children)
  next
    case agent
    then show ?thesis by (simp add: Let_def installAddress_children)
  qed
qed

definition perContextManifest :: resource where
  "perContextManifest = (bareResource ''k3s.openctl.io/v1'' ''Cluster'' ''dev'')\<lparr>r_spec := Some
     [(''compute'', VObj [(''provider'', VStr ''proxmox''), (''context'', VStr ''siteA'')]),
      (''nodes'', VObj [(''controlPlane'', VObj [(''count'', VFloat 1)])]),
      (''network'', VObj [(''perContext'', VObj [(''siteA'', VObj [(''staticIPs'', VObj [(''startIP'', VStr ''10.1.0.10'')])])])])]\<rparr>"

lemma perContextManifest_ips: "strGet (planIPs ''dev'' (ParseClusterSpec perContextManifest)) ''dev-cp-0'' = ''10.1.0.10''"
  by code_simp

lemma perContextManifest_spec: "nw_staticIPs (cs_network (ParseClusterSpec perContextManifest)) = None"
  "NodeNames ''dev'' (ParseClusterSpec perContextManifest) = ([''dev-cp-0''], [])"
  by code_simp+

lemma perContextManifest_plan: "Plan perContextManifest = Inr (planChildren ''dev'' (ParseClusterSpec perContextManifest))"
proof -
  have "r_name perContextManifest = ''dev''" "r_kind perContextManifest = ''Cluster''"
    by (simp_all add: perContextManifest_def bareResource_def bareMetadata_def)
  then show ?thesis using perContextManifest_spec(2) by (simp add: Plan_def)
qed

theorem plan_addresses_witness:
  "(\<exists>c \<in> set (projr (Plan perContextManifest)). ChildKey c = ''VirtualMachine/dev-cp-0'' \<and> vmAddress c = ''dhcp'') \<and>
   (\<exists>c \<in> set (projr (Plan perContextManifest)). ChildKey c = ''K3sNode/dev-cp-0'' \<and> installAddress c = ''10.1.0.10'')"
proof -
  have p: "Plan perContextManifest = Inr (projr (Plan perContextManifest))" by (simp add: perContextManifest_plan)
  have n: "r_name perContextManifest = ''dev''" by (simp add: perContextManifest_def bareResource_def bareMetadata_def)
  have "map ChildKey (projr (Plan perContextManifest)) = [''VirtualMachine/dev-cp-0'', ''K3sNode/dev-cp-0'', ''AgentInstall/dev-cp-0-agent'']"
    using perContextManifest_spec(2) by (simp add: perContextManifest_plan planChildren_eq allNodeNames_def)
  from arg_cong [OF this, of set]
  have k: "ChildKey ` set (projr (Plan perContextManifest)) = {''VirtualMachine/dev-cp-0'', ''K3sNode/dev-cp-0'', ''AgentInstall/dev-cp-0-agent''}"
    by simp
  have in1: "''VirtualMachine/dev-cp-0'' \<in> ChildKey ` set (projr (Plan perContextManifest))" and
    in2: "''K3sNode/dev-cp-0'' \<in> ChildKey ` set (projr (Plan perContextManifest))" unfolding k by simp_all
  from in1 obtain v where v: "v \<in> set (projr (Plan perContextManifest))" "ChildKey v = ''VirtualMachine/dev-cp-0''" by (rule imageE) simp
  from in2 obtain u where u: "u \<in> set (projr (Plan perContextManifest))" "ChildKey u = ''K3sNode/dev-cp-0''" by (rule imageE) simp
  have "vmAddress v = ''dhcp''" using plan_addresses [OF p v(1)] v(2) perContextManifest_spec(1) by (simp add: Let_def)
  moreover have "installAddress u = ''10.1.0.10''"
    using plan_addresses [OF p u(1)] u(2) perContextManifest_ips n by (simp add: Let_def)
  ultimately show ?thesis using v u by (intro conjI bexI [of _ v] bexI [of _ u])
qed

end
