(* ===== verification/K3sNodeOps.thy ===== *)
theory K3sNodeOps
  imports K3sState
begin

text \<open>
  The two leaf kinds of the cluster provider: internal/controller/providers/k3s/node_ops.go (a K3sNode is one k3s
  install on one VM), agent_ops.go (an AgentInstall is one openctl agent on one VM), vm_ready.go, and
  pkg/k3s/agent/bootstrap/bootstrap.go, which uploads and starts the agent.

  The VM provider and SSH are parameters: records of functions over the world.  A loop that waits is given one
  \<open>poll\<close> per round: whether the context ended, whether the clock had passed the deadline, and what other actors did to
  the world while it slept.  It returns \<open>None\<close> when the rounds are used up before it ended.
\<close>

record 'w vm_provider =
  vp_get :: "string \<Rightarrow> string \<Rightarrow> 'w \<Rightarrow> err + resource option"
  vp_delete :: "string \<Rightarrow> string \<Rightarrow> 'w \<Rightarrow> err option \<times> 'w"
  vp_apply :: "resource \<Rightarrow> 'w \<Rightarrow> (err + resource option) \<times> 'w"

text \<open>
  \<open>so_connect host user key\<close> is \<^verbatim>\<open>ssh.WaitForSSH\<close>; on the connection to a host, \<open>so_run\<close> is \<^verbatim>\<open>client.RunSudo\<close>,
  \<open>so_plain\<close> is \<^verbatim>\<open>client.Run\<close> and \<open>so_upload\<close> is \<^verbatim>\<open>client.UploadSudo\<close>.
\<close>

record 'w ssh_ops =
  so_connect :: "string \<Rightarrow> string \<Rightarrow> string \<Rightarrow> 'w \<Rightarrow> err option \<times> 'w"
  so_run :: "string \<Rightarrow> string \<Rightarrow> 'w \<Rightarrow> (err + string) \<times> 'w"
  so_plain :: "string \<Rightarrow> string \<Rightarrow> 'w \<Rightarrow> (err + string) \<times> 'w"
  so_upload :: "string \<Rightarrow> string \<Rightarrow> string \<Rightarrow> nat \<Rightarrow> 'w \<Rightarrow> err option \<times> 'w"

record 'w poll =
  po_ctx :: "err option"
  po_late :: bool
  po_done :: "err option"
  po_other :: "'w \<Rightarrow> 'w"

subsection \<open>Waiting for the address of a VM (vm_ready.go)\<close>

fun waitForVMIP :: "'w vm_provider option \<Rightarrow> string \<Rightarrow> 'w poll list \<Rightarrow> 'w \<Rightarrow> ((err + string) \<times> 'w) option" where
  "waitForVMIP None vmName polls w = Some (Inr [], w)"
| "waitForVMIP (Some vms) vmName [] w = None"
| "waitForVMIP (Some vms) vmName (p # ps) w =
     (case po_ctx p of
        Some e \<Rightarrow> Some (Inl e, w)
      | None \<Rightarrow>
          let ip = (case vp_get vms ''VirtualMachine'' vmName w of Inr (Some r) \<Rightarrow> strField (objOr (r_status r)) ''ip'' | _ \<Rightarrow> [])
          in if ip \<noteq> [] then Some (Inr ip, w)
             else if po_late p then
               Some (Inl (Plain (''timed out after 5m0s waiting for VM '' @ goQuote vmName @ '' to report status.ip (QGA installed in template?)'')), w)
             else (case po_done p of
                     Some e \<Rightarrow> Some (Inl e, w)
                   | None \<Rightarrow> waitForVMIP (Some vms) vmName ps (po_other p w)))"

subsection \<open>The spec of a K3sNode (node_ops.go)\<close>

record k3s_node_spec =
  kn_vmName :: string
  kn_vmIP :: string
  kn_role :: string
  kn_joinToken :: string
  kn_joinIP :: string
  kn_version :: string
  kn_extraArgs :: "string list"
  kn_sshUser :: string
  kn_sshKeyPath :: string
  kn_clusterInit :: bool

definition vmRefName :: "obj \<Rightarrow> string" where
  "vmRefName vmRef = (case objField vmRef ''metadata'' of Some md \<Rightarrow> strField md ''name'' | None \<Rightarrow> [])"

text \<open>A static \<^verbatim>\<open>spec.vmIP\<close> wins over the address the referenced VM reports.\<close>

definition vmRefIP :: "obj \<Rightarrow> obj \<Rightarrow> string" where
  "vmRefIP m vmRef =
     (if strField m ''vmIP'' \<noteq> [] then strField m ''vmIP''
      else (case objField vmRef ''status'' of Some st \<Rightarrow> strField st ''ip'' | None \<Rightarrow> []))"

text \<open>The token and the address of the server to join.\<close>

definition parseJoin :: "obj \<Rightarrow> string \<times> string" where
  "parseJoin m =
     (let j = (case objGet m ''joinFrom'' of
                 VStr s \<Rightarrow> (s, [])
               | VObj v \<Rightarrow> (case objField v ''status'' of Some st \<Rightarrow> (strField st ''nodeToken'', strField st ''vmIP'') | None \<Rightarrow> ([], []))
               | _ \<Rightarrow> ([], []));
          ip = (case objGet m ''joinURLFrom'' of
                  VStr u \<Rightarrow> u
                | VObj v \<Rightarrow> (case objField v ''status'' of
                               Some st \<Rightarrow> (case objGet st ''vmIP'' of VStr a \<Rightarrow> a | _ \<Rightarrow> snd j) | None \<Rightarrow> snd j)
                | _ \<Rightarrow> snd j)
      in (fst j, ip))"

definition parseSshBlock :: "obj \<Rightarrow> string \<times> string" where
  "parseSshBlock m =
     (case objField m ''ssh'' of
        None \<Rightarrow> (''ubuntu'', [])
      | Some b \<Rightarrow> (if strField b ''user'' \<noteq> [] then strField b ''user'' else ''ubuntu'', strField b ''privateKeyPath''))"

definition parseK3sNodeSpec :: "resource \<Rightarrow> err + k3s_node_spec" where
  "parseK3sNodeSpec manifest =
     (case r_spec manifest of
        None \<Rightarrow> Inl (Plain ''spec is required'')
      | Some m \<Rightarrow>
          (case objField m ''vmRef'' of
             None \<Rightarrow> Inl (Plain ''spec.vmRef is required (whole-resource ref to the target VM)'')
           | Some vmRef \<Rightarrow>
               (case objGet m ''role'' of
                  VStr role \<Rightarrow>
                    (case (parseJoin m, parseSshBlock m) of ((token, joinIP), (user, key)) \<Rightarrow>
                       let joins = (role = ''agent'' \<or> role = ''server'' \<and> token \<noteq> []) in
                       if role \<noteq> ''server'' \<and> role \<noteq> ''agent'' then Inl (Plain (''spec.role must be server or agent (got '' @ goQuote role @ '')''))
                       else if joins \<and> token = [] then
                         Inl (Plain (''spec.joinFrom is required for '' @ goQuote role
                           @ '' roles (must resolve to status.nodeToken of an existing K3sNode server)''))
                       else if joins \<and> joinIP = [] then
                         Inl (Plain (''spec.joinURLFrom is required alongside joinFrom (must resolve to the target K3sNode'' @ [CHR 0x27] @ ''s vmIP)''))
                       else if key = [] then Inl (Plain ''spec.ssh.privateKeyPath is required'')
                       else Inr \<lparr>kn_vmName = vmRefName vmRef, kn_vmIP = vmRefIP m vmRef, kn_role = role, kn_joinToken = token, kn_joinIP = joinIP,
                                 kn_version = strField m ''version'',
                                 kn_extraArgs = stringsOf (arrField m ''extraArgs''),
                                 kn_sshUser = user, kn_sshKeyPath = key, kn_clusterInit = boolField m ''clusterInit''\<rparr>)
                | _ \<Rightarrow> Inl (Plain ''spec.role is required (server | agent)''))))"

subsection \<open>The install command (node_ops.go)\<close>

definition wrapK3sInstall :: "string \<Rightarrow> string" where
  "wrapK3sInstall inner =
     ''bash -c '' @ [CHR 0x27] @ ''timeout 180 cloud-init status --wait >/dev/null 2>&1 || true; set -o pipefail; '' @ inner @ [CHR 0x27]"

definition versionEnv :: "string \<Rightarrow> string list" where
  "versionEnv version = (if version \<noteq> [] then [''INSTALL_K3S_VERSION='' @ version] else [])"

definition joinEnv :: "string \<Rightarrow> string \<Rightarrow> string \<Rightarrow> string list" where
  "joinEnv version token ip = versionEnv version @ [''K3S_TOKEN='' @ token, ''K3S_URL=https://'' @ ip @ '':6443'']"

definition buildNodeInstallCommand :: "k3s_node_spec \<Rightarrow> string" where
  "buildNodeInstallCommand s =
     (let args = (if kn_extraArgs s \<noteq> [] then '' '' @ joinWith '' '' (kn_extraArgs s) else []) in
      if kn_role s = ''server'' \<and> kn_joinToken s = [] then
        (let env = versionEnv (kn_version s) in
         wrapK3sInstall (''curl -sfL https://get.k3s.io | '' @ (if env \<noteq> [] then joinWith '' '' env @ '' '' else []) @ ''sh -s -''
           @ (if kn_clusterInit s then '' --cluster-init'' else []) @ args))
      else
        wrapK3sInstall (''curl -sfL https://get.k3s.io | '' @ joinWith '' '' (joinEnv (kn_version s) (kn_joinToken s) (kn_joinIP s)) @ '' sh -s -''
          @ (if kn_role s = ''server'' then '' server'' @ args else [])))"

subsection \<open>Recovering from a dropped connection (node_ops.go)\<close>

definition isConnectionDropError :: "err \<Rightarrow> bool" where
  "isConnectionDropError e \<longleftrightarrow>
     list_ex (contains (errText e))
       [''exited without exit status or exit signal'', ''connection reset by peer'', ''broken pipe'', ''use of closed network connection'',
        ''EOF'', ''unexpected packet in response to channel open'']"

definition verifyK3sHealthy :: "'w ssh_ops \<Rightarrow> string \<Rightarrow> string \<Rightarrow> 'w \<Rightarrow> err option \<times> 'w" where
  "verifyK3sHealthy ssh host role w =
     (if role = ''server'' then
        (case so_run ssh host ''systemctl is-active k3s'' w of
           (Inl e, w1) \<Rightarrow> (Some (Wrap ''k3s.service not active'' e), w1)
         | (Inr _, w1) \<Rightarrow>
             (case so_run ssh host ''test -f /var/lib/rancher/k3s/server/node-token'' w1 of
                (Inl e, w2) \<Rightarrow> (Some (Wrap ''node-token missing (install did not complete)'' e), w2)
              | (Inr _, w2) \<Rightarrow> (None, w2)))
      else
        (case so_run ssh host ''systemctl is-active k3s-agent'' w of
           (Inl e, w1) \<Rightarrow> (Some (Wrap ''k3s-agent.service not active'' e), w1)
         | (Inr _, w1) \<Rightarrow> (None, w1)))"

definition reconnectOnce :: "'w ssh_ops \<Rightarrow> k3s_node_spec \<Rightarrow> 'w \<Rightarrow> err option \<times> 'w" where
  "reconnectOnce ssh spec w =
     (case so_connect ssh (kn_vmIP spec) (kn_sshUser spec) (kn_sshKeyPath spec) w of
        (Some e, w1) \<Rightarrow> (Some e, w1)
      | (None, w1) \<Rightarrow> verifyK3sHealthy ssh (kn_vmIP spec) (kn_role spec) w1)"

fun reconnectAndVerifyK3s :: "'w ssh_ops \<Rightarrow> k3s_node_spec \<Rightarrow> 'w poll list \<Rightarrow> 'w \<Rightarrow> (err option \<times> 'w) option" where
  "reconnectAndVerifyK3s ssh spec [] w = None"
| "reconnectAndVerifyK3s ssh spec (p # ps) w =
     (case po_ctx p of
        Some e \<Rightarrow> Some (Some e, w)
      | None \<Rightarrow>
          (case reconnectOnce ssh spec w of
             (None, w1) \<Rightarrow> Some (None, w1)
           | (Some lastErr, w1) \<Rightarrow>
               if po_late p then Some (Some (Wrap ''k3s not healthy within 2m0s'' lastErr), w1)
               else (case po_done p of
                       Some e \<Rightarrow> Some (Some e, w1)
                     | None \<Rightarrow> reconnectAndVerifyK3s ssh spec ps (po_other p w1))))"

subsection \<open>Applying and deleting a K3sNode (node_ops.go)\<close>

text \<open>\<^verbatim>\<open>strings.ReplaceAll\<close> for a text to replace that is not empty.\<close>

fun replaceAll :: "string \<Rightarrow> string \<Rightarrow> string \<Rightarrow> string" where
  "replaceAll [] old new = []"
| "replaceAll (c # s) old new =
     (if old \<noteq> [] \<and> hasPrefix (c # s) old then new @ replaceAll (drop (length old - 1) s) old new else c # replaceAll s old new)"

definition localKubeconfig :: "string \<Rightarrow> string \<Rightarrow> string" where
  "localKubeconfig kc ip = replaceAll (replaceAll kc ''127.0.0.1'' ip) ''localhost'' ip"

definition freshNodeState :: "string \<Rightarrow> k3s_node_spec \<Rightarrow> string \<Rightarrow> node_state" where
  "freshNodeState name spec now =
     \<lparr>ns_name = name, ns_vmName = kn_vmName spec, ns_vmIP = kn_vmIP spec, ns_role = kn_role spec, ns_installed = True,
      ns_nodeToken = [], ns_kubeconfig = [], ns_installedAt = now\<rparr>"

text \<open>What a server adds to its state: the token, and on the first server the kubeconfig, which is also written to its own file.\<close>

definition readServerState ::
  "'a k3s_files_scheme ssh_ops \<Rightarrow> string \<Rightarrow> k3s_node_spec \<Rightarrow> node_state \<Rightarrow> 'a k3s_files_scheme \<Rightarrow> (err + node_state) \<times> 'a k3s_files_scheme" where
  "readServerState ssh name spec st w =
     (if kn_role spec \<noteq> ''server'' then (Inr st, w)
      else
        (case so_run ssh (kn_vmIP spec) ''cat /var/lib/rancher/k3s/server/node-token'' w of
           (Inl e, w1) \<Rightarrow> (Inl (Wrap ''read node-token'' e), w1)
         | (Inr tok, w1) \<Rightarrow>
             let st1 = st\<lparr>ns_nodeToken := trimSpace tok\<rparr> in
             if kn_joinToken spec \<noteq> [] then (Inr st1, w1)
             else
               (case so_run ssh (kn_vmIP spec) ''cat /etc/rancher/k3s/k3s.yaml'' w1 of
                  (Inl e, w2) \<Rightarrow> (Inl (Wrap ''read kubeconfig'' e), w2)
                | (Inr kc, w2) \<Rightarrow>
                    let kc' = localKubeconfig kc (kn_vmIP spec) in
                    (case saveK3sNodeKubeconfig name kc' w2 of
                       (Some e, w3) \<Rightarrow> (Inl (Wrap ''save kubeconfig'' e), w3)
                     | (None, w3) \<Rightarrow> (Inr (st1\<lparr>ns_kubeconfig := kc'\<rparr>), w3)))))"

text \<open>The install command itself: a dropped connection is followed by the verification, any other error is final.\<close>

definition runInstall ::
  "'w ssh_ops \<Rightarrow> k3s_node_spec \<Rightarrow> 'w poll list \<Rightarrow> 'w \<Rightarrow> (err option \<times> 'w) option" where
  "runInstall ssh spec settle w =
     (case so_run ssh (kn_vmIP spec) (buildNodeInstallCommand spec) w of
        (Inr _, w1) \<Rightarrow> Some (None, w1)
      | (Inl e, w1) \<Rightarrow>
          if \<not> isConnectionDropError e then Some (Some (Wrap (''k3s install failed on '' @ kn_vmIP spec) e), w1)
          else map_option (\<lambda>(r, w2). (map_option (Wrap (''k3s install on '' @ kn_vmIP spec @ '': connection dropped and post-drop verify failed'')) r, w2))
                 (reconnectAndVerifyK3s ssh spec settle w1))"

definition installK3sNode ::
  "'a k3s_files_scheme ssh_ops \<Rightarrow> 'a k3s_files_scheme poll list \<Rightarrow> resource \<Rightarrow> k3s_node_spec \<Rightarrow> 'a k3s_files_scheme \<Rightarrow>
   ((err + resource) \<times> 'a k3s_files_scheme) option" where
  "installK3sNode ssh settle manifest spec w =
     (let name = r_name manifest in
      case so_connect ssh (kn_vmIP spec) (kn_sshUser spec) (kn_sshKeyPath spec) w of
        (Some e, w1) \<Rightarrow> Some (Inl (Wrap (''ssh to '' @ kn_sshUser spec @ ''@'' @ kn_vmIP spec) e), w1)
      | (None, w1) \<Rightarrow>
          (case runInstall ssh spec settle w1 of
             None \<Rightarrow> None
           | Some (Some e, w2) \<Rightarrow> Some (Inl e, w2)
           | Some (None, w2) \<Rightarrow>
               Some (case readServerState ssh name spec (freshNodeState name spec (kf_now w2)) w2 of
                       (Inl e, w3) \<Rightarrow> (Inl e, w3)
                     | (Inr st, w3) \<Rightarrow>
                         (case saveNodeState st w3 of
                            (Some e, w4) \<Rightarrow> (Inl (Wrap ''save state'' e), w4)
                          | (None, w4) \<Rightarrow> (Inr (nodeStateToResource name (Some manifest) st), w4)))))"

definition installedNode :: "string \<Rightarrow> 'a k3s_files_scheme \<Rightarrow> node_state option" where
  "installedNode name w = (case loadNodeState name w of Inr (Some s) \<Rightarrow> if ns_installed s then Some s else None | _ \<Rightarrow> None)"

definition applyK3sNode ::
  "'a k3s_files_scheme vm_provider option \<Rightarrow> 'a k3s_files_scheme ssh_ops \<Rightarrow> 'a k3s_files_scheme poll list \<Rightarrow> 'a k3s_files_scheme poll list \<Rightarrow>
   resource \<Rightarrow> 'a k3s_files_scheme \<Rightarrow> ((err + resource) \<times> 'a k3s_files_scheme) option" where
  "applyK3sNode vms ssh waits settle manifest w =
     (let name = r_name manifest in
      if name = [] then Some (Inl (Plain ''metadata.name is required''), w)
      else
        (case parseK3sNodeSpec manifest of
           Inl e \<Rightarrow> Some (Inl e, w)
         | Inr spec \<Rightarrow>
             (case installedNode name w of
                Some s \<Rightarrow> Some (Inr (nodeStateToResource name (Some manifest) s), w)
              | None \<Rightarrow>
                  if kn_vmIP spec \<noteq> [] then installK3sNode ssh settle manifest spec w
                  else
                    (case waitForVMIP vms (kn_vmName spec) waits w of
                       None \<Rightarrow> None
                     | Some (Inl e, w1) \<Rightarrow> Some (Inl (Wrap (''wait for VM '' @ kn_vmName spec @ '' IP'') e), w1)
                     | Some (Inr ip, w1) \<Rightarrow> installK3sNode ssh settle manifest (spec\<lparr>kn_vmIP := ip\<rparr>) w1))))"

text \<open>The uninstall is best effort: it connects as \<^verbatim>\<open>ubuntu\<close> without a key and ignores what the script says.\<close>

definition deleteK3sNode ::
  "'a k3s_files_scheme ssh_ops \<Rightarrow> string \<Rightarrow> 'a k3s_files_scheme \<Rightarrow> err option \<times> 'a k3s_files_scheme" where
  "deleteK3sNode ssh name w =
     (case loadNodeState name w of
        Inl e \<Rightarrow> (Some e, w)
      | Inr None \<Rightarrow> (None, w)
      | Inr (Some st) \<Rightarrow>
          let script = (if ns_role st = ''agent'' then ''/usr/local/bin/k3s-agent-uninstall.sh'' else ''/usr/local/bin/k3s-uninstall.sh'') in
          (case so_connect ssh (ns_vmIP st) ''ubuntu'' [] w of
             (Some _, w1) \<Rightarrow> removeNodeState name w1
           | (None, w1) \<Rightarrow> removeNodeState name (snd (so_run ssh (ns_vmIP st) script w1))))"

subsection \<open>Installing the agent (bootstrap.go)\<close>

text \<open>
  What the installer finds on the controller's side: the value of \<^verbatim>\<open>OPENCTL_K3S_AGENT_DIR\<close>, the directory of the
  running executable, which paths exist, the contents of files, and the two embedded unit files.
\<close>

record install_host =
  ih_env :: string
  ih_exeDir :: "string option"
  ih_exists :: "string \<Rightarrow> bool"
  ih_read :: "string \<Rightarrow> err + string"
  ih_systemdUnit :: string
  ih_openRCInit :: string

record host_info =
  hi_arch :: string
  hi_init :: string

definition normalizeArch :: "string \<Rightarrow> err + string" where
  "normalizeArch uname =
     (if uname = ''x86_64'' \<or> uname = ''amd64'' then Inr ''amd64''
      else if uname = ''aarch64'' \<or> uname = ''arm64'' then Inr ''arm64''
      else if uname = ''armv7l'' \<or> uname = ''armv7'' then Inr ''armv7''
      else Inl (Plain (''unsupported architecture '' @ goQuote uname @ '' (want x86_64, aarch64, or armv7l)'')))"

definition saysYes :: "err + string \<Rightarrow> bool" where
  "saysYes r \<longleftrightarrow> (case r of Inr out \<Rightarrow> trimSpace out = ''yes'' | Inl _ \<Rightarrow> False)"

definition detectInit :: "'w ssh_ops \<Rightarrow> string \<Rightarrow> 'w \<Rightarrow> (err + string) \<times> 'w" where
  "detectInit ssh host w =
     (case so_plain ssh host ''test -d /run/systemd/system && echo yes || true'' w of
        (r, w1) \<Rightarrow>
          if saysYes r then (Inr ''systemd'', w1)
          else (case so_plain ssh host ''command -v rc-service > /dev/null && echo yes || true'' w1 of
                  (r2, w2) \<Rightarrow>
                    if saysYes r2 then (Inr ''openrc'', w2)
                    else (Inl (Plain ''no supported init system detected (need systemd or OpenRC)''), w2)))"

definition Detect :: "'w ssh_ops \<Rightarrow> string \<Rightarrow> 'w \<Rightarrow> (err + host_info) \<times> 'w" where
  "Detect ssh host w =
     (case so_plain ssh host ''uname -m'' w of
        (Inl e, w1) \<Rightarrow> (Inl (Wrap ''uname -m'' e), w1)
      | (Inr raw, w1) \<Rightarrow>
          (case normalizeArch (trimSpace raw) of
             Inl e \<Rightarrow> (Inl e, w1)
           | Inr arch \<Rightarrow>
               (case detectInit ssh host w1 of
                  (Inl e, w2) \<Rightarrow> (Inl e, w2)
                | (Inr init, w2) \<Rightarrow> (Inr \<lparr>hi_arch = arch, hi_init = init\<rparr>, w2))))"

definition candidateDirs :: "install_host \<Rightarrow> string list" where
  "candidateDirs ih =
     (if ih_env ih \<noteq> [] then [ih_env ih] else [])
     @ (case ih_exeDir ih of None \<Rightarrow> [] | Some d \<Rightarrow> [joinPath [d, ''k3s-agents''], d])"

definition resolveBinary :: "install_host \<Rightarrow> string \<Rightarrow> err + string" where
  "resolveBinary ih arch =
     (let name = ''openctl-k3s-agent-linux-'' @ arch; dirs = candidateDirs ih in
      case find (ih_exists ih) (map (\<lambda>d. joinPath [d, name]) dirs) of
        Some p \<Rightarrow> Inr p
      | None \<Rightarrow> Inl (Plain (''agent binary '' @ name @ '' not found in any of: '' @ joinWith '', '' dirs @ '' (set OPENCTL_K3S_AGENT_DIR to override)'')))"

text \<open>A sequence of uploads and commands, each with the text its error is wrapped in.\<close>

datatype ssh_step = Upload string string string nat | Sudo string string

fun runSteps :: "'w ssh_ops \<Rightarrow> string \<Rightarrow> ssh_step list \<Rightarrow> 'w \<Rightarrow> err option \<times> 'w" where
  "runSteps ssh host [] w = (None, w)"
| "runSteps ssh host (Upload msg content path mode # ss) w =
     (case so_upload ssh host content path mode w of
        (Some e, w1) \<Rightarrow> (Some (Wrap msg e), w1)
      | (None, w1) \<Rightarrow> runSteps ssh host ss w1)"
| "runSteps ssh host (Sudo msg cmd # ss) w =
     (case so_run ssh host cmd w of
        (Inl e, w1) \<Rightarrow> (Some (Wrap msg e), w1)
      | (Inr _, w1) \<Rightarrow> runSteps ssh host ss w1)"

definition uploadSteps :: "string \<Rightarrow> string \<times> string \<Rightarrow> string \<Rightarrow> ssh_step list" where
  "uploadSteps binary server ca =
     [Sudo ''create /etc/openctl-k3s-agent'' ''mkdir -p /etc/openctl-k3s-agent'',
      Upload ''upload binary'' binary ''/usr/local/bin/openctl-k3s-agent'' 0x1ED,
      Upload ''upload CA'' ca ''/etc/openctl-k3s-agent/ca.pem'' 0x1A4,
      Upload ''upload server cert'' (fst server) ''/etc/openctl-k3s-agent/server.pem'' 0x1A4,
      Upload ''upload server key'' (snd server) ''/etc/openctl-k3s-agent/server.key'' 0x180]"

definition installSystemd :: "install_host \<Rightarrow> ssh_step list" where
  "installSystemd ih =
     [Upload ''upload systemd unit'' (ih_systemdUnit ih) ''/etc/systemd/system/openctl-k3s-agent.service'' 0x1A4,
      Sudo ''daemon-reload'' ''systemctl daemon-reload'', Sudo ''enable+start'' ''systemctl enable --now openctl-k3s-agent.service'']"

definition installOpenRC :: "install_host \<Rightarrow> ssh_step list" where
  "installOpenRC ih =
     [Upload ''upload openrc init'' (ih_openRCInit ih) ''/etc/init.d/openctl-k3s-agent'' 0x1ED,
      Sudo ''rc-update'' ''rc-update add openctl-k3s-agent default'', Sudo ''rc-service start'' ''rc-service openctl-k3s-agent start'']"

definition installSteps :: "install_host \<Rightarrow> host_info \<Rightarrow> string \<Rightarrow> string \<times> string \<Rightarrow> string \<Rightarrow> ssh_step list" where
  "installSteps ih hi binary server ca =
     uploadSteps binary server ca @ (if hi_init hi = ''systemd'' then installSystemd ih else installOpenRC ih)"

definition Install ::
  "install_host \<Rightarrow> 'w ssh_ops \<Rightarrow> string \<Rightarrow> string \<times> string \<Rightarrow> string \<Rightarrow> 'w \<Rightarrow> (err + host_info) \<times> 'w" where
  "Install ih ssh host server ca w =
     (case Detect ssh host w of
        (Inl e, w1) \<Rightarrow> (Inl (Wrap ''detect host'' e), w1)
      | (Inr hi, w1) \<Rightarrow>
          (case resolveBinary ih (hi_arch hi) of
             Inl e \<Rightarrow> (Inl e, w1)
           | Inr path \<Rightarrow>
               (case ih_read ih path of
                  Inl e \<Rightarrow> (Inl (Wrap (''read agent binary '' @ path) e), w1)
                | Inr binary \<Rightarrow>
                    (case runSteps ssh host (installSteps ih hi binary server ca) w1 of
                       (Some e, w2) \<Rightarrow> (Inl e, w2)
                     | (None, w2) \<Rightarrow> (Inr hi, w2)))))"

subsection \<open>Applying and deleting an AgentInstall (agent_ops.go)\<close>

record agent_install_spec =
  as_vmName :: string
  as_vmIP :: string
  as_clusterName :: string
  as_sshUser :: string
  as_sshKeyPath :: string

definition parseAgentInstallSpec :: "resource \<Rightarrow> err + agent_install_spec" where
  "parseAgentInstallSpec manifest =
     (case r_spec manifest of
        None \<Rightarrow> Inl (Plain ''spec is required'')
      | Some m \<Rightarrow>
          (case objField m ''vmRef'' of
             None \<Rightarrow> Inl (Plain ''spec.vmRef is required (whole-resource ref to the target VM)'')
           | Some vmRef \<Rightarrow>
               (case parseSshBlock m of (user, key) \<Rightarrow>
                  if vmRefName vmRef = [] then Inl (Plain ''vmRef target has no metadata.name'')
                  else if strField m ''clusterName'' = [] then
                    Inl (Plain ''spec.clusterName is required (must name an existing k3s Cluster whose CA bundle backs this agent)'')
                  else if key = [] then Inl (Plain ''spec.ssh.privateKeyPath is required'')
                  else Inr \<lparr>as_vmName = vmRefName vmRef, as_vmIP = vmRefIP m vmRef, as_clusterName = strField m ''clusterName'',
                            as_sshUser = user, as_sshKeyPath = key\<rparr>)))"

text \<open>The bundle with a certificate for the node: the one on disk when it has one, else a minted one that is persisted.\<close>

definition bundleForNode ::
  "crypto \<Rightarrow> agent_install_spec \<Rightarrow> 'a k3s_files_scheme \<Rightarrow> (err + cert_bundle) \<times> 'a k3s_files_scheme" where
  "bundleForNode cy spec w =
     (case LoadBundle (as_clusterName spec) w of
        Inl e \<Rightarrow>
          (Inl (WrapAround (''load cert bundle for cluster '' @ goQuote (as_clusterName spec) @ '' from '' @ clusterBundleDir w (as_clusterName spec)) e
                  ('' '' @ map char_of [226 :: nat, 128, 148] @ '' an AgentInstall requires an existing Cluster with a CA on disk'')), w)
      | Inr b \<Rightarrow>
          if map_of (bd_serverCerts b) (as_vmName spec) \<noteq> None then (Inr b, w)
          else
            (case MintServerCerts cy [\<lparr>ni_name = as_vmName spec, ni_ip = as_vmIP spec\<rparr>] b of
               Inl e \<Rightarrow> (Inl (Wrap (''mint server cert for '' @ as_vmName spec) e), w)
             | Inr b' \<Rightarrow>
                 (case bundleWriteTo (as_clusterName spec) b' w of
                    (Some e, w1) \<Rightarrow> (Inl (Wrap ''persist minted cert into bundle'' e), w1)
                  | (None, w1) \<Rightarrow> (Inr b', w1))))"

definition serverCertOf :: "cert_bundle \<Rightarrow> string \<Rightarrow> string \<times> string" where
  "serverCertOf b n = (case map_of (bd_serverCerts b) n of Some ck \<Rightarrow> ck | None \<Rightarrow> ([], []))"

definition installAgent ::
  "crypto \<Rightarrow> install_host \<Rightarrow> 'a k3s_files_scheme ssh_ops \<Rightarrow> resource \<Rightarrow> agent_install_spec \<Rightarrow> 'a k3s_files_scheme \<Rightarrow>
   (err + resource) \<times> 'a k3s_files_scheme" where
  "installAgent cy ih ssh manifest spec w =
     (case bundleForNode cy spec w of
        (Inl e, w1) \<Rightarrow> (Inl e, w1)
      | (Inr b, w1) \<Rightarrow>
          (case so_connect ssh (as_vmIP spec) (as_sshUser spec) (as_sshKeyPath spec) w1 of
             (Some e, w2) \<Rightarrow> (Inl (Wrap (''ssh to '' @ as_sshUser spec @ ''@'' @ as_vmIP spec) e), w2)
           | (None, w2) \<Rightarrow>
               (case Install ih ssh (as_vmIP spec) (serverCertOf b (as_vmName spec)) (bd_caCert b) w2 of
                  (Inl e, w3) \<Rightarrow> (Inl (Wrap (''install openctl-k3s-agent on '' @ as_vmIP spec) e), w3)
                | (Inr hi, w3) \<Rightarrow>
                    let st = \<lparr>ai_name = r_name manifest, ai_vmName = as_vmName spec, ai_vmIP = as_vmIP spec, ai_clusterName = as_clusterName spec,
                              ai_arch = hi_arch hi, ai_init = hi_init hi, ai_installed = True, ai_installedAt = kf_now w3\<rparr>
                    in (case saveAgentInstallState st w3 of
                          (Some e, w4) \<Rightarrow> (Inl (Wrap ''save state'' e), w4)
                        | (None, w4) \<Rightarrow> (Inr (agentInstallStateToResource (r_name manifest) (Some manifest) st), w4)))))"

text \<open>Unlike a K3sNode, an AgentInstall waits for the address before it looks at what is recorded.\<close>

definition applyAgentInstall ::
  "crypto \<Rightarrow> install_host \<Rightarrow> 'a k3s_files_scheme vm_provider option \<Rightarrow> 'a k3s_files_scheme ssh_ops \<Rightarrow> 'a k3s_files_scheme poll list \<Rightarrow>
   resource \<Rightarrow> 'a k3s_files_scheme \<Rightarrow> ((err + resource) \<times> 'a k3s_files_scheme) option" where
  "applyAgentInstall cy ih vms ssh waits manifest w =
     (let name = r_name manifest;
          go = (\<lambda>spec w. case loadAgentInstallState name w of
                  Inr (Some s) \<Rightarrow>
                    if ai_installed s \<and> ai_vmIP s = as_vmIP spec \<and> ai_clusterName s = as_clusterName spec
                    then (Inr (agentInstallStateToResource name (Some manifest) s), w)
                    else installAgent cy ih ssh manifest spec w
                | _ \<Rightarrow> installAgent cy ih ssh manifest spec w)
      in if name = [] then Some (Inl (Plain ''metadata.name is required''), w)
         else
           (case parseAgentInstallSpec manifest of
              Inl e \<Rightarrow> Some (Inl e, w)
            | Inr spec \<Rightarrow>
                if as_vmIP spec \<noteq> [] then Some (go spec w)
                else
                  (case waitForVMIP vms (as_vmName spec) waits w of
                     None \<Rightarrow> None
                   | Some (Inl e, w1) \<Rightarrow> Some (Inl (Wrap (''wait for VM '' @ as_vmName spec @ '' IP'') e), w1)
                   | Some (Inr ip, w1) \<Rightarrow> Some (go (spec\<lparr>as_vmIP := ip\<rparr>) w1))))"

definition uninstallCommands :: "string \<Rightarrow> string list" where
  "uninstallCommands init =
     (if init = ''systemd'' then
        [''systemctl disable --now openctl-k3s-agent.service || true'', ''rm -f /etc/systemd/system/openctl-k3s-agent.service'',
         ''systemctl daemon-reload || true'']
      else if init = ''openrc'' then
        [''rc-service openctl-k3s-agent stop || true'', ''rc-update del openctl-k3s-agent default || true'', ''rm -f /etc/init.d/openctl-k3s-agent'']
      else []) @ [''rm -f /usr/local/bin/openctl-k3s-agent'', ''rm -rf /etc/openctl-k3s-agent'']"

definition deleteAgentInstall ::
  "'a k3s_files_scheme ssh_ops \<Rightarrow> string \<Rightarrow> 'a k3s_files_scheme \<Rightarrow> err option \<times> 'a k3s_files_scheme" where
  "deleteAgentInstall ssh name w =
     (case loadAgentInstallState name w of
        Inl e \<Rightarrow> (Some e, w)
      | Inr None \<Rightarrow> (None, w)
      | Inr (Some st) \<Rightarrow>
          (case so_connect ssh (ai_vmIP st) ''ubuntu'' [] w of
             (Some _, w1) \<Rightarrow> removeAgentInstallState name w1
           | (None, w1) \<Rightarrow>
               removeAgentInstallState name (foldl (\<lambda>w c. snd (so_run ssh (ai_vmIP st) c w)) w1 (uninstallCommands (ai_init st)))))"

subsection \<open>Lemmas: what stays of the files\<close>

text \<open>What the operations rely on: SSH and the other actors leave the provider's own files alone.\<close>

definition sameFiles :: "'a k3s_files_scheme \<Rightarrow> 'a k3s_files_scheme \<Rightarrow> bool" where
  "sameFiles w w' \<longleftrightarrow> k3s_files.truncate w' = k3s_files.truncate w"

definition quietSsh :: "'a k3s_files_scheme ssh_ops \<Rightarrow> bool" where
  "quietSsh ssh \<longleftrightarrow>
     (\<forall>h u k w. sameFiles w (snd (so_connect ssh h u k w))) \<and> (\<forall>h c w. sameFiles w (snd (so_run ssh h c w)))"

definition quietPolls :: "'a k3s_files_scheme poll list \<Rightarrow> bool" where
  "quietPolls ps \<longleftrightarrow> (\<forall>p \<in> set ps. \<forall>w. sameFiles w (po_other p w))"

lemma sameFiles_refl [simp]: "sameFiles w w"
  by (simp add: sameFiles_def)

lemma sameFiles_trans: "sameFiles w w' \<Longrightarrow> sameFiles w' w'' \<Longrightarrow> sameFiles w w''"
  by (simp add: sameFiles_def)

lemma sameFilesD:
  assumes "sameFiles w w'"
  shows "kf_nodes w' = kf_nodes w" "kf_agents w' = kf_agents w" "kf_clusters w' = kf_clusters w" "kf_bundles w' = kf_bundles w"
    "kf_kubeconfigs w' = kf_kubeconfigs w" "kf_wrErr w' = kf_wrErr w" "kf_rdErr w' = kf_rdErr w" "kf_home w' = kf_home w" "kf_now w' = kf_now w"
  using assms by (simp_all add: sameFiles_def k3s_files.truncate_def)

lemma sameFiles_fields:
  "sameFiles w w' \<Longrightarrow> kf_nodes w' = kf_nodes w \<and> kf_agents w' = kf_agents w \<and> kf_clusters w' = kf_clusters w \<and> kf_bundles w' = kf_bundles w \<and>
     kf_kubeconfigs w' = kf_kubeconfigs w"
  by (simp add: sameFilesD)

lemma so_connect_same: "quietSsh ssh \<Longrightarrow> so_connect ssh h u k w = (r, w') \<Longrightarrow> sameFiles w w'"
  unfolding quietSsh_def by (metis snd_conv)

lemma so_run_same: "quietSsh ssh \<Longrightarrow> so_run ssh h c w = (r, w') \<Longrightarrow> sameFiles w w'"
  unfolding quietSsh_def by (metis snd_conv)

lemma waitForVMIP_same: "quietPolls ps \<Longrightarrow> waitForVMIP vms n ps w = Some (r, w') \<Longrightarrow> sameFiles w w'"
proof (induction vms n ps w rule: waitForVMIP.induct)
  case (3 vms n p ps w)
  have "sameFiles w (po_other p w)" "quietPolls ps" using 3(2) by (simp_all add: quietPolls_def)
  then show ?case using 3 by (auto simp: Let_def split: option.splits if_splits intro: sameFiles_trans)
qed auto

lemma verify_same:
  assumes "quietSsh ssh" "verifyK3sHealthy ssh h role w = (r, w')"
  shows "sameFiles w w'"
  using assms(2) unfolding verifyK3sHealthy_def
  by (auto split: if_splits prod.splits sum.splits dest!: so_run_same [OF assms(1)] intro: sameFiles_trans)

lemma reconnectOnce_same:
  assumes "quietSsh ssh" "reconnectOnce ssh spec w = (r, w')"
  shows "sameFiles w w'"
proof -
  obtain c w1 where c: "so_connect ssh (kn_vmIP spec) (kn_sshUser spec) (kn_sshKeyPath spec) w = (c, w1)" by fastforce
  note s = so_connect_same [OF assms(1) c]
  show ?thesis
  proof (cases c)
    case None
    then have "verifyK3sHealthy ssh (kn_vmIP spec) (kn_role spec) w1 = (r, w')" using assms(2) c by (simp add: reconnectOnce_def)
    from sameFiles_trans [OF s verify_same [OF assms(1) this]] show ?thesis .
  next
    case (Some e)
    then show ?thesis using assms(2) c s by (simp add: reconnectOnce_def)
  qed
qed

lemma reconnect_same:
  "quietSsh ssh \<Longrightarrow> quietPolls ps \<Longrightarrow> reconnectAndVerifyK3s ssh spec ps w = Some (r, w') \<Longrightarrow> sameFiles w w'"
proof (induction ps arbitrary: w)
  case (Cons p ps)
  obtain e w1 where e: "reconnectOnce ssh spec w = (e, w1)" by fastforce
  have "sameFiles w w1" "sameFiles w1 (po_other p w1)" "quietPolls ps"
    using reconnectOnce_same [OF Cons.prems(1) e] Cons.prems(2) by (simp_all add: quietPolls_def)
  then show ?case using Cons e by (auto split: option.splits if_splits intro: sameFiles_trans)
qed simp

lemma runInstall_same:
  assumes "quietSsh ssh" "quietPolls ps" "runInstall ssh spec ps w = Some (r, w')"
  shows "sameFiles w w'"
proof -
  obtain x w1 where x: "so_run ssh (kn_vmIP spec) (buildNodeInstallCommand spec) w = (x, w1)" by fastforce
  have "sameFiles w w1" by (rule so_run_same [OF assms(1) x])
  then show ?thesis using assms(3) x reconnect_same [OF assms(1,2)]
    by (auto simp: runInstall_def split: sum.splits if_splits intro: sameFiles_trans)
qed

text \<open>The server part writes at most the node's own kubeconfig.\<close>

lemma readServerState_effect:
  assumes "quietSsh ssh" "readServerState ssh name spec st w = (r, w')"
  shows "kf_nodes w' = kf_nodes w \<and> kf_agents w' = kf_agents w \<and> kf_clusters w' = kf_clusters w \<and> kf_bundles w' = kf_bundles w \<and>
    (\<forall>n. n \<noteq> name \<longrightarrow> map_of (kf_kubeconfigs w') n = map_of (kf_kubeconfigs w) n) \<and>
    (\<forall>s. r = Inr s \<longrightarrow> s = st\<lparr>ns_nodeToken := ns_nodeToken s, ns_kubeconfig := ns_kubeconfig s\<rparr>)"
  using assms(2) unfolding readServerState_def saveK3sNodeKubeconfig_def Let_def
  by (auto split: if_splits prod.splits sum.splits option.splits dest!: so_run_same [OF assms(1)] sameFiles_fields)

definition nodeWritten :: "string \<Rightarrow> 'a k3s_files_scheme \<Rightarrow> 'a k3s_files_scheme \<Rightarrow> bool" where
  "nodeWritten name w w' \<longleftrightarrow>
     kf_agents w' = kf_agents w \<and> kf_clusters w' = kf_clusters w \<and> kf_bundles w' = kf_bundles w \<and>
     (\<forall>n. n \<noteq> name \<longrightarrow> map_of (kf_nodes w') n = map_of (kf_nodes w) n \<and> map_of (kf_kubeconfigs w') n = map_of (kf_kubeconfigs w) n)"

lemma installK3sNode_effect:
  assumes "quietSsh ssh" "quietPolls ps" "installK3sNode ssh ps manifest spec w = Some (r, w')"
  shows "nodeWritten (r_name manifest) w w' \<and> (\<forall>e. r = Inl e \<longrightarrow> kf_nodes w' = kf_nodes w) \<and>
    (\<forall>x. r = Inr x \<longrightarrow> (\<exists>st. map_of (kf_nodes w') (r_name manifest) = Some st \<and> ns_installed st \<and> ns_vmIP st = kn_vmIP spec \<and>
        x = nodeStateToResource (r_name manifest) (Some manifest) st))"
proof -
  let ?n = "r_name manifest"
  obtain c w1 where c: "so_connect ssh (kn_vmIP spec) (kn_sshUser spec) (kn_sshKeyPath spec) w = (c, w1)" by fastforce
  note s1 = so_connect_same [OF assms(1) c]
  have quiet: "nodeWritten ?n w v \<and> kf_nodes v = kf_nodes w" if "sameFiles w v" for v
    using sameFilesD [OF that] by (simp add: nodeWritten_def)
  consider (conn) e where "c = Some e" "r = Inl (Wrap (''ssh to '' @ kn_sshUser spec @ ''@'' @ kn_vmIP spec) e)" "w' = w1"
    | (inst) e where "c = None" "runInstall ssh spec ps w1 = Some (Some e, w')" "r = Inl e"
    | (srv) w2 q w3 where "c = None" "runInstall ssh spec ps w1 = Some (None, w2)" "readServerState ssh ?n spec (freshNodeState ?n spec (kf_now w2)) w2 = (q, w3)"
        "(r, w') = (case q of Inl e \<Rightarrow> (Inl e, w3) | Inr st \<Rightarrow> (case saveNodeState st w3 of
           (Some e, w4) \<Rightarrow> (Inl (Wrap ''save state'' e), w4) | (None, w4) \<Rightarrow> (Inr (nodeStateToResource ?n (Some manifest) st), w4)))"
    using assms(3) c unfolding installK3sNode_def Let_def
    by (cases c; cases "runInstall ssh spec ps w1") (auto split: option.splits prod.splits)
  then show ?thesis
  proof cases
    case conn
    then show ?thesis using quiet [OF s1] by simp
  next
    case inst
    then show ?thesis using quiet [OF sameFiles_trans [OF s1 runInstall_same [OF assms(1,2) inst(2)]]] by simp
  next
    case srv
    have s2: "sameFiles w w2" using sameFiles_trans [OF s1 runInstall_same [OF assms(1,2) srv(2)]] .
    note e = readServerState_effect [OF assms(1) srv(3)] and d = sameFilesD [OF s2]
    show ?thesis
    proof (cases q)
      case (Inl x)
      then show ?thesis using srv(4) e d by (simp add: nodeWritten_def)
    next
      case (Inr st)
      then have eq: "st = (freshNodeState ?n spec (kf_now w2))\<lparr>ns_nodeToken := ns_nodeToken st, ns_kubeconfig := ns_kubeconfig st\<rparr>" using e by blast
      have st: "ns_name st = ?n" "ns_installed st" "ns_vmIP st = kn_vmIP spec"
        using arg_cong [OF eq, of ns_name] arg_cong [OF eq, of ns_installed] arg_cong [OF eq, of ns_vmIP] by (simp_all add: freshNodeState_def)
      then show ?thesis using srv(4) Inr e d by (auto simp: nodeWritten_def saveNodeState_def split: option.splits)
    qed
  qed
qed

lemma applyK3sNode_cases [consumes 1, case_names refused known waited install]:
  assumes "applyK3sNode vms ssh waits settle manifest w = Some (r, w')"
  obtains e where "r = Inl e" "w' = w"
  | st where "r_name manifest \<noteq> []" "isOk (parseK3sNodeSpec manifest)" "installedNode (r_name manifest) w = Some st"
      "r = Inr (nodeStateToResource (r_name manifest) (Some manifest) st)" "w' = w"
  | e n msg where "waitForVMIP vms n waits w = Some (Inl e, w')" "r = Inl (Wrap msg e)"
  | spec w1 where "r_name manifest \<noteq> []" "isOk (parseK3sNodeSpec manifest)" "w1 = w \<or> (\<exists>n ip. waitForVMIP vms n waits w = Some (Inr ip, w1))"
      "installK3sNode ssh settle manifest spec w1 = Some (r, w')"
proof (cases "r_name manifest = [] \<or> \<not> isOk (parseK3sNodeSpec manifest)")
  case True
  then have "\<exists>e. applyK3sNode vms ssh waits settle manifest w = Some (Inl e, w)"
    by (cases "parseK3sNodeSpec manifest"; cases "r_name manifest = []") (simp_all add: applyK3sNode_def isOk_iff)
  then show thesis using assms that(1) by auto
next
  case False
  then obtain spec where p: "r_name manifest \<noteq> []" "isOk (parseK3sNodeSpec manifest)" "parseK3sNodeSpec manifest = Inr spec" by (auto simp: isOk_iff)
  show thesis
  proof (cases "installedNode (r_name manifest) w")
    case (Some st)
    then have "applyK3sNode vms ssh waits settle manifest w = Some (Inr (nodeStateToResource (r_name manifest) (Some manifest) st), w)"
      using p by (simp add: applyK3sNode_def)
    then show thesis using assms by (intro that(2) [OF p(1,2) Some]) simp_all
  next
    case None
    show thesis
    proof (cases "kn_vmIP spec = []")
      case False
      then have "installK3sNode ssh settle manifest spec w = Some (r, w')" using assms p None by (simp add: applyK3sNode_def)
      then show thesis by (intro that(4) [OF p(1,2)]) simp_all
    next
      case True
      then obtain q w1 where q: "waitForVMIP vms (kn_vmName spec) waits w = Some (q, w1)" using assms p None by (auto simp: applyK3sNode_def split: option.splits)
      show thesis
      proof (cases q)
        case (Inl e)
        then have "Some (r, w') = Some (Inl (Wrap (''wait for VM '' @ kn_vmName spec @ '' IP'') e), w1)"
          using assms p None True q by (simp add: applyK3sNode_def)
        then show thesis using q Inl by (intro that(3)) simp_all
      next
        case (Inr ip)
        then have "installK3sNode ssh settle manifest (spec\<lparr>kn_vmIP := ip\<rparr>) w1 = Some (r, w')" using assms p None True q by (simp add: applyK3sNode_def)
        then show thesis using that(4) p Inr q by blast
      qed
    qed
  qed
qed

subsection \<open>Lemmas: the waiting loops end\<close>

lemma waitForVMIP_returns: "vms = None \<or> (\<exists>p \<in> set ps. po_late p) \<Longrightarrow> waitForVMIP vms n ps w \<noteq> None"
  by (induction vms n ps w rule: waitForVMIP.induct) (auto simp: Let_def split: option.splits)

lemma reconnect_returns: "\<exists>p \<in> set ps. po_late p \<Longrightarrow> reconnectAndVerifyK3s ssh spec ps w \<noteq> None"
  by (induction ps arbitrary: w) (auto split: option.splits prod.splits)

lemma runInstall_returns:
  assumes "\<exists>p \<in> set ps. po_late p"
  shows "runInstall ssh spec ps w \<noteq> None"
proof -
  obtain x w1 where x: "so_run ssh (kn_vmIP spec) (buildNodeInstallCommand spec) w = (x, w1)" by fastforce
  show ?thesis using x reconnect_returns [OF assms, of ssh spec w1] by (cases x) (auto simp: runInstall_def)
qed

lemma install_returns:
  assumes "\<exists>p \<in> set ps. po_late p"
  shows "installK3sNode ssh ps manifest spec w \<noteq> None"
proof -
  obtain c w1 where c: "so_connect ssh (kn_vmIP spec) (kn_sshUser spec) (kn_sshKeyPath spec) w = (c, w1)" by fastforce
  obtain q w2 where q: "runInstall ssh spec ps w1 = Some (q, w2)" using runInstall_returns [OF assms, of ssh spec w1] by fastforce
  show ?thesis using c q by (cases c; cases q) (simp_all add: installK3sNode_def Let_def)
qed

subsection \<open>Lemmas: an install over a working connection\<close>

lemma install_command_head: "\<exists>t. buildNodeInstallCommand spec = CHR ''b'' # t"
  by (simp add: buildNodeInstallCommand_def wrapK3sInstall_def Let_def)

text \<open>The host answers; only the install command may fail, and then because the connection dropped.\<close>

definition answers :: "'w ssh_ops \<Rightarrow> k3s_node_spec \<Rightarrow> bool" where
  "answers ssh spec \<longleftrightarrow>
     (\<forall>w. fst (so_connect ssh (kn_vmIP spec) (kn_sshUser spec) (kn_sshKeyPath spec) w) = None) \<and>
     (\<forall>c w. case fst (so_run ssh (kn_vmIP spec) c w) of Inr _ \<Rightarrow> True | Inl e \<Rightarrow> c = buildNodeInstallCommand spec \<and> isConnectionDropError e)"

lemma answers_connect: "answers ssh spec \<Longrightarrow> \<exists>w1. so_connect ssh (kn_vmIP spec) (kn_sshUser spec) (kn_sshKeyPath spec) w = (None, w1)"
  unfolding answers_def by (metis prod.collapse)

lemma answers_run:
  assumes "answers ssh spec" "hd c \<noteq> CHR ''b''"
  shows "\<exists>out w1. so_run ssh (kn_vmIP spec) c w = (Inr out, w1)"
proof -
  have "c \<noteq> buildNodeInstallCommand spec" using assms(2) install_command_head [of spec] by auto
  moreover have "case fst (so_run ssh (kn_vmIP spec) c w) of Inr _ \<Rightarrow> True | Inl e \<Rightarrow> c = buildNodeInstallCommand spec \<and> isConnectionDropError e"
    using assms(1) unfolding answers_def by blast
  ultimately show ?thesis by (cases "so_run ssh (kn_vmIP spec) c w"; cases "fst (so_run ssh (kn_vmIP spec) c w)") auto
qed

lemma reconnectOnce_ok:
  assumes "answers ssh spec"
  shows "fst (reconnectOnce ssh spec w) = None"
proof -
  obtain w1 where c: "so_connect ssh (kn_vmIP spec) (kn_sshUser spec) (kn_sshKeyPath spec) w = (None, w1)" using answers_connect [OF assms] by blast
  note r = answers_run [OF assms]
  obtain o1 w2 where 1: "so_run ssh (kn_vmIP spec) ''systemctl is-active k3s'' w1 = (Inr o1, w2)" using r by fastforce
  obtain o2 w3 where 2: "so_run ssh (kn_vmIP spec) ''test -f /var/lib/rancher/k3s/server/node-token'' w2 = (Inr o2, w3)" using r by fastforce
  obtain o3 w4 where 3: "so_run ssh (kn_vmIP spec) ''systemctl is-active k3s-agent'' w1 = (Inr o3, w4)" using r by fastforce
  show ?thesis using c 1 2 3 by (simp add: reconnectOnce_def verifyK3sHealthy_def)
qed

lemma runInstall_ok:
  assumes "answers ssh spec" "po_ctx p = None"
  shows "\<exists>w'. runInstall ssh spec (p # ps) w = Some (None, w')"
proof -
  obtain x w1 where x: "so_run ssh (kn_vmIP spec) (buildNodeInstallCommand spec) w = (x, w1)" by fastforce
  obtain w2 where "reconnectOnce ssh spec w1 = (None, w2)" using reconnectOnce_ok [OF assms(1), of w1] by (cases "reconnectOnce ssh spec w1") auto
  moreover have "isConnectionDropError e" if "x = Inl e" for e using assms(1) x that unfolding answers_def by (auto split: sum.splits dest!: spec [of _ "buildNodeInstallCommand spec"] spec [of _ w])
  ultimately show ?thesis using x assms(2) by (cases x) (simp_all add: runInstall_def)
qed

text \<open>On a host that answers, a server gives its token, and the first server its kubeconfig.\<close>

lemma readServerState_ok:
  assumes "answers ssh spec" "quietSsh ssh" "\<forall>f. kf_wrErr w f = None"
  shows "\<exists>s w'. readServerState ssh name spec st w = (Inr s, w') \<and> (\<forall>f. kf_wrErr w' f = None) \<and>
    (kn_role spec = ''server'' \<and> kn_joinToken spec = [] \<longrightarrow> map_of (kf_kubeconfigs w') name \<noteq> None)"
proof -
  have r: "\<exists>out w2. so_run ssh (kn_vmIP spec) cmd v = (Inr out, w2) \<and> kf_wrErr w2 = kf_wrErr v" if c: "hd cmd \<noteq> CHR ''b''" for cmd v
  proof -
    obtain out w2 where o: "so_run ssh (kn_vmIP spec) cmd v = (Inr out, w2)" using answers_run [OF assms(1) c] by blast
    then show ?thesis using sameFilesD(6) [OF so_run_same [OF assms(2) o]] by simp
  qed
  obtain tok w1 where t: "so_run ssh (kn_vmIP spec) ''cat /var/lib/rancher/k3s/server/node-token'' w = (Inr tok, w1)" "kf_wrErr w1 = kf_wrErr w"
    using r [of "''cat /var/lib/rancher/k3s/server/node-token''" w] by auto
  obtain kc w2 where k: "so_run ssh (kn_vmIP spec) ''cat /etc/rancher/k3s/k3s.yaml'' w1 = (Inr kc, w2)" "kf_wrErr w2 = kf_wrErr w1"
    using r [of "''cat /etc/rancher/k3s/k3s.yaml''" w1] by auto
  show ?thesis using t k assms(3) by (simp add: readServerState_def saveK3sNodeKubeconfig_def Let_def)
qed

lemma node_apply_ok:
  fixes w :: "'a k3s_files_scheme"
  assumes "r_name manifest \<noteq> []" "parseK3sNodeSpec manifest = Inr spec" "kn_vmIP spec \<noteq> []" "installedNode (r_name manifest) w = None"
    and "answers ssh spec" "quietSsh ssh" "\<forall>f. kf_wrErr w f = None" "po_ctx p = None" "quietPolls (p # ps)"
  shows "\<exists>x st w'. applyK3sNode vms ssh waits (p # ps) manifest w = Some (Inr x, w') \<and>
    map_of (kf_nodes w') (r_name manifest) = Some st \<and> ns_installed st \<and> ns_vmIP st = kn_vmIP spec \<and>
    (kn_role spec = ''server'' \<and> kn_joinToken spec = [] \<longrightarrow> map_of (kf_kubeconfigs w') (r_name manifest) \<noteq> None)"
proof -
  let ?n = "r_name manifest"
  obtain w1 where c: "so_connect ssh (kn_vmIP spec) (kn_sshUser spec) (kn_sshKeyPath spec) w = (None, w1)" using answers_connect [OF assms(5)] by blast
  obtain w2 where i: "runInstall ssh spec (p # ps) w1 = Some (None, w2)" using runInstall_ok [OF assms(5,8)] by blast
  have s: "sameFiles w w2" using sameFiles_trans [OF so_connect_same [OF assms(6) c] runInstall_same [OF assms(6,9) i]] .
  have "\<forall>f. kf_wrErr w2 f = None" using assms(7) sameFilesD(6) [OF s] by simp
  from readServerState_ok [OF assms(5,6) this] obtain s w3 where srv: "readServerState ssh ?n spec (freshNodeState ?n spec (kf_now w2)) w2 = (Inr s, w3)"
    "\<forall>f. kf_wrErr w3 f = None" "kn_role spec = ''server'' \<and> kn_joinToken spec = [] \<longrightarrow> map_of (kf_kubeconfigs w3) ?n \<noteq> None" by blast
  let ?w4 = "w3\<lparr>kf_nodes := putKey (kf_nodes w3) (ns_name s) s\<rparr>"
  have a: "applyK3sNode vms ssh waits (p # ps) manifest w = installK3sNode ssh (p # ps) manifest spec w"
    using assms(1-4) by (simp add: applyK3sNode_def)
  have b: "installK3sNode ssh (p # ps) manifest spec w = Some (Inr (nodeStateToResource ?n (Some manifest) s), ?w4)"
    using c i srv by (simp add: installK3sNode_def saveNodeState_def)
  from installK3sNode_effect [OF assms(6,9) b] obtain st where "map_of (kf_nodes ?w4) ?n = Some st" "ns_installed st" "ns_vmIP st = kn_vmIP spec" by auto
  then show ?thesis unfolding a b using srv(3) by auto
qed

lemma applyK3sNode_written:
  fixes w :: "'a k3s_files_scheme"
  assumes "quietSsh ssh" "quietPolls waits" "quietPolls settle" "applyK3sNode vms ssh waits settle manifest w = Some (r, w')"
  shows "nodeWritten (r_name manifest) w w'"
    and "r = Inl e \<Longrightarrow> kf_nodes w' = kf_nodes w"
    and "r = Inr x \<Longrightarrow> (\<exists>st. map_of (kf_nodes w') (r_name manifest) = Some st \<and> ns_installed st \<and>
      x = nodeStateToResource (r_name manifest) (Some manifest) st) \<and> r_name manifest \<noteq> [] \<and> isOk (parseK3sNodeSpec manifest)"
proof -
  let ?n = "r_name manifest"
  have main: "nodeWritten ?n w w' \<and> (\<forall>e. r = Inl e \<longrightarrow> kf_nodes w' = kf_nodes w) \<and>
    (\<forall>x. r = Inr x \<longrightarrow> (\<exists>st. map_of (kf_nodes w') ?n = Some st \<and> ns_installed st \<and> x = nodeStateToResource ?n (Some manifest) st) \<and>
       ?n \<noteq> [] \<and> isOk (parseK3sNodeSpec manifest))"
    using assms(4)
  proof (cases rule: applyK3sNode_cases)
    case refused
    then show ?thesis by (simp add: nodeWritten_def)
  next
    case (known st)
    then have "map_of (kf_nodes w) ?n = Some st \<and> ns_installed st"
      by (auto simp: installedNode_def loadNodeState_def split: sum.splits option.splits if_splits)
    then show ?thesis using known by (simp add: nodeWritten_def)
  next
    case (waited e)
    note d = sameFilesD [OF waitForVMIP_same [OF assms(2) waited(1)]]
    show ?thesis using waited(2) d by (simp add: nodeWritten_def)
  next
    case (install spec' w1)
    have w1: "sameFiles w w1" using install(3) waitForVMIP_same [OF assms(2)] by auto
    have eq: "nodeWritten ?n w w' = nodeWritten ?n w1 w'" "kf_nodes w = kf_nodes w1" using sameFilesD [OF w1] by (simp_all add: nodeWritten_def)
    show ?thesis using installK3sNode_effect [OF assms(1,3) install(4)] install(1,2) unfolding eq by blast
  qed
  show "nodeWritten (r_name manifest) w w'" using main by simp
  show "r = Inl e \<Longrightarrow> kf_nodes w' = kf_nodes w" using main by simp
  show "r = Inr x \<Longrightarrow> (\<exists>st. map_of (kf_nodes w') (r_name manifest) = Some st \<and> ns_installed st \<and>
      x = nodeStateToResource (r_name manifest) (Some manifest) st) \<and> r_name manifest \<noteq> [] \<and> isOk (parseK3sNodeSpec manifest)" using main by simp
qed

subsection \<open>Properties\<close>

text \<open>
  C27. Applying a K3sNode touches nothing but the records of that node: the state of the node and its kubeconfig.  A failed
  apply records no install.  A successful one records an installed node, reports what is recorded, and applying the
  same manifest again returns the same answer without a connection to the host and without any change.
\<close>
theorem node_apply_isolated:
  fixes w :: "'a k3s_files_scheme"
  assumes "quietSsh ssh" "quietPolls waits" "quietPolls settle" "applyK3sNode vms ssh waits settle manifest w = Some (r, w')"
  shows "nodeWritten (r_name manifest) w w' \<and> (\<forall>e. r = Inl e \<longrightarrow> kf_nodes w' = kf_nodes w) \<and>
    (\<forall>x. r = Inr x \<longrightarrow>
       (\<exists>st. map_of (kf_nodes w') (r_name manifest) = Some st \<and> ns_installed st \<and> x = nodeStateToResource (r_name manifest) (Some manifest) st) \<and>
       (kf_rdErr w' (NodeFile (r_name manifest)) = None \<longrightarrow>
          (\<forall>vms2 ssh2 waits2 settle2. applyK3sNode vms2 ssh2 waits2 settle2 manifest w' = Some (Inr x, w'))))"
proof -
  let ?n = "r_name manifest"
  note main = applyK3sNode_written [OF assms]
  have "applyK3sNode vms2 ssh2 waits2 settle2 manifest w' = Some (Inr x, w')"
    if "r = Inr x" "kf_rdErr w' (NodeFile ?n) = None" for x and vms2 :: "'a k3s_files_scheme vm_provider option" and ssh2 waits2 settle2
    using main(3) [OF that(1)] that(2) by (auto simp: applyK3sNode_def Let_def isOk_iff installedNode_def loadNodeState_def)
  then show ?thesis using main by blast
qed


text \<open>
  C26. An install survives the loss of its connection: when the host answers and only the install command may fail, because
  starting k3s cuts the connection, and the state can be written, then applying a K3sNode whose VM has an address
  succeeds, records the node as installed at that address, and the first server leaves its kubeconfig.
\<close>
theorem node_apply_survives_drop:
  fixes w :: "'a k3s_files_scheme"
  assumes "r_name manifest \<noteq> []" "parseK3sNodeSpec manifest = Inr spec" "kn_vmIP spec \<noteq> []" "installedNode (r_name manifest) w = None"
    and "answers ssh spec" "quietSsh ssh" "\<forall>f. kf_wrErr w f = None" "po_ctx p = None" "quietPolls (p # ps)"
  shows "\<exists>x st w'. applyK3sNode vms ssh waits (p # ps) manifest w = Some (Inr x, w') \<and>
    map_of (kf_nodes w') (r_name manifest) = Some st \<and> ns_installed st \<and> ns_vmIP st = kn_vmIP spec \<and>
    (kn_role spec = ''server'' \<and> kn_joinToken spec = [] \<longrightarrow> map_of (kf_kubeconfigs w') (r_name manifest) \<noteq> None)"
  by (rule node_apply_ok [OF assms])

subsection \<open>The example\<close>

definition sampleNode :: resource where
  "sampleNode = (bareResource ''k3s.openctl.io/v1'' ''K3sNode'' ''dev-cp-0'')\<lparr>r_spec := Some
     [(''vmRef'', VObj [(''metadata'', VObj [(''name'', VStr ''dev-cp-0'')]), (''status'', VObj [(''ip'', VStr ''10.0.0.7'')])]),
      (''role'', VStr ''server''), (''ssh'', VObj [(''privateKeyPath'', VStr ''/k'')])]\<rparr>"

definition sampleNodeSpec :: k3s_node_spec where
  "sampleNodeSpec = \<lparr>kn_vmName = ''dev-cp-0'', kn_vmIP = ''10.0.0.7'', kn_role = ''server'', kn_joinToken = [], kn_joinIP = [], kn_version = [],
     kn_extraArgs = [], kn_sshUser = ''ubuntu'', kn_sshKeyPath = ''/k'', kn_clusterInit = False\<rparr>"

text \<open>A host that drops the connection when k3s starts.\<close>

definition droppingSsh :: "k3s_files ssh_ops" where
  "droppingSsh = \<lparr>so_connect = (\<lambda>h u k w. (None, w)),
     so_run = (\<lambda>h c w. (if hd c = CHR ''b'' \<and> c = buildNodeInstallCommand sampleNodeSpec then Inl (Plain ''EOF'') else Inr ''ok'', w)),
     so_plain = (\<lambda>h c w. (Inr [], w)), so_upload = (\<lambda>h d f m w. (None, w))\<rparr>"

definition lateRound :: "k3s_files poll" where
  "lateRound = \<lparr>po_ctx = None, po_late = True, po_done = None, po_other = (\<lambda>w. w)\<rparr>"

lemma parse_sampleNode: "parseK3sNodeSpec sampleNode = Inr sampleNodeSpec"
  by (simp add: parseK3sNodeSpec_def sampleNode_def sampleNodeSpec_def bareResource_def objField_def objGet_def parseJoin_def parseSshBlock_def
      strField_def vmRefName_def vmRefIP_def stringsOf_def arrField_def boolField_def List.map_filter_simps)

lemma sampleNode_name: "r_name sampleNode = ''dev-cp-0''"
  by (simp add: sampleNode_def bareResource_def bareMetadata_def)

lemma dropping_answers: "answers droppingSsh sampleNodeSpec" "quietSsh droppingSsh"
proof -
  have "isConnectionDropError (Plain ''EOF'')" by code_simp
  then show "answers droppingSsh sampleNodeSpec" "quietSsh droppingSsh" by (auto simp: answers_def quietSsh_def droppingSsh_def)
qed

lemma lateRound_quiet: "quietPolls [lateRound]" "po_ctx lateRound = None"
  by (simp_all add: quietPolls_def lateRound_def)

lemma emptyFiles_node: "installedNode n emptyFiles = None" "\<forall>f. kf_wrErr emptyFiles f = None" "kf_nodes emptyFiles = []"
  by (simp_all add: installedNode_def loadNodeState_def emptyFiles_def)

theorem node_apply_survives_drop_witness:
  "\<exists>x st w'. applyK3sNode None droppingSsh [] [lateRound] sampleNode emptyFiles = Some (Inr x, w') \<and>
     map_of (kf_nodes w') ''dev-cp-0'' = Some st \<and> ns_vmIP st = ''10.0.0.7'' \<and> map_of (kf_kubeconfigs w') ''dev-cp-0'' \<noteq> None"
  using node_apply_survives_drop [OF _ parse_sampleNode _ emptyFiles_node(1) dropping_answers emptyFiles_node(2) lateRound_quiet(2,1), of None "[]"]
    sampleNode_name by (auto simp: sampleNodeSpec_def)


theorem node_apply_isolated_witness:
  "\<exists>x w'. applyK3sNode None droppingSsh [] [lateRound] sampleNode emptyFiles = Some (Inr x, w') \<and> kf_clusters w' = [] \<and> kf_agents w' = []"
proof -
  have run: "\<exists>x w'. applyK3sNode None droppingSsh [] [lateRound] sampleNode emptyFiles = Some (Inr x, w')"
    using node_apply_ok [OF _ parse_sampleNode _ emptyFiles_node(1) dropping_answers emptyFiles_node(2) lateRound_quiet(2,1), of None "[]"]
      sampleNode_name by (auto simp: sampleNodeSpec_def)
  have q: "quietPolls []" by (simp add: quietPolls_def)
  obtain x w' where x: "applyK3sNode None droppingSsh [] [lateRound] sampleNode emptyFiles = Some (Inr x, w')" using run by blast
  from node_apply_isolated [OF dropping_answers(2) q lateRound_quiet(1) x] x show ?thesis by (auto simp: nodeWritten_def emptyFiles_def)
qed

end
