(* ===== verification/K3sCreate.thy ===== *)
theory K3sCreate
  imports K3sPlan K3sNodeOps
begin

text \<open>
  Creating a cluster without a child dispatcher: pkg/k3s/cluster/create.go (the VM manifests, the installation of k3s
  and the agents on all nodes) and internal/controller/providers/k3s/childops.go, ips.go and the imperative part of
  provider.go (Apply, saveState).

  Go maps that the code ranges over are association lists whose order is the order of the iteration.
\<close>

subsection \<open>The VM manifests (create.go)\<close>

record dispatch_request =
  dq_id :: string
  dq_provider :: string
  dq_action :: string
  dq_resourceType :: string
  dq_manifest :: resource

definition creatorIPs :: "string \<Rightarrow> cluster_spec \<Rightarrow> strmap" where
  "creatorIPs cl spec = (case AllocateIPs cl spec of Inr m \<Rightarrow> m | Inl _ \<Rightarrow> [])"

text \<open>A node with an address in a spec without \<^verbatim>\<open>staticIPs\<close> dereferences a nil pointer.\<close>

definition creatorIpConfig :: "string \<Rightarrow> cluster_spec \<Rightarrow> err + obj" where
  "creatorIpConfig staticIP spec =
     (if staticIP \<noteq> [] then
        (case nw_staticIPs (cs_network spec) of
           None \<Rightarrow> Inl NilDeref
         | Some st \<Rightarrow> Inr [(''net0'', VObj [(''ip'', VStr (staticIP @ ''/'' @ si_netmask st)), (''gateway'', VStr (si_gateway st))])])
      else Inr [(''net0'', VObj [(''ip'', VStr ''dhcp'')])])"

definition creatorBaseSpec :: "size_spec \<Rightarrow> obj \<Rightarrow> cluster_spec \<Rightarrow> obj" where
  "creatorBaseSpec sz ipConfig spec =
     [(''startOnCreate'', VBool True),
      (''agent'', VObj [(''enabled'', VBool True)]),
      (''cpu'', VObj [(''cores'', VInt (sz_cpus sz))]),
      (''memory'', VObj [(''size'', VInt (sz_memoryMB sz))]),
      (''disks'', VArr [VObj [(''name'', VStr ''scsi0''), (''size'', VStr (showInt (sz_diskGB sz) @ ''G''))]]),
      (''networks'', VArr [VObj [(''name'', VStr ''net0''), (''bridge'', VStr (nw_bridge (cs_network spec))), (''model'', VStr ''virtio'')]]),
      (''cloudInit'', VObj [(''user'', VStr (sh_user (cs_ssh spec))), (''sshKeys'', strList (sh_publicKeys (cs_ssh spec))),
          (''ipConfig'', VObj ipConfig)])]"

definition nodeRole :: "int \<Rightarrow> int \<Rightarrow> string" where
  "nodeRole i cpCount = (if i < cpCount then ''control-plane'' else ''worker'')"

text \<open>The storage of the image falls back to the default of the provider's configuration.\<close>

definition creatorImage :: "string \<Rightarrow> image_spec \<Rightarrow> image_spec" where
  "creatorImage cfgStorage im = (if im_storage im = [] then im\<lparr>im_storage := cfgStorage\<rparr> else im)"

definition creatorVM :: "string \<Rightarrow> string \<Rightarrow> cluster_spec \<Rightarrow> int \<Rightarrow> int \<times> string \<Rightarrow> err + resource" where
  "creatorVM cl cfgStorage spec cpCount = (\<lambda>(i, node).
     bindE (creatorIpConfig (strGet (creatorIPs cl spec) node) spec) (\<lambda>ipConfig.
       let m0 = creatorBaseSpec (sizeForNode i cpCount spec) ipConfig spec;
           m1 = ApplyNodePrepToVMSpec (ApplyGPUToVMSpec m0 (GPUForNode i cpCount spec)) (NodePrepForNode i cpCount spec);
           m2 = withImage (creatorImage cfgStorage (cm_image (cs_compute spec))) (withPlacement (placementOf (PlacementTargets cl spec) node) m1)
       in Inr \<lparr>r_apiVersion = cm_provider (cs_compute spec) @ ''.openctl.io/v1'', r_kind = ''VirtualMachine'',
            r_metadata = (bareMetadata node)\<lparr>md_labels := [(''k3s.openctl.io/cluster'', cl), (''k3s.openctl.io/role'', nodeRole i cpCount)]\<rparr>,
            r_spec = Some m2, r_status = None\<rparr>))"

fun allOk :: "('a \<Rightarrow> err + 'b) \<Rightarrow> 'a list \<Rightarrow> err + 'b list" where
  "allOk f [] = Inr []"
| "allOk f (x # xs) = bindE (f x) (\<lambda>y. bindE (allOk f xs) (\<lambda>ys. Inr (y # ys)))"

definition vmRequest :: "cluster_spec \<Rightarrow> resource \<Rightarrow> dispatch_request" where
  "vmRequest spec vm =
     \<lparr>dq_id = ''vm-'' @ r_name vm, dq_provider = cm_provider (cs_compute spec), dq_action = ''create'', dq_resourceType = ''VirtualMachine'', dq_manifest = vm\<rparr>"

definition indexedNodes :: "string \<Rightarrow> cluster_spec \<Rightarrow> (int \<times> string) list" where
  "indexedNodes cl spec = map (\<lambda>(i, n). (int i, n)) (enumerate 0 (allNodeNames cl spec))"

definition GenerateDispatchRequests :: "string \<Rightarrow> string \<Rightarrow> cluster_spec \<Rightarrow> err + dispatch_request list" where
  "GenerateDispatchRequests cl cfgStorage spec =
     bindE (allOk (creatorVM cl cfgStorage spec (int (length (fst (NodeNames cl spec))))) (indexedNodes cl spec))
       (\<lambda>vms. Inr (map (vmRequest spec) vms))"

subsection \<open>Installing (create.go)\<close>

definition buildServerInstallCommand :: "cluster_spec \<Rightarrow> string" where
  "buildServerInstallCommand spec =
     (let k = cs_k3s spec; env = versionEnv (ks_version k);
          args = (if ks_clusterCIDR k \<noteq> [] then [''--cluster-cidr='' @ ks_clusterCIDR k] else [])
                 @ (if ks_serviceCIDR k \<noteq> [] then [''--service-cidr='' @ ks_serviceCIDR k] else []) @ ks_extraArgs k
      in ''curl -sfL https://get.k3s.io | '' @ (if env \<noteq> [] then joinWith '' '' env @ '' '' else []) @ ''sh -s -''
         @ (if args \<noteq> [] then '' '' @ joinWith '' '' args else []))"

definition buildAgentInstallCommand :: "cluster_spec \<Rightarrow> string \<Rightarrow> string \<Rightarrow> string" where
  "buildAgentInstallCommand spec serverIP token =
     ''curl -sfL https://get.k3s.io | '' @ joinWith '' '' (joinEnv (ks_version (cs_k3s spec)) token serverIP) @ '' sh -s -''"

definition buildServerJoinCommand :: "cluster_spec \<Rightarrow> string \<Rightarrow> string \<Rightarrow> string" where
  "buildServerJoinCommand spec serverIP token = buildAgentInstallCommand spec serverIP token @ '' server''"

definition generateAndSaveCerts ::
  "crypto \<Rightarrow> string \<Rightarrow> strmap \<Rightarrow> 'a k3s_files_scheme \<Rightarrow> (err + cert_bundle) \<times> 'a k3s_files_scheme" where
  "generateAndSaveCerts cy cl nodeIPs w =
     (case GenerateBundle cy cl (sort_key ni_name (map (\<lambda>(n, ip). \<lparr>ni_name = n, ni_ip = ip\<rparr>) nodeIPs)) of
        Inl e \<Rightarrow> (Inl (Wrap ''generate cert bundle'' e), w)
      | Inr b \<Rightarrow>
          (case bundleWriteTo cl b w of
             (Some e, w1) \<Rightarrow> (Inl (Wrap ''write cert bundle'' e), w1)
           | (None, w1) \<Rightarrow> (Inr b, w1)))"

definition installAgentOn :: "install_host \<Rightarrow> 'w ssh_ops \<Rightarrow> cert_bundle \<Rightarrow> string \<Rightarrow> string \<Rightarrow> 'w \<Rightarrow> err option \<times> 'w" where
  "installAgentOn ih ssh b node ip w =
     (case map_of (bd_serverCerts b) node of
        None \<Rightarrow> (Some (Plain (''no server cert in bundle for '' @ node)), w)
      | Some server \<Rightarrow>
          (case Install ih ssh ip server (bd_caCert b) w of
             (Inl e, w1) \<Rightarrow> (Some (Wrap (''install agent on '' @ node) e), w1)
           | (Inr _, w1) \<Rightarrow> (None, w1)))"

text \<open>The nodes that join, one after the other: \<open>what\<close> and \<open>cmd\<close> are those of a server or of an agent.\<close>

fun joinNodes ::
  "install_host \<Rightarrow> 'w ssh_ops \<Rightarrow> cluster_spec \<Rightarrow> cert_bundle \<Rightarrow> strmap \<Rightarrow> string \<Rightarrow> string \<Rightarrow> string list \<Rightarrow> 'w \<Rightarrow> err option \<times> 'w" where
  "joinNodes ih ssh spec b ips what cmd [] w = (None, w)"
| "joinNodes ih ssh spec b ips what cmd (n # ns) w =
     (let ip = strGet ips n in
      if ip = [] then (Some (Plain (''IP address not available for '' @ n)), w)
      else
        (case so_connect ssh ip (sh_user (cs_ssh spec)) (sh_privateKeyPath (cs_ssh spec)) w of
           (Some e, w1) \<Rightarrow> (Some (Wrap (''failed to connect to '' @ n) e), w1)
         | (None, w1) \<Rightarrow>
             (case so_run ssh ip cmd w1 of
                (Inl e, w2) \<Rightarrow> (Some (Wrap (''failed to install K3s '' @ what @ '' on '' @ n) e), w2)
              | (Inr _, w2) \<Rightarrow>
                  (case installAgentOn ih ssh b n ip w2 of
                     (Some e, w3) \<Rightarrow> (Some e, w3)
                   | (None, w3) \<Rightarrow> joinNodes ih ssh spec b ips what cmd ns w3))))"

text \<open>\<open>ac\<close> asks the agent at an address for its state; \<^verbatim>\<open>agentclient.New\<close> fails first when \<open>acNew\<close> does.\<close>

fun pollAgentInfo :: "(string \<Rightarrow> 'w \<Rightarrow> err option \<times> 'w) \<Rightarrow> string \<Rightarrow> string \<Rightarrow> err option \<Rightarrow> 'w poll list \<Rightarrow> 'w \<Rightarrow> (err option \<times> 'w) option" where
  "pollAgentInfo ac name ip lastErr [] w = None"
| "pollAgentInfo ac name ip lastErr (p # ps) w =
     (if po_late p then
        Some (Some (case lastErr of
                      Some e \<Rightarrow> Wrap (''agent on '' @ name @ '' ('' @ ip @ '') unreachable after 30s'') e
                    | None \<Rightarrow> Plain (''agent on '' @ name @ '' ('' @ ip @ '') unreachable after 30s: %!w(<nil>)'')), w)
      else
        (case ac ip w of
           (None, w1) \<Rightarrow> Some (None, w1)
         | (Some e, w1) \<Rightarrow> pollAgentInfo ac name ip (Some e) ps (po_other p w1)))"

fun verifyAgentsReachable ::
  "(string \<Rightarrow> err option) \<Rightarrow> (string \<Rightarrow> 'w \<Rightarrow> err option \<times> 'w) \<Rightarrow> (string \<Rightarrow> 'w poll list) \<Rightarrow> strmap \<Rightarrow> 'w \<Rightarrow> (err option \<times> 'w) option" where
  "verifyAgentsReachable acNew ac polls [] w = Some (None, w)"
| "verifyAgentsReachable acNew ac polls ((name, ip) # ips) w =
     (case acNew ip of
        Some e \<Rightarrow> Some (Some (Wrap (''agent client for '' @ name) e), w)
      | None \<Rightarrow>
          (case pollAgentInfo ac name ip None (polls name) w of
             None \<Rightarrow> None
           | Some (Some e, w1) \<Rightarrow> Some (Some e, w1)
           | Some (None, w1) \<Rightarrow> verifyAgentsReachable acNew ac polls ips w1))"

record install_result =
  ir_kubeconfigPath :: string
  ir_serverIP :: string
  ir_token :: string
  ir_agentBundleDir :: string
  ir_agentEndpoints :: strmap

text \<open>The first control plane: its install, the token and the kubeconfig with its address.\<close>

definition installFirst ::
  "install_host \<Rightarrow> 'w ssh_ops \<Rightarrow> cluster_spec \<Rightarrow> cert_bundle \<Rightarrow> string \<Rightarrow> string \<Rightarrow> 'w \<Rightarrow> (err + string \<times> string) \<times> 'w" where
  "installFirst ih ssh spec b cp ip w =
     (if ip = [] then (Inl (Plain (''IP address not available for '' @ cp)), w)
      else
        (case so_connect ssh ip (sh_user (cs_ssh spec)) (sh_privateKeyPath (cs_ssh spec)) w of
           (Some e, w1) \<Rightarrow> (Inl (Wrap (''failed to connect to '' @ cp) e), w1)
         | (None, w1) \<Rightarrow>
             (case so_run ssh ip (buildServerInstallCommand spec) w1 of
                (Inl e, w2) \<Rightarrow> (Inl (Wrap (''failed to install K3s server on '' @ cp) e), w2)
              | (Inr _, w2) \<Rightarrow>
                  (case so_run ssh ip ''cat /var/lib/rancher/k3s/server/node-token'' w2 of
                     (Inl e, w3) \<Rightarrow> (Inl (Wrap ''failed to get K3s token'' e), w3)
                   | (Inr tok, w3) \<Rightarrow>
                       (case so_run ssh ip ''cat /etc/rancher/k3s/k3s.yaml'' w3 of
                          (Inl e, w4) \<Rightarrow> (Inl (Wrap ''failed to get kubeconfig'' e), w4)
                        | (Inr kc, w4) \<Rightarrow>
                            (case installAgentOn ih ssh b cp ip w4 of
                               (Some e, w5) \<Rightarrow> (Inl e, w5)
                             | (None, w5) \<Rightarrow> (Inr (trimSpace tok, localKubeconfig kc ip), w5)))))))"

definition InstallK3s ::
  "crypto \<Rightarrow> install_host \<Rightarrow> 'a k3s_files_scheme ssh_ops \<Rightarrow> (string \<Rightarrow> err option) \<Rightarrow> (string \<Rightarrow> 'a k3s_files_scheme \<Rightarrow> err option \<times> 'a k3s_files_scheme) \<Rightarrow>
   (string \<Rightarrow> 'a k3s_files_scheme poll list) \<Rightarrow> string \<Rightarrow> cluster_spec \<Rightarrow> strmap \<Rightarrow> 'a k3s_files_scheme \<Rightarrow> ((err + install_result) \<times> 'a k3s_files_scheme) option" where
  "InstallK3s cy ih ssh acNew ac polls cl spec nodeIPs w =
     (case NodeNames cl spec of
        ([], workers) \<Rightarrow> Some (Inl (Plain ''at least one control plane node is required''), w)
      | (cp # cps, workers) \<Rightarrow>
          (case generateAndSaveCerts cy cl nodeIPs w of
             (Inl e, w1) \<Rightarrow> Some (Inl e, w1)
           | (Inr b, w1) \<Rightarrow>
               let ip = strGet nodeIPs cp in
               (case installFirst ih ssh spec b cp ip w1 of
                  (Inl e, w2) \<Rightarrow> Some (Inl e, w2)
                | (Inr (token, kc), w2) \<Rightarrow>
                    (case joinNodes ih ssh spec b nodeIPs ''server'' (buildServerJoinCommand spec ip token) cps w2 of
                       (Some e, w3) \<Rightarrow> Some (Inl e, w3)
                     | (None, w3) \<Rightarrow>
                         (case joinNodes ih ssh spec b nodeIPs ''agent'' (buildAgentInstallCommand spec ip token) workers w3 of
                            (Some e, w4) \<Rightarrow> Some (Inl e, w4)
                          | (None, w4) \<Rightarrow>
                              (case saveK3sNodeKubeconfig cl kc w4 of
                                 (Some e, w5) \<Rightarrow> Some (Inl (Wrap ''failed to save kubeconfig'' e), w5)
                               | (None, w5) \<Rightarrow>
                                   (case verifyAgentsReachable acNew ac polls nodeIPs w5 of
                                      None \<Rightarrow> None
                                    | Some (Some e, w6) \<Rightarrow> Some (Inl (Wrap ''agent reachability check failed'' e), w6)
                                    | Some (None, w6) \<Rightarrow>
                                        Some (Inr \<lparr>ir_kubeconfigPath = kubeconfigPath cl w6, ir_serverIP = ip, ir_token = token,
                                                   ir_agentBundleDir = clusterBundleDir w6 cl, ir_agentEndpoints = nodeIPs\<rparr>, w6))))))))"

subsection \<open>Child operations (childops.go)\<close>

text \<open>\<^verbatim>\<open>operations.ChildRecorder\<close> as the provider uses it: the errors of both calls are dropped.\<close>

record 'w child_recorder =
  rec_begin :: "string \<Rightarrow> string \<Rightarrow> string \<Rightarrow> string \<Rightarrow> string \<Rightarrow> resource option \<Rightarrow> 'w \<Rightarrow> string \<times> 'w"
  rec_end :: "string \<Rightarrow> bool \<Rightarrow> string \<Rightarrow> resource option \<Rightarrow> 'w \<Rightarrow> 'w"

definition runChildVMApply :: "'w child_recorder \<Rightarrow> 'w vm_provider \<Rightarrow> resource \<Rightarrow> 'w \<Rightarrow> err option \<times> 'w" where
  "runChildVMApply rec vms vm w =
     (case rec_begin rec ''apply'' (r_apiVersion vm) (r_kind vm) (r_name vm) [] (Some vm) w of
        (i, w1) \<Rightarrow>
          (case vp_apply vms vm w1 of
             (Inl e, w2) \<Rightarrow> (Some (Wrap (''apply VM '' @ r_name vm) e), rec_end rec i False (errText e) None w2)
           | (Inr r, w2) \<Rightarrow> (None, rec_end rec i True [] r w2)))"

definition runChildStep ::
  "'w child_recorder \<Rightarrow> string \<Rightarrow> string \<Rightarrow> string \<Rightarrow> ('w \<Rightarrow> ((err + 'b) \<times> 'w) option) \<Rightarrow> 'w \<Rightarrow> ((err + 'b) \<times> 'w) option" where
  "runChildStep rec cl step label fn w =
     (case rec_begin rec ''step'' ''k3s.openctl.io/v1'' ''Cluster'' (cl @ ''/'' @ step) label None w of
        (i, w1) \<Rightarrow>
          map_option (\<lambda>r. case r of
              (Inl e, w2) \<Rightarrow> (Inl e, rec_end rec i False (errText e) None w2)
            | (Inr x, w2) \<Rightarrow> (Inr x, rec_end rec i True [] None w2)) (fn w1))"

subsection \<open>The addresses of the nodes (ips.go)\<close>

definition extractIP :: "obj option \<Rightarrow> string" where
  "extractIP status = strField (objOr status) ''ip''"

text \<open>
  A successful Get without a resource is a nil dereference.  A context that ends within a round ends the round with
  its error and no effect, as one that ended before it.
\<close>

fun pollRound :: "'w vm_provider \<Rightarrow> string list \<Rightarrow> 'w \<Rightarrow> strmap \<Rightarrow> err + strmap \<times> string list" where
  "pollRound vms [] w out = Inr (out, [])"
| "pollRound vms (n # ns) w out =
     (case vp_get vms ''VirtualMachine'' n w of
        Inr None \<Rightarrow> Inl NilDeref
      | r \<Rightarrow>
          let ip = (case r of Inr (Some x) \<Rightarrow> extractIP (r_status x) | _ \<Rightarrow> []) in
          if ip = [] then bindE (pollRound vms ns w out) (\<lambda>(o1, next). Inr (o1, n # next))
          else pollRound vms ns w (putKey out n ip))"

fun pollVMIPs :: "'w vm_provider \<Rightarrow> string list \<Rightarrow> strmap \<Rightarrow> 'w poll list \<Rightarrow> 'w \<Rightarrow> ((err + strmap) \<times> 'w) option" where
  "pollVMIPs vms [] out polls w = Some (Inr out, w)"
| "pollVMIPs vms (n # ns) out [] w = None"
| "pollVMIPs vms (n # ns) out (p # ps) w =
     (case po_ctx p of
        Some e \<Rightarrow> Some (Inl e, w)
      | None \<Rightarrow>
          (case pollRound vms (n # ns) w out of
             Inl e \<Rightarrow> Some (Inl e, w)
           | Inr (out', []) \<Rightarrow> Some (Inr out', w)
           | Inr (out', m # ms) \<Rightarrow>
               if po_late p then
                 Some (Inl (Plain (''timed out waiting for IPs after 5m0s; missing: ['' @ joinWith '' '' (m # ms) @ '']'')), w)
               else (case po_done p of
                       Some e \<Rightarrow> Some (Inl e, w)
                     | None \<Rightarrow> pollVMIPs vms (m # ms) out' ps (po_other p w))))"

fun pickIPs :: "strmap \<Rightarrow> string list \<Rightarrow> strmap \<Rightarrow> err + strmap" where
  "pickIPs ips [] out = Inr out"
| "pickIPs ips (n # ns) out =
     (if strGet ips n = [] then Inl (Plain (''no static IP allocated for node '' @ n)) else pickIPs ips ns (putKey out n (strGet ips n)))"

definition hasStaticRange :: "cluster_spec \<Rightarrow> bool" where
  "hasStaticRange spec \<longleftrightarrow> (case nw_staticIPs (cs_network spec) of Some st \<Rightarrow> si_startIP st \<noteq> [] | None \<Rightarrow> False)"

definition resolveNodeIPs ::
  "'w child_recorder \<Rightarrow> 'w vm_provider \<Rightarrow> 'w poll list \<Rightarrow> string \<Rightarrow> cluster_spec \<Rightarrow> string list \<Rightarrow> 'w \<Rightarrow> ((err + strmap) \<times> 'w) option" where
  "resolveNodeIPs rec vms polls cl spec nodes w =
     (if hasStaticRange spec then
        Some (case AllocateIPs cl spec of
                Inl e \<Rightarrow> (Inl (Wrap ''allocate static IPs'' e), w)
              | Inr ips \<Rightarrow> (pickIPs ips nodes [], w))
      else
        map_option (\<lambda>r. case r of
            (Inl e, w1) \<Rightarrow>
              (Inl (WrapAround ''discover IPs via QGA'' e ('' (is qemu-guest-agent installed in the VM template? '' @ map char_of [226 :: nat, 128, 148]
                 @ '' set spec.network.staticIPs to bypass)'')), w1)
          | (Inr ips, w1) \<Rightarrow> (Inr ips, w1))
          (runChildStep rec cl ''discover-ips'' (''Discover IPs for '' @ digits (length nodes) @ '' node(s) via QEMU guest agent'')
             (pollVMIPs vms nodes [] polls) w))"

subsection \<open>The imperative apply (provider.go)\<close>

definition saveState ::
  "string \<Rightarrow> obj option \<Rightarrow> install_result \<Rightarrow> strmap \<Rightarrow> 'a k3s_files_scheme \<Rightarrow> (err + resource) \<times> 'a k3s_files_scheme" where
  "saveState name spec res nodeIPs w =
     (let outputs = [(''kubeconfigPath'', VStr (ir_kubeconfigPath res)), (''serverIP'', VStr (ir_serverIP res))]
            @ (if ir_agentBundleDir res \<noteq> [] then [(''agent'', VObj (agentOutputs (ir_agentBundleDir res) (ir_agentEndpoints res)))] else []);
          status = [(''phase'', VStr ''Ready''), (''message'', VStr ''Cluster is ready''), (''outputs'', VObj outputs)]
      in case writeCluster name (stateDoc name spec status (map (vmChildRef \<circ> fst) nodeIPs) w) w of
           (Some e, w1) \<Rightarrow> (Inl e, w1)
         | (None, w1) \<Rightarrow> (Inr (clusterResource name spec (Some [(''phase'', VStr ''Ready''), (''outputs'', VObj outputs)])), w1))"

fun applyVMs :: "'w child_recorder \<Rightarrow> 'w vm_provider \<Rightarrow> resource list \<Rightarrow> 'w \<Rightarrow> err option \<times> 'w" where
  "applyVMs rec vms [] w = (None, w)"
| "applyVMs rec vms (vm # ms) w =
     (case runChildVMApply rec vms vm w of (Some e, w1) \<Rightarrow> (Some e, w1) | (None, w1) \<Rightarrow> applyVMs rec vms ms w1)"

text \<open>The parameters of the imperative path in one record.\<close>

record 'w create_env =
  ce_crypto :: crypto
  ce_host :: install_host
  ce_cfgStorage :: string
  ce_recorder :: "'w child_recorder"
  ce_agentNew :: "string \<Rightarrow> err option"
  ce_agentInfo :: "string \<Rightarrow> 'w \<Rightarrow> err option \<times> 'w"
  ce_ipPolls :: "'w poll list"
  ce_agentPolls :: "string \<Rightarrow> 'w poll list"

definition applyImperative ::
  "'a k3s_files_scheme create_env \<Rightarrow> 'a k3s_files_scheme vm_provider \<Rightarrow> 'a k3s_files_scheme ssh_ops \<Rightarrow> resource \<Rightarrow> 'a k3s_files_scheme \<Rightarrow>
   ((err + resource) \<times> 'a k3s_files_scheme) option" where
  "applyImperative ce vms ssh manifest w =
     (let name = r_name manifest; spec = ParseClusterSpec manifest in
      case GenerateDispatchRequests name (ce_cfgStorage ce) spec of
        Inl e \<Rightarrow> Some (Inl e, w)
      | Inr reqs \<Rightarrow>
          (case applyVMs (ce_recorder ce) vms (map dq_manifest reqs) w of
             (Some e, w1) \<Rightarrow> Some (Inl e, w1)
           | (None, w1) \<Rightarrow>
               (case resolveNodeIPs (ce_recorder ce) vms (ce_ipPolls ce) name spec (map (\<lambda>q. r_name (dq_manifest q)) reqs) w1 of
                  None \<Rightarrow> None
                | Some (Inl e, w2) \<Rightarrow> Some (Inl e, w2)
                | Some (Inr ips, w2) \<Rightarrow>
                    (case runChildStep (ce_recorder ce) name ''install-k3s'' ''Install k3s + openctl-k3s-agent on all nodes''
                            (InstallK3s (ce_crypto ce) (ce_host ce) ssh (ce_agentNew ce) (ce_agentInfo ce) (ce_agentPolls ce) name spec ips) w2 of
                       None \<Rightarrow> None
                     | Some (Inl e, w3) \<Rightarrow> Some (Inl (Wrap ''install k3s'' e), w3)
                     | Some (Inr res, w3) \<Rightarrow>
                         Some (case saveState name (r_spec manifest) res ips w3 of
                                 (Inl e, w4) \<Rightarrow> (Inl (Wrap ''save state'' e), w4)
                               | (Inr r, w4) \<Rightarrow> (Inr r, w4))))))"

end
