(* ===== verification/K3sUpgrade.thy ===== *)
theory K3sUpgrade
  imports K3sNodeOps
begin

text \<open>
  The actions on the nodes of a cluster: internal/controller/providers/k3s/cluster_upgrade.go (the rolling upgrade),
  cluster_upgrade_wire.go (its wiring), cluster_upgrade_agent.go (the upgrader that talks to the agents) and
  cluster_node_ops.go (logs and restart).

  The interfaces \<^verbatim>\<open>nodeUpgrader\<close> and \<^verbatim>\<open>nodeAgent\<close> are records of functions over the world, as they are in the
  source; \<open>nu_ctx\<close> is the error of the context, which belongs to the world as well.
\<close>

subsection \<open>The rolling upgrade (cluster_upgrade.go)\<close>

record upgrade_node =
  un_name :: string
  un_role :: string
  un_version :: string

record 'w node_upgrader =
  nu_upgrade :: "upgrade_node \<Rightarrow> string \<Rightarrow> 'w \<Rightarrow> err option \<times> 'w"
  nu_health :: "upgrade_node \<Rightarrow> 'w \<Rightarrow> (err + string) \<times> 'w"
  nu_ctx :: "'w \<Rightarrow> err option"

definition isServer :: "upgrade_node \<Rightarrow> bool" where
  "isServer n \<longleftrightarrow> un_role n = ''server''"

definition upgradeOrder :: "upgrade_node list \<Rightarrow> upgrade_node list" where
  "upgradeOrder nodes = filter isServer nodes @ filter (\<lambda>n. \<not> isServer n) nodes"

record upgrade_result =
  ur_target :: string
  ur_upgraded :: "string list"
  ur_skipped :: "string list"

definition versionMismatch :: "string \<Rightarrow> string \<Rightarrow> string \<Rightarrow> err" where
  "versionMismatch node got target =
     Plain (''node '' @ goQuote node @ '' reports version '' @ goQuote got @ '' after upgrade, want '' @ goQuote target @ '' ''
       @ map char_of [226 :: nat, 128, 148] @ '' halting to avoid marching past a bad node'')"

fun rollLoop ::
  "'w node_upgrader \<Rightarrow> string \<Rightarrow> upgrade_node list \<Rightarrow> upgrade_result \<Rightarrow> 'w \<Rightarrow> (upgrade_result \<times> err option) \<times> 'w" where
  "rollLoop u target [] res w = ((res, None), w)"
| "rollLoop u target (n # ns) res w =
     (case nu_ctx u w of
        Some e \<Rightarrow> ((res, Some e), w)
      | None \<Rightarrow>
          if un_version n = target then rollLoop u target ns (res\<lparr>ur_skipped := ur_skipped res @ [un_name n]\<rparr>) w
          else
            (case nu_upgrade u n target w of
               (Some e, w1) \<Rightarrow> ((res, Some (Wrap (''upgrade '' @ un_role n @ '' '' @ goQuote (un_name n)) e)), w1)
             | (None, w1) \<Rightarrow>
                 (case nu_health u n w1 of
                    (Inl e, w2) \<Rightarrow> ((res, Some (Wrap (''node '' @ goQuote (un_name n) @ '' did not come back healthy after upgrade'') e)), w2)
                  | (Inr got, w2) \<Rightarrow>
                      if got \<noteq> target then ((res, Some (versionMismatch (un_name n) got target)), w2)
                      else rollLoop u target ns (res\<lparr>ur_upgraded := ur_upgraded res @ [un_name n]\<rparr>) w2)))"

definition rollingUpgrade ::
  "'w node_upgrader option \<Rightarrow> upgrade_node list \<Rightarrow> string \<Rightarrow> 'w \<Rightarrow> (upgrade_result \<times> err option) \<times> 'w" where
  "rollingUpgrade uo nodes target w =
     (let res = \<lparr>ur_target = target, ur_upgraded = [], ur_skipped = []\<rparr> in
      if target = [] then ((res, Some (Plain ''rolling upgrade: target version is required'')), w)
      else (case uo of
              None \<Rightarrow> ((res, Some (Plain ''rolling upgrade: nil upgrader'')), w)
            | Some u \<Rightarrow> rollLoop u target (upgradeOrder nodes) res w))"

subsection \<open>The upgrade of a cluster (cluster_upgrade_wire.go)\<close>

text \<open>\<^verbatim>\<open>net.JoinHostPort\<close>: a host with a colon goes into brackets.\<close>

definition joinHostPort :: "string \<Rightarrow> string \<Rightarrow> string" where
  "joinHostPort host port = (if CHR '':'' \<in> set host then ''['' @ host @ '']:'' @ port else host @ '':'' @ port)"

definition enumerateUpgradeNodes :: "string \<Rightarrow> 'a k3s_files_scheme \<Rightarrow> err + upgrade_node list \<times> strmap" where
  "enumerateUpgradeNodes cl w =
     (case readChildren cl w of
        Inl e \<Rightarrow> Inl (Wrap (''read cluster '' @ goQuote cl @ '' state'') e)
      | Inr children \<Rightarrow>
          let found = List.map_filter (\<lambda>n. map_option (Pair n) (installedNode n w)) (map cr_name (filter (\<lambda>c. cr_kind c = ''VirtualMachine'') children))
          in Inr (sort_key un_name (map (\<lambda>(n, s). \<lparr>un_name = n, un_role = ns_role s, un_version = []\<rparr>) found),
                  foldl (\<lambda>m (n, s). if ns_vmIP s \<noteq> [] then putKey m n (joinHostPort (ns_vmIP s) ''9443'') else m) [] found))"

fun withCurrentVersions :: "'w node_upgrader \<Rightarrow> upgrade_node list \<Rightarrow> 'w \<Rightarrow> upgrade_node list \<times> 'w" where
  "withCurrentVersions u [] w = ([], w)"
| "withCurrentVersions u (n # ns) w =
     (case nu_health u n w of
        (r, w1) \<Rightarrow>
          (case withCurrentVersions u ns w1 of
             (ms, w2) \<Rightarrow> ((case r of Inr v \<Rightarrow> n\<lparr>un_version := v\<rparr> | Inl _ \<Rightarrow> n) # ms, w2)))"

text \<open>What an agent client needs of the bundle: the CA, the client certificate and its key.\<close>

type_synonym agent_certs = "string \<times> string \<times> string"

definition agentCertsOf :: "cert_bundle \<Rightarrow> agent_certs" where
  "agentCertsOf b = (bd_caCert b, bd_clientCert b, bd_clientKey b)"

definition upgradeMessage :: "upgrade_result \<Rightarrow> string \<Rightarrow> string" where
  "upgradeMessage res version =
     ''upgraded '' @ digits (length (ur_upgraded res)) @ '' node(s) to '' @ version
     @ (if ur_skipped res \<noteq> [] then '' ('' @ digits (length (ur_skipped res)) @ '' already at target)'' else [])"

definition messageResult :: "string \<Rightarrow> action_result" where
  "messageResult m = \<lparr>ar_message = m, ar_url = [], ar_downloadContent = [], ar_downloadFilename = []\<rparr>"

definition runClusterUpgrade ::
  "(agent_certs \<Rightarrow> strmap \<Rightarrow> 'a k3s_files_scheme node_upgrader) \<Rightarrow> string \<Rightarrow> string \<Rightarrow> 'a k3s_files_scheme \<Rightarrow> (err + action_result) \<times> 'a k3s_files_scheme" where
  "runClusterUpgrade factory cl version w =
     (if trimSpace version = [] then
        (Inl (Plain (''upgrade requires a '' @ [CHR 0x27] @ ''version'' @ [CHR 0x27] @ '' parameter (e.g. v1.30.5+k3s1)'')), w)
      else
        (case enumerateUpgradeNodes cl w of
           Inl e \<Rightarrow> (Inl e, w)
         | Inr (nodes, endpoints) \<Rightarrow>
             if nodes = [] then (Inl (Plain (''cluster '' @ goQuote cl @ '' has no installed nodes to upgrade'')), w)
             else
               (case LoadBundle cl w of
                  Inl e \<Rightarrow> (Inl (Wrap (''load cluster '' @ goQuote cl @ '' cert bundle'') e), w)
                | Inr b \<Rightarrow>
                    let u = factory (agentCertsOf b) endpoints in
                    (case withCurrentVersions u nodes w of
                       (nodes', w1) \<Rightarrow>
                         (case rollingUpgrade (Some u) nodes' version w1 of
                            ((res, None), w2) \<Rightarrow> (Inr (messageResult (upgradeMessage res version)), w2)
                          | ((res, Some e), w2) \<Rightarrow> (Inl (Wrap (upgradeMessage res version @ ''; halted'') e), w2))))))"

subsection \<open>Logs and restart (cluster_node_ops.go)\<close>

record 'w node_agent =
  na_logs :: "upgrade_node \<Rightarrow> int \<Rightarrow> 'w \<Rightarrow> (err + string) \<times> 'w"
  na_restart :: "upgrade_node \<Rightarrow> 'w \<Rightarrow> err option \<times> 'w"

definition loadClusterNodeAgent ::
  "(agent_certs \<Rightarrow> strmap \<Rightarrow> 'a k3s_files_scheme node_agent) \<Rightarrow> string \<Rightarrow> 'a k3s_files_scheme \<Rightarrow>
   err + upgrade_node list \<times> 'a k3s_files_scheme node_agent" where
  "loadClusterNodeAgent factory cl w =
     bindE (enumerateUpgradeNodes cl w) (\<lambda>(nodes, endpoints).
       if nodes = [] then Inl (Plain (''cluster '' @ goQuote cl @ '' has no installed nodes''))
       else (case LoadBundle cl w of
               Inl e \<Rightarrow> Inl (Wrap (''load cluster '' @ goQuote cl @ '' cert bundle'') e)
             | Inr b \<Rightarrow> Inr (nodes, factory (agentCertsOf b) endpoints)))"

definition nodeNameList :: "upgrade_node list \<Rightarrow> string" where
  "nodeNameList nodes = joinWith '', '' (map un_name nodes)"

definition selectNode :: "upgrade_node list \<Rightarrow> string \<Rightarrow> err + upgrade_node" where
  "selectNode nodes name0 =
     (let name = trimSpace name0 in
      if name \<noteq> [] then
        (case find (\<lambda>n. un_name n = name) nodes of
           Some n \<Rightarrow> Inr n
         | None \<Rightarrow> Inl (Plain (''node '' @ goQuote name @ '' not found in cluster (nodes: '' @ nodeNameList nodes @ '')'')))
      else (case nodes of
              [n] \<Rightarrow> Inr n
            | _ \<Rightarrow> Inl (Plain (''cluster has '' @ digits (length nodes) @ '' nodes; specify a '' @ [CHR 0x27] @ ''node'' @ [CHR 0x27] @ '' parameter ('' @ nodeNameList nodes @ '')''))))"

text \<open>\<^verbatim>\<open>strconv.Atoi\<close>: an optional sign, decimal digits, and a value that fits an int.\<close>

definition atoi :: "string \<Rightarrow> int option" where
  "atoi s =
     (let body = (case s of c # t \<Rightarrow> if c = CHR ''+'' \<or> c = CHR ''-'' then t else s | [] \<Rightarrow> []);
          v = (if hasPrefix s ''-'' then - int (numOf body) else int (numOf body))
      in if body \<noteq> [] \<and> list_all isDigitChar body \<and> - (2 ^ 63) \<le> v \<and> v < 2 ^ 63 then Some v else None)"

definition logLines :: "string \<Rightarrow> int" where
  "logLines param = (case atoi (trimSpace param) of Some n \<Rightarrow> if n > 0 then n else 200 | None \<Rightarrow> 200)"

definition runClusterLogs ::
  "(agent_certs \<Rightarrow> strmap \<Rightarrow> 'a k3s_files_scheme node_agent) \<Rightarrow> string \<Rightarrow> strmap \<Rightarrow> 'a k3s_files_scheme \<Rightarrow> (err + action_result) \<times> 'a k3s_files_scheme" where
  "runClusterLogs factory cl params w =
     (case bindE (loadClusterNodeAgent factory cl w) (\<lambda>(nodes, agent). bindE (selectNode nodes (strGet params ''node'')) (\<lambda>n. Inr (n, agent))) of
        Inl e \<Rightarrow> (Inl e, w)
      | Inr (n, agent) \<Rightarrow>
          let lines = logLines (strGet params ''lines'') in
          (case na_logs agent n lines w of
             (Inl e, w1) \<Rightarrow> (Inl (Wrap (''fetch logs from node '' @ goQuote (un_name n)) e), w1)
           | (Inr out, w1) \<Rightarrow>
               (Inr \<lparr>ar_message = ''Fetched '' @ showInt lines @ '' lines from '' @ un_name n, ar_url = [], ar_downloadContent = out,
                     ar_downloadFilename = cl @ ''-'' @ un_name n @ ''-k3s.log''\<rparr>, w1)))"

definition runClusterRestart ::
  "(agent_certs \<Rightarrow> strmap \<Rightarrow> 'a k3s_files_scheme node_agent) \<Rightarrow> string \<Rightarrow> strmap \<Rightarrow> 'a k3s_files_scheme \<Rightarrow> (err + action_result) \<times> 'a k3s_files_scheme" where
  "runClusterRestart factory cl params w =
     (case bindE (loadClusterNodeAgent factory cl w) (\<lambda>(nodes, agent). bindE (selectNode nodes (strGet params ''node'')) (\<lambda>n. Inr (n, agent))) of
        Inl e \<Rightarrow> (Inl e, w)
      | Inr (n, agent) \<Rightarrow>
          (case na_restart agent n w of
             (Some e, w1) \<Rightarrow> (Inl (Wrap (''restart k3s on node '' @ goQuote (un_name n)) e), w1)
           | (None, w1) \<Rightarrow> (Inr (messageResult (''Restarted k3s on '' @ un_name n)), w1)))"

subsection \<open>The upgrader over the agents (cluster_upgrade_agent.go)\<close>

text \<open>
  The agent client of an endpoint, made with the certificates: \<open>ag_new\<close> is the error of making it, the others are its
  requests.  \<open>ag_polls\<close> gives the rounds of the health poll of an endpoint.
\<close>

record 'w agent_net =
  ag_new :: "agent_certs \<Rightarrow> string \<Rightarrow> err option"
  ag_upgrade :: "string \<Rightarrow> string \<Rightarrow> 'w \<Rightarrow> err option \<times> 'w"
  ag_info :: "string \<Rightarrow> 'w \<Rightarrow> (err + string) \<times> 'w"
  ag_logs :: "string \<Rightarrow> int \<Rightarrow> 'w \<Rightarrow> (err + string) \<times> 'w"
  ag_restart :: "string \<Rightarrow> 'w \<Rightarrow> err option \<times> 'w"

definition clientFor :: "'w agent_net \<Rightarrow> agent_certs \<Rightarrow> strmap \<Rightarrow> upgrade_node \<Rightarrow> err + string" where
  "clientFor net cs endpoints n =
     (if strGet endpoints (un_name n) = [] then Inl (Plain (''no agent endpoint known for node '' @ goQuote (un_name n)))
      else (case ag_new net cs (strGet endpoints (un_name n)) of Some e \<Rightarrow> Inl e | None \<Rightarrow> Inr (strGet endpoints (un_name n))))"

fun healthPoll :: "'w agent_net \<Rightarrow> string \<Rightarrow> string \<Rightarrow> 'w poll list \<Rightarrow> 'w \<Rightarrow> ((err + string) \<times> 'w) option" where
  "healthPoll net name ep [] w = None"
| "healthPoll net name ep (p # ps) w =
     (case ag_info net ep w of
        (Inr v, w1) \<Rightarrow> Some (Inr v, w1)
      | (Inl e, w1) \<Rightarrow>
          if po_late p then Some (Inl (Wrap (''node '' @ goQuote name @ '' did not recover in 5m0s'') e), w1)
          else healthPoll net name ep ps (po_other p w1))"

definition agentLogs :: "'w agent_net \<Rightarrow> agent_certs \<Rightarrow> strmap \<Rightarrow> upgrade_node \<Rightarrow> int \<Rightarrow> 'w \<Rightarrow> (err + string) \<times> 'w" where
  "agentLogs net cs endpoints n lines w =
     (case clientFor net cs endpoints n of Inl e \<Rightarrow> (Inl e, w) | Inr ep \<Rightarrow> ag_logs net ep lines w)"

definition agentRestart :: "'w agent_net \<Rightarrow> agent_certs \<Rightarrow> strmap \<Rightarrow> upgrade_node \<Rightarrow> 'w \<Rightarrow> err option \<times> 'w" where
  "agentRestart net cs endpoints n w =
     (case clientFor net cs endpoints n of Inl e \<Rightarrow> (Some e, w) | Inr ep \<Rightarrow> ag_restart net ep w)"

definition agentUpgrade :: "'w agent_net \<Rightarrow> agent_certs \<Rightarrow> strmap \<Rightarrow> upgrade_node \<Rightarrow> string \<Rightarrow> 'w \<Rightarrow> err option \<times> 'w" where
  "agentUpgrade net cs endpoints n version w =
     (case clientFor net cs endpoints n of Inl e \<Rightarrow> (Some e, w) | Inr ep \<Rightarrow> ag_upgrade net ep version w)"

definition agentHealth :: "'w agent_net \<Rightarrow> agent_certs \<Rightarrow> strmap \<Rightarrow> 'w poll list \<Rightarrow> upgrade_node \<Rightarrow> 'w \<Rightarrow> ((err + string) \<times> 'w) option" where
  "agentHealth net cs endpoints polls n w =
     (case clientFor net cs endpoints n of Inl e \<Rightarrow> Some (Inl e, w) | Inr ep \<Rightarrow> healthPoll net (un_name n) ep polls w)"

subsection \<open>Lemmas\<close>

lemma set_upgradeOrder [simp]: "set (upgradeOrder nodes) = set nodes"
  by (auto simp: upgradeOrder_def)

lemma mset_upgradeOrder: "mset (upgradeOrder nodes) = mset nodes"
  by (simp add: upgradeOrder_def)

definition stale :: "string \<Rightarrow> upgrade_node \<Rightarrow> bool" where
  "stale target n \<longleftrightarrow> un_version n \<noteq> target"

text \<open>An upgrader that behaves as \<open>u\<close> and keeps a log of the upgrades and health checks with their answers.\<close>

datatype upgrade_event = Asked string "err option" | Answered string "err + string"

definition traced :: "'w node_upgrader \<Rightarrow> ('w \<times> upgrade_event list) node_upgrader" where
  "traced u =
     \<lparr>nu_upgrade = (\<lambda>n v (w, lg). case nu_upgrade u n v w of (r, w') \<Rightarrow> (r, (w', lg @ [Asked (un_name n) r]))),
      nu_health = (\<lambda>n (w, lg). case nu_health u n w of (r, w') \<Rightarrow> (r, (w', lg @ [Answered (un_name n) r]))),
      nu_ctx = (\<lambda>(w, lg). nu_ctx u w)\<rparr>"

text \<open>The log of a node that came back at the target version, and of one that did not.\<close>

definition confirmed :: "string \<Rightarrow> upgrade_node \<Rightarrow> upgrade_event list" where
  "confirmed target n = [Asked (un_name n) None, Answered (un_name n) (Inr target)]"

definition failedAt :: "string \<Rightarrow> upgrade_node \<Rightarrow> upgrade_event list \<Rightarrow> bool" where
  "failedAt target n lg \<longleftrightarrow>
     (case lg of
        [Asked m (Some _)] \<Rightarrow> m = un_name n
      | [Asked m None, Answered m' h] \<Rightarrow> m = un_name n \<and> m' = un_name n \<and> h \<noteq> Inr target
      | _ \<Rightarrow> False)"

definition rolledTo ::
  "string \<Rightarrow> upgrade_node list \<Rightarrow> nat \<Rightarrow> upgrade_result \<Rightarrow> upgrade_result \<Rightarrow> err option \<Rightarrow> upgrade_event list \<Rightarrow> upgrade_event list \<Rightarrow> bool" where
  "rolledTo target ns k res res' err calls rest \<longleftrightarrow>
     k \<le> length ns \<and> ur_upgraded res' = ur_upgraded res @ map un_name (filter (stale target) (take k ns)) \<and>
     ur_skipped res' = ur_skipped res @ map un_name (filter (\<lambda>n. \<not> stale target n) (take k ns)) \<and> (err = None \<longrightarrow> k = length ns) \<and>
     calls = concat (map (confirmed target) (filter (stale target) (take k ns))) @ rest \<and>
     (rest = [] \<or> err \<noteq> None \<and> k < length ns \<and> stale target (ns ! k) \<and> failedAt target (ns ! k) rest)"

lemma rolledTo_skip:
  "rolledTo target ns k (res\<lparr>ur_skipped := ur_skipped res @ [un_name n]\<rparr>) res' err calls rest \<Longrightarrow> \<not> stale target n \<Longrightarrow>
   rolledTo target (n # ns) (Suc k) res res' err calls rest"
  by (auto simp: rolledTo_def)

lemma rolledTo_upgrade:
  "rolledTo target ns k (res\<lparr>ur_upgraded := ur_upgraded res @ [un_name n]\<rparr>) res' err calls rest \<Longrightarrow> stale target n \<Longrightarrow>
   rolledTo target (n # ns) (Suc k) res res' err (confirmed target n @ calls) rest"
  by (auto simp: rolledTo_def)

lemma rolledTo_halt:
  "rest = [] \<or> stale target n \<and> failedAt target n rest \<Longrightarrow> rolledTo target (n # ns) 0 res res (Some e) rest rest"
  by (auto simp: rolledTo_def)

lemma rollLoop_fails:
  assumes "nu_ctx u w = None" "stale target n" "nu_upgrade u n target w = (r, w1)" "nu_health u n w1 = (h, w2)"
    and "\<not> (r = None \<and> h = Inr target)"
  shows "\<exists>e v rest. rollLoop u target (n # ns) res w = ((res, Some e), v) \<and> failedAt target n rest \<and>
    rollLoop (traced u) target (n # ns) res (w, lg) = ((res, Some e), (v, lg @ rest))"
proof (cases r)
  case (Some e)
  then have "\<exists>e'. rollLoop u target (n # ns) res w = ((res, Some e'), w1) \<and>
    rollLoop (traced u) target (n # ns) res (w, lg) = ((res, Some e'), (w1, lg @ [Asked (un_name n) (Some e)]))"
    using assms(1-3) by (simp add: traced_def stale_def)
  moreover have "failedAt target n [Asked (un_name n) (Some e)]" by (simp add: failedAt_def)
  ultimately show ?thesis by blast
next
  case None
  have "\<exists>e. rollLoop u target (n # ns) res w = ((res, Some e), w2) \<and>
    rollLoop (traced u) target (n # ns) res (w, lg) = ((res, Some e), (w2, lg @ [Asked (un_name n) None, Answered (un_name n) h]))"
    using assms None by (cases h) (simp_all add: traced_def stale_def)
  moreover have "failedAt target n [Asked (un_name n) None, Answered (un_name n) h]" using assms(5) None by (simp add: failedAt_def)
  ultimately show ?thesis by blast
qed

lemma rollLoop_traced:
  assumes "rollLoop (traced u) target ns res (w, lg) = ((res', err), (w', lg'))"
  shows "rollLoop u target ns res w = ((res', err), w') \<and> (\<exists>k calls rest. lg' = lg @ calls \<and> rolledTo target ns k res res' err calls rest)"
  using assms
proof (induction ns arbitrary: res w lg)
  case Nil
  then show ?case by (auto simp: rolledTo_def)
next
  case (Cons n ns)
  consider (ctx) e where "nu_ctx u w = Some e" | (skip) "nu_ctx u w = None" "\<not> stale target n" | (go) "nu_ctx u w = None" "stale target n"
    by fastforce
  then show ?case
  proof cases
    case ctx
    then have eq: "res' = res" "err = Some e" "w' = w" "lg' = lg" using Cons.prems by (simp_all add: traced_def)
    have "rolledTo target (n # ns) 0 res res (Some e) [] []" by (rule rolledTo_halt) simp
    then show ?thesis unfolding eq using ctx by auto
  next
    case skip
    then have "rollLoop (traced u) target ns (res\<lparr>ur_skipped := ur_skipped res @ [un_name n]\<rparr>) (w, lg) = ((res', err), (w', lg'))"
      using Cons.prems by (simp add: traced_def stale_def)
    from Cons.IH [OF this] obtain k calls rest where "rollLoop u target ns (res\<lparr>ur_skipped := ur_skipped res @ [un_name n]\<rparr>) w = ((res', err), w')"
      "lg' = lg @ calls" "rolledTo target ns k (res\<lparr>ur_skipped := ur_skipped res @ [un_name n]\<rparr>) res' err calls rest" by auto
    moreover from rolledTo_skip [OF this(3) skip(2)] have "rolledTo target (n # ns) (Suc k) res res' err calls rest" .
    ultimately show ?thesis using skip by (auto simp: stale_def)
  next
    case go
    obtain r w1 where up: "nu_upgrade u n target w = (r, w1)" by fastforce
    obtain h w2 where he: "nu_health u n w1 = (h, w2)" by fastforce
    show ?thesis
    proof (cases "r = None \<and> h = Inr target")
      case True
      then have "rollLoop (traced u) target ns (res\<lparr>ur_upgraded := ur_upgraded res @ [un_name n]\<rparr>) (w2, lg @ confirmed target n) = ((res', err), (w', lg'))"
        using Cons.prems go up he by (simp add: traced_def stale_def confirmed_def)
      from Cons.IH [OF this] obtain k calls rest where c: "rollLoop u target ns (res\<lparr>ur_upgraded := ur_upgraded res @ [un_name n]\<rparr>) w2 = ((res', err), w')"
        "lg' = lg @ confirmed target n @ calls" "rolledTo target ns k (res\<lparr>ur_upgraded := ur_upgraded res @ [un_name n]\<rparr>) res' err calls rest" by auto
      moreover from rolledTo_upgrade [OF c(3) go(2)] have "rolledTo target (n # ns) (Suc k) res res' err (confirmed target n @ calls) rest" .
      ultimately show ?thesis using go up he True by (auto simp: stale_def)
    next
      case False
      from rollLoop_fails [OF go up he this] obtain e v rest where u: "rollLoop u target (n # ns) res w = ((res, Some e), v)"
        "failedAt target n rest" "rollLoop (traced u) target (n # ns) res (w, lg) = ((res, Some e), (v, lg @ rest))" by metis
      then have eq: "res' = res" "err = Some e" "w' = v" "lg' = lg @ rest" using Cons.prems by simp_all
      have "rolledTo target (n # ns) 0 res res (Some e) rest rest" using u(2) go(2) by (intro rolledTo_halt) simp
      then show ?thesis unfolding eq using u(1) by blast
    qed
  qed
qed

text \<open>
  Agents that tell the truth and can be upgraded: \<open>ver\<close> is the version a node runs in a world, asking does not change
  the world, and an upgrade changes the version of its node only.
\<close>

definition honest :: "'w node_upgrader \<Rightarrow> (string \<Rightarrow> 'w \<Rightarrow> string) \<Rightarrow> bool" where
  "honest u ver \<longleftrightarrow>
     (\<forall>n w. nu_health u n w = (Inr (ver (un_name n) w), w)) \<and> (\<forall>w. nu_ctx u w = None) \<and>
     (\<forall>n v w. \<exists>w'. nu_upgrade u n v w = (None, w') \<and> (\<forall>m. ver m w' = (if m = un_name n then v else ver m w)))"

lemma rollLoop_honest:
  assumes "honest u ver"
  shows "\<exists>w'. rollLoop u target ns res w =
      ((res\<lparr>ur_upgraded := ur_upgraded res @ map un_name (filter (stale target) ns),
            ur_skipped := ur_skipped res @ map un_name (filter (\<lambda>n. \<not> stale target n) ns)\<rparr>, None), w') \<and>
    (\<forall>n \<in> set ns. stale target n \<longrightarrow> ver (un_name n) w' = target) \<and> (\<forall>m. ver m w = target \<longrightarrow> ver m w' = target) \<and>
    (filter (stale target) ns = [] \<longrightarrow> w' = w)"
proof (induction ns arbitrary: res w)
  case (Cons n ns)
  have h: "nu_health u n w = (Inr (ver (un_name n) w), w)" "nu_ctx u w = None" for n w using assms by (simp_all add: honest_def)
  show ?case
  proof (cases "stale target n")
    case True
    obtain w1 where w1: "nu_upgrade u n target w = (None, w1)" "ver m w1 = (if m = un_name n then target else ver m w)" for m
      using assms unfolding honest_def by metis
    obtain w' where w': "rollLoop u target ns (res\<lparr>ur_upgraded := ur_upgraded res @ [un_name n]\<rparr>) w1 =
        ((res\<lparr>ur_upgraded := ur_upgraded res @ [un_name n] @ map un_name (filter (stale target) ns),
            ur_skipped := ur_skipped res @ map un_name (filter (\<lambda>n. \<not> stale target n) ns)\<rparr>, None), w')"
      "\<forall>n \<in> set ns. stale target n \<longrightarrow> ver (un_name n) w' = target" "\<forall>m. ver m w1 = target \<longrightarrow> ver m w' = target"
      using Cons.IH [of "res\<lparr>ur_upgraded := ur_upgraded res @ [un_name n]\<rparr>" w1] by auto
    have "rollLoop u target (n # ns) res w = rollLoop u target ns (res\<lparr>ur_upgraded := ur_upgraded res @ [un_name n]\<rparr>) w1"
      using True h w1 by (simp add: stale_def)
    then show ?thesis using True w' w1(2) by (intro exI [of _ w']) auto
  next
    case False
    then show ?thesis using Cons.IH [of "res\<lparr>ur_skipped := ur_skipped res @ [un_name n]\<rparr>" w] h by (simp add: stale_def)
  qed
qed simp

lemma withCurrentVersions_honest:
  "honest u ver \<Longrightarrow> withCurrentVersions u ns w = (map (\<lambda>n. n\<lparr>un_version := ver (un_name n) w\<rparr>) ns, w)"
  by (induction ns) (simp_all add: honest_def)

lemma upgradeOrder_map: "(\<And>n. isServer (f n) = isServer n) \<Longrightarrow> upgradeOrder (map f ns) = map f (upgradeOrder ns)"
  by (simp add: upgradeOrder_def filter_map comp_def)

subsection \<open>Properties\<close>

text \<open>
  C11. A rolling upgrade is serial, goes through the control planes first and stops at the first node that fails: the order
  is a rearrangement of the nodes in which no control plane follows a worker; the nodes it asked to upgrade are those
  of a beginning of that order that are not at the target version; each of them was asked to upgrade, accepted and then
  answered the health check with the target version before the next one was asked; at most one node after them failed,
  and then the upgrade ended in an error; and without an error the whole order was covered.
\<close>
theorem rolling_upgrade_serial:
  assumes "rollingUpgrade (Some (traced u)) nodes target (w, []) = ((res, err), (w', calls))" "target \<noteq> []"
  shows "let order = upgradeOrder nodes in
    rollingUpgrade (Some u) nodes target w = ((res, err), w') \<and> mset order = mset nodes \<and>
    (\<forall>i j. i < j \<longrightarrow> j < length order \<longrightarrow> isServer (order ! j) \<longrightarrow> isServer (order ! i)) \<and>
    (\<exists>k \<le> length order. \<exists>rest.
       ur_upgraded res = map un_name (filter (stale target) (take k order)) \<and>
       ur_skipped res = map un_name (filter (\<lambda>n. \<not> stale target n) (take k order)) \<and>
       calls = concat (map (confirmed target) (filter (stale target) (take k order))) @ rest \<and>
       (rest = [] \<or> err \<noteq> None \<and> k < length order \<and> failedAt target (order ! k) rest) \<and>
       (err = None \<longrightarrow> k = length order))"
proof -
  let ?o = "upgradeOrder nodes" and ?r = "\<lparr>ur_target = target, ur_upgraded = [], ur_skipped = []\<rparr>"
  have "rollLoop (traced u) target ?o ?r (w, []) = ((res, err), (w', calls))" using assms by (simp add: rollingUpgrade_def)
  from rollLoop_traced [OF this] obtain k rest where l: "rollLoop u target ?o ?r w = ((res, err), w')" and r: "rolledTo target ?o k ?r res err calls rest"
    by auto
  have o: "isServer (?o ! i)" if "i < j" "j < length ?o" "isServer (?o ! j)" for i j
  proof -
    have "j < length (filter isServer nodes)"
    proof (rule ccontr)
      assume "\<not> j < length (filter isServer nodes)"
      then have "?o ! j \<in> set (filter (\<lambda>n. \<not> isServer n) nodes)" using that(2) unfolding upgradeOrder_def nth_append
        by (simp del: set_filter)
      then show False using that(3) by simp
    qed
    then have "?o ! i \<in> set (filter isServer nodes)" using that(1) unfolding upgradeOrder_def nth_append by (simp del: set_filter)
    then show ?thesis by simp
  qed
  have "\<exists>k \<le> length ?o. \<exists>rest. ur_upgraded res = map un_name (filter (stale target) (take k ?o)) \<and>
       ur_skipped res = map un_name (filter (\<lambda>n. \<not> stale target n) (take k ?o)) \<and>
       calls = concat (map (confirmed target) (filter (stale target) (take k ?o))) @ rest \<and>
       (rest = [] \<or> err \<noteq> None \<and> k < length ?o \<and> failedAt target (?o ! k) rest) \<and> (err = None \<longrightarrow> k = length ?o)"
    using r by (intro exI [of _ k] conjI exI [of _ rest]) (auto simp: rolledTo_def)
  then show ?thesis using l o assms(2) unfolding Let_def mset_upgradeOrder by (auto simp: rollingUpgrade_def)
qed

text \<open>
  C12. With agents that tell the truth and can be upgraded, an upgrade run succeeds, upgrades exactly the nodes that are not
  at the target version, control planes first, and leaves every node at it; a run on nodes that are all at the target
  version changes nothing.  So a run after one that halted resumes with the nodes that are left.
\<close>
theorem upgrade_completes_and_resumes:
  assumes "honest u ver" "target \<noteq> []" "withCurrentVersions u nodes w = (nodes', w1)"
  shows "\<exists>res w'. rollingUpgrade (Some u) nodes' target w1 = ((res, None), w') \<and>
    ur_upgraded res = filter (\<lambda>n. ver n w \<noteq> target) (map un_name (upgradeOrder nodes)) \<and>
    ur_skipped res = filter (\<lambda>n. ver n w = target) (map un_name (upgradeOrder nodes)) \<and>
    (\<forall>n \<in> set nodes. ver (un_name n) w' = target) \<and> (ur_upgraded res = [] \<longrightarrow> w' = w)"
proof -
  let ?f = "\<lambda>n. n\<lparr>un_version := ver (un_name n) w\<rparr>" and ?r = "\<lparr>ur_target = target, ur_upgraded = [], ur_skipped = []\<rparr>"
  have n: "nodes' = map ?f nodes" "w1 = w" using withCurrentVersions_honest [OF assms(1), of nodes w] assms(3) by auto
  have o: "upgradeOrder nodes' = map ?f (upgradeOrder nodes)" unfolding n by (rule upgradeOrder_map) (simp add: isServer_def)
  obtain w' where w': "rollLoop u target (map ?f (upgradeOrder nodes)) ?r w =
      ((?r\<lparr>ur_upgraded := map un_name (filter (stale target) (map ?f (upgradeOrder nodes))),
           ur_skipped := map un_name (filter (\<lambda>n. \<not> stale target n) (map ?f (upgradeOrder nodes)))\<rparr>, None), w')"
    "\<forall>n \<in> set (map ?f (upgradeOrder nodes)). stale target n \<longrightarrow> ver (un_name n) w' = target" "\<forall>m. ver m w = target \<longrightarrow> ver m w' = target"
    "filter (stale target) (map ?f (upgradeOrder nodes)) = [] \<longrightarrow> w' = w"
    using rollLoop_honest [OF assms(1), of target "map ?f (upgradeOrder nodes)" ?r w] by auto
  have "ver (un_name n) w' = target" if "n \<in> set nodes" for n
    using w'(2,3) that by (auto simp: stale_def)
  then show ?thesis using w' assms(2) unfolding n(2) rollingUpgrade_def o
    by (auto simp: filter_map comp_def stale_def filter_empty_conv Let_def)
qed

text \<open>The example: three nodes whose versions are the world.\<close>

definition fleet :: "upgrade_node list" where
  "fleet = [\<lparr>un_name = ''w0'', un_role = ''agent'', un_version = ''v1''\<rparr>, \<lparr>un_name = ''c0'', un_role = ''server'', un_version = ''v1''\<rparr>,
            \<lparr>un_name = ''c1'', un_role = ''server'', un_version = ''v2''\<rparr>]"

definition fleetUpgrader :: "strmap node_upgrader" where
  "fleetUpgrader = \<lparr>nu_upgrade = (\<lambda>n v w. (None, putKey w (un_name n) v)), nu_health = (\<lambda>n w. (Inr (strGet w (un_name n)), w)), nu_ctx = (\<lambda>w. None)\<rparr>"

theorem rolling_upgrade_serial_witness:
  "ur_upgraded (fst (fst (rollingUpgrade (Some (traced fleetUpgrader)) fleet ''v2'' ([], [])))) = [''c0'', ''w0'']"
proof -
  let ?x = "rollingUpgrade (Some (traced fleetUpgrader)) fleet ''v2'' ([], [])"
  have o: "upgradeOrder fleet = [fleet ! 1, fleet ! 2, fleet ! 0]" by (simp add: upgradeOrder_def fleet_def isServer_def)
  have x: "?x = ((fst (fst ?x), snd (fst ?x)), (fst (snd ?x), snd (snd ?x)))" by simp
  have "snd (fst ?x) = None"
    unfolding rollingUpgrade_def o by (simp add: traced_def fleetUpgrader_def fleet_def strGet_def)
  then show ?thesis using rolling_upgrade_serial [OF x] unfolding o by (auto simp: Let_def fleet_def stale_def)
qed

theorem upgrade_completes_and_resumes_witness:
  "\<exists>res w'. rollingUpgrade (Some fleetUpgrader) (fst (withCurrentVersions fleetUpgrader fleet [(''c1'', ''v2'')])) ''v2'' [(''c1'', ''v2'')] = ((res, None), w') \<and>
     ur_upgraded res = [''c0'', ''w0''] \<and> strGet w' ''w0'' = ''v2''"
proof -
  have h: "honest fleetUpgrader (\<lambda>n w. strGet w n)" by (simp add: honest_def fleetUpgrader_def strGet_def)
  have o: "map un_name (upgradeOrder fleet) = [''c0'', ''c1'', ''w0'']" by (simp add: upgradeOrder_def fleet_def isServer_def)
  have m: "fleet ! 0 \<in> set fleet" "un_name (fleet ! 0) = ''w0''" by (simp_all add: fleet_def)
  have v: "withCurrentVersions fleetUpgrader fleet [(''c1'', ''v2'')] = (fst (withCurrentVersions fleetUpgrader fleet [(''c1'', ''v2'')]), [(''c1'', ''v2'')])"
    by (simp add: withCurrentVersions_honest [OF h])
  show ?thesis using upgrade_completes_and_resumes [OF h _ v, of "''v2''"] m unfolding o by (auto simp: strGet_def)
qed

end
