(* ===== verification/K3sConverge.thy ===== *)
theory K3sConverge
  imports K3sCreate K3sUpgrade
begin

text \<open>
  Changing a cluster that exists: internal/controller/providers/k3s/diff.go, respec.go, respec_plan.go,
  countup_plan.go, k8scleanup.go, dryrun.go and the converging part of provider.go (applyExisting, removeNodes,
  Apply, Get with its observed counts, Delete).
\<close>

subsection \<open>The structural difference (diff.go)\<close>

record change_plan =
  cp_removeCPs :: "string list"
  cp_removeWorkers :: "string list"
  cp_addCPs :: "string list"
  cp_addWorkers :: "string list"

definition hasChanges :: "change_plan \<Rightarrow> bool" where
  "hasChanges p \<longleftrightarrow> length (cp_removeCPs p) + length (cp_removeWorkers p) + length (cp_addCPs p) + length (cp_addWorkers p) > 0"

definition removesAny :: "change_plan \<Rightarrow> bool" where
  "removesAny p \<longleftrightarrow> length (cp_removeCPs p) + length (cp_removeWorkers p) > 0"

definition cpPrefix :: "string \<Rightarrow> string" where
  "cpPrefix cl = cl @ ''-cp-''"

definition isVM :: "child_ref \<Rightarrow> bool" where
  "isVM c \<longleftrightarrow> cr_kind c = ''VirtualMachine''"

definition vmNames :: "child_ref list \<Rightarrow> string list" where
  "vmNames current = map cr_name (filter isVM current)"

text \<open>A control-plane node here is one whose name goes on after the prefix.\<close>

definition properCP :: "string \<Rightarrow> string \<Rightarrow> bool" where
  "properCP cl n \<longleftrightarrow> length n > length (cpPrefix cl) \<and> take (length (cpPrefix cl)) n = cpPrefix cl"

definition computeChangePlan :: "string \<Rightarrow> cluster_spec \<Rightarrow> child_ref list \<Rightarrow> change_plan" where
  "computeChangePlan cl spec current =
     (let wantCPs = fst (NodeNames cl spec); wantWorkers = snd (NodeNames cl spec);
          haveCPs = remdups (filter (properCP cl) (vmNames current));
          haveWorkers = remdups (filter (\<lambda>n. \<not> properCP cl n) (vmNames current))
      in \<lparr>cp_removeCPs = sort (filter (\<lambda>n. n \<notin> set wantCPs) haveCPs),
          cp_removeWorkers = sort (filter (\<lambda>n. n \<notin> set wantWorkers) haveWorkers),
          cp_addCPs = sort (filter (\<lambda>n. n \<notin> set haveCPs) wantCPs),
          cp_addWorkers = sort (filter (\<lambda>n. n \<notin> set haveWorkers) wantWorkers)\<rparr>)"

text \<open>The empty text is Go's "no reason".\<close>

definition catastrophicReason :: "change_plan \<Rightarrow> int \<Rightarrow> int \<Rightarrow> string" where
  "catastrophicReason p haveCPs haveWorkers =
     (let remainCPs = haveCPs - int (length (cp_removeCPs p)) in
      if remainCPs \<le> 0 then ''would remove the only control-plane node, leaving no kube-apiserver''
      else if haveCPs > 1 \<and> remainCPs < (haveCPs + 2) div 2 then ''would drop control-plane below quorum (etcd cannot make progress)''
      else if haveWorkers > 0 \<and> haveWorkers - int (length (cp_removeWorkers p)) \<le> 0
        then ''would remove the last worker, leaving no place for workloads to schedule''
      else [])"

subsection \<open>Changed sizes (respec.go)\<close>

record respec_node =
  rn_name :: string
  rn_isCP :: bool
  rn_desiredCPUs :: int
  rn_desiredMemMB :: int
  rn_observedCPUs :: int
  rn_observedMemMB :: int

text \<open>\<^verbatim>\<open>strings.LastIndex(s, c)\<close>, giving what stands before and after it.\<close>

definition splitLast :: "char \<Rightarrow> string \<Rightarrow> (string \<times> string) option" where
  "splitLast c s = map_option (\<lambda>(a, b). (rev b, rev a)) (cutAt c (rev s))"

definition trimPrefix :: "string \<Rightarrow> string \<Rightarrow> string" where
  "trimPrefix s p = (case cutPrefix s p of Some t \<Rightarrow> t | None \<Rightarrow> s)"

text \<open>The pool of \<open><cluster>-<pool>-<index>\<close>; none when there is no dash after the first character.\<close>

definition poolOfNode :: "string \<Rightarrow> string \<Rightarrow> string option" where
  "poolOfNode cl n =
     (case splitLast CHR ''-'' (trimPrefix n (cl @ ''-'')) of
        Some (pool, _) \<Rightarrow> if pool \<noteq> [] then Some pool else None
      | None \<Rightarrow> None)"

definition desiredSizeFor :: "string \<Rightarrow> bool \<Rightarrow> string \<Rightarrow> cluster_spec \<Rightarrow> size_spec" where
  "desiredSizeFor n isCP cl spec =
     (let def = cm_default (cs_compute spec) in
      if isCP then (case pl_size (nd_controlPlane (cs_nodes spec)) of Some s \<Rightarrow> s | None \<Rightarrow> def)
      else (case poolOfNode cl n of
              None \<Rightarrow> def
            | Some pool \<Rightarrow>
                (case find (\<lambda>w. poolName w = pool) (nd_workers (cs_nodes spec)) of
                   None \<Rightarrow> def
                 | Some w \<Rightarrow> (case pl_size w of Some s \<Rightarrow> s | None \<Rightarrow> def))))"

definition numField :: "obj \<Rightarrow> string \<Rightarrow> int" where
  "numField m k = (case objGet m k of VInt i \<Rightarrow> i | VFloat q \<Rightarrow> truncRat q | _ \<Rightarrow> 0)"

definition extractCPUMem :: "resource \<Rightarrow> int \<times> int" where
  "extractCPUMem r =
     (case r_spec r of
        None \<Rightarrow> (0, 0)
      | Some m \<Rightarrow>
          ((case objField m ''cpu'' of Some c \<Rightarrow> numField c ''cores'' | None \<Rightarrow> 0),
           (case objField m ''memory'' of Some c \<Rightarrow> numField c ''size'' | None \<Rightarrow> 0)))"

definition respecOf :: "(string \<Rightarrow> err + resource option) \<Rightarrow> string \<Rightarrow> cluster_spec \<Rightarrow> string \<Rightarrow> respec_node option" where
  "respecOf get cl spec n =
     (let isCP = hasPrefix n (cpPrefix cl); want = desiredSizeFor n isCP cl spec in
      case get n of
        Inr (Some r) \<Rightarrow>
          (case extractCPUMem r of (cpus, mem) \<Rightarrow>
             if cpus = 0 \<and> mem = 0 then None
             else if cpus = sz_cpus want \<and> mem = sz_memoryMB want then None
             else Some \<lparr>rn_name = n, rn_isCP = isCP, rn_desiredCPUs = sz_cpus want, rn_desiredMemMB = sz_memoryMB want,
                        rn_observedCPUs = cpus, rn_observedMemMB = mem\<rparr>)
      | _ \<Rightarrow> None)"

definition computeSpecRespecs ::
  "(string \<Rightarrow> err + resource option) \<Rightarrow> string \<Rightarrow> cluster_spec \<Rightarrow> child_ref list \<Rightarrow> string list \<Rightarrow> respec_node list" where
  "computeSpecRespecs get cl spec current removed =
     List.map_filter (respecOf get cl spec) (filter (\<lambda>n. n \<notin> set removed) (vmNames current))"

definition catastrophicRespecReason :: "respec_node list \<Rightarrow> int \<Rightarrow> int \<Rightarrow> string" where
  "catastrophicRespecReason respecs haveCPs haveWorkers =
     (let cpHit = list_ex rn_isCP respecs; workerHit = list_ex (\<lambda>r. \<not> rn_isCP r) respecs in
      if cpHit \<and> haveCPs \<le> 1 then ''respec on the only control-plane node would drop the apiserver during recreate''
      else if workerHit \<and> haveWorkers \<le> 1 then ''respec on the only worker would leave no place for workloads during recreate''
      else [])"

definition countCurrent :: "child_ref list \<Rightarrow> string \<Rightarrow> int \<times> int" where
  "countCurrent current cl =
     (int (length (filter (\<lambda>n. hasPrefix n (cpPrefix cl)) (vmNames current))),
      int (length (filter (\<lambda>n. \<not> hasPrefix n (cpPrefix cl)) (vmNames current))))"

subsection \<open>The preview (dryrun.go)\<close>

record child_action =
  ca_verb :: string
  ca_kind :: string
  ca_name :: string
  ca_detail :: string

record dry_run_result =
  dr_children :: "child_action list"
  dr_requiredGates :: "string list"
  dr_summary :: string

definition vmAction :: "string \<Rightarrow> string \<Rightarrow> string \<Rightarrow> child_action" where
  "vmAction verb detail n = \<lparr>ca_verb = verb, ca_kind = ''VirtualMachine'', ca_name = n, ca_detail = detail\<rparr>"

definition dryRunFreshCluster :: "string \<Rightarrow> cluster_spec \<Rightarrow> dry_run_result" where
  "dryRunFreshCluster name spec =
     (case NodeNames name spec of (cps, workers) \<Rightarrow>
        \<lparr>dr_children = map (vmAction ''create'' ''new control-plane node'') cps @ map (vmAction ''create'' ''new worker node'') workers,
         dr_requiredGates = [],
         dr_summary = ''would create cluster '' @ goQuote name @ '' with '' @ digits (length cps) @ '' CP + '' @ digits (length workers) @ '' worker node(s)''\<rparr>)"

definition summarisePlan :: "change_plan \<Rightarrow> nat \<Rightarrow> string" where
  "summarisePlan p respecs =
     (let a = length (cp_addCPs p) + length (cp_addWorkers p); r = length (cp_removeCPs p) + length (cp_removeWorkers p);
          parts = (if a > 0 then [''add '' @ digits a] else []) @ (if r > 0 then [''remove '' @ digits r] else [])
                  @ (if respecs > 0 then [''respec '' @ digits respecs] else [])
      in if parts = [] then ''no-op'' else ''would '' @ joinWith '', '' parts @ '' node(s)'')"

definition appendUnique :: "string list \<Rightarrow> string \<Rightarrow> string list" where
  "appendUnique s v = (if v \<in> set s then s else s @ [v])"

abbreviation GateAllowDestructive :: string where
  "GateAllowDestructive \<equiv> ''allow_destructive''"

abbreviation GateIKnowThisBreaks :: string where
  "GateIKnowThisBreaks \<equiv> ''i_know_this_breaks_the_cluster''"

text \<open>The arrow in the text of a respec is three bytes.\<close>

definition arrow :: string where
  "arrow = [char_of (226 :: nat), char_of (134 :: nat), char_of (146 :: nat)]"

definition respecAction :: "respec_node \<Rightarrow> child_action" where
  "respecAction r = vmAction ''respec''
     (''destroy + recreate '' @ (if rn_isCP r then ''control-plane'' else ''worker'') @ '' (cpu '' @ showInt (rn_observedCPUs r) @ arrow
      @ showInt (rn_desiredCPUs r) @ '', mem '' @ showInt (rn_observedMemMB r) @ ''Mi'' @ arrow @ showInt (rn_desiredMemMB r) @ ''Mi)'') (rn_name r)"

definition removedNames :: "change_plan \<Rightarrow> string list" where
  "removedNames p = cp_removeCPs p @ cp_removeWorkers p"

definition dryRunExisting ::
  "(string \<Rightarrow> err + resource option) \<Rightarrow> string \<Rightarrow> cluster_spec \<Rightarrow> 'a k3s_files_scheme \<Rightarrow> dry_run_result" where
  "dryRunExisting get name spec w =
     (let current = childrenOrNone name w; p = computeChangePlan name spec current;
          respecs = computeSpecRespecs get name spec current (removedNames p)
      in if \<not> hasChanges p \<and> respecs = [] then
           \<lparr>dr_children = [], dr_requiredGates = [], dr_summary = ''no-op (cluster matches manifest)''\<rparr>
         else
           (case countCurrent current name of (haveCPs, haveWorkers) \<Rightarrow>
              let g0 = (if removesAny p \<or> respecs \<noteq> [] then [GateAllowDestructive] else []);
                  g1 = (if catastrophicReason p haveCPs haveWorkers \<noteq> [] then appendUnique g0 GateIKnowThisBreaks else g0);
                  g2 = (if catastrophicRespecReason respecs haveCPs haveWorkers \<noteq> [] then appendUnique g1 GateIKnowThisBreaks else g1)
              in \<lparr>dr_children = map (vmAction ''create'' ''new control-plane node'') (cp_addCPs p)
                    @ map (vmAction ''create'' ''new worker node'') (cp_addWorkers p)
                    @ map (vmAction ''destroy'' ''remove control-plane node'') (cp_removeCPs p)
                    @ map (vmAction ''destroy'' ''remove worker node'') (cp_removeWorkers p) @ map respecAction respecs,
                  dr_requiredGates = g2, dr_summary = summarisePlan p (length respecs)\<rparr>))"

definition requireKindCluster :: "string \<Rightarrow> err option" where
  "requireKindCluster got =
     (if got \<noteq> ''Cluster'' then Some (Plain (''k3s provider does not handle kind '' @ goQuote got @ '' (only '' @ goQuote ''Cluster'' @ '')'')) else None)"

definition DryRun ::
  "'a k3s_files_scheme vm_provider \<Rightarrow> resource \<Rightarrow> 'a k3s_files_scheme \<Rightarrow> err + dry_run_result" where
  "DryRun vms manifest w =
     (case requireKindCluster (r_kind manifest) of
        Some e \<Rightarrow> Inl e
      | None \<Rightarrow>
          let name = r_name manifest; spec = ParseClusterSpec manifest in
          if name = [] then Inl (Plain ''metadata.name is required'')
          else (case loadState name w of
                  Inr (Some _) \<Rightarrow> Inr (dryRunExisting (\<lambda>n. vp_get vms ''VirtualMachine'' n w) name spec w)
                | _ \<Rightarrow> Inr (dryRunFreshCluster name spec)))"

subsection \<open>Which control plane to join (countup_plan.go, k8scleanup.go)\<close>

definition survivingCPs :: "string \<Rightarrow> child_ref list \<Rightarrow> string list \<Rightarrow> string list \<Rightarrow> string list" where
  "survivingCPs cl current removed exclude =
     filter (\<lambda>n. hasPrefix n (cpPrefix cl) \<and> n \<notin> set removed \<and> n \<notin> set exclude) (vmNames current)"

definition survivingControlPlane :: "string \<Rightarrow> child_ref list \<Rightarrow> string list \<Rightarrow> string list \<Rightarrow> err + string" where
  "survivingControlPlane cl current removed exclude =
     (case sort (survivingCPs cl current removed exclude) of
        [] \<Rightarrow> Inl (Plain ''no surviving control plane to join (all removed or excluded)'')
      | cp # _ \<Rightarrow> Inr cp)"

definition survivingCPEndpoint :: "string \<Rightarrow> child_ref list \<Rightarrow> string list \<Rightarrow> string list \<Rightarrow> 'a k3s_files_scheme \<Rightarrow> err + string" where
  "survivingCPEndpoint name current removed exclude w =
     (case survivingControlPlane name current removed exclude of
        Inl e \<Rightarrow> Inl e
      | Inr cp \<Rightarrow>
          (case loadState name w of
             Inr (Some r) \<Rightarrow>
               let ip = strGet (readAgentEndpoints r) cp in
               if ip = [] then Inl (Plain (''no IP for surviving CP '' @ cp)) else Inr ip
           | _ \<Rightarrow> Inl (Plain (''no state for cluster '' @ goQuote name))))"

definition k8sDeleteNodeCommand :: "string \<Rightarrow> string" where
  "k8sDeleteNodeCommand node = ''k3s kubectl delete node '' @ node @ '' --ignore-not-found=true''"

definition k8sDeleteNodePasswordSecretCommand :: "string \<Rightarrow> string" where
  "k8sDeleteNodePasswordSecretCommand node =
     ''k3s kubectl delete secret '' @ node @ ''.node-password.k3s -n kube-system --ignore-not-found=true''"

text \<open>Best effort: failures are only logged.\<close>

definition evictK8sNode :: "'w ssh_ops \<Rightarrow> string \<Rightarrow> cluster_spec \<Rightarrow> string \<Rightarrow> 'w \<Rightarrow> 'w" where
  "evictK8sNode ssh cpIP spec node w =
     (case so_connect ssh cpIP (sh_user (cs_ssh spec)) (sh_privateKeyPath (cs_ssh spec)) w of
        (Some _, w1) \<Rightarrow> w1
      | (None, w1) \<Rightarrow>
          snd (so_run ssh cpIP (k8sDeleteNodePasswordSecretCommand node) (snd (so_run ssh cpIP (k8sDeleteNodeCommand node) w1))))"

definition deleteDepartedK8sNodes ::
  "'a k3s_files_scheme ssh_ops \<Rightarrow> string \<Rightarrow> cluster_spec \<Rightarrow> string list \<Rightarrow> child_ref list \<Rightarrow> string list \<Rightarrow> 'a k3s_files_scheme \<Rightarrow> 'a k3s_files_scheme" where
  "deleteDepartedK8sNodes ssh name spec departed current removed w =
     (if departed = [] then w
      else (case survivingCPEndpoint name current removed [] w of
              Inl _ \<Rightarrow> w
            | Inr cpIP \<Rightarrow> foldl (\<lambda>w node. evictK8sNode ssh cpIP spec node w) w departed))"

definition readCPNodeToken :: "'w ssh_ops \<Rightarrow> string \<Rightarrow> string \<Rightarrow> string \<Rightarrow> 'w \<Rightarrow> (err + string) \<times> 'w" where
  "readCPNodeToken ssh host user key w =
     (case so_connect ssh host user key w of
        (Some e, w1) \<Rightarrow> (Inl e, w1)
      | (None, w1) \<Rightarrow>
          (case so_run ssh host ''cat /var/lib/rancher/k3s/server/node-token'' w1 of
             (Inl e, w2) \<Rightarrow> (Inl e, w2)
           | (Inr tok, w2) \<Rightarrow> (Inr (trimSpace tok), w2)))"

definition putSpec :: "resource \<Rightarrow> string \<Rightarrow> val \<Rightarrow> resource" where
  "putSpec r k v = r\<lparr>r_spec := map_option (\<lambda>m. putKey m k v) (r_spec r)\<rparr>"

definition setJoinRef :: "resource \<Rightarrow> string \<Rightarrow> resource" where
  "setJoinRef r cp =
     putSpec (putSpec r ''joinFrom'' (planRef ''k3s.openctl.io/v1'' ''K3sNode'' cp ''status.nodeToken''))
       ''joinURLFrom'' (planRef ''k3s.openctl.io/v1'' ''K3sNode'' cp ''status.vmIP'')"

text \<open>
  \<open>expand\<close> is \<^verbatim>\<open>config.ExpandPath\<close>.  A legacy control plane has no K3sNode record: its token is read over SSH.  When its
  endpoint is unknown the error wraps the missing endpoint's error.
\<close>

definition setJoin ::
  "(string \<Rightarrow> err + string) \<Rightarrow> 'a k3s_files_scheme ssh_ops \<Rightarrow> resource \<Rightarrow> string \<Rightarrow> resource \<Rightarrow> string \<Rightarrow> child_ref list \<Rightarrow> string list \<Rightarrow>
   'a k3s_files_scheme \<Rightarrow> (err + resource) \<times> 'a k3s_files_scheme" where
  "setJoin expand ssh k3sNode cp manifest cl current removed w =
     (case nodeStateOf cp w of
        Some _ \<Rightarrow> (Inr (setJoinRef k3sNode cp), w)
      | None \<Rightarrow>
          (case survivingCPEndpoint cl current removed [] w of
             Inl e \<Rightarrow> (Inl (Wrap (''legacy control plane '' @ goQuote cp
                        @ '' has no K3sNode resource and no known endpoint to resolve its join token'') e), w)
           | Inr cpIP \<Rightarrow>
               let spec = ParseClusterSpec manifest; key0 = sh_privateKeyPath (cs_ssh spec);
                   key = (case expand key0 of Inr k \<Rightarrow> k | Inl _ \<Rightarrow> key0)
               in (case readCPNodeToken ssh cpIP (sh_user (cs_ssh spec)) key w of
                     (Inl e, w1) \<Rightarrow> (Inl (Wrap (''read node-token from legacy CP '' @ goQuote cp @ '' ('' @ cpIP @ '')'') e), w1)
                   | (Inr tok, w1) \<Rightarrow> (Inr (putSpec (putSpec k3sNode ''joinFrom'' (VStr tok)) ''joinURLFrom'' (VStr cpIP)), w1))))"

subsection \<open>Removing, adding and recreating nodes\<close>

definition nodeChildren :: "cluster_spec \<Rightarrow> string \<Rightarrow> resource list" where
  "nodeChildren spec node =
     [bareResource ''k3s.openctl.io/v1'' ''AgentInstall'' (node @ ''-agent''), bareResource ''k3s.openctl.io/v1'' ''K3sNode'' node,
      bareResource (cm_provider (cs_compute spec) @ ''.openctl.io/v1'') ''VirtualMachine'' node]"

fun deleteAll :: "'w child_dispatcher \<Rightarrow> resource list \<Rightarrow> 'w \<Rightarrow> err option \<times> 'w" where
  "deleteAll cd [] w = (None, w)"
| "deleteAll cd (c # cs) w =
     (case ch_delete cd c w of
        (Some e, w1) \<Rightarrow> (Some (Wrap (''delete '' @ r_kind c @ '' '' @ goQuote (r_name c)) e), w1)
      | (None, w1) \<Rightarrow> deleteAll cd cs w1)"

definition deleteNodeChildren :: "'w child_dispatcher \<Rightarrow> cluster_spec \<Rightarrow> string \<Rightarrow> 'w \<Rightarrow> err option \<times> 'w" where
  "deleteNodeChildren cd spec node w = deleteAll cd (nodeChildren spec node) w"

fun removeEach :: "'w child_dispatcher \<Rightarrow> cluster_spec \<Rightarrow> string \<Rightarrow> string list \<Rightarrow> 'w \<Rightarrow> err option \<times> 'w" where
  "removeEach cd spec what [] w = (None, w)"
| "removeEach cd spec what (n # ns) w =
     (case deleteNodeChildren cd spec n w of
        (Some e, w1) \<Rightarrow> (Some (Wrap (''delete '' @ what @ '' '' @ n) e), w1)
      | (None, w1) \<Rightarrow> removeEach cd spec what ns w1)"

text \<open>Workers before control planes.\<close>

definition removeNodes :: "'w child_dispatcher \<Rightarrow> cluster_spec \<Rightarrow> string list \<Rightarrow> string list \<Rightarrow> 'w \<Rightarrow> err option \<times> 'w" where
  "removeNodes cd spec workers cps w =
     (case removeEach cd spec ''worker'' workers w of
        (Some e, w1) \<Rightarrow> (Some e, w1)
      | (None, w1) \<Rightarrow> removeEach cd spec ''control-plane'' cps w1)"

fun applyAll :: "(err \<Rightarrow> err) \<Rightarrow> 'w child_dispatcher \<Rightarrow> resource list \<Rightarrow> 'w \<Rightarrow> err option \<times> 'w" where
  "applyAll wrap cd [] w = (None, w)"
| "applyAll wrap cd (c # cs) w =
     (case ch_apply cd c w of
        (Inl e, w1) \<Rightarrow> (Some (wrap e), w1)
      | (Inr _, w1) \<Rightarrow> applyAll wrap cd cs w1)"

fun joinAll ::
  "(string \<Rightarrow> err + string) \<Rightarrow> 'a k3s_files_scheme ssh_ops \<Rightarrow> string \<Rightarrow> resource \<Rightarrow> child_ref list \<Rightarrow> string list \<Rightarrow> resource list \<Rightarrow>
   'a k3s_files_scheme \<Rightarrow> (err + resource list) \<times> 'a k3s_files_scheme" where
  "joinAll expand ssh cp manifest current removed [] w = (Inr [], w)"
| "joinAll expand ssh cp manifest current removed (c # cs) w =
     (case setJoin expand ssh c cp manifest (r_name manifest) current removed w of
        (Inl e, w1) \<Rightarrow> (Inl e, w1)
      | (Inr c', w1) \<Rightarrow>
          (case joinAll expand ssh cp manifest current removed cs w1 of
             (Inl e, w2) \<Rightarrow> (Inl e, w2)
           | (Inr cs', w2) \<Rightarrow> (Inr (c' # cs'), w2)))"

definition stateEndpoints :: "string list \<Rightarrow> 'a k3s_files_scheme \<Rightarrow> strmap" where
  "stateEndpoints ns w =
     foldl (\<lambda>m n. case nodeStateOf n w of Some s \<Rightarrow> if ns_vmIP s \<noteq> [] then putKey m n (ns_vmIP s) else m | None \<Rightarrow> m) [] ns"

definition addNodesViaPlan ::
  "(string \<Rightarrow> err + string) \<Rightarrow> 'a k3s_files_scheme ssh_ops \<Rightarrow> 'a k3s_files_scheme child_dispatcher \<Rightarrow> resource \<Rightarrow> change_plan \<Rightarrow>
   child_ref list \<Rightarrow> string list \<Rightarrow> 'a k3s_files_scheme \<Rightarrow> (err + strmap) \<times> 'a k3s_files_scheme" where
  "addNodesViaPlan expand ssh cd manifest p current removed w =
     (case survivingControlPlane (r_name manifest) current removed [] of
        Inl e \<Rightarrow> (Inl e, w)
      | Inr cp \<Rightarrow>
          (case Plan manifest of
             Inl e \<Rightarrow> (Inl (Wrap ''plan cluster for count-up'' e), w)
           | Inr children \<Rightarrow>
               let add = cp_addCPs p @ cp_addWorkers p;
                   vms = filter (\<lambda>c. r_name c \<in> set add) (ofKind ''VirtualMachine'' children);
                   agents = filter (\<lambda>c. trimSuffix (r_name c) ''-agent'' \<in> set add) (ofKind ''AgentInstall'' children)
               in (case joinAll expand ssh cp manifest current removed (filter (\<lambda>c. r_name c \<in> set add) (ofKind ''K3sNode'' children)) w of
                     (Inl e, w1) \<Rightarrow> (Inl e, w1)
                   | (Inr nodes, w1) \<Rightarrow>
                       (case applyAll id cd (vms @ nodes @ agents) w1 of
                          (Some e, w2) \<Rightarrow> (Inl e, w2)
                        | (None, w2) \<Rightarrow> (Inr (stateEndpoints (map (\<lambda>r. r_name r) nodes) w2), w2)))))"

text \<open>A map assignment per child: of two children of one key the later one stays.\<close>

definition childByKey :: "resource list \<Rightarrow> string \<Rightarrow> resource option" where
  "childByKey children k = map_of (rev (map (\<lambda>c. (r_kind c @ ''/'' @ r_name c, c)) children)) k"

fun respecLoop ::
  "(string \<Rightarrow> err + string) \<Rightarrow> 'a k3s_files_scheme ssh_ops \<Rightarrow> 'a k3s_files_scheme child_dispatcher \<Rightarrow> resource \<Rightarrow> cluster_spec \<Rightarrow> resource list \<Rightarrow>
   child_ref list \<Rightarrow> string list \<Rightarrow> string list \<Rightarrow> strmap \<Rightarrow> 'a k3s_files_scheme \<Rightarrow> (err + strmap) \<times> 'a k3s_files_scheme" where
  "respecLoop expand ssh cd manifest spec children current removed [] eps w = (Inr eps, w)"
| "respecLoop expand ssh cd manifest spec children current removed (node # ns) eps w =
     (let cl = r_name manifest; pre = ''respec '' @ node in
      case survivingControlPlane cl current removed [node] of
        Inl e \<Rightarrow> (Inl (Wrap pre e), w)
      | Inr cp \<Rightarrow>
          (case (childByKey children (''VirtualMachine/'' @ node), childByKey children (''K3sNode/'' @ node),
                 childByKey children (''AgentInstall/'' @ node @ ''-agent'')) of
             (Some vm, Some k3sNode, Some agent) \<Rightarrow>
               (case deleteNodeChildren cd spec node w of
                  (Some e, w1) \<Rightarrow> (Inl (Wrap (pre @ '': destroy'') e), w1)
                | (None, w1) \<Rightarrow>
                    let w2 = (case survivingCPEndpoint cl current removed [node] w1 of
                                Inr cpIP \<Rightarrow> evictK8sNode ssh cpIP spec node w1 | Inl _ \<Rightarrow> w1)
                    in (case setJoin expand ssh k3sNode cp manifest cl current removed w2 of
                          (Inl e, w3) \<Rightarrow> (Inl (Wrap (pre @ '': resolve join'') e), w3)
                        | (Inr k', w3) \<Rightarrow>
                            (case applyAll (Wrap (pre @ '': recreate'')) cd [vm, k', agent] w3 of
                               (Some e, w4) \<Rightarrow> (Inl e, w4)
                             | (None, w4) \<Rightarrow>
                                 respecLoop expand ssh cd manifest spec children current removed ns
                                   (case nodeStateOf node w4 of Some s \<Rightarrow> if ns_vmIP s \<noteq> [] then putKey eps node (ns_vmIP s) else eps | None \<Rightarrow> eps) w4)))
           | _ \<Rightarrow> (Inl (Plain (pre @ '': plan is missing children for this node'')), w)))"

definition respecNodesViaPlan ::
  "(string \<Rightarrow> err + string) \<Rightarrow> 'a k3s_files_scheme ssh_ops \<Rightarrow> 'a k3s_files_scheme child_dispatcher \<Rightarrow> resource \<Rightarrow> cluster_spec \<Rightarrow> respec_node list \<Rightarrow>
   child_ref list \<Rightarrow> string list \<Rightarrow> 'a k3s_files_scheme \<Rightarrow> (err + strmap) \<times> 'a k3s_files_scheme" where
  "respecNodesViaPlan expand ssh cd manifest spec respecs current removed w =
     (case Plan manifest of
        Inl e \<Rightarrow> (Inl (Wrap ''plan cluster for respec'' e), w)
      | Inr children \<Rightarrow> respecLoop expand ssh cd manifest spec children current removed (map rn_name respecs) [] w)"

subsection \<open>Converging (provider.go)\<close>

abbreviation annotAllowDestructive :: string where
  "annotAllowDestructive \<equiv> ''openctl.io/allow-destructive''"

abbreviation annotIKnowThisBreaks :: string where
  "annotIKnowThisBreaks \<equiv> ''openctl.io/i-know-this-breaks-the-cluster''"

definition annotated :: "resource \<Rightarrow> string \<Rightarrow> bool" where
  "annotated manifest a \<longleftrightarrow> strGet (md_annotations (r_metadata manifest)) a = ''true''"

definition showList :: "string list \<Rightarrow> string" where
  "showList xs = ''['' @ joinWith '' '' xs @ '']''"

text \<open>The guardrails of \<open>applyExisting\<close>, in its order.\<close>

definition gateCheck :: "resource \<Rightarrow> change_plan \<Rightarrow> respec_node list \<Rightarrow> int \<Rightarrow> int \<Rightarrow> err option" where
  "gateCheck manifest p respecs haveCPs haveWorkers =
     (let allow = annotated manifest annotAllowDestructive; iKnow = annotated manifest annotIKnowThisBreaks;
          reason1 = catastrophicReason p haveCPs haveWorkers; reason2 = catastrophicRespecReason respecs haveCPs haveWorkers in
      if removesAny p \<and> \<not> allow then
        Some (Plain (''would remove '' @ digits (length (cp_removeCPs p) + length (cp_removeWorkers p)) @ '' node(s) (CPs '' @ showList (cp_removeCPs p)
           @ '', workers '' @ showList (cp_removeWorkers p) @ ''); pass --allow-destructive to confirm''))
      else if respecs \<noteq> [] \<and> \<not> allow then
        Some (Plain (''would respec '' @ digits (length respecs) @ '' node(s) ('' @ showList (map rn_name respecs)
           @ '') via destroy + recreate; pass --allow-destructive to confirm''))
      else if reason1 \<noteq> [] \<and> \<not> iKnow then Some (Plain (''catastrophic: '' @ reason1 @ ''; pass --i-know-this-breaks-the-cluster to override''))
      else if reason2 \<noteq> [] \<and> \<not> iKnow then Some (Plain (''catastrophic: '' @ reason2 @ ''; pass --i-know-this-breaks-the-cluster to override''))
      else None)"

definition keptChildren :: "child_ref list \<Rightarrow> change_plan \<Rightarrow> child_ref list" where
  "keptChildren current p = filter (\<lambda>c. cr_name c \<notin> set (removedNames p)) current"

definition addedChildren :: "change_plan \<Rightarrow> child_ref list" where
  "addedChildren p = map vmChildRef (cp_addCPs p @ cp_addWorkers p)"

text \<open>What follows the guardrails: removals, the eviction of the departed, additions, recreations, and the state file.\<close>

definition converge ::
  "(string \<Rightarrow> err + string) \<Rightarrow> 'a k3s_files_scheme ssh_ops \<Rightarrow> 'a k3s_files_scheme child_dispatcher \<Rightarrow> resource \<Rightarrow> cluster_spec \<Rightarrow> change_plan \<Rightarrow>
   respec_node list \<Rightarrow> child_ref list \<Rightarrow> 'a k3s_files_scheme \<Rightarrow> (err + resource option) \<times> 'a k3s_files_scheme" where
  "converge expand ssh cd manifest spec p respecs current w =
     (let name = r_name manifest; removed = removedNames p in
      case removeNodes cd spec (cp_removeWorkers p) (cp_removeCPs p) w of
        (Some e, w1) \<Rightarrow> (Inl e, w1)
      | (None, w1) \<Rightarrow>
          let w2 = (if removed \<noteq> [] then deleteDepartedK8sNodes ssh name spec (cp_removeWorkers p @ cp_removeCPs p) current removed w1 else w1);
              adds = cp_addCPs p @ cp_addWorkers p
          in (case (if adds \<noteq> [] then addNodesViaPlan expand ssh cd manifest p current removed w2 else (Inr [], w2)) of
                (Inl e, w3) \<Rightarrow> (Inl e, w3)
              | (Inr eps, w3) \<Rightarrow>
                  (case (if respecs \<noteq> [] then respecNodesViaPlan expand ssh cd manifest spec respecs current removed w3 else (Inr [], w3)) of
                     (Inl e, w4) \<Rightarrow> (Inl e, w4)
                   | (Inr updated, w4) \<Rightarrow>
                       (case rewriteState name (r_spec manifest) (keptChildren current p @ (if adds \<noteq> [] then addedChildren p else []))
                               (foldl (\<lambda>m (n, ip). putKey m n ip) eps updated) removed w4 of
                          (Some e, w5) \<Rightarrow> (Inl (Wrap ''rewrite state'' e), w5)
                        | (None, w5) \<Rightarrow> (loadState name w5, w5)))))"

definition applyExisting ::
  "(string \<Rightarrow> err + string) \<Rightarrow> 'a k3s_files_scheme vm_provider \<Rightarrow> 'a k3s_files_scheme ssh_ops \<Rightarrow> 'a k3s_files_scheme child_dispatcher option \<Rightarrow>
   resource \<Rightarrow> 'a k3s_files_scheme \<Rightarrow> (err + resource option) \<times> 'a k3s_files_scheme" where
  "applyExisting expand vms ssh cdo manifest w =
     (let name = r_name manifest; spec = ParseClusterSpec manifest; current = childrenOrNone name w;
          p = computeChangePlan name spec current;
          respecs = computeSpecRespecs (\<lambda>n. vp_get vms ''VirtualMachine'' n w) name spec current (removedNames p)
      in if \<not> hasChanges p \<and> respecs = [] then (loadState name w, w)
         else (case countCurrent current name of (haveCPs, haveWorkers) \<Rightarrow>
           (case gateCheck manifest p respecs haveCPs haveWorkers of
              Some e \<Rightarrow> (Inl e, w)
            | None \<Rightarrow>
                (case cdo of
                   None \<Rightarrow> (Inl (Plain ''existing-cluster convergence requires the controller dispatcher (no ChildDispatcher on ctx)''), w)
                 | Some cd \<Rightarrow> converge expand ssh cd manifest spec p respecs current w))))"

definition isProvisioningCluster :: "resource \<Rightarrow> bool" where
  "isProvisioningCluster r \<longleftrightarrow> strField (objOr (r_status r)) ''phase'' = ''Provisioning''"

text \<open>
  What an apply finds in its context and its provider: the parameters of the imperative path, \<^verbatim>\<open>config.ExpandPath\<close>, the
  concurrency and the schedule of the task graph, and the rounds of the waiting loops.
\<close>

record 'w apply_env =
  ae_create :: "'w create_env"
  ae_expand :: "string \<Rightarrow> err + string"
  ae_concurrency :: int
  ae_canceled :: bool
  ae_schedule :: "(nat \<times> bool) list"
  ae_canceledAfter :: bool
  ae_waits :: "'w poll list"
  ae_settle :: "'w poll list"

definition someResource :: "((err + resource) \<times> 'w) option \<Rightarrow> ((err + resource option) \<times> 'w) option" where
  "someResource = map_option (\<lambda>(r, w). (map_sum id Some r, w))"

definition k3sApply ::
  "'a k3s_files_scheme apply_env \<Rightarrow> 'a k3s_files_scheme vm_provider \<Rightarrow> 'a k3s_files_scheme ssh_ops \<Rightarrow> 'a k3s_files_scheme child_dispatcher option \<Rightarrow>
   resource \<Rightarrow> 'a k3s_files_scheme \<Rightarrow> ((err + resource option) \<times> 'a k3s_files_scheme) option" where
  "k3sApply ae vms ssh cdo manifest w =
     (if r_kind manifest = ''K3sNode'' then someResource (applyK3sNode (Some vms) ssh (ae_waits ae) (ae_settle ae) manifest w)
      else if r_kind manifest = ''AgentInstall'' then
        someResource (applyAgentInstall (ce_crypto (ae_create ae)) (ce_host (ae_create ae)) (Some vms) ssh (ae_waits ae) manifest w)
      else
        (case requireKindCluster (r_kind manifest) of
           Some e \<Rightarrow> Some (Inl e, w)
         | None \<Rightarrow>
             let viaPlan = (\<lambda>cd. someResource (Some (applyClusterViaPlan (ce_crypto (ae_create ae)) cd (ae_concurrency ae) (ae_canceled ae)
                              (ae_schedule ae) (ae_canceledAfter ae) manifest w)));
                 existing = Some (applyExisting (ae_expand ae) vms ssh cdo manifest w)
             in
             if r_name manifest = [] then Some (Inl (Plain ''metadata.name is required''), w)
             else (case loadState (r_name manifest) w of
                     Inr (Some st) \<Rightarrow>
                       (case cdo of
                          Some cd \<Rightarrow> if isProvisioningCluster st then viaPlan cd else existing
                        | None \<Rightarrow> existing)
                   | _ \<Rightarrow> (case cdo of
                             Some cd \<Rightarrow> viaPlan cd
                           | None \<Rightarrow> someResource (applyImperative (ae_create ae) vms ssh manifest w)))))"

subsection \<open>Observing and deleting (provider.go)\<close>

definition vmChildExists :: "'w vm_provider option \<Rightarrow> string \<Rightarrow> 'w \<Rightarrow> bool" where
  "vmChildExists vms n w =
     (case vms of
        None \<Rightarrow> True
      | Some v \<Rightarrow> (case vp_get v ''VirtualMachine'' n w of Inl e \<Rightarrow> \<not> isNotFound e | Inr r \<Rightarrow> r \<noteq> None))"

definition workerPoolOf :: "string \<Rightarrow> string \<Rightarrow> string option" where
  "workerPoolOf cl n =
     (if hasPrefix n (cpPrefix cl) then None
      else if hasPrefix n (cl @ ''-'') then poolOfNode cl n else None)"

definition observedPool :: "(string \<Rightarrow> nat) \<Rightarrow> val \<Rightarrow> val" where
  "observedPool counts v =
     (case v of
        VObj pool \<Rightarrow>
          let pn = strField pool ''name''; pn' = (if pn = [] then ''worker'' else pn)
          in VObj (putKey pool ''count'' (VInt (int (counts pn'))))
      | _ \<Rightarrow> v)"

definition observedNodes :: "nat \<Rightarrow> (string \<Rightarrow> nat) \<Rightarrow> obj \<Rightarrow> obj" where
  "observedNodes cpCount counts nodes =
     (let n1 = (case objField nodes ''controlPlane'' of
                  Some cp \<Rightarrow> putKey nodes ''controlPlane'' (VObj (putKey cp ''count'' (VInt (int cpCount)))) | None \<Rightarrow> nodes)
      in case objGet n1 ''workers'' of VArr ws \<Rightarrow> putKey n1 ''workers'' (VArr (map (observedPool counts) ws)) | _ \<Rightarrow> n1)"

definition applyObservedCounts :: "'w vm_provider option \<Rightarrow> string \<Rightarrow> child_ref list \<Rightarrow> 'w \<Rightarrow> resource \<Rightarrow> resource" where
  "applyObservedCounts vms cl children w r =
     (case r_spec r of
        None \<Rightarrow> r
      | Some m \<Rightarrow>
          (case objField m ''nodes'' of
             None \<Rightarrow> r
           | Some nodes \<Rightarrow>
               let live = filter (\<lambda>n. vmChildExists vms n w) (vmNames children);
                   cpCount = length (filter (\<lambda>n. hasPrefix n (cpPrefix cl)) live);
                   counts = (\<lambda>pool. length (filter (\<lambda>n. workerPoolOf cl n = Some pool) live))
               in r\<lparr>r_spec := Some (putKey m ''nodes'' (VObj (observedNodes cpCount counts nodes)))\<rparr>))"

definition k3sGet ::
  "'a k3s_files_scheme vm_provider option \<Rightarrow> string \<Rightarrow> string \<Rightarrow> 'a k3s_files_scheme \<Rightarrow> err + resource" where
  "k3sGet vms kind name w =
     (if kind = ''K3sNode'' then getK3sNode name w
      else if kind = ''AgentInstall'' then getAgentInstall name w
      else
        (case requireKindCluster kind of
           Some e \<Rightarrow> Inl e
         | None \<Rightarrow>
             (case loadState name w of
                Inl e \<Rightarrow> Inl e
              | Inr None \<Rightarrow> Inl (NotFoundError kind name)
              | Inr (Some r) \<Rightarrow>
                  Inr (case readChildren name w of Inr cs \<Rightarrow> applyObservedCounts vms name cs w r | Inl _ \<Rightarrow> r))))"

definition k3sList :: "string \<Rightarrow> 'a k3s_files_scheme \<Rightarrow> err + resource list" where
  "k3sList kind w =
     (if kind = ''K3sNode'' then Inr (listK3sNodes w)
      else if kind = ''AgentInstall'' then Inr (listAgentInstalls w)
      else (case requireKindCluster kind of Some e \<Rightarrow> Inl e | None \<Rightarrow> Inr (listClusters w)))"

fun deleteChildren ::
  "'a k3s_files_scheme vm_provider \<Rightarrow> child_ref list \<Rightarrow> 'a k3s_files_scheme \<Rightarrow> err option \<times> 'a k3s_files_scheme" where
  "deleteChildren vms [] w = (None, w)"
| "deleteChildren vms (c # cs) w =
     (let d = (if cr_provider c = ''proxmox'' \<and> isVM c then vp_delete vms (cr_kind c) (cr_name c) w else (None, w));
          w1 = snd d;
          w2 = (if isVM c then snd (removeAgentInstallState (cr_name c @ ''-agent'') (snd (removeNodeState (cr_name c) w1))) else w1)
      in case fst d of
           Some e \<Rightarrow> if contains (errText e) ''not found'' then deleteChildren vms cs w2
                      else (Some (Wrap (''delete VM '' @ cr_name c) e), w1)
         | None \<Rightarrow> deleteChildren vms cs w2)"

text \<open>The errors of removing the state file and the bundle directory are dropped.\<close>

definition removeClusterFiles :: "string \<Rightarrow> 'a k3s_files_scheme \<Rightarrow> 'a k3s_files_scheme" where
  "removeClusterFiles name w =
     (let w1 = (case kf_wrErr w (ClusterFile name) of Some _ \<Rightarrow> w | None \<Rightarrow> w\<lparr>kf_clusters := dropKey (kf_clusters w) name\<rparr>)
      in case kf_wrErr w1 (BundleDir name) of Some _ \<Rightarrow> w1 | None \<Rightarrow> w1\<lparr>kf_bundles := dropKey (kf_bundles w1) name\<rparr>)"

definition k3sDelete ::
  "'a k3s_files_scheme ssh_ops \<Rightarrow> 'a k3s_files_scheme vm_provider \<Rightarrow> string \<Rightarrow> string \<Rightarrow> 'a k3s_files_scheme \<Rightarrow>
   err option \<times> 'a k3s_files_scheme" where
  "k3sDelete ssh vms kind name w =
     (if kind = ''K3sNode'' then deleteK3sNode ssh name w
      else if kind = ''AgentInstall'' then deleteAgentInstall ssh name w
      else
        (case requireKindCluster kind of
           Some e \<Rightarrow> (Some e, w)
         | None \<Rightarrow>
             (case loadState name w of
                Inl e \<Rightarrow> (Some e, w)
              | Inr None \<Rightarrow> (None, w)
              | Inr (Some _) \<Rightarrow>
                  (case deleteChildren vms (childrenOrNone name w) w of
                     (Some e, w1) \<Rightarrow> (Some e, w1)
                   | (None, w1) \<Rightarrow> (None, removeClusterFiles name w1)))))"

subsection \<open>Actions (provider.go)\<close>

definition k3sActions :: "string \<Rightarrow> string list" where
  "k3sActions kind = (if kind \<noteq> ''Cluster'' then [] else [''get-kubeconfig'', ''upgrade'', ''logs'', ''restart''])"

definition emDash :: string where
  "emDash = [char_of (226 :: nat), char_of (128 :: nat), char_of (148 :: nat)]"

definition k3sDoAction :: "string \<Rightarrow> string \<Rightarrow> string \<Rightarrow> 'a k3s_files_scheme \<Rightarrow> err + action_result" where
  "k3sDoAction kind name action w =
     (if kind \<noteq> ''Cluster'' then Inl (Plain (''no actions for kind '' @ goQuote kind))
      else if action \<noteq> ''get-kubeconfig'' then Inl (Plain (''unknown action '' @ goQuote action))
      else
        (let path = kubeconfigPath name w in
         case map_of (kf_kubeconfigs w) name of
           None \<Rightarrow> Inl (Plain (''kubeconfig not found at '' @ path @ '' '' @ emDash
                    @ '' cluster may not have been created via openctl or was never successfully applied''))
         | Some content \<Rightarrow>
             (case kf_rdErr w (KubeconfigFile name) of
                Some e \<Rightarrow> Inl (Wrap ''read kubeconfig'' e)
              | None \<Rightarrow> Inr \<lparr>ar_message = ''Kubeconfig read from '' @ path, ar_url = [], ar_downloadContent = content,
                             ar_downloadFilename = name @ ''-kubeconfig.yaml''\<rparr>)))"

text \<open>
  \<^verbatim>\<open>DoActionWithParams\<close>: the actions on nodes go to the agents, made by the two factories; everything else is
  \<open>k3sDoAction\<close>.
\<close>

definition k3sDoActionWithParams ::
  "(agent_certs \<Rightarrow> strmap \<Rightarrow> 'a k3s_files_scheme node_upgrader) \<Rightarrow> (agent_certs \<Rightarrow> strmap \<Rightarrow> 'a k3s_files_scheme node_agent) \<Rightarrow>
   string \<Rightarrow> string \<Rightarrow> string \<Rightarrow> strmap \<Rightarrow> 'a k3s_files_scheme \<Rightarrow> (err + action_result) \<times> 'a k3s_files_scheme" where
  "k3sDoActionWithParams upgraders agents kind name action params w =
     (if kind = ''Cluster'' \<and> action = ''upgrade'' then runClusterUpgrade upgraders name (strGet params ''version'') w
      else if kind = ''Cluster'' \<and> action = ''logs'' then runClusterLogs agents name params w
      else if kind = ''Cluster'' \<and> action = ''restart'' then runClusterRestart agents name params w
      else (k3sDoAction kind name action w, w))"

subsection \<open>Lemmas: the guardrails\<close>

definition grantedGates :: "resource \<Rightarrow> string set" where
  "grantedGates manifest =
     (if annotated manifest annotAllowDestructive then {GateAllowDestructive} else {}) \<union>
     (if annotated manifest annotIKnowThisBreaks then {GateIKnowThisBreaks} else {})"

lemma set_appendUnique [simp]: "set (appendUnique s v) = insert v (set s)"
  by (auto simp: appendUnique_def)

lemma gateCheck_None:
  "gateCheck manifest p respecs haveCPs haveWorkers = None \<longleftrightarrow>
     (removesAny p \<or> respecs \<noteq> [] \<longrightarrow> annotated manifest annotAllowDestructive) \<and>
     (catastrophicReason p haveCPs haveWorkers \<noteq> [] \<or> catastrophicRespecReason respecs haveCPs haveWorkers \<noteq> [] \<longrightarrow>
        annotated manifest annotIKnowThisBreaks)"
  unfolding gateCheck_def Let_def by (cases "annotated manifest annotAllowDestructive"; cases "annotated manifest annotIKnowThisBreaks") simp_all

lemma requiredGates_granted:
  fixes w :: "'a k3s_files_scheme" and name :: string and spec :: cluster_spec and get :: "string \<Rightarrow> err + resource option"
  defines "current \<equiv> childrenOrNone name w"
  defines "p \<equiv> computeChangePlan name spec current"
  defines "respecs \<equiv> computeSpecRespecs get name spec current (removedNames p)"
  assumes "hasChanges p \<or> respecs \<noteq> []"
  shows "set (dr_requiredGates (dryRunExisting get name spec w)) \<subseteq> grantedGates manifest \<longleftrightarrow>
    gateCheck manifest p respecs (fst (countCurrent current name)) (snd (countCurrent current name)) = None"
proof -
  obtain hc hw where c: "countCurrent current name = (hc, hw)" by (cases "countCurrent current name")
  have g: "set (dr_requiredGates (dryRunExisting get name spec w)) =
      (if removesAny p \<or> respecs \<noteq> [] then {GateAllowDestructive} else {}) \<union>
      (if catastrophicReason p hc hw \<noteq> [] \<or> catastrophicRespecReason respecs hc hw \<noteq> [] then {GateIKnowThisBreaks} else {})"
    unfolding dryRunExisting_def Let_def current_def [symmetric] p_def [symmetric] respecs_def [symmetric] c
    using assms(4) by auto
  have d: "GateAllowDestructive \<noteq> GateIKnowThisBreaks" by simp
  show ?thesis unfolding g gateCheck_None c fst_conv snd_conv grantedGates_def using d by auto
qed

subsection \<open>Lemmas: the structural difference\<close>

lemma properCP_iff: "n \<noteq> cpPrefix cl \<Longrightarrow> properCP cl n \<longleftrightarrow> hasPrefix n (cpPrefix cl)"
  by (auto simp: properCP_def hasPrefix_iff) (metis append_take_drop_id)

definition wanted :: "string \<Rightarrow> cluster_spec \<Rightarrow> string \<Rightarrow> bool" where
  "wanted cl spec n \<longleftrightarrow> (if properCP cl n then n \<in> set (fst (NodeNames cl spec)) else n \<in> set (snd (NodeNames cl spec)))"

lemma set_removedNames:
  "set (removedNames (computeChangePlan cl spec current)) = {n \<in> set (vmNames current). \<not> wanted cl spec n}"
  by (auto simp: removedNames_def computeChangePlan_def Let_def wanted_def)

lemma length_removeCPs:
  "distinct (vmNames current) \<Longrightarrow>
   length (cp_removeCPs (computeChangePlan cl spec current)) = length (filter (\<lambda>n. properCP cl n \<and> \<not> wanted cl spec n) (vmNames current))"
  "distinct (vmNames current) \<Longrightarrow>
   length (cp_removeWorkers (computeChangePlan cl spec current)) = length (filter (\<lambda>n. \<not> properCP cl n \<and> \<not> wanted cl spec n) (vmNames current))"
proof -
  have f: "filter Q (filter P xs) = filter (\<lambda>n. P n \<and> R n) xs" if "\<And>n. P n \<Longrightarrow> Q n = R n" for P Q R and xs :: "string list"
    using that by (induction xs) auto
  assume "distinct (vmNames current)"
  then have d: "remdups (filter P (vmNames current)) = filter P (vmNames current)" for P by (simp add: distinct_remdups_id)
  show "length (cp_removeCPs (computeChangePlan cl spec current)) = length (filter (\<lambda>n. properCP cl n \<and> \<not> wanted cl spec n) (vmNames current))"
    unfolding computeChangePlan_def Let_def d change_plan.simps length_sort by (subst f [of _ _ "\<lambda>n. \<not> wanted cl spec n"]) (simp_all add: wanted_def)
  show "length (cp_removeWorkers (computeChangePlan cl spec current)) = length (filter (\<lambda>n. \<not> properCP cl n \<and> \<not> wanted cl spec n) (vmNames current))"
    unfolding computeChangePlan_def Let_def d change_plan.simps length_sort by (subst f [of _ _ "\<lambda>n. \<not> wanted cl spec n"]) (simp_all add: wanted_def)
qed

lemma length_filter_split: "length (filter P xs) = length (filter (\<lambda>x. P x \<and> Q x) xs) + length (filter (\<lambda>x. P x \<and> \<not> Q x) xs)"
  by (induction xs) auto

lemma surviving_counts:
  assumes "distinct (vmNames current)" "cpPrefix cl \<notin> set (vmNames current)" "countCurrent current cl = (hc, hw)"
    and p_def: "p = computeChangePlan cl spec current"
  shows "int (length (survivingCPs cl current (removedNames p) [])) = hc - int (length (cp_removeCPs p))"
    and "int (length (filter (\<lambda>n. \<not> hasPrefix n (cpPrefix cl) \<and> n \<notin> set (removedNames p)) (vmNames current))) = hw - int (length (cp_removeWorkers p))"
proof -
  let ?xs = "vmNames current"
  have pr: "n \<in> set ?xs \<Longrightarrow> properCP cl n = hasPrefix n (cpPrefix cl)" for n
    using assms(2) properCP_iff by metis
  have rm: "n \<in> set ?xs \<Longrightarrow> n \<in> set (removedNames p) \<longleftrightarrow> \<not> wanted cl spec n" for n
    by (simp add: p_def set_removedNames)
  have s: "survivingCPs cl current (removedNames p) [] = filter (\<lambda>n. hasPrefix n (cpPrefix cl) \<and> wanted cl spec n) ?xs"
    unfolding survivingCPs_def using rm by (intro filter_cong) auto
  have t: "filter (\<lambda>n. \<not> hasPrefix n (cpPrefix cl) \<and> n \<notin> set (removedNames p)) ?xs = filter (\<lambda>n. \<not> hasPrefix n (cpPrefix cl) \<and> wanted cl spec n) ?xs"
    using rm by (intro filter_cong) auto
  have r: "length (cp_removeCPs p) = length (filter (\<lambda>n. hasPrefix n (cpPrefix cl) \<and> \<not> wanted cl spec n) ?xs)"
    "length (cp_removeWorkers p) = length (filter (\<lambda>n. \<not> hasPrefix n (cpPrefix cl) \<and> \<not> wanted cl spec n) ?xs)"
    unfolding p_def length_removeCPs [OF assms(1)] using pr by (auto intro!: arg_cong [of _ _ length] filter_cong)
  show "int (length (survivingCPs cl current (removedNames p) [])) = hc - int (length (cp_removeCPs p))"
    using assms(3) length_filter_split [of "\<lambda>n. hasPrefix n (cpPrefix cl)" ?xs "wanted cl spec"] unfolding s r by (auto simp: countCurrent_def)
  show "int (length (filter (\<lambda>n. \<not> hasPrefix n (cpPrefix cl) \<and> n \<notin> set (removedNames p)) ?xs)) = hw - int (length (cp_removeWorkers p))"
    using assms(3) length_filter_split [of "\<lambda>n. \<not> hasPrefix n (cpPrefix cl)" ?xs "wanted cl spec"] unfolding t r by (auto simp: countCurrent_def)
qed

lemma catastrophicReason_none:
  assumes "catastrophicReason p hc hw = []"
  shows "0 < hc - int (length (cp_removeCPs p))" "1 < hc \<Longrightarrow> hc < 2 * (hc - int (length (cp_removeCPs p)))"
    "0 < hw \<Longrightarrow> 0 < hw - int (length (cp_removeWorkers p))"
  using assms by (auto simp: catastrophicReason_def Let_def split: if_splits)

end
