(* ===== verification/Convergence.thy ===== *)
theory Convergence
  imports K3sConverge
begin

text \<open>
  What the converging apply, the recreation of nodes and the delete of the cluster provider (K3sConverge) achieve: the
  recorded children against the manifest, the last control plane, and what a delete leaves behind.
\<close>

subsection \<open>Lemmas: names of nodes\<close>

lemma take_prefix_iff: "length n > length p \<and> take (length p) n = p \<longleftrightarrow> (\<exists>t. t \<noteq> [] \<and> n = p @ t)"
  by (metis append_eq_conv_conj append_take_drop_id drop_eq_Nil length_append length_greater_0_conv less_add_same_cancel1 linorder_not_less)

lemma pool_dash_prefix: "(\<exists>t. t \<noteq> [] \<and> pool @ CHR ''-'' # digits i = ''cp-'' @ t) \<longleftrightarrow> pool = ''cp'' \<or> hasPrefix pool ''cp-''"
  by (cases pool; cases "tl pool"; cases "tl (tl pool)") (auto simp: hasPrefix_iff)

lemma properCP_node [simp]: "properCP cl (nodeName cl pool i) \<longleftrightarrow> pool = ''cp'' \<or> hasPrefix pool ''cp-''"
  unfolding properCP_def take_prefix_iff pool_dash_prefix [of pool i, symmetric] by (simp add: cpPrefix_def nodeName_def)

text \<open>No worker pool takes a name that makes its nodes look like control planes.\<close>

definition poolsApart :: "cluster_spec \<Rightarrow> bool" where
  "poolsApart spec \<longleftrightarrow> list_all (\<lambda>w. pl_count w > 0 \<longrightarrow> poolName w \<noteq> ''cp'' \<and> \<not> hasPrefix (poolName w) ''cp-'') (nd_workers (cs_nodes spec))"

lemma control_plane_names: "n \<in> set (fst (NodeNames cl spec)) \<Longrightarrow> properCP cl n"
  by (auto simp: NodeNames_def poolNodes_def)

lemma worker_names: "poolsApart spec \<Longrightarrow> n \<in> set (snd (NodeNames cl spec)) \<Longrightarrow> \<not> properCP cl n"
  by (auto simp: NodeNames_def poolNodes_def poolsApart_def list_all_iff)

lemma wanted_iff: "poolsApart spec \<Longrightarrow> wanted cl spec n \<longleftrightarrow> n \<in> set (allNodeNames cl spec)"
  using control_plane_names [of n cl spec] worker_names [of spec n cl] by (auto simp: wanted_def allNodeNames_def)

lemma set_added:
  "poolsApart spec \<Longrightarrow>
   set (cp_addCPs (computeChangePlan cl spec current) @ cp_addWorkers (computeChangePlan cl spec current)) =
     set (allNodeNames cl spec) - set (vmNames current)"
  using control_plane_names [of _ cl spec] worker_names [of spec _ cl]
  by (auto simp: computeChangePlan_def Let_def allNodeNames_def)

lemma hasChanges_iff:
  "hasChanges p \<longleftrightarrow> removedNames p \<noteq> [] \<or> cp_addCPs p @ cp_addWorkers p \<noteq> []"
  by (auto simp: hasChanges_def removedNames_def)

lemma no_changes:
  assumes "poolsApart spec"
  shows "\<not> hasChanges (computeChangePlan cl spec current) \<longleftrightarrow> set (vmNames current) = set (allNodeNames cl spec)"
  unfolding hasChanges_iff set_empty [symmetric] set_added [OF assms] set_removedNames wanted_iff [OF assms] by auto

lemma vmNames_append [simp]: "vmNames (xs @ ys) = vmNames xs @ vmNames ys"
  by (simp add: vmNames_def)

lemma vmNames_added [simp]: "vmNames (map vmChildRef ns) = ns"
  by (induction ns) (simp_all add: vmNames_def vmChildRef_def isVM_def)

lemma set_vmNames_kept: "set (vmNames (keptChildren current p)) = set (vmNames current) - set (removedNames p)"
  by (auto simp: vmNames_def keptChildren_def)

lemma set_new_children:
  assumes "poolsApart spec" "p = computeChangePlan cl spec current"
  shows "set (vmNames (keptChildren current p @ addedChildren p)) = set (allNodeNames cl spec)"
  using set_added [OF assms(1), of cl current]
  by (auto simp: assms(2) addedChildren_def set_vmNames_kept set_removedNames wanted_iff [OF assms(1)])

subsection \<open>Lemmas: the state file\<close>

lemma readCluster_written:
  "writeCluster name d w = (None, w') \<Longrightarrow> readCluster name w' = Inr (Some d') \<Longrightarrow> cd_children d' = cd_children d"
  by (auto simp: writeCluster_def readCluster_def split: option.splits)

lemma updateAgentEndpoints_children [simp]: "cd_children (updateAgentEndpoints d add rm) = cd_children d"
  by (auto simp: updateAgentEndpoints_def Let_def split: option.splits)

lemma loadState_rewritten:
  assumes "rewriteState name spec keep add rm w = (None, w')" "loadState name w' = Inr x"
  shows "childrenOrNone name w' = keep \<and> x \<noteq> None"
proof -
  obtain d where d: "writeCluster name d w = (None, w')" "cd_children d = keep"
    using assms(1) by (auto simp: rewriteState_def Let_def split: sum.splits option.splits if_splits)
  then have "readCluster name w' \<noteq> Inr None" by (auto simp: writeCluster_def readCluster_def split: option.splits)
  then show ?thesis using assms(2) readCluster_written [OF d(1)] d(2)
    by (auto simp: loadState_def childrenOrNone_def readChildren_def split: sum.splits option.splits)
qed

lemma converge_writes:
  assumes "converge expand ssh cd manifest spec p respecs current w = (Inr x, w')"
  shows "childrenOrNone (r_name manifest) w' = keptChildren current p @ addedChildren p"
proof -
  obtain eps rm w5 where "rewriteState (r_name manifest) (r_spec manifest)
       (keptChildren current p @ (if cp_addCPs p @ cp_addWorkers p \<noteq> [] then addedChildren p else [])) eps rm w5 = (None, w')"
    "loadState (r_name manifest) w' = Inr x"
    using assms unfolding converge_def Let_def by (auto split: prod.splits option.splits sum.splits simp del: rewriteState_def)
  then show ?thesis using loadState_rewritten by (fastforce simp: addedChildren_def split: if_splits)
qed


lemma respecLoop_append:
  "respecLoop expand ssh cd manifest spec children current removed (ns @ ms) eps w =
     (case respecLoop expand ssh cd manifest spec children current removed ns eps w of
        (Inl e, w1) \<Rightarrow> (Inl e, w1)
      | (Inr eps', w1) \<Rightarrow> respecLoop expand ssh cd manifest spec children current removed ms eps' w1)"
  by (induction ns arbitrary: eps w) (simp_all add: Let_def split: sum.split prod.split option.split)

subsection \<open>Lemmas: deleting\<close>

text \<open>What the cluster provider relies on: deleting a VM leaves the files of the cluster provider alone.\<close>

definition keepsFiles :: "'a k3s_files_scheme vm_provider \<Rightarrow> bool" where
  "keepsFiles vms \<longleftrightarrow> (\<forall>kind n w. k3s_files.truncate (snd (vp_delete vms kind n w)) = k3s_files.truncate w)"

definition writable :: "'a k3s_files_scheme \<Rightarrow> bool" where
  "writable w \<longleftrightarrow> (\<forall>f. kf_wrErr w f = None)"

lemma keepsFilesD:
  assumes "keepsFiles vms"
  shows "kf_nodes (snd (vp_delete vms kind n w)) = kf_nodes w" "kf_agents (snd (vp_delete vms kind n w)) = kf_agents w"
    "kf_clusters (snd (vp_delete vms kind n w)) = kf_clusters w" "kf_bundles (snd (vp_delete vms kind n w)) = kf_bundles w"
    "kf_wrErr (snd (vp_delete vms kind n w)) = kf_wrErr w"
  using assms by (simp_all add: keepsFiles_def k3s_files.truncate_def)

lemma removeStates:
  assumes "writable w" "w' = snd (removeAgentInstallState (n @ ''-agent'') (snd (removeNodeState n w)))"
  shows "writable w'" "map_of (kf_nodes w') = (map_of (kf_nodes w))(n := None)"
    "map_of (kf_agents w') = (map_of (kf_agents w))(n @ ''-agent'' := None)"
    "kf_clusters w' = kf_clusters w" "kf_bundles w' = kf_bundles w"
  using assms by (auto simp: writable_def removeNodeState_def removeAgentInstallState_def split: option.splits)

lemma deleteChildren_gone:
  assumes "keepsFiles vms" "writable w" "deleteChildren vms cs w = (None, w')"
  shows "writable w' \<and> kf_clusters w' = kf_clusters w \<and> kf_bundles w' = kf_bundles w \<and>
    map_of (kf_nodes w') = (\<lambda>n. if n \<in> set (vmNames cs) then None else map_of (kf_nodes w) n) \<and>
    map_of (kf_agents w') = (\<lambda>n. if n \<in> (\<lambda>m. m @ ''-agent'') ` set (vmNames cs) then None else map_of (kf_agents w) n)"
  using assms(2,3)
proof (induction cs arbitrary: w)
  case (Cons c cs)
  define w1 where "w1 = snd (if cr_provider c = ''proxmox'' \<and> isVM c then vp_delete vms (cr_kind c) (cr_name c) w else (None, w))"
  have d: "writable w1" "kf_nodes w1 = kf_nodes w" "kf_agents w1 = kf_agents w" "kf_clusters w1 = kf_clusters w" "kf_bundles w1 = kf_bundles w"
    using Cons.prems(1) keepsFilesD [OF assms(1)] by (auto simp: w1_def writable_def)
  have rest: "deleteChildren vms cs (if isVM c then snd (removeAgentInstallState (cr_name c @ ''-agent'') (snd (removeNodeState (cr_name c) w1))) else w1)
      = (None, w')"
    using Cons.prems(2) unfolding deleteChildren.simps Let_def w1_def [symmetric] by (auto split: option.splits if_splits)
  have vm: "vmNames (c # cs) = (if isVM c then cr_name c # vmNames cs else vmNames cs)" by (simp add: vmNames_def)
  show ?case
  proof (cases "isVM c")
    case True
    define w2 where "w2 = snd (removeAgentInstallState (cr_name c @ ''-agent'') (snd (removeNodeState (cr_name c) w1)))"
    note r = removeStates [OF d(1) w2_def]
    have "deleteChildren vms cs w2 = (None, w')" using rest True by (simp add: w2_def)
    from Cons.IH [OF r(1) this] show ?thesis using True r d by (auto simp: vm fun_eq_iff)
  next
    case False
    then show ?thesis using Cons.IH [OF d(1)] rest unfolding d(2-5) vm by simp
  qed
qed (auto simp: vmNames_def)

subsection \<open>Properties\<close>

text \<open>
  C9. The preview and the apply agree on an existing cluster: the apply is refused by its guardrails exactly when the
  manifest does not carry the annotation of every gate the preview lists, and then nothing has been touched; when it
  carries them, the apply goes on to converge, or to return the state when there is nothing to do.
\<close>
theorem dry_run_predicts_gates:
  fixes w :: "'a k3s_files_scheme"
  assumes "dr = dryRunExisting (\<lambda>n. vp_get vms ''VirtualMachine'' n w) (r_name manifest) (ParseClusterSpec manifest) w"
  shows "let current = childrenOrNone (r_name manifest) w; p = computeChangePlan (r_name manifest) (ParseClusterSpec manifest) current;
             respecs = computeSpecRespecs (\<lambda>n. vp_get vms ''VirtualMachine'' n w) (r_name manifest) (ParseClusterSpec manifest) current (removedNames p) in
    (\<not> set (dr_requiredGates dr) \<subseteq> grantedGates manifest \<longrightarrow>
       (\<exists>e. applyExisting expand vms ssh (Some cd) manifest w = (Inl e, w))) \<and>
    (set (dr_requiredGates dr) \<subseteq> grantedGates manifest \<longrightarrow>
       applyExisting expand vms ssh (Some cd) manifest w =
         (if \<not> hasChanges p \<and> respecs = [] then (loadState (r_name manifest) w, w)
          else converge expand ssh cd manifest (ParseClusterSpec manifest) p respecs current w))"
proof -
  let ?n = "r_name manifest" and ?spec = "ParseClusterSpec manifest" and ?get = "\<lambda>n. vp_get vms ''VirtualMachine'' n w"
  let ?cur = "childrenOrNone ?n w"
  let ?p = "computeChangePlan ?n ?spec ?cur"
  let ?rs = "computeSpecRespecs ?get ?n ?spec ?cur (removedNames ?p)"
  obtain hc hw where c: "countCurrent ?cur ?n = (hc, hw)" by (cases "countCurrent ?cur ?n")
  show ?thesis
  proof (cases "\<not> hasChanges ?p \<and> ?rs = []")
    case True
    then have "dr_requiredGates dr = []" unfolding assms dryRunExisting_def Let_def by simp
    then show ?thesis using True by (simp add: applyExisting_def Let_def)
  next
    case False
    then have "set (dr_requiredGates dr) \<subseteq> grantedGates manifest \<longleftrightarrow> gateCheck manifest ?p ?rs hc hw = None"
      unfolding assms using requiredGates_granted [of ?n ?spec w ?get manifest] c by simp
    then show ?thesis using False c by (auto simp: applyExisting_def Let_def split: option.splits)
  qed
qed


text \<open>
  C8. Convergence: when an apply of an existing cluster returns without an error, whichever nodes it had to remove, add or
  recreate, the VMs recorded for the cluster are exactly the nodes of the manifest, and applying the same node lists
  again plans no removal and no addition.  This needs every worker pool that has nodes to be named neither
  \<^verbatim>\<open>cp\<close> nor \<^verbatim>\<open>cp-...\<close>.
\<close>
theorem apply_converges:
  fixes w :: "'a k3s_files_scheme"
  assumes "poolsApart (ParseClusterSpec manifest)" "applyExisting expand vms ssh cdo manifest w = (Inr x, w')"
  shows "let cl = r_name manifest; spec = ParseClusterSpec manifest in
    set (vmNames (childrenOrNone cl w')) = set (allNodeNames cl spec) \<and>
    \<not> hasChanges (computeChangePlan cl spec (childrenOrNone cl w'))"
proof -
  let ?cl = "r_name manifest" and ?spec = "ParseClusterSpec manifest"
  let ?p = "computeChangePlan ?cl ?spec (childrenOrNone ?cl w)"
  have "(w' = w \<and> \<not> hasChanges ?p) \<or> childrenOrNone ?cl w' = keptChildren (childrenOrNone ?cl w) ?p @ addedChildren ?p"
    using assms(2) by (auto simp: applyExisting_def Let_def split: if_splits option.splits prod.splits dest: converge_writes)
  then have "set (vmNames (childrenOrNone ?cl w')) = set (allNodeNames ?cl ?spec)"
    using set_new_children [OF assms(1) refl] no_changes [OF assms(1)] by auto
  then show ?thesis using no_changes [OF assms(1)] by (simp add: Let_def)
qed

text \<open>
  Why the names matter: a worker pool that has nodes and is named \<^verbatim>\<open>cp-...\<close> never settles.  Whatever children
  are recorded, its nodes are planned as additions, and those that are recorded are planned as removals of control planes.
\<close>
theorem cp_named_pool_never_settles:
  assumes "wk \<in> set (nd_workers (cs_nodes spec))" "hasPrefix (poolName wk) ''cp-''" "i < nat (pl_count wk)"
  shows "let n = nodeName cl (poolName wk) i; p = computeChangePlan cl spec current in
    n \<in> set (cp_addWorkers p) \<and>
    (n \<in> set (vmNames current) \<and> n \<notin> set (fst (NodeNames cl spec)) \<longrightarrow> n \<in> set (cp_removeCPs p)) \<and> hasChanges p"
proof -
  let ?n = "nodeName cl (poolName wk) i"
  have n: "?n \<in> set (snd (NodeNames cl spec))" "properCP cl ?n"
    using assms by (force simp: NodeNames_def poolNodes_def, simp)
  then have "?n \<in> set (cp_addWorkers (computeChangePlan cl spec current))" by (simp add: computeChangePlan_def Let_def)
  moreover from this have "hasChanges (computeChangePlan cl spec current)" by (auto simp: hasChanges_def)
  ultimately show ?thesis using n(2) by (simp add: computeChangePlan_def Let_def)
qed

text \<open>
  Recreating a node needs another control plane to join: when none of the recorded control planes would be left beside
  a node that is to be recreated, the recreations end in an error, and what has happened to the world by then is what
  recreating the nodes before it did: the node itself is not destroyed.  The override annotation lets such a plan
  through the guardrails, but it can never be carried out.
\<close>
theorem only_control_plane_not_recreated:
  assumes "Plan manifest = Inr children" "map rn_name respecs = before @ node # after"
    and "survivingCPs (r_name manifest) current removed [node] = []"
  shows "respecNodesViaPlan expand ssh cd manifest spec respecs current removed w =
    (case respecLoop expand ssh cd manifest spec children current removed before [] w of
       (Inl e, w1) \<Rightarrow> (Inl e, w1)
     | (Inr _, w1) \<Rightarrow> (Inl (Wrap (''respec '' @ node) (Plain ''no surviving control plane to join (all removed or excluded)'')), w1))"
  using assms by (auto simp: respecNodesViaPlan_def respecLoop_append survivingControlPlane_def Let_def split: prod.splits sum.splits)



subsection \<open>The example\<close>

text \<open>
  The cluster of \<open>sampleClusterManifest\<close> with one worker too many on record, and a manifest that allows the removal.
\<close>

definition allowing :: "resource \<Rightarrow> resource" where
  "allowing r = r\<lparr>r_metadata := (r_metadata r)\<lparr>md_annotations := [(annotAllowDestructive, ''true'')]\<rparr>\<rparr>"

definition grownFiles :: k3s_files where
  "grownFiles = emptyFiles\<lparr>kf_clusters := [(''dev'', \<lparr>cd_metadata = None, cd_spec = None, cd_status = None,
     cd_children = map vmChildRef [''dev-cp-0'', ''dev-worker-0'', ''dev-worker-1'', ''dev-worker-2'']\<rparr>)]\<rparr>"

definition sampleVMs :: "k3s_files vm_provider" where
  "sampleVMs = \<lparr>vp_get = (\<lambda>kind n w. Inl (NotFoundError kind n)), vp_delete = (\<lambda>kind n w. (Some (Plain ''VM not found''), w)), vp_apply = (\<lambda>r w. (Inr None, w))\<rparr>"

definition sampleSSH :: "k3s_files ssh_ops" where
  "sampleSSH = \<lparr>so_connect = (\<lambda>h u k w. (Some (Plain ''timeout''), w)), so_run = (\<lambda>h c w. (Inl (Plain ''closed''), w)),
     so_plain = (\<lambda>h c w. (Inl (Plain ''closed''), w)), so_upload = (\<lambda>h d f m w. (Some (Plain ''closed''), w))\<rparr>"

lemma allowing_sample [simp]:
  "r_name (allowing sampleClusterManifest) = ''dev''" "ParseClusterSpec (allowing sampleClusterManifest) = ParseClusterSpec sampleClusterManifest"
  "annotated (allowing sampleClusterManifest) annotAllowDestructive" "\<not> annotated (allowing sampleClusterManifest) annotIKnowThisBreaks"
  "r_spec (allowing sampleClusterManifest) = r_spec sampleClusterManifest"
  using sampleClusterManifest_nodes(4) by (simp_all add: allowing_def ParseClusterSpec_def annotated_def strGet_def)

lemma sample_workers: "snd (NodeNames ''dev'' (ParseClusterSpec sampleClusterManifest)) = [''dev-worker-0'', ''dev-worker-1'']"
  using sampleClusterManifest_nodes(1,3) by (simp add: allNodeNames_def)

lemma sample_pools: "map poolName (nd_workers (cs_nodes (ParseClusterSpec sampleClusterManifest))) = [''worker'']"
  using sampleClusterManifest_nodes(2) by (simp add: poolNames_def)

lemma grown_children:
  "childrenOrNone ''dev'' grownFiles = map vmChildRef [''dev-cp-0'', ''dev-worker-0'', ''dev-worker-1'', ''dev-worker-2'']"
  by (simp add: grownFiles_def emptyFiles_def childrenOrNone_def readChildren_def readCluster_def)

lemma grown_plan:
  "computeChangePlan ''dev'' (ParseClusterSpec sampleClusterManifest) (childrenOrNone ''dev'' grownFiles) =
     \<lparr>cp_removeCPs = [], cp_removeWorkers = [''dev-worker-2''], cp_addCPs = [], cp_addWorkers = []\<rparr>"
  unfolding computeChangePlan_def Let_def sampleClusterManifest_nodes(3) sample_workers grown_children vmNames_added
  by (simp add: properCP_def cpPrefix_def)

lemma no_respecs: "computeSpecRespecs (\<lambda>n. vp_get sampleVMs k n w) cl spec cs rm = []"
  by (induction cs) (auto simp: computeSpecRespecs_def respecOf_def sampleVMs_def List.map_filter_def vmNames_def Let_def)

lemma sample_shrink:
  "\<exists>x w'. applyExisting Inr sampleVMs sampleSSH (Some sampleChildDispatcher) (allowing sampleClusterManifest) grownFiles = (Inr (Some x), w') \<and>
     childrenOrNone ''dev'' w' \<noteq> childrenOrNone ''dev'' grownFiles"
proof -
  let ?p = "\<lparr>cp_removeCPs = [], cp_removeWorkers = [''dev-worker-2''], cp_addCPs = [], cp_addWorkers = []\<rparr>"
  let ?cur = "childrenOrNone ''dev'' grownFiles" and ?M = "allowing sampleClusterManifest" and ?spec = "ParseClusterSpec sampleClusterManifest"
  have c: "countCurrent ?cur ''dev'' = (1, 3)" unfolding grown_children countCurrent_def vmNames_added by (simp add: cpPrefix_def)
  have g: "gateCheck ?M ?p [] 1 3 = None"
    unfolding gateCheck_None by (simp add: catastrophicReason_def catastrophicRespecReason_def)
  have a: "applyExisting Inr sampleVMs sampleSSH (Some sampleChildDispatcher) ?M grownFiles = converge Inr sampleSSH sampleChildDispatcher ?M ?spec ?p [] ?cur grownFiles"
    unfolding applyExisting_def Let_def allowing_sample grown_plan no_respecs c by (simp add: hasChanges_def g)
  have "deleteNodeChildren sampleChildDispatcher spec n w = (None, w)" for spec n w
    by (simp add: deleteNodeChildren_def nodeChildren_def sampleChildDispatcher_def)
  then have r: "removeNodes sampleChildDispatcher ?spec [''dev-worker-2''] [] grownFiles = (None, grownFiles)"
    by (simp add: removeNodes_def)
  have e: "evictK8sNode sampleSSH ip spec n w = w" for ip spec n w by (simp add: evictK8sNode_def sampleSSH_def)
  have f: "foldl (\<lambda>w n. w) w ns = w" for w :: k3s_files and ns :: "string list" by (induction ns) simp_all
  have d: "deleteDepartedK8sNodes sampleSSH cl spec ns cs rm w = w" for cl spec ns cs rm w
    by (simp add: deleteDepartedK8sNodes_def e f split: sum.split)
  obtain w5 where rw: "rewriteState ''dev'' (r_spec sampleClusterManifest) (keptChildren ?cur ?p) [] [''dev-worker-2''] grownFiles = (None, w5)"
    and rd: "loadState ''dev'' w5 \<noteq> Inl err" for err
    by (simp add: rewriteState_def readCluster_def grownFiles_def emptyFiles_def Let_def writeCluster_def loadState_def)
  have "converge Inr sampleSSH sampleChildDispatcher ?M ?spec ?p [] ?cur grownFiles = (loadState ''dev'' w5, w5)"
    unfolding converge_def Let_def allowing_sample by (simp add: r d removedNames_def rw)
  moreover obtain x where x: "loadState ''dev'' w5 = Inr x" using rd by (cases "loadState ''dev'' w5") auto
  moreover have "childrenOrNone ''dev'' w5 = keptChildren ?cur ?p" "x \<noteq> None" using loadState_rewritten [OF rw x] by simp_all
  moreover have "keptChildren ?cur ?p \<noteq> ?cur" by (simp add: grown_children keptChildren_def removedNames_def vmChildRef_def)
  ultimately show ?thesis using a by auto
qed

theorem apply_converges_witness:
  "let w' = snd (applyExisting Inr sampleVMs sampleSSH (Some sampleChildDispatcher) (allowing sampleClusterManifest) grownFiles) in
     set (vmNames (childrenOrNone ''dev'' w')) = set [''dev-cp-0'', ''dev-worker-0'', ''dev-worker-1''] \<and>
     set (vmNames (childrenOrNone ''dev'' w')) \<noteq> set (vmNames (childrenOrNone ''dev'' grownFiles))"
proof -
  obtain x w' where run: "applyExisting Inr sampleVMs sampleSSH (Some sampleChildDispatcher) (allowing sampleClusterManifest) grownFiles = (Inr (Some x), w')"
    using sample_shrink by blast
  have "list_all (\<lambda>n. n \<noteq> ''cp'' \<and> \<not> hasPrefix n ''cp-'') (map poolName (nd_workers (cs_nodes (ParseClusterSpec sampleClusterManifest))))"
    unfolding sample_pools by simp
  then have "poolsApart (ParseClusterSpec (allowing sampleClusterManifest))" by (simp add: poolsApart_def list_all_iff)
  from apply_converges [OF this run] have A: "set (vmNames (childrenOrNone ''dev'' w')) = set [''dev-cp-0'', ''dev-worker-0'', ''dev-worker-1'']"
    unfolding allowing_sample Let_def sampleClusterManifest_nodes(1) by (rule conjunct1)
  have B: "''dev-worker-2'' \<in> set (vmNames (childrenOrNone ''dev'' grownFiles))" unfolding grown_children vmNames_added by simp
  have C: "''dev-worker-2'' \<notin> set [''dev-cp-0'', ''dev-worker-0'', ''dev-worker-1'']" by simp
  have "A = S \<and> A \<noteq> B" if "A = S" "x \<in> B" "x \<notin> S" for A B S :: "string set" and x using that by blast
  from this [OF A B C] show ?thesis unfolding run Let_def snd_conv .
qed

theorem dry_run_predicts_gates_witness:
  "\<exists>e. applyExisting Inr sampleVMs sampleSSH (Some sampleChildDispatcher) sampleClusterManifest grownFiles = (Inl e, grownFiles)"
proof -
  let ?dr = "dryRunExisting (\<lambda>n. vp_get sampleVMs ''VirtualMachine'' n grownFiles) ''dev'' (ParseClusterSpec sampleClusterManifest) grownFiles"
  have "GateAllowDestructive \<in> set (dr_requiredGates ?dr)"
    unfolding dryRunExisting_def Let_def grown_plan no_respecs by (simp add: hasChanges_def removesAny_def split: prod.split)
  moreover have "GateAllowDestructive \<notin> grantedGates sampleClusterManifest"
    by (simp add: grantedGates_def annotated_def sampleClusterManifest_def bareResource_def bareMetadata_def strGet_def)
  ultimately show ?thesis
    using dry_run_predicts_gates [where vms = sampleVMs and manifest = sampleClusterManifest and w = grownFiles and expand = Inr
        and ssh = sampleSSH and cd = sampleChildDispatcher, OF refl]
    unfolding Let_def sampleClusterManifest_nodes(4) by blast
qed


theorem cp_named_pool_never_settles_witness:
  "hasChanges (computeChangePlan ''dev'' (sampleCluster\<lparr>cs_nodes := \<lparr>nd_controlPlane = samplePool 1, nd_workers = [sampleWorker ''cp-gpu'' 1]\<rparr>\<rparr>)
     [vmChildRef ''dev-cp-0'', vmChildRef ''dev-cp-gpu-0''])"
  using cp_named_pool_never_settles [of "sampleWorker ''cp-gpu'' 1"
      "sampleCluster\<lparr>cs_nodes := \<lparr>nd_controlPlane = samplePool 1, nd_workers = [sampleWorker ''cp-gpu'' 1]\<rparr>\<rparr>" 0 "''dev''"
      "[vmChildRef ''dev-cp-0'', vmChildRef ''dev-cp-gpu-0'']"]
  by (simp add: Let_def poolName_def sample_defs)

theorem only_control_plane_not_recreated_witness:
  "\<exists>e. respecNodesViaPlan Inr sampleSSH sampleChildDispatcher sampleClusterManifest (ParseClusterSpec sampleClusterManifest)
     [\<lparr>rn_name = ''dev-cp-0'', rn_isCP = True, rn_desiredCPUs = 4, rn_desiredMemMB = 4096, rn_observedCPUs = 2, rn_observedMemMB = 4096\<rparr>]
     (childrenOrNone ''dev'' grownFiles) [] grownFiles = (Inl e, grownFiles)"
proof -
  have "survivingCPs ''dev'' (childrenOrNone ''dev'' grownFiles) [] [''dev-cp-0''] = []"
    unfolding survivingCPs_def grown_children vmNames_added by (simp add: cpPrefix_def)
  then show ?thesis
    using only_control_plane_not_recreated [OF sampleClusterManifest_plan, where w = grownFiles and expand = Inr and ssh = sampleSSH
        and cd = sampleChildDispatcher and spec = "ParseClusterSpec sampleClusterManifest", of
        "[\<lparr>rn_name = ''dev-cp-0'', rn_isCP = True, rn_desiredCPUs = 4, rn_desiredMemMB = 4096, rn_observedCPUs = 2, rn_observedMemMB = 4096\<rparr>]"
        "[]" "''dev-cp-0''" "[]" "childrenOrNone ''dev'' grownFiles" "[]"] sampleClusterManifest_nodes(4) by simp
qed


end
