(* ===== verification/ClusterPaths.thy ===== *)
theory ClusterPaths
  imports Convergence
begin

text \<open>
  The two ways to create a cluster against each other: through the plan and the child dispatcher (K3sPlan), and
  imperatively (K3sCreate).  The VM specs they emit, the case in which the imperative way panics, and where each
  leaves the kubeconfig.
\<close>

subsection \<open>Edits of a spec that do not interfere\<close>

text \<open>
  An edit of an object is local to a set of keys when it leaves the other keys alone and what it writes depends on
  these keys only.  Edits that are local to disjoint sets commute, up to the order of the keys.
\<close>

locale local_edit =
  fixes edit :: "obj \<Rightarrow> obj" and keys :: "string set"
  assumes frame: "k \<notin> keys \<Longrightarrow> map_of (edit m) k = map_of m k"
    and local: "\<forall>j \<in> keys. map_of m j = map_of m' j \<Longrightarrow> k \<in> keys \<Longrightarrow> map_of (edit m) k = map_of (edit m') k"
begin

lemma edit_cong:
  assumes "map_of m = map_of m'"
  shows "map_of (edit m) = map_of (edit m')"
proof
  fix k show "map_of (edit m) k = map_of (edit m') k"
    using assms frame [of k m] frame [of k m'] local [of m m' k] by (cases "k \<in> keys") auto
qed

end

locale two_edits = a: local_edit f K + b: local_edit g L for f K g L +
  assumes disjoint: "K \<inter> L = {}"
begin

lemma commute: "map_of (f (g m)) = map_of (g (f m))"
proof
  fix k
  have fg: "map_of (g m) j = map_of m j" if "j \<in> K" for j using b.frame disjoint that by blast
  have gf: "map_of (f m) j = map_of m j" if "j \<in> L" for j using a.frame disjoint that by blast
  consider "k \<in> K" "k \<notin> L" | "k \<in> L" "k \<notin> K" | "k \<notin> K" "k \<notin> L" using disjoint by blast
  then show "map_of (f (g m)) k = map_of (g (f m)) k"
  proof cases
    case 1
    then show ?thesis using a.local [of "g m" m k] fg b.frame [of k "f m"] by simp
  next
    case 2
    then show ?thesis using b.local [of "f m" m k] gf a.frame [of k "g m"] by simp
  next
    case 3
    then show ?thesis by (simp add: a.frame b.frame)
  qed
qed

end

lemma objField_cong: "map_of m k = map_of m' k \<Longrightarrow> objField m k = objField m' k"
  by (simp add: objField_def objGet_def)

lemma put_cong: "map_of m k = map_of m' k \<Longrightarrow> map_of (putKey m j v) k = map_of (putKey m' j v) k"
  by simp

interpretation placement: local_edit "withPlacement target" "{''context'', ''node''}" for target
  by unfold_locales (auto simp: withPlacement_def Let_def)

interpretation image: local_edit "withImage im" "{''cloudImage'', ''template''}" for im
  by unfold_locales (auto simp: withImage_def Let_def)

interpretation prep: local_edit "\<lambda>m. ApplyNodePrepToVMSpec m np" "{''cloudInit''}" for np
proof unfold_locales
  fix m m' :: obj and k assume "\<forall>j \<in> {''cloudInit''}. map_of m j = map_of m' j" "k \<in> {''cloudInit''}"
  then have c: "map_of m ''cloudInit'' = map_of m' ''cloudInit''" and "k = ''cloudInit''" by simp_all
  then show "map_of (ApplyNodePrepToVMSpec m np) k = map_of (ApplyNodePrepToVMSpec m' np) k"
    using objField_cong [OF c] by (simp add: ApplyNodePrepToVMSpec_def Let_def split: option.split)
qed (simp add: ApplyNodePrepToVMSpec_def Let_def split: option.split)

interpretation gpu: local_edit "\<lambda>m. ApplyGPUToVMSpec m g" "{''machine'', ''bios'', ''cpu'', ''efiDisk'', ''hostPCI''}" for g
proof unfold_locales
  let ?K = "{''machine'', ''bios'', ''cpu'', ''efiDisk'', ''hostPCI''}"
  fix m m' :: obj and k assume eq: "\<forall>j \<in> ?K. map_of m j = map_of m' j" and k: "k \<in> ?K"
  have f: "objField (putKey (putKey n ''machine'' u) ''bios'' v) ''cpu'' = objField n ''cpu''" for n u v by (rule objField_cong) simp
  have "map_of m ''cpu'' = map_of m' ''cpu''" using eq by simp
  then have "objField m ''cpu'' = objField m' ''cpu''" by (rule objField_cong)
  moreover have "map_of m k = map_of m' k" by (rule bspec [OF eq k])
  ultimately show "map_of (ApplyGPUToVMSpec m g) k = map_of (ApplyGPUToVMSpec m' g) k"
    by (cases g) (auto simp: ApplyGPUToVMSpec_def Let_def f simp del: map_of_putKey intro!: put_cong)
qed (simp add: ApplyGPUToVMSpec_def Let_def split: option.split)

interpretation placement_gpu: two_edits "withPlacement target" "{''context'', ''node''}"
    "\<lambda>m. ApplyGPUToVMSpec m g" "{''machine'', ''bios'', ''cpu'', ''efiDisk'', ''hostPCI''}" for target g
  by unfold_locales simp

interpretation placement_prep: two_edits "withPlacement target" "{''context'', ''node''}" "\<lambda>m. ApplyNodePrepToVMSpec m np" "{''cloudInit''}" for target np
  by unfold_locales simp

interpretation image_gpu: two_edits "withImage im" "{''cloudImage'', ''template''}"
    "\<lambda>m. ApplyGPUToVMSpec m g" "{''machine'', ''bios'', ''cpu'', ''efiDisk'', ''hostPCI''}" for im g
  by unfold_locales simp

interpretation image_prep: two_edits "withImage im" "{''cloudImage'', ''template''}" "\<lambda>m. ApplyNodePrepToVMSpec m np" "{''cloudInit''}" for im np
  by unfold_locales simp

lemma edits_commute:
  "map_of (ApplyNodePrepToVMSpec (ApplyGPUToVMSpec (withImage im (withPlacement target m)) g) np) =
   map_of (withImage im (withPlacement target (ApplyNodePrepToVMSpec (ApplyGPUToVMSpec m g) np)))"
proof -
  let ?n = "\<lambda>m. ApplyNodePrepToVMSpec m np" and ?g = "\<lambda>m. ApplyGPUToVMSpec m g" and ?p = "withPlacement target" and ?i = "withImage im"
  have "map_of (?g (?i (?p m))) = map_of (?i (?p (?g m)))"
    using image_gpu.commute [of im "?p m" g] image.edit_cong [OF placement_gpu.commute [of target m g]] by simp
  then have "map_of (?n (?g (?i (?p m)))) = map_of (?n (?i (?p (?g m))))" by (rule prep.edit_cong)
  also have "\<dots> = map_of (?i (?n (?p (?g m))))" by (rule image_prep.commute [symmetric])
  also have "\<dots> = map_of (?i (?p (?n (?g m))))" by (rule image.edit_cong) (rule placement_prep.commute [symmetric])
  finally show ?thesis .
qed

subsection \<open>One VM of the imperative path\<close>

text \<open>The same VM up to the order of the keys of its spec; the plan adds the owner's labels.\<close>

definition sameVM :: "string \<Rightarrow> resource \<Rightarrow> resource \<Rightarrow> bool" where
  "sameVM cl vm pvm \<longleftrightarrow> r_apiVersion vm = r_apiVersion pvm \<and> r_kind vm = r_kind pvm \<and> r_name vm = r_name pvm \<and>
     md_labels (r_metadata pvm) = md_labels (r_metadata vm) @ ownerLabels cl \<and>
     (case (r_spec vm, r_spec pvm) of (Some a, Some b) \<Rightarrow> map_of a = map_of b | _ \<Rightarrow> False)"

lemma creatorVM_same:
  assumes "nw_perContext (cs_network spec) = []" "im_storage (cm_image (cs_compute spec)) \<noteq> [] \<or> cfg = []"
    and "creatorVM cl cfg spec (int (length cps)) (int i, node) = Inr vm"
  shows "sameVM cl vm (vmChild cl spec cps i node)" "r_name vm = node"
proof -
  let ?ip = "strGet (creatorIPs cl spec) node" and ?t = "placementOf (PlacementTargets cl spec) node"
  have ip: "strGet (planIPs cl spec) node = ?ip" by (simp add: planIPs_def creatorIPs_def split: sum.split)
  obtain ipc where ipc: "creatorIpConfig ?ip spec = Inr ipc" using assms(3) by (cases "creatorIpConfig ?ip spec") (auto simp: creatorVM_def)
  have im: "creatorImage cfg (cm_image (cs_compute spec)) = cm_image (cs_compute spec)"
    using assms(2) by (auto simp: creatorImage_def)
  have "ipc = vmIpConfig ?ip spec" using ipc by (auto simp: creatorIpConfig_def vmIpConfig_def split: option.splits if_splits)
  then have base: "creatorBaseSpec sz ipc spec = vmBaseSpec sz ?ip ?t spec" for sz
    using assms(1) by (simp add: creatorBaseSpec_def vmBaseSpec_def BridgeForContext_def)
  show "sameVM cl vm (vmChild cl spec cps i node)" "r_name vm = node" using assms(3) ipc
    by (auto simp: sameVM_def vmChild_def ip creatorVM_def buildVMManifest_def Let_def base im edits_commute nodeRole_def roleForIndex_def bareMetadata_def)
qed

lemma allOk_all2: "allOk f xs = Inr ys \<longleftrightarrow> list_all2 (\<lambda>x y. f x = Inr y) xs ys"
proof (induction xs arbitrary: ys)
  case (Cons x xs)
  show ?case
  proof (cases "f x")
    case (Inr y)
    then show ?thesis using Cons.IH by (cases "allOk f xs") (auto simp: list_all2_Cons1)
  qed (auto simp: list_all2_Cons1)
qed auto

lemma allOk_total: "(\<And>x. \<exists>y. f x = Inr y) \<Longrightarrow> \<exists>ys. allOk f xs = Inr ys"
proof (induction xs)
  case (Cons x xs)
  then obtain y ys where "f x = Inr y" "allOk f xs = Inr ys" by blast
  then show ?case by simp
qed simp

lemma requests_with_static_ips:
  assumes "nw_staticIPs (cs_network spec) = Some st"
  shows "\<exists>reqs. GenerateDispatchRequests cl cfg spec = Inr reqs"
proof -
  have "\<exists>vm. creatorVM cl cfg spec n x = Inr vm" for n x using assms by (cases x) (simp add: creatorVM_def creatorIpConfig_def Let_def)
  then obtain vms where "allOk (creatorVM cl cfg spec (int (length (fst (NodeNames cl spec))))) (indexedNodes cl spec) = Inr vms"
    using allOk_total [of "creatorVM cl cfg spec (int (length (fst (NodeNames cl spec))))"] by meson
  then show ?thesis by (simp add: GenerateDispatchRequests_def)
qed

lemma allOk_fails:
  "x \<in> set xs \<Longrightarrow> f x = Inl E \<Longrightarrow> (\<And>y e. f y = Inl e \<Longrightarrow> e = E) \<Longrightarrow> allOk f xs = Inl E"
proof (induction xs)
  case Nil
  from Nil.prems(1) show ?case by simp
next
  case (Cons y ys)
  show ?case
  proof (cases "f y")
    case (Inl e)
    have "e = E" by (rule Cons.prems(3) [OF Inl])
    then show ?thesis by (simp add: Inl)
  next
    case (Inr z)
    then have "x \<in> set ys" using Cons.prems(1,2) by auto
    then have "allOk f ys = Inl E" using Cons.prems(2,3) by (rule Cons.IH)
    then show ?thesis by (simp add: Inr)
  qed
qed

text \<open>Addresses per context without a common range: the imperative path panics as soon as one node has an address.\<close>

lemma creator_panics_per_context:
  assumes "nw_staticIPs (cs_network spec) = None" "node \<in> set (allNodeNames cl spec)" "strGet (creatorIPs cl spec) node \<noteq> []"
  shows "GenerateDispatchRequests cl cfg spec = Inl NilDeref"
proof -
  let ?f = "creatorVM cl cfg spec (int (length (fst (NodeNames cl spec))))"
  obtain i where "i < length (allNodeNames cl spec)" "allNodeNames cl spec ! i = node" using assms(2) unfolding in_set_conv_nth by blast
  then have "(i, node) \<in> set (enumerate 0 (allNodeNames cl spec))" by (simp add: in_set_enumerate_eq)
  then have "(int i, node) \<in> set (indexedNodes cl spec)" by (force simp: indexedNodes_def)
  moreover have "?f (int i, node) = Inl NilDeref" using assms(1,3) by (simp add: creatorVM_def creatorIpConfig_def)
  moreover have "e = NilDeref" if "?f y = Inl e" for y e
    using that assms(1) by (cases y) (auto simp: creatorVM_def creatorIpConfig_def Let_def split: if_splits)
  ultimately show ?thesis using allOk_fails [of "(int i, node)" "indexedNodes cl spec" ?f NilDeref] by (simp add: GenerateDispatchRequests_def)
qed

subsection \<open>Properties\<close>





end
