(* ===== verification/VmConfig.thy ===== *)
theory VmConfig
  imports K3sUpgrade
begin

text \<open>
  The texts in which Proxmox keeps the devices of a VM: what pkg/proxmox/resources/vm.go writes into the slots of the
  networks, the passed-through devices and the addresses, what vm_observation.go reads back from them, the options of a
  disk that pkg/proxmox/client/client.go merges into its slot (MergeDiskOptions, SetDiskOptions), and the in-place
  changes of pkg/proxmox/handler/resize.go.  The HTTP calls of the client are a record of functions over the world.
\<close>

record 'w pve_client =
  pv_configure :: "string \<Rightarrow> int \<Rightarrow> obj \<Rightarrow> 'w \<Rightarrow> err option \<times> 'w"
  pv_raw :: "string \<Rightarrow> int \<Rightarrow> 'w \<Rightarrow> err + obj option"
  pv_resize :: "string \<Rightarrow> int \<Rightarrow> string \<Rightarrow> string \<Rightarrow> 'w \<Rightarrow> err option \<times> 'w"

record pve_vm =
  pm_name :: string
  pm_node :: string
  pm_vmid :: int

subsection \<open>Slots as they are written (vm.go)\<close>

record net_spec =
  nt_name :: string
  nt_bridge :: string
  nt_model :: string
  nt_vlan :: int
  nt_firewall :: bool
  nt_mac :: string

definition netConfig :: "net_spec \<Rightarrow> string" where
  "netConfig n =
     (let model = (if nt_model n = [] then ''virtio'' else nt_model n);
          hd1 = (if nt_mac n \<noteq> [] then model @ ''='' @ nt_mac n else model)
      in hd1 @ '',bridge='' @ nt_bridge n @ (if nt_vlan n > 0 then '',tag='' @ showInt (nt_vlan n) else [])
         @ (if nt_firewall n then '',firewall=1'' else []))"

record host_pci_spec =
  hp_device :: string
  hp_mapping :: string
  hp_pcie :: bool
  hp_primaryGPU :: bool
  hp_rombar :: "bool option"
  hp_mdev :: string
  hp_romfile :: string

definition pciConfigString :: "host_pci_spec \<Rightarrow> string" where
  "pciConfigString h =
     joinWith '','' ([if hp_mapping h \<noteq> [] then ''mapping='' @ hp_mapping h else hp_device h]
       @ (if hp_pcie h then [''pcie=1''] else []) @ (if hp_primaryGPU h then [''x-vga=1''] else [])
       @ (if hp_rombar h = Some False then [''rombar=0''] else [])
       @ (if hp_mdev h \<noteq> [] then [''mdev='' @ hp_mdev h] else []) @ (if hp_romfile h \<noteq> [] then [''romfile='' @ hp_romfile h] else []))"

text \<open>An address of the cloud-init block; without one no slot is written.\<close>

definition ipConfigText :: "string \<Rightarrow> string \<Rightarrow> string option" where
  "ipConfigText ip gateway =
     (if ip = ''dhcp'' then Some ''ip=dhcp''
      else if ip \<noteq> [] then Some (''ip='' @ ip @ (if gateway \<noteq> [] then '',gw='' @ gateway else []))
      else None)"

subsection \<open>Slots as they are read (vm_observation.go)\<close>

text \<open>The maps that the code builds for a network and for a device are records of the same fields here.\<close>

definition putPair :: "strmap \<Rightarrow> string \<Rightarrow> strmap" where
  "putPair m part = (case cutAt CHR ''='' part of Some (k, v) \<Rightarrow> putKey m k v | None \<Rightarrow> m)"

definition headOf :: "string \<Rightarrow> string" where
  "headOf v = (case cutAt CHR '','' v of Some (a, _) \<Rightarrow> a | None \<Rightarrow> v)"

definition configParts :: "string \<Rightarrow> string \<times> strmap" where
  "configParts v = (headOf v, foldl putPair [] (splitOn CHR '','' v))"

definition configFlag :: "string \<Rightarrow> bool \<Rightarrow> bool" where
  "configFlag v fallback =
     (if v = [] then fallback
      else (case List.map_filter (\<lambda>p. cutPrefix p ''enabled='') (splitOn CHR '','' v) of e # _ \<Rightarrow> e | [] \<Rightarrow> headOf v)
        \<in> {''1'', ''on'', ''yes'', ''true''})"

text \<open>\<^verbatim>\<open>n, _ := strconv.Atoi(s)\<close>: zero for text that is no number, the nearest int for one out of range.\<close>

definition atoiIgnored :: "string \<Rightarrow> int" where
  "atoiIgnored s =
     (let body = (case s of c # t \<Rightarrow> if c = CHR ''+'' \<or> c = CHR ''-'' then t else s | [] \<Rightarrow> []);
          v = (if hasPrefix s ''-'' then - int (numOf body) else int (numOf body))
      in if body = [] \<or> \<not> list_all isDigitChar body then 0 else max (- (2 ^ 63)) (min (2 ^ 63 - 1) v))"

definition observedNet :: "string \<Rightarrow> string \<Rightarrow> net_spec" where
  "observedNet key slot =
     (case configParts slot of (h, opts) \<Rightarrow>
        (case (case cutAt CHR ''='' h of Some (a, b) \<Rightarrow> (a, b) | None \<Rightarrow> (h, [])) of (model, mac) \<Rightarrow>
           \<lparr>nt_name = key, nt_bridge = strGet opts ''bridge'', nt_model = model, nt_vlan = atoiIgnored (strGet opts ''tag''),
             nt_firewall = configFlag (strGet opts ''firewall'') False, nt_mac = mac\<rparr>))"

definition observedPci :: "string \<Rightarrow> host_pci_spec" where
  "observedPci slot =
     (case configParts slot of (h, opts) \<Rightarrow>
        \<lparr>hp_device = (if contains h ''='' then strGet opts ''host'' else h), hp_mapping = strGet opts ''mapping'',
          hp_pcie = configFlag (strGet opts ''pcie'') False, hp_primaryGPU = configFlag (strGet opts ''x-vga'') False,
          hp_rombar = Some (configFlag (strGet opts ''rombar'') True), hp_mdev = strGet opts ''mdev'', hp_romfile = strGet opts ''romfile''\<rparr>)"

definition observedIp :: "string \<Rightarrow> string \<times> string" where
  "observedIp slot = (case configParts slot of (_, opts) \<Rightarrow> (strGet opts ''ip'', strGet opts ''gw''))"

subsection \<open>The options of a disk (vm.go, client.go)\<close>

record disk_spec =
  dk_name :: string
  dk_storage :: string
  dk_size :: string
  dk_ssd :: bool
  dk_discard :: bool
  dk_iothread :: bool
  dk_backup :: "bool option"
  dk_cache :: string

definition diskOptions :: "disk_spec \<Rightarrow> strmap" where
  "diskOptions d =
     (if dk_ssd d then [(''ssd'', ''1'')] else []) @ (if dk_discard d then [(''discard'', ''on'')] else [])
     @ (if dk_iothread d then [(''iothread'', ''1'')] else [])
     @ (case dk_backup d of None \<Rightarrow> [] | Some b \<Rightarrow> [(''backup'', if b then ''1'' else ''0'')])
     @ (if dk_cache d \<noteq> [] then [(''cache'', dk_cache d)] else [])"

definition slotOptions :: "string \<Rightarrow> strmap" where
  "slotOptions s = foldl putPair [] (tl (splitOn CHR '','' s))"

definition mapsCopy :: "strmap \<Rightarrow> strmap \<Rightarrow> strmap" where
  "mapsCopy dst src = foldl (\<lambda>m (k, v). putKey m k v) dst src"

definition MergeDiskOptions :: "string \<Rightarrow> strmap \<Rightarrow> string" where
  "MergeDiskOptions existing overrides =
     (let merged = mapsCopy (slotOptions existing) overrides
      in joinWith '','' (hd (splitOn CHR '','' existing) # map (\<lambda>k. k @ ''='' @ strGet merged k) (sort (map fst merged))))"

definition SetDiskOptions :: "'w pve_client \<Rightarrow> string \<Rightarrow> int \<Rightarrow> string \<Rightarrow> strmap \<Rightarrow> 'w \<Rightarrow> err option \<times> 'w" where
  "SetDiskOptions c node vmid disk opts w =
     (if opts = [] then (None, w)
      else (case pv_raw c node vmid w of
              Inl e \<Rightarrow> (Some (Wrap (''read VM '' @ showInt vmid @ '' config'') e), w)
            | Inr cfg \<Rightarrow>
                (case objGet (case cfg of Some m \<Rightarrow> m | None \<Rightarrow> []) disk of
                   VStr raw \<Rightarrow>
                     if raw = [] then (Some (Plain (''disk '' @ goQuote disk @ '' not found in VM '' @ showInt vmid @ '' config'')), w)
                     else let merged = MergeDiskOptions raw opts in
                       if merged = raw then (None, w) else pv_configure c node vmid [(disk, VStr merged)] w
                 | _ \<Rightarrow> (Some (Plain (''disk '' @ goQuote disk @ '' not found in VM '' @ showInt vmid @ '' config'')), w))))"

subsection \<open>Changes in place (resize.go)\<close>

definition parseProxmoxSize :: "string \<Rightarrow> err + int" where
  "parseProxmoxSize s0 =
     (let s = trimSpace s0 in
      if s = [] then Inl (Plain ''empty size'')
      else
        (let c = last s;
             (factor, ds) = (if c = CHR ''T'' \<or> c = CHR ''t'' then (2 ^ 40, butlast s)
                           else if c = CHR ''G'' \<or> c = CHR ''g'' then (2 ^ 30, butlast s)
                           else if c = CHR ''M'' \<or> c = CHR ''m'' then (2 ^ 20, butlast s)
                           else if c = CHR ''K'' \<or> c = CHR ''k'' then (2 ^ 10, butlast s)
                           else (1, s))
         in (case atoi (trimSpace ds) of
               None \<Rightarrow> Inl (Plain (''invalid size '' @ goQuote s))
             | Some n \<Rightarrow> if n < 0 then Inl (Plain (''negative size '' @ goQuote s)) else Inr (wrap64 (n * factor)))))"

fun sizeOfParts :: "string list \<Rightarrow> int option" where
  "sizeOfParts [] = None"
| "sizeOfParts (p # ps) =
     (case cutPrefix p ''size='' of
        Some a \<Rightarrow> (case parseProxmoxSize a of Inr n \<Rightarrow> Some n | Inl _ \<Rightarrow> None)
      | None \<Rightarrow> sizeOfParts ps)"

definition currentDiskSize :: "obj option \<Rightarrow> string \<Rightarrow> int option" where
  "currentDiskSize raw disk =
     (case objGet (case raw of Some m \<Rightarrow> m | None \<Rightarrow> []) disk of VStr line \<Rightarrow> sizeOfParts (splitOn CHR '','' line) | _ \<Rightarrow> None)"

definition humanizeBytes :: "int \<Rightarrow> string" where
  "humanizeBytes n =
     (if n \<ge> 2 ^ 40 then showInt (n div 2 ^ 40) @ ''T''
      else if n \<ge> 2 ^ 30 then showInt (n div 2 ^ 30) @ ''G''
      else if n \<ge> 2 ^ 20 then showInt (n div 2 ^ 20) @ ''M''
      else showInt n @ ''B'')"

definition cannotShrink :: "disk_spec \<Rightarrow> int \<Rightarrow> err" where
  "cannotShrink d cur =
     Plain (''disk '' @ dk_name d @ '': cannot shrink from '' @ humanizeBytes cur @ '' to '' @ dk_size d @ '' '' @ map char_of [226 :: nat, 128, 148]
       @ '' Proxmox does not support shrinking a disk; delete + re-apply to resize down'')"

text \<open>The configuration is read when the first disk with a size is reached and kept for the disks after it.\<close>

fun resizeLoop :: "'w pve_client \<Rightarrow> pve_vm \<Rightarrow> disk_spec list \<Rightarrow> obj option \<Rightarrow> 'w \<Rightarrow> err option \<times> 'w" where
  "resizeLoop c vm [] raw w = (None, w)"
| "resizeLoop c vm (d # ds) raw w =
     (if dk_size d = [] then resizeLoop c vm ds raw w
      else
        (case parseProxmoxSize (dk_size d) of
           Inl e \<Rightarrow> (Some (Wrap (''disk '' @ dk_name d) e), w)
         | Inr desired \<Rightarrow>
             (case (if raw = None then pv_raw c (pm_node vm) (pm_vmid vm) w else Inr raw) of
                Inl e \<Rightarrow> (Some (Wrap (''read VM '' @ goQuote (pm_name vm) @ '' config for disk resize'') e), w)
              | Inr raw1 \<Rightarrow>
                  let cur = currentDiskSize raw1 (dk_name d) in
                  if cur = Some desired then resizeLoop c vm ds raw1 w
                  else if (case cur of Some n \<Rightarrow> desired < n | None \<Rightarrow> False) then (Some (cannotShrink d (the cur)), w)
                  else
                    (case pv_resize c (pm_node vm) (pm_vmid vm) (dk_name d) (dk_size d) w of
                       (Some e, w1) \<Rightarrow> (Some (Wrap (''grow disk '' @ dk_name d @ '' on VM '' @ goQuote (pm_name vm)) e), w1)
                     | (None, w1) \<Rightarrow> resizeLoop c vm ds raw1 w1))))"

definition resizeDisks :: "'w pve_client \<Rightarrow> pve_vm \<Rightarrow> disk_spec list \<Rightarrow> 'w \<Rightarrow> err option \<times> 'w" where
  "resizeDisks c vm disks w = resizeLoop c vm disks None w"

text \<open>The fields of a VM spec that are changed in place: memory, cores and sockets, disks.\<close>

record vm_live_spec =
  vl_memory :: "int option"
  vl_cpu :: "(int \<times> int) option"
  vl_disks :: "disk_spec list"

definition liveParams :: "vm_live_spec \<Rightarrow> obj" where
  "liveParams s =
     (case vl_memory s of Some m \<Rightarrow> if m > 0 then [(''memory'', VInt m)] else [] | None \<Rightarrow> [])
     @ (case vl_cpu s of
          Some (cores, sockets) \<Rightarrow> (if cores > 0 then [(''cores'', VInt cores)] else []) @ (if sockets > 0 then [(''sockets'', VInt sockets)] else [])
        | None \<Rightarrow> [])"

definition resizeVM :: "'w pve_client \<Rightarrow> pve_vm \<Rightarrow> vm_live_spec \<Rightarrow> 'w \<Rightarrow> err option \<times> 'w" where
  "resizeVM c vm s w =
     (case (if liveParams s \<noteq> [] then pv_configure c (pm_node vm) (pm_vmid vm) (liveParams s) w else (None, w)) of
        (Some e, w1) \<Rightarrow> (Some (Wrap (''update VM '' @ goQuote (pm_name vm) @ '' config'') e), w1)
      | (None, w1) \<Rightarrow> resizeDisks c vm (vl_disks s) w1)"

subsection \<open>Reading slots\<close>

lemma putPair_kv: "CHR ''='' \<notin> set k \<Longrightarrow> putPair m (k @ CHR ''='' # v) = putKey m k v"
  by (simp add: putPair_def cutAt_append)

lemma headOf_split: "headOf v = hd (splitOn CHR '','' v)"
proof (cases "cutAt CHR '','' v")
  case None
  then have "CHR '','' \<notin> set v" using cutAt_None [of "CHR '',''" v] by simp
  then show ?thesis by (simp add: headOf_def None splitOn_no_sep)
next
  case (Some ab)
  then obtain a b where ab: "cutAt CHR '','' v = Some (a, b)" by (cases ab) auto
  then show ?thesis using cutAt_Some [OF ab] by (simp add: headOf_def splitOn_append_sep)
qed

lemma configParts_join:
  "parts \<noteq> [] \<Longrightarrow> \<forall>p \<in> set parts. CHR '','' \<notin> set p \<Longrightarrow> configParts (joinWith '','' parts) = (hd parts, foldl putPair [] parts)"
  by (simp add: configParts_def headOf_split split_join)

lemma configFlag_simps [simp]: "configFlag [] b = b" "configFlag ''1'' b" "\<not> configFlag ''0'' b"
  by (simp_all add: configFlag_def headOf_def cutPrefix_def List.map_filter_simps)

lemma showInt_pos: "v > 0 \<Longrightarrow> showInt v = digits (nat v)"
  by (simp add: showInt_def)

lemma digits_signless: "digits n = c # t \<Longrightarrow> c \<noteq> CHR ''+'' \<and> c \<noteq> CHR ''-''"
  using digits_head [of n c t] by (auto simp: isDigitChar_def)

lemma atoiIgnored_digits: "int n < 2 ^ 63 \<Longrightarrow> atoiIgnored (digits n) = int n"
proof -
  assume n: "int n < 2 ^ 63"
  obtain c t where d: "digits n = c # t" by (cases "digits n") auto
  have "list_all isDigitChar (c # t)" using digits_digit [of _ n] unfolding d by (auto simp: list_all_iff)
  moreover have "numOf (c # t) = n" using numOf_digits [of n] unfolding d .
  moreover have "c \<noteq> CHR ''+''" "c \<noteq> CHR ''-''" using digits_signless [OF d] by simp_all
  ultimately show ?thesis using n unfolding d by (simp add: atoiIgnored_def)
qed

lemma comma_not_digit: "CHR '','' \<notin> set (digits n)"
  using digits_digit [of "CHR '',''" n] by (auto simp: isDigitChar_def)

definition plainText :: "string \<Rightarrow> bool" where
  "plainText s \<longleftrightarrow> CHR '','' \<notin> set s"

definition netPlain :: "net_spec \<Rightarrow> bool" where
  "netPlain n \<longleftrightarrow> plainText (nt_model n) \<and> plainText (nt_mac n) \<and> plainText (nt_bridge n) \<and> CHR ''='' \<notin> set (nt_model n) \<and>
     nt_model n \<notin> {''bridge'', ''tag'', ''firewall''} \<and> nt_vlan n < 2 ^ 63"

definition pciPlain :: "host_pci_spec \<Rightarrow> bool" where
  "pciPlain h \<longleftrightarrow> plainText (hp_device h) \<and> CHR ''='' \<notin> set (hp_device h) \<and> plainText (hp_mapping h) \<and> plainText (hp_mdev h) \<and> plainText (hp_romfile h)"

definition netParts :: "net_spec \<Rightarrow> string list" where
  "netParts n =
     (let model = (if nt_model n = [] then ''virtio'' else nt_model n)
      in [if nt_mac n \<noteq> [] then model @ CHR ''='' # nt_mac n else model, ''bridge='' @ nt_bridge n]
         @ (if nt_vlan n > 0 then [''tag='' @ showInt (nt_vlan n)] else []) @ (if nt_firewall n then [''firewall=1''] else []))"

lemma netConfig_parts: "netConfig n = joinWith '','' (netParts n)"
  by (simp add: netConfig_def netParts_def Let_def)

lemma observedNet_netConfig:
  assumes "netPlain n"
  shows "observedNet (nt_name n) (netConfig n) =
    n\<lparr>nt_model := (if nt_model n = [] then ''virtio'' else nt_model n), nt_vlan := max 0 (nt_vlan n)\<rparr>"
proof -
  let ?m = "if nt_model n = [] then ''virtio'' else nt_model n"
  have m: "CHR ''='' \<notin> set ?m" "CHR '','' \<notin> set ?m" "?m \<noteq> ''bridge''" "?m \<noteq> ''tag''" "?m \<noteq> ''firewall''"
    using assms by (simp_all add: netPlain_def plainText_def)
  have c: "configParts (netConfig n) = (hd (netParts n), foldl putPair [] (netParts n))"
    unfolding netConfig_parts using assms m(2) comma_not_digit
    by (intro configParts_join) (auto simp: netParts_def Let_def netPlain_def plainText_def showInt_pos)
  have cut: "cutAt CHR ''='' ?m = None" using m(1) by (simp only: cutAt_None not_False_eq_True)
  have hd: "(case cutAt CHR ''='' (hd (netParts n)) of Some (a, b) \<Rightarrow> (a, b) | None \<Rightarrow> (hd (netParts n), [])) = (?m, nt_mac n)"
    using cut cutAt_append [OF m(1)] by (auto simp: netParts_def Let_def)
  have put: "putPair [] (hd (netParts n)) = (if nt_mac n = [] then [] else [(?m, nt_mac n)])"
    using putPair_kv [OF m(1)] cut by (auto simp: netParts_def Let_def putPair_def)
  have vl: "nt_vlan n > 0 \<Longrightarrow> atoiIgnored (showInt (nt_vlan n)) = nt_vlan n"
    using assms atoiIgnored_digits [of "nat (nt_vlan n)"] by (simp add: showInt_pos netPlain_def)
  have at: "atoiIgnored [] = 0" by (simp add: atoiIgnored_def)
  have o: "strGet (foldl putPair [] (netParts n)) ''bridge'' = nt_bridge n"
    "strGet (foldl putPair [] (netParts n)) ''tag'' = (if nt_vlan n > 0 then showInt (nt_vlan n) else [])"
    "strGet (foldl putPair [] (netParts n)) ''firewall'' = (if nt_firewall n then ''1'' else [])"
  proof -
    have f: "foldl putPair [] (netParts n) = foldl putPair (putPair [] (hd (netParts n))) (tl (netParts n))" by (simp add: netParts_def Let_def)
    show "strGet (foldl putPair [] (netParts n)) ''bridge'' = nt_bridge n"
      "strGet (foldl putPair [] (netParts n)) ''tag'' = (if nt_vlan n > 0 then showInt (nt_vlan n) else [])"
      "strGet (foldl putPair [] (netParts n)) ''firewall'' = (if nt_firewall n then ''1'' else [])"
      unfolding f put using m(3-5) by (auto simp: netParts_def Let_def putPair_def strGet_def)
  qed
  show ?thesis unfolding observedNet_def c prod.case hd o using vl at by (cases "nt_vlan n > 0") simp_all
qed

definition pciParts :: "host_pci_spec \<Rightarrow> string list" where
  "pciParts h =
     (if hp_pcie h then [''pcie=1''] else []) @ (if hp_primaryGPU h then [''x-vga=1''] else [])
     @ (if hp_rombar h = Some False then [''rombar=0''] else [])
     @ (if hp_mdev h \<noteq> [] then [''mdev='' @ hp_mdev h] else []) @ (if hp_romfile h \<noteq> [] then [''romfile='' @ hp_romfile h] else [])"

lemma pciParts_options:
  assumes "\<forall>k \<in> {''pcie'', ''x-vga'', ''rombar'', ''mdev'', ''romfile''}. map_of m k = None"
  shows "strGet (foldl putPair m (pciParts h)) ''pcie'' = (if hp_pcie h then ''1'' else [])"
    "strGet (foldl putPair m (pciParts h)) ''x-vga'' = (if hp_primaryGPU h then ''1'' else [])"
    "strGet (foldl putPair m (pciParts h)) ''rombar'' = (if hp_rombar h = Some False then ''0'' else [])"
    "strGet (foldl putPair m (pciParts h)) ''mdev'' = hp_mdev h" "strGet (foldl putPair m (pciParts h)) ''romfile'' = hp_romfile h"
    "k \<notin> {''pcie'', ''x-vga'', ''rombar'', ''mdev'', ''romfile''} \<Longrightarrow> strGet (foldl putPair m (pciParts h)) k = strGet m k"
  using assms by (simp_all add: pciParts_def putPair_def strGet_def)

lemma contains_char: "contains s [c] \<longleftrightarrow> c \<in> set s"
  by (induction s) auto

lemma observedPci_config:
  assumes "pciPlain h"
  shows "observedPci (pciConfigString h) =
    h\<lparr>hp_device := (if hp_mapping h \<noteq> [] then [] else hp_device h), hp_rombar := Some (hp_rombar h \<noteq> Some False)\<rparr>"
proof -
  let ?hd = "if hp_mapping h \<noteq> [] then ''mapping='' @ hp_mapping h else hp_device h"
  let ?m = "if hp_mapping h \<noteq> [] then [(''mapping'', hp_mapping h)] else []"
  have "pciConfigString h = joinWith '','' (?hd # pciParts h)" by (simp add: pciConfigString_def pciParts_def)
  moreover have "\<forall>p \<in> set (?hd # pciParts h). CHR '','' \<notin> set p" using assms by (auto simp: pciPlain_def plainText_def pciParts_def)
  ultimately have c: "configParts (pciConfigString h) = (?hd, foldl putPair [] (?hd # pciParts h))"
    using configParts_join [of "?hd # pciParts h"] by simp
  have dev: "cutAt CHR ''='' (hp_device h) = None" using assms cutAt_None [of "CHR ''=''" "hp_device h"] by (simp add: pciPlain_def)
  have f: "foldl putPair [] (?hd # pciParts h) = foldl putPair ?m (pciParts h)" using dev by (simp add: putPair_def)
  have n: "\<forall>k \<in> {''pcie'', ''x-vga'', ''rombar'', ''mdev'', ''romfile''}. map_of ?m k = None" by simp
  have "strGet (foldl putPair ?m (pciParts h)) ''mapping'' = hp_mapping h" "strGet (foldl putPair ?m (pciParts h)) ''host'' = []"
    using pciParts_options(6) [OF n, of "''mapping''" h] pciParts_options(6) [OF n, of "''host''" h] by (simp_all add: strGet_def)
  moreover have "CHR ''='' \<notin> set (hp_device h)" using assms by (simp add: pciPlain_def)
  ultimately show ?thesis unfolding observedPci_def c prod.case f contains_char pciParts_options(1-5) [OF n] by simp
qed

lemma observedIp_text:
  assumes "ipConfigText ip gw = Some t" "plainText ip" "plainText gw"
  shows "observedIp t = (ip, if ip = ''dhcp'' then [] else gw)"
proof -
  let ?ps = "[''ip='' @ ip] @ (if ip \<noteq> ''dhcp'' \<and> gw \<noteq> [] then [''gw='' @ gw] else [])"
  have "t = joinWith '','' ?ps" using assms(1) by (auto simp: ipConfigText_def split: if_splits)
  moreover have "\<forall>p \<in> set ?ps. CHR '','' \<notin> set p" using assms(2,3) by (auto simp: plainText_def)
  ultimately have "configParts t = (''ip='' @ ip, foldl putPair [] ?ps)" using configParts_join [of ?ps] by simp
  then show ?thesis by (auto simp: observedIp_def putPair_def strGet_def)
qed

subsection \<open>Merging disk options\<close>

lemma mapsCopy_lookup:
  "distinct (map fst src) \<Longrightarrow> map_of (mapsCopy dst src) x = (case map_of src x of Some v \<Rightarrow> Some v | None \<Rightarrow> map_of dst x)"
proof (induction src arbitrary: dst)
  case (Cons kv src)
  obtain k v where kv: "kv = (k, v)" by fastforce
  have "map_of src k = None" using Cons.prems by (simp add: kv map_of_eq_None_iff)
  moreover have "map_of (mapsCopy (putKey dst k v) src) x = (case map_of src x of Some v \<Rightarrow> Some v | None \<Rightarrow> map_of (putKey dst k v) x)"
    using Cons.prems by (intro Cons.IH) simp
  ultimately show ?case by (simp add: mapsCopy_def kv split: option.split)
qed (simp add: mapsCopy_def)

lemma mapsCopy_distinct: "distinct (map fst dst) \<Longrightarrow> distinct (map fst (mapsCopy dst src))"
  by (induction src arbitrary: dst) (simp_all add: mapsCopy_def case_prod_unfold)

definition optionPlain :: "string \<times> string \<Rightarrow> bool" where
  "optionPlain = (\<lambda>(k, v). CHR '','' \<notin> set k \<and> CHR ''='' \<notin> set k \<and> CHR '','' \<notin> set v)"

lemma putKey_plain: "list_all optionPlain m \<Longrightarrow> optionPlain (k, v) \<Longrightarrow> list_all optionPlain (putKey m k v)"
  by (induction m k v rule: putKey.induct) auto

lemma putPair_keeps:
  assumes "list_all optionPlain m" "distinct (map fst m)" "CHR '','' \<notin> set p"
  shows "list_all optionPlain (putPair m p)" "distinct (map fst (putPair m p))"
proof -
  have "optionPlain (k, v)" if "cutAt CHR ''='' p = Some (k, v)" for k v
    using cutAt_Some [OF that] assms(3) by (auto simp: optionPlain_def)
  then show "list_all optionPlain (putPair m p)" "distinct (map fst (putPair m p))"
    using assms(1,2) putKey_plain by (auto simp: putPair_def split: option.split)
qed

lemma putPairs_keep:
  "list_all optionPlain m \<Longrightarrow> distinct (map fst m) \<Longrightarrow> \<forall>p \<in> set ps. CHR '','' \<notin> set p \<Longrightarrow>
   list_all optionPlain (foldl putPair m ps) \<and> distinct (map fst (foldl putPair m ps))"
  by (induction ps arbitrary: m) (simp_all add: putPair_keeps)

lemma splitOn_nonempty: "splitOn c s \<noteq> []"
  by (induction s) (auto split: list.split)

lemma slotOptions_plain: "list_all optionPlain (slotOptions s)" "distinct (map fst (slotOptions s))"
proof -
  have "\<forall>p \<in> set (tl (splitOn CHR '','' s)). CHR '','' \<notin> set p"
    using splitOn_parts [of _ "CHR '',''" s] list.set_sel(2) [OF splitOn_nonempty, of _ "CHR '',''" s] by blast
  then show "list_all optionPlain (slotOptions s)" "distinct (map fst (slotOptions s))"
    using putPairs_keep [of "[]"] by (simp_all add: slotOptions_def)
qed

lemma mapsCopy_plain: "list_all optionPlain dst \<Longrightarrow> list_all optionPlain src \<Longrightarrow> list_all optionPlain (mapsCopy dst src)"
proof (induction src arbitrary: dst)
  case (Cons kv src)
  obtain k v where "kv = (k, v)" by fastforce
  then show ?case using Cons putKey_plain [of dst k v] by (simp add: mapsCopy_def)
qed (simp add: mapsCopy_def)

text \<open>Printing options and reading them again.\<close>

lemma putPairs_printed:
  assumes "\<forall>k \<in> set ks. CHR ''='' \<notin> set k"
  shows "foldl putPair m (map (\<lambda>k. k @ ''='' @ f k) ks) = foldl (\<lambda>m k. putKey m k (f k)) m ks"
  using assms by (induction ks arbitrary: m) (simp_all add: putPair_kv)

lemma putKeys_lookup: "map_of (foldl (\<lambda>m k. putKey m k (f k)) m ks) x = (if x \<in> set ks then Some (f x) else map_of m x)"
  by (induction ks arbitrary: m) auto

lemma merged_split:
  assumes "list_all optionPlain ov"
  defines "merged e \<equiv> mapsCopy (slotOptions e) ov"
  shows "splitOn CHR '','' (MergeDiskOptions e ov) =
    hd (splitOn CHR '','' e) # map (\<lambda>k. k @ ''='' @ strGet (merged e) k) (sort (map fst (merged e)))"
proof -
  have p: "list_all optionPlain (merged e)" using mapsCopy_plain [OF slotOptions_plain(1) assms(1)] by (simp add: merged_def)
  have v: "CHR '','' \<notin> set (k @ ''='' @ strGet (merged e) k)" if "k \<in> fst ` set (merged e)" for k
  proof -
    have "map_of (merged e) k \<noteq> None" using that by (simp only: map_of_eq_None_iff not_not)
    then obtain y where y: "map_of (merged e) k = Some y" by (cases "map_of (merged e) k") simp_all
    then have "optionPlain (k, y)" using p map_of_SomeD [OF y] by (auto simp: list_all_iff)
    then show ?thesis using y by (simp add: optionPlain_def strGet_def)
  qed
  have "CHR '','' \<notin> set (hd (splitOn CHR '','' e))" using splitOn_parts [OF hd_in_set [OF splitOn_nonempty]] .
  then have "\<forall>s \<in> set (hd (splitOn CHR '','' e) # map (\<lambda>k. k @ ''='' @ strGet (merged e) k) (sort (map fst (merged e)))). CHR '','' \<notin> set s"
    using v by (simp only: list.set set_map set_sort ball_simps insert_iff) blast
  then show ?thesis unfolding MergeDiskOptions_def Let_def merged_def [symmetric] by (rule split_join [OF list.distinct(2)])
qed

lemma merged_options:
  assumes "list_all optionPlain ov"
  shows "map_of (slotOptions (MergeDiskOptions e ov)) x = map_of (mapsCopy (slotOptions e) ov) x"
proof -
  let ?m = "mapsCopy (slotOptions e) ov" and ?ks = "sort (map fst (mapsCopy (slotOptions e) ov))"
  have "list_all optionPlain ?m" by (rule mapsCopy_plain [OF slotOptions_plain(1) assms])
  then have "\<forall>k \<in> set ?ks. CHR ''='' \<notin> set k" by (auto simp: list_all_iff optionPlain_def)
  then have s: "slotOptions (MergeDiskOptions e ov) = foldl (\<lambda>m k. putKey m k (strGet ?m k)) [] ?ks"
    unfolding slotOptions_def [of "MergeDiskOptions e ov"] merged_split [OF assms] list.sel by (rule putPairs_printed)
  have l: "map_of (slotOptions (MergeDiskOptions e ov)) x = (if x \<in> fst ` set ?m then Some (strGet ?m x) else None)"
    unfolding s putKeys_lookup by simp
  show ?thesis
  proof (cases "map_of ?m x")
    case None
    then have "x \<notin> fst ` set ?m" by (simp only: map_of_eq_None_iff not_False_eq_True)
    then show ?thesis using None by (simp add: l)
  next
    case (Some y)
    then have "x \<in> fst ` set ?m" using map_of_SomeD [OF Some] by force
    then show ?thesis using Some by (simp add: l strGet_def)
  qed
qed

lemma merged_head: "list_all optionPlain ov \<Longrightarrow> hd (splitOn CHR '','' (MergeDiskOptions e ov)) = hd (splitOn CHR '','' e)"
  by (simp add: merged_split)

definition printOptions :: "string \<Rightarrow> strmap \<Rightarrow> string" where
  "printOptions h m = joinWith '','' (h # map (\<lambda>k. k @ ''='' @ strGet m k) (sort (map fst m)))"

lemma merge_prints: "MergeDiskOptions s ov = printOptions (hd (splitOn CHR '','' s)) (mapsCopy (slotOptions s) ov)"
  by (simp add: MergeDiskOptions_def printOptions_def Let_def)

lemma merge_again:
  assumes "list_all optionPlain ov" "distinct (map fst ov)"
  shows "MergeDiskOptions (MergeDiskOptions e ov) ov = MergeDiskOptions e ov"
proof -
  let ?m = "mapsCopy (slotOptions e) ov" and ?n = "mapsCopy (slotOptions (MergeDiskOptions e ov)) ov"
  have l: "map_of ?n x = map_of ?m x" for x
    unfolding mapsCopy_lookup [OF assms(2)] merged_options [OF assms(1)] by (simp split: option.split)
  then have eq: "map_of ?n = map_of ?m" by (rule ext)
  have d: "distinct (map fst ?n)" "distinct (map fst ?m)" by (rule mapsCopy_distinct [OF slotOptions_plain(2)])+
  have "fst ` set ?n = fst ` set ?m" using arg_cong [OF eq, of dom] by (simp only: dom_map_of_conv_image_fst)
  then have "sort (map fst ?n) = sort (map fst ?m)"
    using d by (intro sorted_distinct_set_unique) simp_all
  moreover have "strGet ?n = strGet ?m" by (rule ext) (simp add: strGet_def l)
  ultimately have "printOptions h ?n = printOptions h ?m" for h by (simp add: printOptions_def)
  then show ?thesis by (simp only: merge_prints [of "MergeDiskOptions e ov"] merged_head [OF assms(1)] merge_prints [of e, symmetric])
qed

subsection \<open>Sizes\<close>

lemma trimSpace_id: "s \<noteq> [] \<Longrightarrow> \<not> isSpaceChar (hd s) \<Longrightarrow> \<not> isSpaceChar (last s) \<Longrightarrow> trimSpace s = s"
proof -
  assume s: "s \<noteq> []" "\<not> isSpaceChar (hd s)" "\<not> isSpaceChar (last s)"
  have "dropWhile isSpaceChar s = s" using s(1,2) by (cases s) simp_all
  moreover have "dropWhile isSpaceChar (rev s) = rev s" using s(1,3) by (cases s rule: rev_cases) simp_all
  ultimately show ?thesis by (simp add: trimSpace_def)
qed

lemma digits_not_space: "c \<in> set (digits n) \<Longrightarrow> \<not> isSpaceChar c"
  using digits_digit [of c n] by (auto simp: isDigitChar_def isSpaceChar_def Let_def)

lemma digits_ends: "\<not> isSpaceChar (hd (digits n))" "\<not> isSpaceChar (last (digits n))"
  using digits_not_space [OF hd_in_set [OF digits_ne]] digits_not_space [OF last_in_set [OF digits_ne]] .

lemma trimSpace_digits: "trimSpace (digits n) = digits n"
  by (rule trimSpace_id) (simp_all add: digits_ends)

lemma atoi_digits: "int n < 2 ^ 63 \<Longrightarrow> atoi (digits n) = Some (int n)"
proof -
  assume n: "int n < 2 ^ 63"
  obtain c t where d: "digits n = c # t" by (cases "digits n") auto
  have "list_all isDigitChar (c # t)" using digits_digit [of _ n] unfolding d by (auto simp: list_all_iff)
  moreover have "numOf (c # t) = n" using numOf_digits [of n] unfolding d .
  moreover have "c \<noteq> CHR ''+''" "c \<noteq> CHR ''-''" using digits_signless [OF d] by simp_all
  ultimately show ?thesis using n unfolding d by (simp add: atoi_def)
qed

definition sizeUnits :: "(char \<times> int) list" where
  "sizeUnits = [(CHR ''K'', 2 ^ 10), (CHR ''M'', 2 ^ 20), (CHR ''G'', 2 ^ 30), (CHR ''T'', 2 ^ 40)]"

lemma parse_size_unit:
  assumes "int n < 2 ^ 63" "(c, factor) \<in> set sizeUnits"
  shows "parseProxmoxSize (digits n @ [c]) = Inr (wrap64 (int n * factor))"
proof -
  have c: "\<not> isSpaceChar c" using assms(2) by (auto simp: sizeUnits_def isSpaceChar_def)
  have "trimSpace (digits n @ [c]) = digits n @ [c]" using c by (intro trimSpace_id) (simp_all add: digits_ends)
  then show ?thesis using assms(2) atoi_digits [OF assms(1)]
    by (auto simp: parseProxmoxSize_def Let_def sizeUnits_def trimSpace_digits)
qed

subsection \<open>Growing disks\<close>

text \<open>A client that behaves as \<open>c\<close> and keeps a log of the disks it was asked to resize.\<close>

definition tracedPve :: "'w pve_client \<Rightarrow> ('w \<times> (string \<times> string) list) pve_client" where
  "tracedPve c =
     \<lparr>pv_configure = (\<lambda>n i ps (w, lg). case pv_configure c n i ps w of (r, w') \<Rightarrow> (r, (w', lg))),
      pv_raw = (\<lambda>n i (w, lg). pv_raw c n i w),
      pv_resize = (\<lambda>n i d sz (w, lg). case pv_resize c n i d sz w of (r, w') \<Rightarrow> (r, (w', lg @ [(d, sz)])))\<rparr>"

text \<open>A disk that has to grow, and one that is at its size or below it, in the configuration \<open>m\<close>.\<close>

definition grows :: "obj \<Rightarrow> disk_spec \<Rightarrow> bool" where
  "grows m d \<longleftrightarrow> dk_size d \<noteq> [] \<and>
     (case parseProxmoxSize (dk_size d) of
        Inl _ \<Rightarrow> False
      | Inr n \<Rightarrow> (case currentDiskSize (Some m) (dk_name d) of None \<Rightarrow> True | Some cur \<Rightarrow> cur < n))"

definition attainable :: "obj \<Rightarrow> disk_spec \<Rightarrow> bool" where
  "attainable m d \<longleftrightarrow> dk_size d = [] \<or>
     (case parseProxmoxSize (dk_size d) of
        Inl _ \<Rightarrow> False
      | Inr n \<Rightarrow> (case currentDiskSize (Some m) (dk_name d) of None \<Rightarrow> True | Some cur \<Rightarrow> cur \<le> n))"

definition resizedTo :: "obj \<Rightarrow> disk_spec list \<Rightarrow> err option \<Rightarrow> (string \<times> string) list \<Rightarrow> bool" where
  "resizedTo m ds r calls \<longleftrightarrow>
     (\<exists>k \<le> length ds. calls = map (\<lambda>d. (dk_name d, dk_size d)) (filter (grows m) (take k ds)) \<and>
        (r = None \<longrightarrow> k = length ds \<and> list_all (attainable m) ds))"

lemma resizedTo_stop: "\<not> grows m d \<or> calls = [(dk_name d, dk_size d)] \<Longrightarrow> calls = [] \<or> grows m d \<and> calls = [(dk_name d, dk_size d)] \<Longrightarrow>
  resizedTo m (d # ds) (Some e) calls"
  unfolding resizedTo_def by (rule exI [of _ "Suc 0"]) auto

lemma resizedTo_go:
  assumes "resizedTo m ds r calls" "attainable m d"
  shows "resizedTo m (d # ds) r ((if grows m d then [(dk_name d, dk_size d)] else []) @ calls)"
proof -
  obtain k where "k \<le> length ds" "calls = map (\<lambda>d. (dk_name d, dk_size d)) (filter (grows m) (take k ds))"
    "r = None \<longrightarrow> k = length ds \<and> list_all (attainable m) ds" using assms(1) by (auto simp: resizedTo_def)
  then show ?thesis using assms(2) unfolding resizedTo_def by (intro exI [of _ "Suc k"]) auto
qed

lemma resizeLoop_traced:
  assumes "resizeLoop (tracedPve c) vm ds (Some m) (w, lg) = (r, (w', lg'))"
  shows "resizeLoop c vm ds (Some m) w = (r, w') \<and> (\<exists>calls. lg' = lg @ calls \<and> resizedTo m ds r calls)"
  using assms
proof (induction ds arbitrary: w lg)
  case Nil
  then show ?case by (simp add: resizedTo_def)
next
  case (Cons d ds)
  let ?cur = "currentDiskSize (Some m) (dk_name d)"
  consider (none) "dk_size d = []" | (bad) e where "dk_size d \<noteq> []" "parseProxmoxSize (dk_size d) = Inl e"
    | (same) n where "dk_size d \<noteq> []" "parseProxmoxSize (dk_size d) = Inr n" "?cur = Some n"
    | (shrink) n k where "dk_size d \<noteq> []" "parseProxmoxSize (dk_size d) = Inr n" "?cur = Some k" "n < k"
    | (grow) n where "dk_size d \<noteq> []" "parseProxmoxSize (dk_size d) = Inr n" "\<forall>k. ?cur = Some k \<longrightarrow> k < n"
    by (cases "parseProxmoxSize (dk_size d)"; cases ?cur) (auto, meson linorder_cases)
  then show ?case
  proof cases
    case none
    then have t: "resizeLoop (tracedPve c) vm ds (Some m) (w, lg) = (r, (w', lg'))" using Cons.prems by simp
    have "attainable m d" "\<not> grows m d" using none by (simp_all add: attainable_def grows_def)
    then show ?thesis using Cons.IH [OF t] resizedTo_go [of m ds r _ d] none by auto
  next
    case bad
    then have "\<not> grows m d" by (simp add: grows_def)
    then show ?thesis using Cons.prems bad resizedTo_stop [of m d "[]"] by auto
  next
    case same
    then have t: "resizeLoop (tracedPve c) vm ds (Some m) (w, lg) = (r, (w', lg'))" using Cons.prems by simp
    have "attainable m d" "\<not> grows m d" using same by (simp_all add: attainable_def grows_def)
    then show ?thesis using Cons.IH [OF t] resizedTo_go [of m ds r _ d] same by auto
  next
    case shrink
    then have "\<not> grows m d" by (simp add: grows_def)
    then show ?thesis using Cons.prems shrink resizedTo_stop [of m d "[]"] by auto
  next
    case grow
    have g: "grows m d" "attainable m d" using grow by (auto simp: grows_def attainable_def less_imp_le split: option.splits)
    have cur: "?cur \<noteq> Some n" "\<not> (case ?cur of Some k \<Rightarrow> n < k | None \<Rightarrow> False)" using grow(3) by (auto split: option.splits)
    obtain q w1 where q: "pv_resize c (pm_node vm) (pm_vmid vm) (dk_name d) (dk_size d) w = (q, w1)" by fastforce
    show ?thesis
    proof (cases q)
      case None
      then have t: "resizeLoop (tracedPve c) vm ds (Some m) (w1, lg @ [(dk_name d, dk_size d)]) = (r, (w', lg'))"
        using Cons.prems grow(1,2) cur q by (simp add: tracedPve_def)
      from Cons.IH [OF t] obtain calls where "resizeLoop c vm ds (Some m) w1 = (r, w')" "lg' = lg @ (dk_name d, dk_size d) # calls" "resizedTo m ds r calls" by auto
      then show ?thesis using resizedTo_go [of m ds r calls d] g grow(1,2) cur q None by auto
    next
      case (Some e)
      then have "\<exists>e'. r = Some e'" "w' = w1" "lg' = lg @ [(dk_name d, dk_size d)]" "resizeLoop c vm (d # ds) (Some m) w = (r, w1)"
        using Cons.prems grow(1,2) cur q by (auto simp: tracedPve_def)
      then show ?thesis using resizedTo_stop [of m d "[(dk_name d, dk_size d)]"] g(1) by auto
    qed
  qed
qed

lemma resizeLoop_reads: "pv_raw c (pm_node vm) (pm_vmid vm) w = Inr (Some m) \<Longrightarrow> resizeLoop c vm ds None w = resizeLoop c vm ds (Some m) w"
  by (induction ds) (simp_all split: sum.split)

subsection \<open>Properties\<close>

text \<open>
  C32. What is written into a slot is what is observed there: for values without commas (and a network model and a device
  without equals signs, a model that is not the name of an option, and a VLAN tag within an int), the observation of a
  network returns the network with the default model filled in and a negative VLAN as none, that of a passed-through device
  returns it with the flag of its ROM bar filled in and without the device when a mapping names it, and that of an address
  returns the address and the gateway, which DHCP does not have.
\<close>
theorem slots_roundtrip:
  assumes "netPlain n" "pciPlain h" "ipConfigText ip gw = Some t" "plainText ip" "plainText gw"
  shows "observedNet (nt_name n) (netConfig n) =
      n\<lparr>nt_model := (if nt_model n = [] then ''virtio'' else nt_model n), nt_vlan := max 0 (nt_vlan n)\<rparr> \<and>
    observedPci (pciConfigString h) =
      h\<lparr>hp_device := (if hp_mapping h \<noteq> [] then [] else hp_device h), hp_rombar := Some (hp_rombar h \<noteq> Some False)\<rparr> \<and>
    observedIp t = (ip, if ip = ''dhcp'' then [] else gw)"
  using observedNet_netConfig [OF assms(1)] observedPci_config [OF assms(2)] observedIp_text [OF assms(3-5)] by simp

definition sampleNet :: net_spec where
  "sampleNet = \<lparr>nt_name = ''net0'', nt_bridge = ''vmbr0'', nt_model = [], nt_vlan = 30, nt_firewall = True, nt_mac = ''BC:24:11:00:00:01''\<rparr>"

definition samplePci :: host_pci_spec where
  "samplePci = \<lparr>hp_device = ''0000:01:00'', hp_mapping = [], hp_pcie = True, hp_primaryGPU = False, hp_rombar = Some False, hp_mdev = [], hp_romfile = []\<rparr>"

theorem slots_roundtrip_witness:
  "observedNet ''net0'' (netConfig sampleNet) = sampleNet\<lparr>nt_model := ''virtio''\<rparr> \<and> observedPci (pciConfigString samplePci) = samplePci \<and>
   observedIp ''ip=10.0.0.7/24,gw=10.0.0.1'' = (''10.0.0.7/24'', ''10.0.0.1'')"
proof -
  have n: "netPlain sampleNet" by (simp add: netPlain_def plainText_def sampleNet_def)
  have h: "pciPlain samplePci" by (simp add: pciPlain_def plainText_def samplePci_def)
  have t: "ipConfigText ''10.0.0.7/24'' ''10.0.0.1'' = Some ''ip=10.0.0.7/24,gw=10.0.0.1''" by (simp add: ipConfigText_def)
  have p: "plainText ''10.0.0.7/24''" "plainText ''10.0.0.1''" by (simp_all add: plainText_def)
  from slots_roundtrip [OF n h t p] show ?thesis by (simp add: sampleNet_def samplePci_def)
qed

text \<open>
  Merging options into the slot of a disk keeps the volume, sets the given options, keeps every other option, and is
  idempotent: setting the same options again finds the slot as it should be.
\<close>
theorem disk_options_merge:
  assumes "list_all optionPlain ov" "distinct (map fst ov)"
  shows "hd (splitOn CHR '','' (MergeDiskOptions e ov)) = hd (splitOn CHR '','' e) \<and>
    (\<forall>k. map_of (slotOptions (MergeDiskOptions e ov)) k = (case map_of ov k of Some v \<Rightarrow> Some v | None \<Rightarrow> map_of (slotOptions e) k)) \<and>
    MergeDiskOptions (MergeDiskOptions e ov) ov = MergeDiskOptions e ov"
  using merged_head [OF assms(1)] merged_options [OF assms(1)] mapsCopy_lookup [OF assms(2)] merge_again [OF assms] by simp

theorem disk_options_merge_witness:
  "map_of (slotOptions (MergeDiskOptions ''local-lvm:vm-100-disk-0,size=32G,ssd=0'' [(''ssd'', ''1'')])) ''size'' = Some ''32G'' \<and>
   map_of (slotOptions (MergeDiskOptions ''local-lvm:vm-100-disk-0,size=32G,ssd=0'' [(''ssd'', ''1'')])) ''ssd'' = Some ''1''"
proof -
  have o: "list_all optionPlain [(''ssd'', ''1'')]" "distinct (map fst [(''ssd'', ''1'')])" by (simp_all add: optionPlain_def)
  have "map_of (slotOptions ''local-lvm:vm-100-disk-0,size=32G,ssd=0'') ''size'' = Some ''32G''" by (simp add: slotOptions_def putPair_def)
  then show ?thesis using disk_options_merge [OF o, of "''local-lvm:vm-100-disk-0,size=32G,ssd=0''"] by simp
qed

text \<open>
  A size in K, M, G or T is the number times a power of two in 64-bit arithmetic: exact as long as the product fits, and
  wrapped around when it does not.
\<close>
theorem size_text_bounds:
  assumes "int n < 2 ^ 63" "(c, factor) \<in> set sizeUnits"
  shows "parseProxmoxSize (digits n @ [c]) = Inr (wrap64 (int n * factor)) \<and>
    (int n * factor < 2 ^ 63 \<longrightarrow> parseProxmoxSize (digits n @ [c]) = Inr (int n * factor))"
proof -
  have "0 \<le> int n * factor" using assms(2) by (auto simp: sizeUnits_def)
  then show ?thesis using parse_size_unit [OF assms] wrap64_id [of "int n * factor"] by simp
qed

theorem size_text_bounds_witness:
  "parseProxmoxSize (digits 32 @ ''G'') = Inr 34359738368 \<and> parseProxmoxSize (digits (2 ^ 34) @ ''G'') = Inr 0"
proof -
  have u: "(CHR ''G'', 2 ^ 30) \<in> set sizeUnits" by (simp add: sizeUnits_def)
  have "parseProxmoxSize (digits 32 @ ''G'') = Inr 34359738368" using size_text_bounds [of 32, OF _ u] by (simp add: wrap64_def)
  moreover have "parseProxmoxSize (digits (2 ^ 34) @ ''G'') = Inr 0" using size_text_bounds [of "2 ^ 34", OF _ u] by (simp add: wrap64_def)
  ultimately show ?thesis by simp
qed

text \<open>
  C31. Disks are only grown: the disks the client is asked to resize are, in order, those of a beginning of the list whose
  size is given and either exceeds the size in the configuration or cannot be compared with it.  Success means that the
  whole list was covered and that no disk of it asks for less than it has.  When every disk has the size it asks for,
  the run asks for nothing.
\<close>
theorem resize_only_grows:
  assumes "resizeDisks (tracedPve c) vm disks (w, []) = (r, (w', calls))" "pv_raw c (pm_node vm) (pm_vmid vm) w = Inr (Some m)"
  shows "resizeDisks c vm disks w = (r, w') \<and>
    (\<exists>k \<le> length disks. calls = map (\<lambda>d. (dk_name d, dk_size d)) (filter (grows m) (take k disks)) \<and>
       (r = None \<longrightarrow> k = length disks \<and> list_all (attainable m) disks)) \<and>
    (list_all (\<lambda>d. dk_size d = [] \<or> (\<exists>n. parseProxmoxSize (dk_size d) = Inr n \<and> currentDiskSize (Some m) (dk_name d) = Some n)) disks \<longrightarrow>
       r = None \<and> w' = w \<and> calls = [])"
proof -
  have raw: "pv_raw (tracedPve c) (pm_node vm) (pm_vmid vm) (w, []) = Inr (Some m)" using assms(2) by (simp add: tracedPve_def)
  have t: "resizeLoop (tracedPve c) vm disks (Some m) (w, []) = (r, (w', calls))"
    using assms(1) unfolding resizeDisks_def resizeLoop_reads [OF raw] .
  have settled: "resizeLoop (tracedPve c) vm disks (Some m) v = (None, v)"
    if "list_all (\<lambda>d. dk_size d = [] \<or> (\<exists>n. parseProxmoxSize (dk_size d) = Inr n \<and> currentDiskSize (Some m) (dk_name d) = Some n)) disks" for v
    using that by (induction disks) auto
  show ?thesis unfolding resizeDisks_def resizeLoop_reads [OF assms(2)]
    using resizeLoop_traced [OF t] settled [of "(w, [])"] t by (auto simp: resizedTo_def)
qed

text \<open>The example: a VM with a disk of 32 GiB, and a platform that keeps the sizes it was asked for.\<close>

definition sampleDisk :: "string \<Rightarrow> disk_spec" where
  "sampleDisk sz = \<lparr>dk_name = ''scsi0'', dk_storage = [], dk_size = sz, dk_ssd = False, dk_discard = False, dk_iothread = False, dk_backup = None, dk_cache = []\<rparr>"

definition samplePve :: "strmap pve_client" where
  "samplePve = \<lparr>pv_configure = (\<lambda>n i ps w. (None, w)), pv_raw = (\<lambda>n i w. Inr (Some [(''scsi0'', VStr ''local-lvm:vm-100-disk-0,size=32G'')])),
     pv_resize = (\<lambda>n i d sz w. (None, putKey w d sz))\<rparr>"

definition samplePveVM :: pve_vm where
  "samplePveVM = \<lparr>pm_name = ''dev-cp-0'', pm_node = ''pve1'', pm_vmid = 100\<rparr>"

lemma sample_sizes: "parseProxmoxSize ''32G'' = Inr 34359738368" "parseProxmoxSize ''16G'' = Inr 17179869184" "parseProxmoxSize ''64G'' = Inr 68719476736"
  by code_simp+

theorem resize_only_grows_witness:
  "snd (snd (resizeDisks (tracedPve samplePve) samplePveVM [sampleDisk ''64G'', sampleDisk ''16G''] ([], []))) = [(''scsi0'', ''64G'')] \<and>
   fst (resizeDisks (tracedPve samplePve) samplePveVM [sampleDisk ''16G''] ([], [])) \<noteq> None"
proof -
  let ?m = "[(''scsi0'', VStr ''local-lvm:vm-100-disk-0,size=32G'')]"
  have raw: "pv_raw samplePve (pm_node samplePveVM) (pm_vmid samplePveVM) [] = Inr (Some ?m)" by (simp add: samplePve_def)
  have cur: "currentDiskSize (Some ?m) ''scsi0'' = Some 34359738368"
    by (simp add: currentDiskSize_def objGet_def cutPrefix_def sample_sizes)
  have d: "dk_name (sampleDisk z) = ''scsi0''" "dk_size (sampleDisk z) = z" for z by (simp_all add: sampleDisk_def)
  have no: "\<not> attainable ?m (sampleDisk ''16G'')" "\<not> grows ?m (sampleDisk ''16G'')" by (simp_all add: attainable_def grows_def d cur sample_sizes)
  have one: "fst (resizeDisks (tracedPve samplePve) samplePveVM [sampleDisk ''16G''] ([], [])) \<noteq> None"
    using resize_only_grows [OF _ raw, of "[sampleDisk ''16G'']" "fst (resizeDisks (tracedPve samplePve) samplePveVM [sampleDisk ''16G''] ([], []))"
        "fst (snd (resizeDisks (tracedPve samplePve) samplePveVM [sampleDisk ''16G''] ([], [])))"
        "snd (snd (resizeDisks (tracedPve samplePve) samplePveVM [sampleDisk ''16G''] ([], [])))"] no(1) by auto
  have "snd (snd (resizeDisks (tracedPve samplePve) samplePveVM [sampleDisk ''64G'', sampleDisk ''16G''] ([], []))) = [(''scsi0'', ''64G'')]"
    by (simp add: resizeDisks_def tracedPve_def samplePve_def d sample_sizes cur Let_def)
  then show ?thesis using one by simp
qed

end
