(* ===== verification/Spec2Isabelle.thy ===== *)
theory Spec2Isabelle
  imports Secrets Registry DiskMirror Drain Requests ChildGraph ClusterPaths VmConfig
begin

text \<open>
  Verification of the openctl controller, the Go program that keeps the desired state of infrastructure resources in a
  database, applies it through providers, and compares it with what the providers observe.  Paths below are relative to
  src/; \<^verbatim>\<open>C/\<close> stands for internal/controller/ and \<^verbatim>\<open>K/\<close> for internal/controller/providers/k3s/.

  \<^bold>\<open>The program.\<close>  A request (gRPC or HTTP) is authenticated, authorized and turned into an \<^emph>\<open>operation\<close>, a row of the
  operation store.  The dispatcher claims pending operations, resolves references between resources and secrets,
  consults a cache keyed by a hash of the manifest, calls the provider and records the outcome; desired manifests go
  through a sink into the database and, as files, into a git working tree.  Changed files come back as operations; a
  background reconciler looks for drift and re-applies resources that opted in.  Composite providers plan child
  resources and run them through a dependency graph.  The largest of them is the provider of k3s clusters, which is
  modelled down to its state files, certificates and the commands it runs on the nodes.

  \<^bold>\<open>Shared theories.\<close>
  \<^item> \<open>Prelude\<close>: the string and path functions of the Go library, result values, wrapping integers, proof collections.
  \<^item> \<open>Values\<close>: Go errors, dynamic values, resources (pkg/protocol/resource.go).
  \<^item> \<open>Timestamps\<close>: RFC 3339 text and its order.
  \<^item> \<open>Storage\<close>: the tables of the database, one record field per table, and the release fence.
  \<^item> \<open>Markers\<close>: the traversal that references and secrets share, as the locale \<open>marker_walk\<close>, interpreted in \<open>Refs\<close> and \<open>Secrets\<close>.

  \<^bold>\<open>Desired state and operations.\<close>
  \<^item> \<open>Refs\<close>, \<open>Secrets\<close>: C/refs/refs.go and C/secrets (resolver, file, env and action providers).  Resolution reads only the
    references it reports, leaves no marker, and the file provider stays in its directory.
  \<^item> \<open>Registry\<close>: C/providers/provider.go, a provider as a record of functions over a world, with its optional capabilities.
  \<^item> \<open>Hashing\<close>: C/manifests/hash.go.  Equal keys mean equal apply input up to empty maps and collisions.
  \<^item> \<open>OpStore\<close>: C/operations/operations.go, every method.  Store calls are an inductive step relation; over all its runs
    there is at most one operation in flight per resource and the life cycle is one-way; \<open>Submit\<close> is all or nothing.
  \<^item> \<open>ManifestStore\<close>, \<open>Migration\<close>: C/manifests/store.go, source.go, migration.go, C/providerstate/store.go.  No resource is
    both managed and released; after a release nothing but an adoption brings the resource back.
  \<^item> \<open>DiskMirror\<close>, \<open>Sink\<close>: C/manifests/disk.go, migration_disk.go and the sink interface, the locale \<open>manifest_sink\<close>, interpreted for the
    bare store and for the mirror.  A file of the mirror never leaves its root.
  \<^item> \<open>GitOps\<close>: C/manifests/reconcile.go, watcher.go, prune.go, githook.go and their wiring in cmd/openctl-controller/main.go.  The mirror
    does not trigger the watcher, the start-up comparison loses nothing, pruning spares what is desired.
  \<^item> \<open>Graph\<close>, \<open>CrossOp\<close>: C/operations/graph.go, refgraph.go, crossop.go.  The locale \<open>dep_graph\<close> has the invariant of Kahn's
    algorithm and is interpreted for the executor and for the acyclicity test.  Tasks run after their dependencies, within
    the concurrency bound; an acyclic graph is completed; the test accepts exactly the acyclic graphs.
  \<^item> \<open>Dispatcher\<close>, \<open>Drain\<close>: C/operations/dispatcher.go, childop.go, childdispatch.go.  Every executed operation ends in a terminal
    status; what is persisted does not depend on secret values; an unchanged manifest is a cache hit; both ways of
    draining serve all pending operations.
  \<^item> \<open>Drift\<close>, \<open>Reconciler\<close>: C/server/drift.go, C/reconciler.  The report refines the inductive relation \<open>conforms\<close>; remediation is
    guarded and backs off.

  \<^bold>\<open>Requests.\<close>
  \<^item> \<open>Auth\<close>: C/auth, C/server/authz.go, session.go, oidc_http.go, webhook_http.go.  No sequence of logins and sweeps gives a caller a
    role that the configuration does not grant.
  \<^item> \<open>Api\<close>, \<open>MigrationApi\<close>, \<open>ChildGraph\<close>, \<open>Requests\<close>: C/server/resource.go, operation.go, migration.go.  List agrees with get; a caller below
    editor changes nothing but pending operations; a resource moves between controllers unchanged; the children graph
    is well formed.

  \<^bold>\<open>Clusters.\<close>
  \<^item> \<open>Cluster\<close>: pkg/k3s/resources/cluster.go.  Distinct node names, balanced placement, static addresses with their bounds.
  \<^item> \<open>K3sState\<close>: the state files of K/ (clusters, nodes, agents) and the certificate bundles of pkg/k3s/agent/certs/certs.go.
  \<^item> \<open>K3sPlan\<close>: K/cluster_plan.go, cluster_apply_plan.go.  The plan is complete and its references closed; the order of the tasks; a first
    apply completes; the certificate authority survives further applies.
  \<^item> \<open>K3sNodeOps\<close>: K/node_ops.go, agent_ops.go, vm_ready.go, pkg/k3s/agent/bootstrap/bootstrap.go.  Applying a node touches its own records
    only, returns, and survives a dropped connection.
  \<^item> \<open>K3sCreate\<close>: pkg/k3s/cluster/create.go, K/childops.go, ips.go and the imperative part of K/provider.go.
  \<^item> \<open>K3sUpgrade\<close>: K/cluster_upgrade.go, cluster_upgrade_wire.go, cluster_upgrade_agent.go, cluster_node_ops.go.  The upgrade is serial, servers
    first, stops at the first bad node, completes with honest agents and can be resumed.
  \<^item> \<open>K3sConverge\<close>, \<open>Convergence\<close>: K/diff.go, respec.go, respec_plan.go, countup_plan.go, k8scleanup.go, dryrun.go, provider.go.  An apply converges, the
    preview predicts its gates, the guards keep the quorum, a delete is complete.
  \<^item> \<open>ClusterPaths\<close>: the plan and the imperative path against each other.  The locales \<open>local_edit\<close> and \<open>two_edits\<close> state when
    edits of a spec commute; their interpretations are the four edits of a VM spec.

  \<^bold>\<open>Virtual machines.\<close>
  \<^item> \<open>VmConfig\<close>: parts of pkg/proxmox/resources/vm.go, vm_observation.go, pkg/proxmox/client/client.go and handler/resize.go.  What is
    written into a slot is observed there; merging options keeps the others; disks are only grown; sizes within 64 bits.

  \<^bold>\<open>Conventions.\<close>  A Go map is an association list read with \<open>map_of\<close>; where the code ranges over a map, the order of the list is
  the order of that run.  An error is a value of the type \<open>err\<close>, a fallible call returns \<open>err + 'a\<close>, a nil pointer that is
  dereferenced the error \<open>NilDeref\<close>.  State is passed explicitly: the database, the file system and the state files are
  records, and code that reaches foreign systems is a function over a type of worlds.  Each database statement and
  each system call consults an oracle that may make it fail, so a theorem about a method covers every such failure.
  The clock, random bytes and identifiers are arguments.

  \<^bold>\<open>Loops and bounds.\<close>  The executor of a graph takes a schedule, one entry per completed task, that says which task in flight
  finishes next and whether the run was canceled; its termination theorem gives a sufficient length (the number of
  tasks).  A loop that waits takes one \<open>poll\<close> per round with what the clock, the context and other actors did; it is \<open>None\<close>
  when the list ends before the code has decided, and the theorem of \<open>K3sNodeOps\<close> shows that a list with one round past
  the deadline is enough.  The drain takes one entry per claim; one more than there are pending operations is enough.
  The breadth-first walk of the children graph ends because of its depth cap.  All other loops are total functions.

  \<^bold>\<open>Not modelled.\<close>  Goroutines, timers and event loops as such (their bodies are modelled, their order is an argument);
  generated code; the transport (gRPC, HTTP, TLS, cookies); the watch, configuration, repository, schema and template
  handlers; git commands; CUE schemas and forms; the providers for Proxmox (but for the parts in \<open>VmConfig\<close>), Terraform, Vault, Infisical
  and external plugins, which call foreign systems and are parameters here; SSH sessions and the HTTP service on the nodes, likewise
  parameters; the command line and the stand-alone cluster plugin; installation scripts.
\<close>

end
